(* ===== verification/Prelude.thy ===== *)
theory Prelude
  imports Complex_Main "HOL-Library.AList"
begin

text \<open>
  Shared notions of the development.

  \<^item> \<open>exn\<close>: the exception classes the modelled code raises. An exception is a value:
    a pure function that may raise returns \<open>exn + 'a\<close>, and a method that mutates an object
    is a function \<open>('s, 'a) py\<close> from the object to the outcome and the object afterwards.
    The object is returned in both cases, because Python keeps the assignments made before
    a \<^verbatim>\<open>raise\<close>.
  \<^item> \<open>('k, 'v) pydict\<close>: a Python dict, an association list in insertion order. Assignment
    is \<open>AList.update\<close> (in place for a key that is present, appended otherwise), \<^verbatim>\<open>pop\<close> and
    \<^verbatim>\<open>del\<close> are \<open>AList.delete\<close>.
  \<^item> \<open>keeps I m\<close>: the method \<open>m\<close> keeps the invariant \<open>I\<close> on every path, raising ones
    included. Its rules are collected in \<open>keeps_rules\<close>.
  \<^item> \<open>holds P m Q E\<close>: started where \<open>P\<close> holds, the method \<open>m\<close> returns where \<open>Q\<close> holds of the
    result, or raises where \<open>E\<close> holds. Its rules are collected in \<open>holds_rules\<close>.
  \<^item> \<open>StillRunning\<close> is no exception of Python: it marks the run of a loop that was cut off after the
    number of rounds it was given (\<open>py_until\<close>). No handler of the modelled code catches it.
  \<^item> Clock readings and durations are exact rationals: the rounding of float addition is
    not modelled.
\<close>

named_theorems keeps_rules "rules showing that a method keeps an invariant"
named_theorems holds_rules "rules of the triples of methods"
named_theorems py_simps "equations of the combinators of raising code"

section \<open>Exceptions and results\<close>

datatype storage_failure =
    StorageFailed
  | StorageConfiguration
  | StorageInput
  | StorageUnavailable
  | StorageClosed
  | StorageConflict
  | StoredObjectNotFound
  | StorageCapacity
  | StorageAccess
  | StorageIO

datatype exn =
    TypeError
  | ValueError
  | RuntimeError
  | KeyError
  | IndexError
  | TimeoutError
  | FileNotFoundError
  | FileExistsError
  | PermissionError
  | AttributeError
  | StopIteration
  | OSError
  | EOFError
  | OverflowError
  | LoggingError
  | LoggingStorageError
  | LoggingStateError
  | JournalGenerationChanged
  | NotImplementedError
  | CancelledError
  | MissingConditionalDataError
  | ExecutorExited
  | HashMismatch
  | HashingCancelled
  | ArchiveError
  | DriverError
  | StillRunning
  | StorageErr storage_failure
  | ServerErr string nat

text \<open>\<^verbatim>\<open>isinstance(error, LoggingError)\<close>\<close>

definition logging_error :: "exn \<Rightarrow> bool" where
  "logging_error e = (e = LoggingError \<or> e = LoggingStorageError \<or> e = LoggingStateError
     \<or> e = JournalGenerationChanged)"

type_synonym 'a result = "exn + 'a"

fun res_bind :: "'a result \<Rightarrow> ('a \<Rightarrow> 'b result) \<Rightarrow> 'b result" where
  "res_bind (Inl e) f = Inl e"
| "res_bind (Inr x) f = f x"

definition require :: "bool \<Rightarrow> exn \<Rightarrow> unit result" where
  "require b e = (if b then Inr () else Inl e)"

text \<open>Calling a raising function on every element, stopping at the first exception.\<close>

fun res_map :: "('a \<Rightarrow> 'b result) \<Rightarrow> 'a list \<Rightarrow> 'b list result" where
  "res_map f [] = Inr []"
| "res_map f (x # xs) = res_bind (f x) (\<lambda>y. res_bind (res_map f xs) (\<lambda>ys. Inr (y # ys)))"

fun is_ok :: "'a result \<Rightarrow> bool" where
  "is_ok (Inl e) = False"
| "is_ok (Inr x) = True"

lemma res_bind_Inr [simp]:
  "res_bind r f = Inr y \<longleftrightarrow> (\<exists>x. r = Inr x \<and> f x = Inr y)"
  by (cases r) auto

lemma res_bind_cong [fundef_cong]:
  "r = r' \<Longrightarrow> (\<And>x. r' = Inr x \<Longrightarrow> f x = g x) \<Longrightarrow> res_bind r f = res_bind r' g"
  by (cases r') auto

lemma res_map_cong [fundef_cong]:
  "xs = ys \<Longrightarrow> (\<And>x. x \<in> set ys \<Longrightarrow> f x = g x) \<Longrightarrow> res_map f xs = res_map g ys"
proof (induction ys arbitrary: xs)
  case Nil
  then show ?case by simp
next
  case (Cons y ys)
  then show ?case by (auto intro!: res_bind_cong)
qed

lemma require_Inr [simp]: "require b e = Inr u \<longleftrightarrow> b"
  by (simp add: require_def)

lemma require_True [simp]: "require True e = Inr ()"
  by (simp add: require_def)

lemma require_False [simp]: "require False e = Inl e"
  by (simp add: require_def)

lemma is_ok_iff: "is_ok r \<longleftrightarrow> (\<exists>x. r = Inr x)"
  by (cases r) auto

lemma res_map_Inr_length: "res_map f xs = Inr ys \<Longrightarrow> length ys = length xs"
  by (induction xs arbitrary: ys) auto

lemma res_map_Inr_nth:
  "res_map f xs = Inr ys \<longleftrightarrow> list_all2 (\<lambda>x y. f x = Inr y) xs ys"
proof (induction xs arbitrary: ys)
  case Nil
  then show ?case by auto
next
  case (Cons x xs)
  then show ?case by (cases ys) auto
qed

lemma res_map_is_ok: "is_ok (res_map f xs) \<longleftrightarrow> (\<forall>x \<in> set xs. is_ok (f x))"
proof (induction xs)
  case Nil
  then show ?case by simp
next
  case (Cons x xs)
  then show ?case by (cases "f x"; cases "res_map f xs") auto
qed

text \<open>A raising function that undoes \<open>g\<close> on every element undoes it on the list.\<close>

lemma res_map_inverse:
  "res_map f (map g xs) = Inr xs \<longleftrightarrow> (\<forall>x \<in> set xs. f (g x) = Inr x)"
  by (induction xs) auto

section \<open>Methods: state passing with exceptions\<close>

type_synonym ('s, 'a) py = "'s \<Rightarrow> 'a result \<times> 's"

definition py_return :: "'a \<Rightarrow> ('s, 'a) py" where
  "py_return x s = (Inr x, s)"

definition py_raise :: "exn \<Rightarrow> ('s, 'a) py" where
  "py_raise e s = (Inl e, s)"

definition py_bind :: "('s, 'a) py \<Rightarrow> ('a \<Rightarrow> ('s, 'b) py) \<Rightarrow> ('s, 'b) py" where
  "py_bind m f s = (case m s of (Inl e, t) \<Rightarrow> (Inl e, t) | (Inr x, t) \<Rightarrow> f x t)"

definition py_then :: "('s, 'a) py \<Rightarrow> ('s, 'b) py \<Rightarrow> ('s, 'b) py" where
  "py_then m n = py_bind m (\<lambda>_. n)"

definition py_modify :: "('s \<Rightarrow> 's) \<Rightarrow> ('s, unit) py" where
  "py_modify f s = (Inr (), f s)"

definition py_read :: "('s \<Rightarrow> ('s, 'a) py) \<Rightarrow> ('s, 'a) py" where
  "py_read f s = f s s"

definition py_when :: "bool \<Rightarrow> ('s, unit) py \<Rightarrow> ('s, unit) py" where
  "py_when b m = (if b then m else py_return ())"

definition py_lift :: "'a result \<Rightarrow> ('s, 'a) py" where
  "py_lift r s = (r, s)"

text \<open>\<^verbatim>\<open>try: m finally: f\<close>, for a cleanup that does not raise.\<close>

definition py_finally :: "('s, 'a) py \<Rightarrow> ('s \<Rightarrow> 's) \<Rightarrow> ('s, 'a) py" where
  "py_finally m f s = (case m s of (r, t) \<Rightarrow> (r, f t))"

text \<open>\<^verbatim>\<open>for x in xs: f(x)\<close>, left by the first exception.\<close>

fun py_for :: "('a \<Rightarrow> ('s, unit) py) \<Rightarrow> 'a list \<Rightarrow> ('s, unit) py" where
  "py_for f [] = py_return ()"
| "py_for f (x # xs) = py_then (f x) (py_for f xs)"

text \<open>\<^verbatim>\<open>while True\<close>, left by a return of its body, for at most the given number of rounds.\<close>

fun py_until :: "nat \<Rightarrow> ('s, 'a option) py \<Rightarrow> ('s, 'a) py" where
  "py_until 0 m = py_raise StillRunning"
| "py_until (Suc n) m = py_bind m (\<lambda>r. case r of None \<Rightarrow> py_until n m | Some x \<Rightarrow> py_return x)"

text \<open>\<^verbatim>\<open>try: m except Exception as e: h(e)\<close>.\<close>

definition py_catch :: "('s, 'a) py \<Rightarrow> (exn \<Rightarrow> ('s, 'a) py) \<Rightarrow> ('s, 'a) py" where
  "py_catch m h s = (case m s of (Inl e, t) \<Rightarrow> h e t | (Inr x, t) \<Rightarrow> (Inr x, t))"

lemma py_run_simps [py_simps, simp]:
  "py_return x s = (Inr x, s)"
  "py_raise e s = (Inl e, s)"
  "py_modify f s = (Inr (), f s)"
  "py_lift r s = (r, s)"
  "py_when True m = m"
  "py_when False m = py_return ()"
  by (simp_all add: py_return_def py_raise_def py_modify_def py_lift_def py_when_def)

lemma py_read_run [py_simps, simp]: "py_read f s = f s s"
  by (simp add: py_read_def)

lemma py_bind_run [py_simps]:
  "py_bind m f s = (case m s of (Inl e, t) \<Rightarrow> (Inl e, t) | (Inr x, t) \<Rightarrow> f x t)"
  by (simp add: py_bind_def)

lemma py_bind_run_simps [simp]:
  "m s = (Inr x, t) \<Longrightarrow> py_bind m f s = f x t"
  "m s = (Inl e, t) \<Longrightarrow> py_bind m f s = (Inl e, t)"
  by (simp_all add: py_bind_def)

lemma py_then_run [py_simps]: "py_then m n s = py_bind m (\<lambda>_. n) s"
  by (simp add: py_then_def)

lemma py_then_run_simps [simp]:
  "m s = (Inr x, t) \<Longrightarrow> py_then m n s = n t"
  "m s = (Inl e, t) \<Longrightarrow> py_then m n s = (Inl e, t)"
  by (simp_all add: py_then_def)

lemma py_finally_run [py_simps]:
  "py_finally m f s = (fst (m s), f (snd (m s)))"
  by (simp add: py_finally_def split: prod.splits)

subsection \<open>Invariants of methods\<close>

definition keeps :: "('s \<Rightarrow> bool) \<Rightarrow> ('s, 'a) py \<Rightarrow> bool" where
  "keeps I m \<longleftrightarrow> (\<forall>s. I s \<longrightarrow> I (snd (m s)))"

lemma keepsI: "(\<And>s. I s \<Longrightarrow> I (snd (m s))) \<Longrightarrow> keeps I m"
  by (simp add: keeps_def)

lemma keepsD: "keeps I m \<Longrightarrow> I s \<Longrightarrow> m s = (r, t) \<Longrightarrow> I t"
  by (metis keeps_def snd_conv)

lemma keeps_return [keeps_rules]: "keeps I (py_return x)"
  by (simp add: keeps_def)

lemma keeps_raise [keeps_rules]: "keeps I (py_raise e)"
  by (simp add: keeps_def)

lemma keeps_lift [keeps_rules]: "keeps I (py_lift r)"
  by (simp add: keeps_def)

lemma keeps_modify [keeps_rules]: "(\<And>s. I s \<Longrightarrow> I (f s)) \<Longrightarrow> keeps I (py_modify f)"
  by (simp add: keeps_def)

lemma keeps_bind [keeps_rules]:
  "keeps I m \<Longrightarrow> (\<And>x. keeps I (f x)) \<Longrightarrow> keeps I (py_bind m f)"
  by (fastforce simp: keeps_def py_bind_def split: prod.splits sum.splits)

lemma keeps_then [keeps_rules]: "keeps I m \<Longrightarrow> keeps I n \<Longrightarrow> keeps I (py_then m n)"
  by (simp add: py_then_def keeps_bind)

lemma keeps_when [keeps_rules]: "keeps I m \<Longrightarrow> keeps I (py_when b m)"
  by (simp add: py_when_def keeps_return)

lemma keeps_if [keeps_rules]:
  "(b \<Longrightarrow> keeps I m) \<Longrightarrow> (\<not> b \<Longrightarrow> keeps I n) \<Longrightarrow> keeps I (if b then m else n)"
  by simp

lemma keeps_finally [keeps_rules]:
  "keeps I m \<Longrightarrow> (\<And>s. I s \<Longrightarrow> I (f s)) \<Longrightarrow> keeps I (py_finally m f)"
  by (simp add: keeps_def py_finally_run)

lemma keeps_read [keeps_rules]: "(\<And>s. keeps I (f s)) \<Longrightarrow> keeps I (py_read f)"
  by (simp add: keeps_def)

lemma keeps_for [keeps_rules]: "(\<And>x. keeps I (f x)) \<Longrightarrow> keeps I (py_for f xs)"
  by (induction xs) (auto intro: keeps_rules)

lemma keeps_catch [keeps_rules]:
  "keeps I m \<Longrightarrow> (\<And>e. keeps I (h e)) \<Longrightarrow> keeps I (py_catch m h)"
  by (fastforce simp: keeps_def py_catch_def split: prod.splits sum.splits)

lemma keeps_until [keeps_rules]: "keeps I m \<Longrightarrow> keeps I (py_until n m)"
  by (induction n) (auto intro!: keeps_rules split: option.split)

subsection \<open>Triples of methods\<close>

definition holds :: "('s \<Rightarrow> bool) \<Rightarrow> ('s, 'a) py \<Rightarrow> ('a \<Rightarrow> 's \<Rightarrow> bool) \<Rightarrow> ('s \<Rightarrow> bool) \<Rightarrow> bool" where
  "holds P m Q E \<longleftrightarrow> (\<forall>s. P s \<longrightarrow> (\<forall>x t. m s = (Inr x, t) \<longrightarrow> Q x t) \<and> (\<forall>e t. m s = (Inl e, t) \<longrightarrow> E t))"

lemma holdsD: "holds P m Q E \<Longrightarrow> P s \<Longrightarrow> m s = (Inr x, t) \<Longrightarrow> Q x t"
  unfolding holds_def by blast

lemma holds_raisedD: "holds P m Q E \<Longrightarrow> P s \<Longrightarrow> m s = (Inl e, t) \<Longrightarrow> E t"
  unfolding holds_def by blast

lemma holds_weaken:
  "holds P' m Q' E' \<Longrightarrow> (\<And>s. P s \<Longrightarrow> P' s) \<Longrightarrow> (\<And>x t. Q' x t \<Longrightarrow> Q x t) \<Longrightarrow> (\<And>t. E' t \<Longrightarrow> E t)
     \<Longrightarrow> holds P m Q E"
  unfolding holds_def by blast

lemma keeps_holds: "holds I m (\<lambda>x. I) I \<Longrightarrow> keeps I m"
proof (rule keepsI)
  fix s
  assume h: "holds I m (\<lambda>x. I) I" and s: "I s"
  obtain r t where m: "m s = (r, t)" by (cases "m s")
  show "I (snd (m s))"
    using holdsD [OF h s] holds_raisedD [OF h s] m by (cases r) auto
qed

lemma holds_keeps: "keeps I m \<Longrightarrow> holds I m (\<lambda>x. I) I"
proof -
  assume k: "keeps I m"
  have "(\<forall>x t. m s = (Inr x, t) \<longrightarrow> I t) \<and> (\<forall>e t. m s = (Inl e, t) \<longrightarrow> I t)" if "I s" for s
    by (intro conjI allI impI; rule keepsD [OF k that]; assumption)
  then show "holds I m (\<lambda>x. I) I" unfolding holds_def by blast
qed

lemma holds_return [holds_rules]: "(\<And>s. P s \<Longrightarrow> Q x s) \<Longrightarrow> holds P (py_return x) Q E"
  by (simp add: holds_def)

lemma holds_raise [holds_rules]: "(\<And>s. P s \<Longrightarrow> E s) \<Longrightarrow> holds P (py_raise e) Q E"
  by (simp add: holds_def)

lemma holds_lift [holds_rules]:
  "(\<And>s x. P s \<Longrightarrow> r = Inr x \<Longrightarrow> Q x s) \<Longrightarrow> (\<And>s. P s \<Longrightarrow> E s) \<Longrightarrow> holds P (py_lift r) Q E"
  by (auto simp: holds_def split: sum.splits)

lemma holds_modify [holds_rules]: "(\<And>s. P s \<Longrightarrow> Q () (f s)) \<Longrightarrow> holds P (py_modify f) Q E"
  by (simp add: holds_def)

lemma holds_bind:
  assumes "holds P m R E" "\<And>x. holds (R x) (f x) Q E"
  shows "holds P (py_bind m f) Q E"
proof -
  have "(\<forall>y u. py_bind m f s = (Inr y, u) \<longrightarrow> Q y u) \<and> (\<forall>e u. py_bind m f s = (Inl e, u) \<longrightarrow> E u)"
    if "P s" for s
  proof -
    obtain r t where m: "m s = (r, t)" by (cases "m s")
    show ?thesis
    proof (cases r)
      case (Inl e)
      then show ?thesis using m holds_raisedD [OF assms(1) that] by simp
    next
      case (Inr x)
      then have "R x t" using m holdsD [OF assms(1) that] by simp
      then show ?thesis
        using Inr m holdsD [OF assms(2)] holds_raisedD [OF assms(2)] by simp
    qed
  qed
  then show ?thesis by (simp add: holds_def)
qed

lemma holds_then: "holds P m (\<lambda>x. R) E \<Longrightarrow> holds R n Q E \<Longrightarrow> holds P (py_then m n) Q E"
  by (simp add: py_then_def holds_bind)

lemma holds_when [holds_rules]:
  "(b \<Longrightarrow> holds P m Q E) \<Longrightarrow> (\<And>s. \<not> b \<Longrightarrow> P s \<Longrightarrow> Q () s) \<Longrightarrow> holds P (py_when b m) Q E"
  by (auto simp: holds_def py_when_def)

lemma holds_if [holds_rules]:
  "(b \<Longrightarrow> holds P m Q E) \<Longrightarrow> (\<not> b \<Longrightarrow> holds P n Q E) \<Longrightarrow> holds P (if b then m else n) Q E"
  by simp

lemma holds_read [holds_rules]:
  "(\<And>r. holds (\<lambda>s. P s \<and> s = r) (f r) Q E) \<Longrightarrow> holds P (py_read f) Q E"
  by (simp add: holds_def)

lemma holds_finally:
  "holds P m (\<lambda>x t. Q x (f t)) (\<lambda>t. E (f t)) \<Longrightarrow> holds P (py_finally m f) Q E"
  unfolding holds_def py_finally_def by (simp split: prod.splits)

lemma holds_catch:
  assumes "holds P m Q R" "\<And>e. holds R (h e) Q E"
  shows "holds P (py_catch m h) Q E"
proof -
  have "(\<forall>y u. py_catch m h s = (Inr y, u) \<longrightarrow> Q y u) \<and> (\<forall>e u. py_catch m h s = (Inl e, u) \<longrightarrow> E u)"
    if "P s" for s
  proof -
    obtain r t where m: "m s = (r, t)" by (cases "m s")
    show ?thesis
    proof (cases r)
      case (Inl e)
      then have "R t" using m holds_raisedD [OF assms(1) that] by simp
      then show ?thesis
        using Inl m holdsD [OF assms(2)] holds_raisedD [OF assms(2)] by (simp add: py_catch_def)
    next
      case (Inr x)
      then show ?thesis using m holdsD [OF assms(1) that] by (simp add: py_catch_def)
    qed
  qed
  then show ?thesis by (simp add: holds_def)
qed

lemma holds_until:
  assumes "holds I m (\<lambda>r s. case r of None \<Rightarrow> I s | Some x \<Rightarrow> Q x s) E" "\<And>s. I s \<Longrightarrow> E s"
  shows "holds I (py_until n m) Q E"
proof (induction n)
  case 0
  show ?case using assms(2) by (simp add: holds_def)
next
  case (Suc n)
  have "holds (\<lambda>s. case r of None \<Rightarrow> I s | Some x \<Rightarrow> Q x s)
      (case r of None \<Rightarrow> py_until n m | Some x \<Rightarrow> py_return x) Q E" for r
    using Suc.IH by (cases r) (simp_all add: holds_return)
  then show ?case using assms(1) by (simp add: holds_bind [where R = "\<lambda>r s. case r of None \<Rightarrow> I s | Some x \<Rightarrow> Q x s"])
qed

section \<open>Options\<close>

definition optional :: "('a \<Rightarrow> bool) \<Rightarrow> 'a option \<Rightarrow> bool" where
  "optional P x = (case x of None \<Rightarrow> True | Some y \<Rightarrow> P y)"

lemma optional_simps [simp]: "optional P None" "optional P (Some x) = P x"
  by (simp_all add: optional_def)

section \<open>Dictionaries\<close>

type_synonym ('k, 'v) pydict = "('k \<times> 'v) list"

abbreviation keys :: "('k, 'v) pydict \<Rightarrow> 'k list" where
  "keys d \<equiv> map fst d"

abbreviation dict_values :: "('k, 'v) pydict \<Rightarrow> 'v list" where
  "dict_values d \<equiv> map snd d"

definition has_key :: "('k, 'v) pydict \<Rightarrow> 'k \<Rightarrow> bool" where
  "has_key d k \<longleftrightarrow> map_of d k \<noteq> None"

definition dict_get :: "('k, 'v) pydict \<Rightarrow> 'k \<Rightarrow> 'v \<Rightarrow> 'v" where
  "dict_get d k v = (case map_of d k of None \<Rightarrow> v | Some w \<Rightarrow> w)"

definition dict_item :: "('k, 'v) pydict \<Rightarrow> 'k \<Rightarrow> 'v result" where
  "dict_item d k = (case map_of d k of None \<Rightarrow> Inl KeyError | Some v \<Rightarrow> Inr v)"

lemma has_key_iff: "has_key d k \<longleftrightarrow> k \<in> set (keys d)"
  by (simp add: has_key_def map_of_eq_None_iff)

lemma has_key_update [simp]: "has_key (AList.update k v d) j \<longleftrightarrow> j = k \<or> has_key d j"
  by (simp add: has_key_def update_conv')

lemma has_key_delete [simp]: "has_key (AList.delete k d) j \<longleftrightarrow> j \<noteq> k \<and> has_key d j"
  by (simp add: has_key_def delete_conv')

lemma map_of_update [simp]: "map_of (AList.update k v d) = (map_of d)(k \<mapsto> v)"
  by (simp add: update_conv')

lemma map_of_delete [simp]: "map_of (AList.delete k d) = (map_of d)(k := None)"
  by (simp add: delete_conv')

lemma keys_update: "keys (AList.update k v d) = (if k \<in> set (keys d) then keys d else keys d @ [k])"
  by (induction d) auto

lemma keys_delete: "keys (AList.delete k d) = filter (\<lambda>j. j \<noteq> k) (keys d)"
  by (induction d) (auto simp: AList.delete_eq)

lemma distinct_keys_update [simp]:
  "distinct (keys (AList.update k v d)) \<longleftrightarrow> distinct (keys d)"
  by (auto simp: keys_update)

lemma distinct_keys_delete [simp]:
  "distinct (keys d) \<Longrightarrow> distinct (keys (AList.delete k d))"
  by (simp add: keys_delete)

text \<open>Removing every key of a list, as a loop of \<^verbatim>\<open>d.pop(key, None)\<close> does.\<close>

definition pop_all :: "'k list \<Rightarrow> ('k, 'v) pydict \<Rightarrow> ('k, 'v) pydict" where
  "pop_all ks d = fold AList.delete ks d"

lemma map_of_pop_all: "map_of (pop_all ks d) k = (if k \<in> set ks then None else map_of d k)"
  unfolding pop_all_def by (induction ks arbitrary: d) auto

lemma keys_pop_all: "keys (pop_all ks d) = filter (\<lambda>j. j \<notin> set ks) (keys d)"
  unfolding pop_all_def
  by (induction ks arbitrary: d) (auto simp: keys_delete intro: filter_cong)

lemma pop_all_subset: "set (pop_all ks d) \<subseteq> set d"
  unfolding pop_all_def
proof (induction ks arbitrary: d)
  case (Cons k ks)
  have "set (fold AList.delete ks (AList.delete k d)) \<subseteq> set (AList.delete k d)"
    by (rule Cons.IH)
  also have "\<dots> \<subseteq> set d"
    by (auto simp: AList.delete_eq)
  finally show ?case by simp
qed simp

end
