(* ===== verification/Json_Values.thy ===== *)
theory Json_Values
  imports Prelude
begin

text \<open>
  Model of \<^verbatim>\<open>core/primitives/json_values.py\<close> and of the scalar constraints of
  \<^verbatim>\<open>core/models/values.py\<close>.

  \<open>pyobj\<close> is the Python value a caller hands in: the exact built-in types the code tests with
  \<^verbatim>\<open>type(x) is ...\<close>, and \<open>POther\<close> for every other object (instances of subclasses of
  \<^verbatim>\<open>str\<close>, \<^verbatim>\<open>int\<close>, \<^verbatim>\<open>list\<close> and \<^verbatim>\<open>dict\<close> other than \<^verbatim>\<open>bool\<close> are left aside). \<open>json\<close> is what
  \<^verbatim>\<open>copy_json_object\<close> returns: a value with string keys and finite numbers only.

  A string is a list of characters, each a code point below 256, so no string holds a
  surrogate and the UTF-8 encoding never fails. A finite float is its rational value; the two
  float zeros are identified. \<^verbatim>\<open>json.dumps\<close> followed by \<^verbatim>\<open>json.loads\<close> returns the value itself,
  except that CPython refuses to print an integer of more than 4300 digits.
\<close>

section \<open>Python values and JSON values\<close>

datatype pyfloat = Fin rat | PosInf | NegInf | NaN

datatype pyobj =
    PNone
  | PBool bool
  | PInt int
  | PFloat pyfloat
  | PStr string
  | PList "pyobj list"
  | PDict "(pyobj \<times> pyobj) list"
  | POther

datatype json =
    JNull
  | JBool bool
  | JInt int
  | JFloat rat
  | JStr string
  | JArr "json list"
  | JObj "(string \<times> json) list"

type_synonym json_object = "(string \<times> json) list"

fun embed :: "json \<Rightarrow> pyobj" where
  "embed JNull = PNone"
| "embed (JBool b) = PBool b"
| "embed (JInt n) = PInt n"
| "embed (JFloat q) = PFloat (Fin q)"
| "embed (JStr s) = PStr s"
| "embed (JArr xs) = PList (map embed xs)"
| "embed (JObj d) = PDict (map (\<lambda>(k, v). (PStr k, embed v)) d)"

section \<open>Text and numbers\<close>

text \<open>The characters \<^verbatim>\<open>str.strip\<close> removes, among the code points below 256.\<close>

definition is_space :: "char \<Rightarrow> bool" where
  "is_space c = (let n = (of_char c :: nat) in
     9 \<le> n \<and> n \<le> 13 \<or> 28 \<le> n \<and> n \<le> 32 \<or> n = 133 \<or> n = 160)"

definition strip_chars :: "(char \<Rightarrow> bool) \<Rightarrow> string \<Rightarrow> string" where
  "strip_chars p s = rev (dropWhile p (rev (dropWhile p s)))"

definition py_strip :: "string \<Rightarrow> string" where
  "py_strip s = strip_chars is_space s"

definition null_char :: char where
  "null_char = CHR 0x00"

fun require_text :: "pyobj \<Rightarrow> string result" where
  "require_text (PStr s) =
     (if py_strip s = [] \<or> null_char \<in> set s then Inl ValueError else Inr s)"
| "require_text _ = Inl TypeError"

fun float_negative :: "pyfloat \<Rightarrow> bool" where
  "float_negative (Fin q) = (q < 0)"
| "float_negative NegInf = True"
| "float_negative _ = False"

fun float_finite :: "pyfloat \<Rightarrow> bool" where
  "float_finite (Fin q) = True"
| "float_finite _ = False"

fun require_number :: "pyobj \<Rightarrow> pyobj result" where
  "require_number (PBool b) = Inl TypeError"
| "require_number (PInt n) = (if n < 0 then Inl ValueError else Inr (PInt n))"
| "require_number (PFloat f) =
     (if float_negative f \<or> \<not> float_finite f then Inl ValueError else Inr (PFloat f))"
| "require_number _ = Inl TypeError"

section \<open>Validation and detachment\<close>

fun is_str :: "pyobj \<Rightarrow> bool" where
  "is_str (PStr s) = True"
| "is_str _ = False"

text \<open>
  \<^verbatim>\<open>_validate_json(value, depth)\<close>. The loops over items and elements stop at the first
  exception; the depth limit of 32 bounds the recursion.
\<close>

function validate_json :: "nat \<Rightarrow> pyobj \<Rightarrow> unit result" where
  "validate_json depth PNone = (if 32 < depth then Inl ValueError else Inr ())"
| "validate_json depth (PBool b) = (if 32 < depth then Inl ValueError else Inr ())"
| "validate_json depth (PInt n) = (if 32 < depth then Inl ValueError else Inr ())"
| "validate_json depth (PStr s) = (if 32 < depth then Inl ValueError else Inr ())"
| "validate_json depth (PFloat f) =
     (if 32 < depth then Inl ValueError
      else if \<not> float_finite f then Inl ValueError else Inr ())"
| "validate_json depth (PDict items) =
     (if 32 < depth then Inl ValueError
      else res_bind
        (res_map (\<lambda>(key, item). res_bind (require (is_str key) TypeError)
                                  (\<lambda>_. validate_json (Suc depth) item)) items)
        (\<lambda>_. Inr ()))"
| "validate_json depth (PList items) =
     (if 32 < depth then Inl ValueError
      else res_bind (res_map (validate_json (Suc depth)) items) (\<lambda>_. Inr ()))"
| "validate_json depth POther = (if 32 < depth then Inl ValueError else Inl TypeError)"
  by pat_completeness auto
termination
  by (relation "measure (\<lambda>(depth, v). 33 - depth)") auto

text \<open>Printing an integer fails above 4300 digits (\<^verbatim>\<open>sys.int_info.default_max_str_digits\<close>).\<close>

definition int_printable :: "int \<Rightarrow> bool" where
  "int_printable n = (\<bar>n\<bar> < 10 ^ 4300)"

text \<open>\<^verbatim>\<open>json.loads(json.dumps(value, allow_nan=False))\<close>.\<close>

fun dumps_loads :: "pyobj \<Rightarrow> json result" where
  "dumps_loads PNone = Inr JNull"
| "dumps_loads (PBool b) = Inr (JBool b)"
| "dumps_loads (PInt n) = (if int_printable n then Inr (JInt n) else Inl ValueError)"
| "dumps_loads (PFloat (Fin q)) = Inr (JFloat q)"
| "dumps_loads (PFloat _) = Inl ValueError"
| "dumps_loads (PStr s) = Inr (JStr s)"
| "dumps_loads (PList xs) = res_bind (res_map dumps_loads xs) (\<lambda>ys. Inr (JArr ys))"
| "dumps_loads (PDict items) =
     res_bind
       (res_map (\<lambda>(key, item). case key of
                    PStr k \<Rightarrow> res_bind (dumps_loads item) (\<lambda>j. Inr (k, j))
                  | _ \<Rightarrow> Inl TypeError) items)
       (\<lambda>d. Inr (JObj d))"
| "dumps_loads POther = Inl TypeError"

definition copy_json_object :: "pyobj \<Rightarrow> json_object result" where
  "copy_json_object v =
     (case v of
        PDict items \<Rightarrow>
          res_bind (validate_json 0 v)
            (\<lambda>_. res_bind (dumps_loads v)
               (\<lambda>j. case j of JObj d \<Rightarrow> Inr d | _ \<Rightarrow> Inl TypeError))
      | _ \<Rightarrow> Inl TypeError)"

definition type_match_nonempty :: "pyobj \<Rightarrow> (pyobj \<Rightarrow> bool) \<Rightarrow> bool" where
  "type_match_nonempty val isinstance =
     (if \<not> isinstance val then False
      else case val of PStr s \<Rightarrow> py_strip s \<noteq> [] | _ \<Rightarrow> True)"

section \<open>What is accepted\<close>

text \<open>The reference notions: nesting depth of a JSON value, and its integers' size.\<close>

fun json_height :: "json \<Rightarrow> nat" where
  "json_height (JArr xs) = fold max (map (\<lambda>x. Suc (json_height x)) xs) 0"
| "json_height (JObj d) = fold max (map (\<lambda>(k, v). Suc (json_height v)) d) 0"
| "json_height _ = 0"

fun json_printable :: "json \<Rightarrow> bool" where
  "json_printable (JInt n) = int_printable n"
| "json_printable (JArr xs) = list_all json_printable xs"
| "json_printable (JObj d) = list_all (\<lambda>(k, v). json_printable v) d"
| "json_printable _ = True"

lemma fold_max_le: "fold max xs m \<le> (n :: nat) \<longleftrightarrow> m \<le> n \<and> (\<forall>x \<in> set xs. x \<le> n)"
  by (induction xs arbitrary: m) auto

lemma int_printable_small [simp]: "\<bar>n\<bar> < 10 ^ 18 \<Longrightarrow> int_printable n"
proof -
  assume "\<bar>n\<bar> < 10 ^ 18"
  also have "(10 :: int) ^ 18 \<le> 10 ^ 4300"
    by (rule power_increasing) simp_all
  finally show ?thesis unfolding int_printable_def .
qed

lemma dumps_loads_embed: "dumps_loads (embed j) = Inr j \<longleftrightarrow> json_printable j"
proof (induction j)
  case (JArr xs)
  then show ?case by (simp add: res_map_inverse list_all_iff)
next
  case (JObj d)
  let ?e = "\<lambda>(k, v). (PStr k, embed v)"
  let ?f = "\<lambda>(key, item). case key of
     PStr k \<Rightarrow> res_bind (dumps_loads item) (\<lambda>j. Inr (k, j)) | _ \<Rightarrow> Inl TypeError"
  have item: "?f (?e p) = Inr p \<longleftrightarrow> json_printable (snd p)" if "p \<in> set d" for p
    using JObj [of p "snd p"] that by (cases p) simp
  have "dumps_loads (embed (JObj d)) = Inr (JObj d) \<longleftrightarrow> res_map ?f (map ?e d) = Inr d"
    by simp
  also have "\<dots> \<longleftrightarrow> (\<forall>p \<in> set d. ?f (?e p) = Inr p)"
    by (rule res_map_inverse)
  also have "\<dots> \<longleftrightarrow> (\<forall>p \<in> set d. json_printable (snd p))"
    by (rule ball_cong [OF refl item])
  finally show ?case by (simp add: list_all_iff case_prod_beta)
qed auto

lemma dumps_loads_Inr: "dumps_loads v = Inr j \<Longrightarrow> v = embed j"
proof (induction v arbitrary: j)
  case (PFloat f)
  then show ?case by (cases f) auto
next
  case (PInt n)
  then show ?case by (auto split: if_splits)
next
  case (PList xs)
  then obtain ys where ys: "res_map dumps_loads xs = Inr ys" "j = JArr ys" by auto
  then have "list_all2 (\<lambda>x y. x = embed y) xs ys"
    using PList.IH
    by (auto simp: res_map_Inr_nth list_all2_conv_all_nth)
  then show ?case
    using ys by (auto simp: list_all2_conv_all_nth intro: nth_equalityI)
next
  case (PDict items)
  let ?f = "\<lambda>(key, item). case key of
     PStr k \<Rightarrow> res_bind (dumps_loads item) (\<lambda>j. Inr (k, j)) | _ \<Rightarrow> Inl TypeError"
  from PDict.prems obtain d where d: "res_map ?f items = Inr d" "j = JObj d" by auto
  have step: "x = (PStr (fst y), embed (snd y))" if "x \<in> set items" "?f x = Inr y" for x y
    using that PDict.IH(2) [of x "snd x"] by (auto split: pyobj.splits prod.splits)
  have "list_all2 (\<lambda>x y. x = (PStr (fst y), embed (snd y))) items d"
    using d(1) step unfolding res_map_Inr_nth list_all2_conv_all_nth by (metis nth_mem)
  then show ?case
    using d(2) by (auto simp: list_all2_conv_all_nth case_prod_beta intro: nth_equalityI)
qed auto

lemma validate_json_embed:
  "is_ok (validate_json depth (embed j)) \<longleftrightarrow> depth + json_height j \<le> 32"
proof (induction j arbitrary: depth)
  case (JArr xs)
  have "is_ok (validate_json depth (embed (JArr xs))) \<longleftrightarrow>
      depth \<le> 32 \<and> (\<forall>x \<in> set xs. is_ok (validate_json (Suc depth) (embed x)))"
    using res_map_is_ok [of "validate_json (Suc depth)" "map embed xs"]
    by (cases "res_map (validate_json (Suc depth)) (map embed xs)") auto
  also have "\<dots> \<longleftrightarrow> depth \<le> 32 \<and> (\<forall>x \<in> set xs. Suc depth + json_height x \<le> 32)"
    using JArr.IH by simp
  also have "\<dots> \<longleftrightarrow> depth + json_height (JArr xs) \<le> 32"
    using fold_max_le [of "map (\<lambda>x. Suc (json_height x)) xs" 0 "32 - depth"] by auto
  finally show ?case .
next
  case (JObj d)
  let ?g = "\<lambda>(key, item). res_bind (require (is_str key) TypeError)
                            (\<lambda>_. validate_json (Suc depth) item)"
  let ?e = "\<lambda>(k, v). (PStr k, embed v)"
  have "is_ok (validate_json depth (embed (JObj d))) \<longleftrightarrow>
      depth \<le> 32 \<and> (\<forall>p \<in> set d. is_ok (validate_json (Suc depth) (embed (snd p))))"
    using res_map_is_ok [of ?g "map ?e d"]
    by (cases "res_map ?g (map ?e d)") (auto simp: case_prod_beta)
  also have "\<dots> \<longleftrightarrow> depth \<le> 32 \<and> (\<forall>p \<in> set d. Suc depth + json_height (snd p) \<le> 32)"
    using JObj.IH by (metis snds.intros)
  also have "\<dots> \<longleftrightarrow> depth + json_height (JObj d) \<le> 32"
    using fold_max_le [of "map (\<lambda>(k, v). Suc (json_height v)) d" 0 "32 - depth"]
    by (auto simp: case_prod_beta)
  finally show ?case .
qed auto

lemma copy_json_object_iff:
  "copy_json_object v = Inr d \<longleftrightarrow>
     v = embed (JObj d) \<and> json_height (JObj d) \<le> 32 \<and> json_printable (JObj d)"
proof
  assume ok: "copy_json_object v = Inr d"
  then obtain j where vj: "validate_json 0 v = Inr ()" and j: "dumps_loads v = Inr j"
    "(case j of JObj d \<Rightarrow> Inr d | _ \<Rightarrow> Inl TypeError) = Inr d"
    by (auto simp: copy_json_object_def simp del: dumps_loads.simps validate_json.simps
        split: pyobj.splits)
  then have dl: "dumps_loads v = Inr (JObj d)"
    by (cases j) auto
  from dl have v: "v = embed (JObj d)" by (rule dumps_loads_Inr)
  have "json_height (JObj d) \<le> 32"
    using vj validate_json_embed [of 0 "JObj d"] v by (metis add_0 is_ok.simps(2))
  moreover have "json_printable (JObj d)"
    using dl dumps_loads_embed v by metis
  ultimately show "v = embed (JObj d) \<and> json_height (JObj d) \<le> 32 \<and> json_printable (JObj d)"
    using v by blast
next
  assume r: "v = embed (JObj d) \<and> json_height (JObj d) \<le> 32 \<and> json_printable (JObj d)"
  then have "dumps_loads v = Inr (JObj d)" using dumps_loads_embed by metis
  moreover have "validate_json 0 v = Inr ()"
    using r validate_json_embed [of 0 "JObj d"] by (auto simp: is_ok_iff)
  ultimately show "copy_json_object v = Inr d"
    using r by (auto simp: copy_json_object_def)
qed

end
