(* ===== verification/Identifiers.thy ===== *)
theory Identifiers
  imports Json_Values
begin

text \<open>
  The identifier fields of the models: \<^verbatim>\<open>UUIDText\<close> and \<^verbatim>\<open>NormalizedUUIDText\<close> of
  \<^verbatim>\<open>core/models/values.py\<close>, with the standard library's \<^verbatim>\<open>uuid.UUID(text)\<close> and
  \<^verbatim>\<open>str(uuid)\<close> they call.

  \<^verbatim>\<open>UUID(text)\<close> removes \<^verbatim>\<open>urn:\<close>, \<^verbatim>\<open>uuid:\<close>, outer braces and dashes, wants 32 characters and
  hands them to \<^verbatim>\<open>int(hex, 16)\<close>, whose own liberties (a sign, a \<^verbatim>\<open>0x\<close> prefix, single
  underscores, outer white space) are modelled. The main result is that normalisation is
  idempotent: the text a validated model holds is accepted again and returned unchanged.
\<close>

section \<open>String operations of the standard library\<close>

text \<open>\<^verbatim>\<open>s.replace(p, "")\<close> for a nonempty \<open>p\<close>.\<close>

function remove_sub :: "string \<Rightarrow> string \<Rightarrow> string" where
  "remove_sub p s =
     (case s of
        [] \<Rightarrow> []
      | c # cs \<Rightarrow>
          if p \<noteq> [] \<and> take (length p) s = p then remove_sub p (drop (length p) s)
          else c # remove_sub p cs)"
  by pat_completeness auto
termination
  by (relation "measure (\<lambda>(p, s). length s)") auto

declare remove_sub.simps [simp del]

lemma remove_sub_Nil [simp]: "remove_sub p [] = []"
  by (simp add: remove_sub.simps)

lemma remove_sub_absent:
  assumes "p \<noteq> []" and "hd p \<notin> set s"
  shows "remove_sub p s = s"
  using assms(2)
proof (induction s)
  case (Cons c cs)
  have "take (length p) (c # cs) \<noteq> p"
    using assms(1) Cons.prems by (cases p) auto
  then show ?case
    using Cons by (simp add: remove_sub.simps [of p "c # cs"])
qed simp

lemma remove_sub_single: "remove_sub [c] s = filter (\<lambda>x. x \<noteq> c) s"
  by (induction s) (simp_all add: remove_sub.simps [of "[c]" "_ # _"])

lemma strip_chars_absent: "(\<And>c. c \<in> set s \<Longrightarrow> \<not> p c) \<Longrightarrow> strip_chars p s = s"
proof -
  assume "\<And>c. c \<in> set s \<Longrightarrow> \<not> p c"
  then have "dropWhile p s = s" "dropWhile p (rev s) = rev s"
    using hd_in_set [of s] last_in_set [of s]
    by (auto simp: dropWhile_eq_self_iff hd_rev)
  then show ?thesis by (simp add: strip_chars_def)
qed

section \<open>Hexadecimal numbers\<close>

definition hex_val :: "char \<Rightarrow> nat option" where
  "hex_val c = (let n = of_char c in
     if 48 \<le> n \<and> n \<le> 57 then Some (n - 48)
     else if 65 \<le> n \<and> n \<le> 70 then Some (n - 55)
     else if 97 \<le> n \<and> n \<le> 102 then Some (n - 87)
     else None)"

definition hex_char :: "nat \<Rightarrow> char" where
  "hex_char d = ''0123456789abcdef'' ! d"

text \<open>
  The digit loop of \<^verbatim>\<open>int(s, 16)\<close>: the flag says that an underscore may not follow, at the
  start or after another one.
\<close>

fun int_digits :: "nat \<Rightarrow> bool \<Rightarrow> string \<Rightarrow> nat option" where
  "int_digits acc fresh [] = (if fresh then None else Some acc)"
| "int_digits acc fresh (c # cs) =
     (if c = CHR ''_'' then (if fresh then None else int_digits acc True cs)
      else case hex_val c of
             None \<Rightarrow> None
           | Some d \<Rightarrow> int_digits (16 * acc + d) False cs)"

definition is_int_space :: "char \<Rightarrow> bool" where
  "is_int_space c = (let n = (of_char c :: nat) in
     9 \<le> n \<and> n \<le> 13 \<or> n = 32 \<or> n = 133 \<or> n = 160)"

fun drop_hex_prefix :: "string \<Rightarrow> string" where
  "drop_hex_prefix (a # b # cs) =
     (if a = CHR ''0'' \<and> (b = CHR ''x'' \<or> b = CHR ''X'')
      then (case cs of c # ds \<Rightarrow> if c = CHR ''_'' then ds else cs | [] \<Rightarrow> cs)
      else a # b # cs)"
| "drop_hex_prefix cs = cs"

definition parse_int16 :: "string \<Rightarrow> int option" where
  "parse_int16 s =
     (let t = strip_chars is_int_space s;
          negative = (t \<noteq> [] \<and> hd t = CHR ''-'');
          body = (if t \<noteq> [] \<and> (hd t = CHR ''-'' \<or> hd t = CHR ''+'') then tl t else t)
      in map_option (\<lambda>n. if negative then - int n else int n)
           (int_digits 0 True (drop_hex_prefix body)))"

fun to_hex :: "nat \<Rightarrow> nat \<Rightarrow> string" where
  "to_hex 0 n = []"
| "to_hex (Suc k) n = to_hex k (n div 16) @ [hex_char (n mod 16)]"

section \<open>UUIDs\<close>

definition uuid_limit :: nat where
  "uuid_limit = 2 ^ 128"

definition uuid_int :: "string \<Rightarrow> nat result" where
  "uuid_int text =
     (let h = remove_sub ''uuid:'' (remove_sub ''urn:'' text);
          h = remove_sub ''-'' (strip_chars (\<lambda>c. c = CHR ''{'' \<or> c = CHR ''}'') h)
      in if length h \<noteq> 32 then Inl ValueError
         else case parse_int16 h of
                None \<Rightarrow> Inl ValueError
              | Some n \<Rightarrow> if 0 \<le> n \<and> n < int uuid_limit then Inr (nat n) else Inl ValueError)"

definition dashed :: "string \<Rightarrow> string" where
  "dashed h = take 8 h @ CHR ''-'' # take 4 (drop 8 h) @ CHR ''-'' # take 4 (drop 12 h)
     @ CHR ''-'' # take 4 (drop 16 h) @ CHR ''-'' # drop 20 h"

definition uuid_str :: "nat \<Rightarrow> string" where
  "uuid_str n = dashed (to_hex 32 n)"

definition uuid_text :: "pyobj \<Rightarrow> string result" where
  "uuid_text value =
     res_bind (require_text value) (\<lambda>text. res_bind (uuid_int text) (\<lambda>_. Inr text))"

definition normalized_uuid :: "pyobj \<Rightarrow> string result" where
  "normalized_uuid value =
     res_bind (uuid_text value) (\<lambda>text. res_bind (uuid_int text) (\<lambda>n. Inr (uuid_str n)))"

section \<open>Printing and reading back\<close>

abbreviation "lower_hex \<equiv> ''0123456789abcdef''"

lemma hex_char_in: "d < 16 \<Longrightarrow> hex_char d \<in> set lower_hex"
  unfolding hex_char_def by (rule nth_mem) simp

lemma hex_val_char: "d < 16 \<Longrightarrow> hex_val (hex_char d) = Some d"
proof -
  have "\<forall>d \<in> set [0..<16]. hex_val (hex_char d) = Some d"
    by code_simp
  then show "d < 16 \<Longrightarrow> hex_val (hex_char d) = Some d" by simp
qed

lemma length_to_hex [simp]: "length (to_hex k n) = k"
  by (induction k arbitrary: n) auto

lemma set_to_hex: "set (to_hex k n) \<subseteq> set lower_hex"
proof (induction k arbitrary: n)
  case (Suc k)
  then show ?case using hex_char_in [of "n mod 16"] by auto
qed simp

lemma int_digits_to_hex:
  "n < 16 ^ k \<Longrightarrow>
     int_digits acc fresh (to_hex k n @ rest) = int_digits (acc * 16 ^ k + n) (fresh \<and> k = 0) rest"
proof (induction k arbitrary: n rest)
  case (Suc k)
  have "n div 16 < 16 ^ k" using Suc.prems by (simp add: less_mult_imp_div_less)
  moreover have "hex_char (n mod 16) \<noteq> CHR ''_''"
    using hex_char_in [of "n mod 16"] by auto
  ultimately show ?case
    using Suc.IH [of "n div 16" "hex_char (n mod 16) # rest"]
    by (simp add: hex_val_char algebra_simps)
qed simp

lemma lower_hex_plain:
  assumes "c \<in> set lower_hex"
  shows "\<not> is_int_space c" "\<not> is_space c" "c \<noteq> CHR ''-''" "c \<noteq> CHR ''+''" "c \<noteq> CHR ''x''"
    "c \<noteq> CHR ''X''" "c \<noteq> CHR ''u''" "c \<noteq> CHR ''{''" "c \<noteq> CHR ''}''" "c \<noteq> null_char"
  using assms by (auto simp: is_int_space_def is_space_def null_char_def)

lemma parse_int16_to_hex: "n < 16 ^ 32 \<Longrightarrow> parse_int16 (to_hex 32 n) = Some (int n)"
proof -
  assume n: "n < 16 ^ 32"
  let ?h = "to_hex 32 n"
  have hex: "c \<in> set lower_hex" if "c \<in> set ?h" for c
    using that set_to_hex [of 32 n] by blast
  have ne: "?h \<noteq> []" by (metis length_to_hex list.size(3) zero_neq_numeral)
  have hd: "hd ?h \<noteq> CHR ''-''" "hd ?h \<noteq> CHR ''+''"
    using lower_hex_plain(3,4) [OF hex [OF hd_in_set [OF ne]]] by auto
  obtain a b cs where abc: "?h = a # b # cs"
    by (metis (no_types) length_to_hex length_0_conv length_Suc_conv numeral_eq_Suc pred_numeral_simps(2))
  have "b \<in> set lower_hex" using hex abc by auto
  then have "drop_hex_prefix ?h = ?h"
    using lower_hex_plain(5,6) [of b] by (auto simp: abc)
  moreover have "strip_chars is_int_space ?h = ?h"
    by (rule strip_chars_absent) (metis hex lower_hex_plain(1))
  moreover have "int_digits 0 True ?h = Some n"
    using int_digits_to_hex [OF n, of 0 True "[]"] by simp
  ultimately show ?thesis using hd by (simp add: parse_int16_def Let_def)
qed

lemma set_dashed: "set (dashed h) \<subseteq> insert (CHR ''-'') (set h)"
  unfolding dashed_def by (auto dest: in_set_takeD in_set_dropD)

lemma undash: "CHR ''-'' \<notin> set h \<Longrightarrow> length h = 32 \<Longrightarrow> remove_sub ''-'' (dashed h) = h"
proof -
  assume h: "CHR ''-'' \<notin> set h" "length h = 32"
  have keep: "filter (\<lambda>x. x \<noteq> CHR ''-'') xs = xs" if "set xs \<subseteq> set h" for xs
    using that h(1) by (auto simp: filter_id_conv)
  have sub: "set (take i (drop j h)) \<subseteq> set h" "set (take i h) \<subseteq> set h" "set (drop j h) \<subseteq> set h"
    for i j
    by (auto dest: in_set_takeD in_set_dropD)
  have "take 8 h @ take 4 (drop 8 h) @ take 4 (drop 12 h) @ take 4 (drop 16 h) @ drop 20 h = h"
    using append_take_drop_id [of 4 "drop 16 h"] append_take_drop_id [of 4 "drop 12 h"]
      append_take_drop_id [of 4 "drop 8 h"] append_take_drop_id [of 8 h]
    by (simp add: drop_drop)
  then show ?thesis
    by (simp add: remove_sub_single dashed_def keep sub)
qed

lemma uuid_str_plain: "c \<in> set (uuid_str n) \<Longrightarrow> c = CHR ''-'' \<or> c \<in> set lower_hex"
  unfolding uuid_str_def using set_dashed [of "to_hex 32 n"] set_to_hex [of 32 n] by blast

lemma length_uuid_str: "length (uuid_str n) = 36"
  by (simp add: uuid_str_def dashed_def)

lemma uuid_int_str: "n < uuid_limit \<Longrightarrow> uuid_int (uuid_str n) = Inr n"
proof -
  assume n: "n < uuid_limit"
  then have n16: "n < 16 ^ 32" by (simp add: uuid_limit_def)
  let ?u = "uuid_str n"
  have u: "CHR ''u'' \<notin> set ?u" "CHR ''{'' \<notin> set ?u" "CHR ''}'' \<notin> set ?u"
    using uuid_str_plain [of _ n] lower_hex_plain by fastforce+
  have "CHR ''-'' \<notin> set (to_hex 32 n)"
    using set_to_hex [of 32 n] lower_hex_plain(3) by blast
  then have "remove_sub ''-'' ?u = to_hex 32 n"
    unfolding uuid_str_def by (rule undash) simp
  moreover have "remove_sub ''urn:'' ?u = ?u" "remove_sub ''uuid:'' ?u = ?u"
    using u(1) by (auto intro: remove_sub_absent)
  moreover have "strip_chars (\<lambda>c. c = CHR ''{'' \<or> c = CHR ''}'') ?u = ?u"
    using u(2,3) by (intro strip_chars_absent) auto
  ultimately show ?thesis
    using n parse_int16_to_hex [OF n16] by (simp add: uuid_int_def Let_def)
qed

lemma uuid_int_bound: "uuid_int s = Inr n \<Longrightarrow> n < uuid_limit"
  by (auto simp: uuid_int_def Let_def nat_less_iff split: if_splits option.splits)

lemma require_text_uuid_str: "require_text (PStr (uuid_str n)) = Inr (uuid_str n)"
proof -
  have "\<not> is_space c" "c \<noteq> null_char" if "c \<in> set (uuid_str n)" for c
    using uuid_str_plain [OF that] lower_hex_plain(2,10) [of c]
    by (elim disjE; simp add: is_space_def null_char_def)+
  then have "py_strip (uuid_str n) = uuid_str n" "null_char \<notin> set (uuid_str n)"
    by (auto simp: py_strip_def intro: strip_chars_absent)
  moreover have "uuid_str n \<noteq> []"
    by (metis length_uuid_str list.size(3) zero_neq_numeral)
  ultimately show ?thesis by simp
qed

lemma normalized_uuid_str: "n < uuid_limit \<Longrightarrow> normalized_uuid (PStr (uuid_str n)) = Inr (uuid_str n)"
  by (simp add: normalized_uuid_def uuid_text_def require_text_uuid_str uuid_int_str
      del: require_text.simps)

lemma normalized_uuid_form:
  "normalized_uuid v = Inr t \<Longrightarrow> \<exists>n < uuid_limit. t = uuid_str n"
  by (auto simp: normalized_uuid_def dest: uuid_int_bound)

lemma normalized_uuid_again: "normalized_uuid v = Inr t \<Longrightarrow> normalized_uuid (PStr t) = Inr t"
  using normalized_uuid_form normalized_uuid_str by blast

end
