(* ===== verification/Boundary_Models.thy ===== *)
theory Boundary_Models
  imports Identifiers
begin

text \<open>
  The Pydantic vocabulary the models of \<^verbatim>\<open>core/models\<close> are written in, for JSON input.

  A field validator is a function \<open>json \<Rightarrow> 'a result\<close>. All fields of a model are validated
  even after one has failed: a \<^verbatim>\<open>ValueError\<close> is collected and reported at the end as a
  validation error (itself a \<^verbatim>\<open>ValueError\<close>), while any other exception, such as the
  \<^verbatim>\<open>TypeError\<close> of \<^verbatim>\<open>require_text\<close>, leaves at once. \<open>v_ap\<close> combines fields this way.

  The locale \<open>codec\<close> is the contract between a model and its document form
  (\<^verbatim>\<open>model_validate\<close> and \<^verbatim>\<open>model_dump(exclude_unset=True)\<close>): a dumped model is accepted again
  and gives the same model, and dumping adds neither depth nor oversized integers. Every model
  of the development interprets it.
\<close>

section \<open>Collecting validators\<close>

fun join_failures :: "exn \<Rightarrow> exn \<Rightarrow> exn" where
  "join_failures ValueError e = e"
| "join_failures MissingConditionalDataError e = e"
| "join_failures e _ = e"

fun v_ap :: "('a \<Rightarrow> 'b) result \<Rightarrow> 'a result \<Rightarrow> 'b result" where
  "v_ap (Inr f) (Inr x) = Inr (f x)"
| "v_ap (Inr f) (Inl e) = Inl e"
| "v_ap (Inl e) (Inr x) = Inl e"
| "v_ap (Inl e) (Inl e') = Inl (join_failures e e')"

fun v_map :: "('a \<Rightarrow> 'b result) \<Rightarrow> 'a list \<Rightarrow> 'b list result" where
  "v_map f [] = Inr []"
| "v_map f (x # xs) = v_ap (v_ap (Inr (#)) (f x)) (v_map f xs)"

definition field :: "json_object \<Rightarrow> string \<Rightarrow> (json \<Rightarrow> 'a result) \<Rightarrow> 'a result" where
  "field d k f = (case map_of d k of None \<Rightarrow> Inl ValueError | Some j \<Rightarrow> f j)"

definition opt_field :: "json_object \<Rightarrow> string \<Rightarrow> (json \<Rightarrow> 'a result) \<Rightarrow> 'a option result" where
  "opt_field d k f =
     (case map_of d k of None \<Rightarrow> Inr None | Some j \<Rightarrow> res_bind (f j) (\<lambda>x. Inr (Some x)))"

text \<open>\<^verbatim>\<open>extra="forbid"\<close>.\<close>

definition no_extra :: "json_object \<Rightarrow> string list \<Rightarrow> unit result" where
  "no_extra d allowed = require (list_all (\<lambda>k. List.member allowed k) (keys d)) ValueError"

lemma v_ap_Inr [simp]: "v_ap f x = Inr y \<longleftrightarrow> (\<exists>g a. f = Inr g \<and> x = Inr a \<and> y = g a)"
  by (cases "(f, x)" rule: v_ap.cases) auto

lemma v_map_Inr: "v_map f xs = Inr ys \<longleftrightarrow> list_all2 (\<lambda>x y. f x = Inr y) xs ys"
proof (induction xs arbitrary: ys)
  case Nil
  then show ?case by auto
next
  case (Cons x xs)
  then show ?case by (cases ys) auto
qed

lemma field_Inr [simp]: "field d k f = Inr x \<longleftrightarrow> (\<exists>j. map_of d k = Some j \<and> f j = Inr x)"
  by (simp add: field_def split: option.splits)

lemma opt_field_Inr:
  "opt_field d k f = Inr r \<longleftrightarrow>
     (map_of d k = None \<and> r = None \<or> (\<exists>j x. map_of d k = Some j \<and> f j = Inr x \<and> r = Some x))"
  by (auto simp: opt_field_def split: option.splits)

lemma no_extra_Inr [simp]: "no_extra d allowed = Inr u \<longleftrightarrow> set (keys d) \<subseteq> set allowed"
  by (auto simp: no_extra_def list_all_iff)

section \<open>Depth and size of documents\<close>

lemma json_height_JObj_le:
  "json_height (JObj d) \<le> n \<longleftrightarrow> (\<forall>(k, v) \<in> set d. Suc (json_height v) \<le> n)"
  by (auto simp: fold_max_le)

lemma json_height_JArr_le:
  "json_height (JArr xs) \<le> n \<longleftrightarrow> (\<forall>x \<in> set xs. Suc (json_height x) \<le> n)"
  by (auto simp: fold_max_le)

lemma json_height_field: "map_of d k = Some j \<Longrightarrow> Suc (json_height j) \<le> json_height (JObj d)"
  using json_height_JObj_le [of d "json_height (JObj d)"] by (auto dest!: map_of_SomeD)

lemma json_height_element: "x \<in> set xs \<Longrightarrow> Suc (json_height x) \<le> json_height (JArr xs)"
  using json_height_JArr_le [of xs "json_height (JArr xs)"] by auto

lemma json_printable_field: "json_printable (JObj d) \<Longrightarrow> map_of d k = Some j \<Longrightarrow> json_printable j"
  by (auto simp: list_all_iff dest!: map_of_SomeD)

definition tame :: "json \<Rightarrow> json \<Rightarrow> bool" where
  "tame out inp \<longleftrightarrow> json_height out \<le> json_height inp \<and> (json_printable inp \<longrightarrow> json_printable out)"

lemma tame_refl [simp]: "tame j j"
  by (simp add: tame_def)

text \<open>
  Building an object from a given one: each field of the result comes from a field of the
  source, or is a scalar.
\<close>

definition from_field :: "json_object \<Rightarrow> json \<Rightarrow> bool" where
  "from_field d out \<longleftrightarrow> (\<exists>k j. map_of d k = Some j \<and> tame out j)"

lemma from_fieldI: "map_of d k = Some j \<Longrightarrow> tame out j \<Longrightarrow> from_field d out"
  unfolding from_field_def by blast

lemma tame_JObj: "(\<And>k v. (k, v) \<in> set out \<Longrightarrow> from_field d v) \<Longrightarrow> tame (JObj out) (JObj d)"
proof -
  assume out: "\<And>k v. (k, v) \<in> set out \<Longrightarrow> from_field d v"
  have "Suc (json_height v) \<le> json_height (JObj d)" if "(k, v) \<in> set out" for k v
  proof -
    from out [OF that] obtain k' j where "map_of d k' = Some j" "json_height v \<le> json_height j"
      unfolding from_field_def tame_def by blast
    then show ?thesis using json_height_field [of d k' j] by linarith
  qed
  moreover have "json_printable v" if "(k, v) \<in> set out" "json_printable (JObj d)" for k v
    using out [OF that(1)] json_printable_field [OF that(2)]
    unfolding from_field_def tame_def by blast
  ultimately show ?thesis
    unfolding tame_def json_height_JObj_le by (auto simp: list_all_iff)
qed

section \<open>The contract of a model\<close>

locale codec =
  fixes parse :: "json \<Rightarrow> 'a result"
    and dump :: "'a \<Rightarrow> json"
  assumes reparse: "parse j = Inr x \<Longrightarrow> parse (dump x) = Inr x"
    and tame_dump: "parse j = Inr x \<Longrightarrow> tame (dump x) j"
begin

lemma dump_inj: "parse i = Inr x \<Longrightarrow> parse j = Inr y \<Longrightarrow> dump x = dump y \<Longrightarrow> x = y"
  using reparse by (metis sum.inject(2))

lemma parse_dump_parse: "res_bind (parse j) (\<lambda>x. parse (dump x)) = parse j"
  by (cases "parse j") (auto dest: reparse)

lemma v_map_reparse: "v_map parse js = Inr xs \<Longrightarrow> v_map parse (map dump xs) = Inr xs"
  using reparse by (auto simp: v_map_Inr list_all2_conv_all_nth)

lemma v_map_tame:
  assumes "v_map parse js = Inr xs"
  shows "tame (JArr (map dump xs)) (JArr js)"
proof -
  have len: "length xs = length js" and nth: "\<And>i. i < length js \<Longrightarrow> tame (dump (xs ! i)) (js ! i)"
    using assms tame_dump by (auto simp: v_map_Inr list_all2_conv_all_nth)
  have "Suc (json_height (dump x)) \<le> json_height (JArr js)" if "x \<in> set xs" for x
  proof -
    from that obtain i where i: "i < length js" "x = xs ! i"
      using len by (metis in_set_conv_nth)
    then have "Suc (json_height (js ! i)) \<le> json_height (JArr js)"
      by (intro json_height_element) simp
    moreover have "json_height (dump x) \<le> json_height (js ! i)"
      using nth [OF i(1)] i(2) unfolding tame_def by blast
    ultimately show ?thesis by linarith
  qed
  moreover have "json_printable (dump x)" if "x \<in> set xs" "json_printable (JArr js)" for x
    using that len nth unfolding tame_def
    by (auto simp: list_all_length in_set_conv_nth)
  ultimately show ?thesis
    unfolding tame_def json_height_JArr_le by (auto simp: list_all_iff)
qed

end

text \<open>A model whose document is never null can be made optional with \<^verbatim>\<open>X | None\<close>.\<close>

locale object_codec = codec +
  assumes dump_not_null: "parse j = Inr x \<Longrightarrow> dump x \<noteq> JNull"

fun nullable :: "(json \<Rightarrow> 'a result) \<Rightarrow> json \<Rightarrow> 'a option result" where
  "nullable f JNull = Inr None"
| "nullable f j = res_bind (f j) (\<lambda>x. Inr (Some x))"

fun dump_nullable :: "('a \<Rightarrow> json) \<Rightarrow> 'a option \<Rightarrow> json" where
  "dump_nullable g None = JNull"
| "dump_nullable g (Some x) = g x"

lemma nullable_not_null: "j \<noteq> JNull \<Longrightarrow> nullable f j = res_bind (f j) (\<lambda>x. Inr (Some x))"
  by (cases j) auto

lemma nullable_Inr:
  "nullable f j = Inr r \<longleftrightarrow>
     (if j = JNull then r = None else \<exists>x. f j = Inr x \<and> r = Some x)"
  by (cases j) auto

context object_codec begin

lemma nullable_reparse: "nullable parse j = Inr r \<Longrightarrow> nullable parse (dump_nullable dump r) = Inr r"
  by (auto simp: nullable_Inr dump_not_null reparse split: if_splits)

lemma nullable_tame: "nullable parse j = Inr r \<Longrightarrow> tame (dump_nullable dump r) j"
  by (auto simp: nullable_Inr tame_dump split: if_splits)

end

fun list_of :: "(json \<Rightarrow> 'a result) \<Rightarrow> json \<Rightarrow> 'a list result" where
  "list_of f (JArr xs) = v_map f xs"
| "list_of f _ = Inl ValueError"

definition dump_list :: "('a \<Rightarrow> json) \<Rightarrow> 'a list \<Rightarrow> json" where
  "dump_list g xs = JArr (map g xs)"

lemma list_of_Inr: "list_of f j = Inr ys \<longleftrightarrow> (\<exists>xs. j = JArr xs \<and> v_map f xs = Inr ys)"
  by (cases j) auto

context codec begin

lemma list_of_reparse: "list_of parse j = Inr xs \<Longrightarrow> list_of parse (dump_list dump xs) = Inr xs"
  by (auto simp: list_of_Inr dump_list_def v_map_reparse)

lemma list_of_tame: "list_of parse j = Inr xs \<Longrightarrow> tame (dump_list dump xs) j"
  by (auto simp: list_of_Inr dump_list_def v_map_tame)

end

section \<open>Scalar fields\<close>

datatype number = NInt int | NFloat rat

fun json_of_number :: "number \<Rightarrow> json" where
  "json_of_number (NInt n) = JInt n"
| "json_of_number (NFloat q) = JFloat q"

fun number_value :: "number \<Rightarrow> rat" where
  "number_value (NInt n) = of_int n"
| "number_value (NFloat q) = q"

definition text_value :: "json \<Rightarrow> string result" where
  "text_value j = require_text (embed j)"

definition number_field :: "json \<Rightarrow> number result" where
  "number_field j =
     res_bind (require_number (embed j))
       (\<lambda>v. case v of PInt n \<Rightarrow> Inr (NInt n) | PFloat (Fin q) \<Rightarrow> Inr (NFloat q) | _ \<Rightarrow> Inl ValueError)"

definition positive_number :: "json \<Rightarrow> number result" where
  "positive_number j =
     res_bind (number_field j) (\<lambda>n. if 0 < number_value n then Inr n else Inl ValueError)"

text \<open>A strict integer with a lower bound: booleans and floats are refused.\<close>

fun int_from :: "int \<Rightarrow> json \<Rightarrow> int result" where
  "int_from lo (JInt n) = (if lo \<le> n then Inr n else Inl ValueError)"
| "int_from lo _ = Inl ValueError"

fun int_exactly :: "int \<Rightarrow> json \<Rightarrow> int result" where
  "int_exactly m (JInt n) = (if n = m then Inr n else Inl ValueError)"
| "int_exactly m _ = Inl ValueError"

fun boolean_value :: "json \<Rightarrow> bool result" where
  "boolean_value (JBool b) = Inr b"
| "boolean_value _ = Inl TypeError"

text \<open>\<^verbatim>\<open>Literal[...]\<close>, the strings paired with the values they stand for.\<close>

fun literal_value :: "(string \<times> 'a) list \<Rightarrow> json \<Rightarrow> 'a result" where
  "literal_value table (JStr s) =
     (case map_of table s of None \<Rightarrow> Inl ValueError | Some x \<Rightarrow> Inr x)"
| "literal_value table _ = Inl ValueError"

definition id_field :: "json \<Rightarrow> string result" where
  "id_field j =
     res_bind (require_text (embed j))
       (\<lambda>text. res_bind (uuid_int text) (\<lambda>n. Inr (uuid_str n)))"

definition object_value :: "json \<Rightarrow> json_object result" where
  "object_value j = copy_json_object (embed j)"

lemma text_value_Inr:
  "text_value j = Inr s \<longleftrightarrow> j = JStr s \<and> py_strip s \<noteq> [] \<and> null_char \<notin> set s"
  by (cases j) (auto simp: text_value_def)

lemma number_field_Inr:
  "number_field j = Inr n \<longleftrightarrow> j = json_of_number n \<and> 0 \<le> number_value n"
  by (cases j; cases n) (auto simp: number_field_def)

lemma positive_number_Inr:
  "positive_number j = Inr n \<longleftrightarrow> j = json_of_number n \<and> 0 < number_value n"
  by (auto simp: positive_number_def number_field_Inr split: if_splits)

lemma int_from_Inr: "int_from lo j = Inr n \<longleftrightarrow> j = JInt n \<and> lo \<le> n"
  by (cases j) auto

lemma int_exactly_Inr: "int_exactly m j = Inr n \<longleftrightarrow> j = JInt n \<and> n = m"
  by (cases j) auto

lemma boolean_value_Inr: "boolean_value j = Inr b \<longleftrightarrow> j = JBool b"
  by (cases j) auto

lemma literal_value_Inr:
  "literal_value table j = Inr x \<longleftrightarrow> (\<exists>s. j = JStr s \<and> map_of table s = Some x)"
  by (cases j) (auto split: option.splits)

lemma embed_inj [simp]: "embed i = embed j \<longleftrightarrow> i = j"
proof (induction i arbitrary: j)
  case (JArr xs)
  then show ?case
    by (cases j) (auto simp: inj_on_def dest!: map_inj_on intro!: nth_equalityI
        simp: list_eq_iff_nth_eq)
next
  case (JObj d)
  show ?case
  proof (cases j)
    case (JObj e)
    have "d = e" if eq: "map (\<lambda>(k, v). (PStr k, embed v)) d = map (\<lambda>(k, v). (PStr k, embed v)) e"
    proof (rule nth_equalityI)
      show len: "length d = length e" using eq by (metis length_map)
      fix i assume i: "i < length d"
      then have "(PStr (fst (d ! i)), embed (snd (d ! i))) = (PStr (fst (e ! i)), embed (snd (e ! i)))"
        using arg_cong [OF eq, of "\<lambda>l. l ! i"] len by (simp add: case_prod_beta)
      then show "d ! i = e ! i"
        using JObj.IH [of "d ! i" "snd (d ! i)" "snd (e ! i)"] i
        by (auto simp: prod_eq_iff prod_set_defs)
    qed
    then show ?thesis using JObj by auto
  qed auto
next
  case JNull
  show ?case by (cases j) auto
next
  case (JBool b)
  show ?case by (cases j) auto
next
  case (JInt n)
  show ?case by (cases j) auto
next
  case (JFloat q)
  show ?case by (cases j) auto
next
  case (JStr s)
  show ?case by (cases j) auto
qed

lemma object_value_Inr:
  "object_value j = Inr d \<longleftrightarrow> j = JObj d \<and> json_height (JObj d) \<le> 32 \<and> json_printable (JObj d)"
  unfolding object_value_def copy_json_object_iff embed_inj by simp

lemma id_field_form: "id_field j = Inr s \<Longrightarrow> \<exists>n < uuid_limit. s = uuid_str n"
  by (auto simp: id_field_def dest: uuid_int_bound)

lemma id_field_again: "id_field j = Inr s \<Longrightarrow> id_field (JStr s) = Inr s"
proof -
  assume "id_field j = Inr s"
  then obtain n where n: "n < uuid_limit" and s: "s = uuid_str n"
    using id_field_form by blast
  show ?thesis
    unfolding id_field_def s embed.simps require_text_uuid_str
    by (simp add: uuid_int_str [OF n])
qed

lemma id_field_JStr: "id_field j = Inr s \<Longrightarrow> \<exists>t. j = JStr t"
  by (cases j) (auto simp: id_field_def)

lemma json_of_number_not_null [simp]: "json_of_number n \<noteq> JNull"
  by (cases n) auto

interpretation text_codec: object_codec text_value JStr
  by unfold_locales (auto simp: text_value_Inr)

interpretation number_codec: object_codec number_field json_of_number
  by unfold_locales (auto simp: number_field_Inr)

interpretation positive_codec: object_codec positive_number json_of_number
  by unfold_locales (auto simp: positive_number_Inr)

interpretation boolean_codec: object_codec boolean_value JBool
  by unfold_locales (auto simp: boolean_value_Inr)

interpretation id_field_codec: object_codec id_field JStr
  by unfold_locales (auto simp: id_field_again tame_def dest: id_field_JStr)

interpretation object_value_codec: object_codec object_value JObj
  by unfold_locales (auto simp: object_value_Inr simp del: json_height.simps json_printable.simps)

end
