(* ===== verification/Template.thy ===== *)
theory Template
  imports Boundary_Models
begin

text \<open>
  Model of \<^verbatim>\<open>core/models/experiment_template.py\<close>: the definitions of an experiment's DAG
  nodes, services, resources and policies, parsed from a JSON document.

  One record per Pydantic model. A field that may be omitted and is then left out by
  \<^verbatim>\<open>model_dump(exclude_unset=True)\<close> is an option, \<open>None\<close> for omitted; the accessors
  \<open>node_snapshot_after\<close> and so on supply the default. \<^verbatim>\<open>parse_...\<close> is \<^verbatim>\<open>model_validate\<close> and
  \<^verbatim>\<open>dump_...\<close> is \<^verbatim>\<open>model_dump(exclude_unset=True)\<close>; each pair interprets \<open>object_codec\<close>.

  The input is a JSON document: retaining already validated submodels that a caller mixes into
  the document (\<^verbatim>\<open>detach_document\<close>) is not modelled. Paths are POSIX paths, for which the
  drive and root check of a resource path never fails.
\<close>

section \<open>Enumerations\<close>

datatype exhausted_action = OnExhaustedStop | OnExhaustedPause | OnExhaustedSkip
datatype command_timeout_action = TimeoutPause | TimeoutRestart | TimeoutStop
datatype unknown_action = UnknownStop | UnknownPause | UnknownRerun | UnknownSkip
datatype limit_action = LimitStop | LimitPause
datatype snapshot_mode = SnapshotsOff | AfterStage | AfterEpoch

definition exhausted_names :: "(string \<times> exhausted_action) list" where
  "exhausted_names = [(''stop'', OnExhaustedStop), (''pause'', OnExhaustedPause),
     (''skip'', OnExhaustedSkip)]"

definition command_timeout_names :: "(string \<times> command_timeout_action) list" where
  "command_timeout_names = [(''pause'', TimeoutPause), (''restart'', TimeoutRestart),
     (''stop'', TimeoutStop)]"

definition unknown_names :: "(string \<times> unknown_action) list" where
  "unknown_names = [(''stop'', UnknownStop), (''pause'', UnknownPause),
     (''rerun'', UnknownRerun), (''skip'', UnknownSkip)]"

definition limit_names :: "(string \<times> limit_action) list" where
  "limit_names = [(''stop'', LimitStop), (''pause'', LimitPause)]"

definition snapshot_mode_names :: "(string \<times> snapshot_mode) list" where
  "snapshot_mode_names = [(''off'', SnapshotsOff), (''after_stage'', AfterStage),
     (''after_epoch'', AfterEpoch)]"

text \<open>The string of an enumeration value: the first name paired with it.\<close>

definition name_in :: "(string \<times> 'a) list \<Rightarrow> 'a \<Rightarrow> json" where
  "name_in table x = (case find (\<lambda>(s, y). y = x) table of None \<Rightarrow> JNull | Some (s, y) \<Rightarrow> JStr s)"

definition names_ok :: "(string \<times> 'a) list \<Rightarrow> bool" where
  "names_ok table \<longleftrightarrow> list_all (\<lambda>(s, x). literal_value table (name_in table x) = Inr x) table"

lemma literal_codec: "names_ok table \<Longrightarrow> object_codec (literal_value table) (name_in table)"
proof
  fix j x
  assume ok: "names_ok table" and p: "literal_value table j = Inr x"
  then obtain s where j: "j = JStr s" and s: "(s, x) \<in> set table"
    by (auto simp: literal_value_Inr dest: map_of_SomeD)
  show re: "literal_value table (name_in table x) = Inr x"
    using ok s by (auto simp: names_ok_def list_all_iff)
  then obtain s' where s': "name_in table x = JStr s'" by (auto simp: literal_value_Inr)
  show "tame (name_in table x) j" using s' j by (simp add: tame_def)
  show "name_in table x \<noteq> JNull" using s' by simp
qed

interpretation exhausted_codec: object_codec "literal_value exhausted_names" "name_in exhausted_names"
  by (rule literal_codec) code_simp

interpretation command_timeout_codec:
  object_codec "literal_value command_timeout_names" "name_in command_timeout_names"
  by (rule literal_codec) code_simp

interpretation unknown_codec: object_codec "literal_value unknown_names" "name_in unknown_names"
  by (rule literal_codec) code_simp

interpretation limit_codec: object_codec "literal_value limit_names" "name_in limit_names"
  by (rule literal_codec) code_simp

interpretation snapshot_mode_codec:
  object_codec "literal_value snapshot_mode_names" "name_in snapshot_mode_names"
  by (rule literal_codec) code_simp

section \<open>Safe components and hashes\<close>

definition unsafe_component_chars :: string where
  "unsafe_component_chars = [CHR ''/'', CHR 0x5C, CHR '':'', CHR ''*'', CHR ''?'', CHR 0x22,
     CHR ''<'', CHR ''>'', CHR ''|'']"

definition safe_component :: "string \<Rightarrow> bool" where
  "safe_component s \<longleftrightarrow> s \<noteq> ''.'' \<and> s \<noteq> ''..'' \<and>
     list_all (\<lambda>c. \<not> List.member unsafe_component_chars c) s"

text \<open>\<^verbatim>\<open>ModuleReference.normalize_component\<close>: strip, then check.\<close>

definition component_text :: "json \<Rightarrow> string result" where
  "component_text j =
     res_bind (text_value j)
       (\<lambda>s. let v = py_strip s in if safe_component v then Inr v else Inl ValueError)"

definition resource_name :: "json \<Rightarrow> string result" where
  "resource_name j =
     res_bind (text_value j) (\<lambda>s. if safe_component s then Inr s else Inl ValueError)"

text \<open>\<^verbatim>\<open>_validate_module_hash\<close>: exactly 64 hexadecimal characters.\<close>

fun module_hash :: "json \<Rightarrow> string result" where
  "module_hash (JStr s) =
     (if length s \<noteq> 64 \<or> \<not> list_all (\<lambda>c. hex_val c \<noteq> None) s then Inl ValueError else Inr s)"
| "module_hash _ = Inl TypeError"

lemma module_hash_Inr:
  "module_hash j = Inr s \<longleftrightarrow> j = JStr s \<and> length s = 64 \<and> list_all (\<lambda>c. hex_val c \<noteq> None) s"
  by (cases j) auto

lemma set_py_strip: "set (py_strip s) \<subseteq> set s"
  unfolding py_strip_def strip_chars_def by (auto dest!: set_dropWhileD)

lemma py_strip_idem [simp]: "py_strip (py_strip s) = py_strip s"
proof -
  let ?t = "dropWhile is_space s"
  let ?u = "rev (dropWhile is_space (rev ?t))"
  have last: "?u = [] \<or> \<not> is_space (last ?u)"
    using hd_dropWhile [of is_space "rev ?t"] by (auto simp: last_rev)
  have first: "?u = [] \<or> \<not> is_space (hd ?u)"
  proof (cases "?u = []")
    case False
    obtain r where t: "?t = ?u @ r"
      by (metis rev_append rev_rev_ident takeWhile_dropWhile_id)
    have "hd ?t = hd ?u" using hd_append2 [OF False, of r] t by argo
    moreover have "?t \<noteq> []" using False by (metis dropWhile.simps(1) rev.simps(1))
    ultimately show ?thesis using hd_dropWhile [of is_space s] by argo
  qed simp
  have "dropWhile is_space ?u = ?u" "dropWhile is_space (rev ?u) = rev ?u"
    using first last by (auto simp: dropWhile_eq_self_iff hd_rev)
  then show ?thesis by (simp add: py_strip_def strip_chars_def)
qed

lemma component_text_Inr:
  "component_text j = Inr v \<longleftrightarrow>
     (\<exists>s. text_value j = Inr s \<and> v = py_strip s \<and> safe_component v)"
  by (auto simp: component_text_def Let_def split: if_splits)

interpretation component_codec: object_codec component_text JStr
proof
  fix j v
  assume "component_text j = Inr v"
  then obtain s where s: "text_value j = Inr s" "v = py_strip s" "safe_component v"
    by (auto simp: component_text_Inr)
  then have "text_value (JStr v) = Inr v"
    using set_py_strip [of s] by (auto simp: text_value_Inr)
  then show "component_text (JStr v) = Inr v"
    using s by (auto simp: component_text_Inr)
  show "tame (JStr v) j" "JStr v \<noteq> JNull"
    using s by (auto simp: text_value_Inr tame_def)
qed

interpretation resource_name_codec: object_codec resource_name JStr
  by unfold_locales (auto simp: resource_name_def text_value_Inr split: if_splits)

interpretation module_hash_codec: object_codec module_hash JStr
  by unfold_locales (auto simp: module_hash_Inr)

interpretation int_codec: object_codec "int_from lo" JInt for lo
  by unfold_locales (auto simp: int_from_Inr)

interpretation int_exactly_codec: object_codec "int_exactly m" JInt for m
  by unfold_locales (auto simp: int_exactly_Inr)

section \<open>Policies\<close>

record module_reference =
  ref_name :: string
  ref_version :: string
  ref_hash :: string

definition parse_module_reference :: "json \<Rightarrow> module_reference result" where
  "parse_module_reference j =
     (case j of
        JObj d \<Rightarrow>
          v_ap (v_ap (v_ap (v_ap (Inr (\<lambda>n v h _. module_reference.make n v h))
            (field d ''name'' component_text))
            (field d ''version'' component_text))
            (field d ''hash'' module_hash))
            (no_extra d [''name'', ''version'', ''hash''])
      | _ \<Rightarrow> Inl ValueError)"

definition dump_module_reference :: "module_reference \<Rightarrow> json" where
  "dump_module_reference m =
     JObj [(''name'', JStr (ref_name m)), (''version'', JStr (ref_version m)),
           (''hash'', JStr (ref_hash m))]"

record error_policy =
  retries :: int
  retry_delay_seconds :: number
  on_exhausted :: exhausted_action

definition parse_error_policy :: "json \<Rightarrow> error_policy result" where
  "parse_error_policy j =
     (case j of
        JObj d \<Rightarrow>
          v_ap (v_ap (v_ap (v_ap (Inr (\<lambda>r s e _. error_policy.make r s e))
            (field d ''retries'' (int_from 0)))
            (field d ''retry_delay_seconds'' number_field))
            (field d ''on_exhausted'' (literal_value exhausted_names)))
            (no_extra d [''retries'', ''retry_delay_seconds'', ''on_exhausted''])
      | _ \<Rightarrow> Inl ValueError)"

definition dump_error_policy :: "error_policy \<Rightarrow> json" where
  "dump_error_policy p =
     JObj [(''retries'', JInt (retries p)),
           (''retry_delay_seconds'', json_of_number (retry_delay_seconds p)),
           (''on_exhausted'', name_in exhausted_names (on_exhausted p))]"

record heartbeat_policy =
  interval_seconds :: number
  grace_seconds :: number

definition parse_heartbeat_policy :: "json \<Rightarrow> heartbeat_policy result" where
  "parse_heartbeat_policy j =
     (case j of
        JObj d \<Rightarrow>
          v_ap (v_ap (v_ap (Inr (\<lambda>i g _. heartbeat_policy.make i g))
            (field d ''interval_seconds'' positive_number))
            (field d ''grace_seconds'' positive_number))
            (no_extra d [''interval_seconds'', ''grace_seconds''])
      | _ \<Rightarrow> Inl ValueError)"

definition dump_heartbeat_policy :: "heartbeat_policy \<Rightarrow> json" where
  "dump_heartbeat_policy p =
     JObj [(''interval_seconds'', json_of_number (interval_seconds p)),
           (''grace_seconds'', json_of_number (grace_seconds p))]"

record unknown_state_policy =
  unknown_timeout :: number
  unknown_on_timeout :: unknown_action
  recovery_limit :: int
  on_recovery_limit :: limit_action

definition parse_unknown_state :: "json \<Rightarrow> unknown_state_policy result" where
  "parse_unknown_state j =
     (case j of
        JObj d \<Rightarrow>
          v_ap (v_ap (v_ap (v_ap (v_ap (Inr (\<lambda>t a l p _. unknown_state_policy.make t a l p))
            (field d ''timeout_seconds'' positive_number))
            (field d ''on_timeout'' (literal_value unknown_names)))
            (field d ''recovery_limit'' (int_from 0)))
            (field d ''on_recovery_limit'' (literal_value limit_names)))
            (no_extra d [''timeout_seconds'', ''on_timeout'', ''recovery_limit'',
               ''on_recovery_limit''])
      | _ \<Rightarrow> Inl ValueError)"

definition dump_unknown_state :: "unknown_state_policy \<Rightarrow> json" where
  "dump_unknown_state p =
     JObj [(''timeout_seconds'', json_of_number (unknown_timeout p)),
           (''on_timeout'', name_in unknown_names (unknown_on_timeout p)),
           (''recovery_limit'', JInt (recovery_limit p)),
           (''on_recovery_limit'', name_in limit_names (on_recovery_limit p))]"

record snapshot_policy =
  snapshot_mode :: snapshot_mode
  snapshot_keep :: int

definition parse_snapshot_policy :: "json \<Rightarrow> snapshot_policy result" where
  "parse_snapshot_policy j =
     (case j of
        JObj d \<Rightarrow>
          v_ap (v_ap (v_ap (Inr (\<lambda>m k _. snapshot_policy.make m k))
            (field d ''mode'' (literal_value snapshot_mode_names)))
            (field d ''keep'' (int_from 1)))
            (no_extra d [''mode'', ''keep''])
      | _ \<Rightarrow> Inl ValueError)"

definition dump_snapshot_policy :: "snapshot_policy \<Rightarrow> json" where
  "dump_snapshot_policy p =
     JObj [(''mode'', name_in snapshot_mode_names (snapshot_mode p)),
           (''keep'', JInt (snapshot_keep p))]"

record storage_policy =
  min_snapshot_free_bytes :: int

definition parse_storage_policy :: "json \<Rightarrow> storage_policy result" where
  "parse_storage_policy j =
     (case j of
        JObj d \<Rightarrow>
          v_ap (v_ap (Inr (\<lambda>b _. storage_policy.make b))
            (field d ''min_snapshot_free_bytes'' (int_from 0)))
            (no_extra d [''min_snapshot_free_bytes''])
      | _ \<Rightarrow> Inl ValueError)"

definition dump_storage_policy :: "storage_policy \<Rightarrow> json" where
  "dump_storage_policy p = JObj [(''min_snapshot_free_bytes'', JInt (min_snapshot_free_bytes p))]"

record logging_policy =
  busy_timeout_seconds :: number
  max_event_bytes :: "int option"
  min_free_bytes :: int
  filtered_refresh_interval_seconds :: number

text \<open>
  The journal limits are checked by \<^verbatim>\<open>validate_journal_limits\<close> before the fields are, provided
  all three are present; the fields themselves only want numbers.
\<close>

definition validate_journal_limits :: "json \<Rightarrow> json \<Rightarrow> json \<Rightarrow> number result" where
  "validate_journal_limits busy event_bytes free_bytes =
     res_bind (number_field busy)
       (\<lambda>timeout.
          if \<not> (0 < number_value timeout \<and> number_value timeout \<le> 60) then Inl ValueError
          else if \<not> is_ok (nullable (int_from 1) event_bytes) then Inl ValueError
          else if \<not> is_ok (int_from 0 free_bytes) then Inl ValueError
          else Inr timeout)"

definition normalize_opening_options :: "json_object \<Rightarrow> unit result" where
  "normalize_opening_options d =
     (case (map_of d ''busy_timeout_seconds'', map_of d ''max_event_bytes'',
            map_of d ''min_free_bytes'') of
        (Some b, Some e, Some f) \<Rightarrow> res_bind (validate_journal_limits b e f) (\<lambda>_. Inr ())
      | _ \<Rightarrow> Inr ())"

fun any_number :: "json \<Rightarrow> number result" where
  "any_number (JInt n) = Inr (NInt n)"
| "any_number (JFloat q) = Inr (NFloat q)"
| "any_number _ = Inl ValueError"

fun any_int :: "json \<Rightarrow> int result" where
  "any_int (JInt n) = Inr n"
| "any_int _ = Inl ValueError"

definition parse_logging_policy :: "json \<Rightarrow> logging_policy result" where
  "parse_logging_policy j =
     (case j of
        JObj d \<Rightarrow>
          res_bind (normalize_opening_options d)
            (\<lambda>_. v_ap (v_ap (v_ap (v_ap (v_ap (Inr (\<lambda>t m f r _. logging_policy.make t m f r))
              (field d ''busy_timeout_seconds'' any_number))
              (field d ''max_event_bytes'' (nullable any_int)))
              (field d ''min_free_bytes'' any_int))
              (field d ''filtered_refresh_interval_seconds'' positive_number))
              (no_extra d [''busy_timeout_seconds'', ''max_event_bytes'', ''min_free_bytes'',
                 ''filtered_refresh_interval_seconds'']))
      | _ \<Rightarrow> Inl ValueError)"

definition dump_logging_policy :: "logging_policy \<Rightarrow> json" where
  "dump_logging_policy p =
     JObj [(''busy_timeout_seconds'', json_of_number (busy_timeout_seconds p)),
           (''max_event_bytes'', dump_nullable JInt (max_event_bytes p)),
           (''min_free_bytes'', JInt (min_free_bytes p)),
           (''filtered_refresh_interval_seconds'',
              json_of_number (filtered_refresh_interval_seconds p))]"

lemmas policy_parsers =
  parse_module_reference_def parse_error_policy_def parse_heartbeat_policy_def
  parse_unknown_state_def parse_snapshot_policy_def parse_storage_policy_def

lemmas policy_dumps =
  dump_module_reference_def dump_error_policy_def dump_heartbeat_policy_def
  dump_unknown_state_def dump_snapshot_policy_def dump_storage_policy_def

lemmas policy_makes =
  module_reference.make_def error_policy.make_def heartbeat_policy.make_def
  unknown_state_policy.make_def snapshot_policy.make_def storage_policy.make_def

lemmas scalar_reparse =
  component_codec.reparse module_hash_codec.reparse int_codec.reparse number_codec.reparse
  positive_codec.reparse boolean_codec.reparse id_field_codec.reparse text_codec.reparse
  exhausted_codec.reparse command_timeout_codec.reparse unknown_codec.reparse
  limit_codec.reparse snapshot_mode_codec.reparse int_exactly_codec.reparse
  resource_name_codec.reparse object_value_codec.reparse

lemmas scalar_tame =
  component_codec.tame_dump module_hash_codec.tame_dump int_codec.tame_dump
  number_codec.tame_dump positive_codec.tame_dump boolean_codec.tame_dump
  id_field_codec.tame_dump text_codec.tame_dump exhausted_codec.tame_dump
  command_timeout_codec.tame_dump unknown_codec.tame_dump limit_codec.tame_dump
  snapshot_mode_codec.tame_dump int_exactly_codec.tame_dump resource_name_codec.tame_dump
  object_value_codec.tame_dump

lemma parse_object:
  "(case j of JObj d \<Rightarrow> f d | _ \<Rightarrow> Inl ValueError) = Inr x \<longleftrightarrow> (\<exists>d. j = JObj d \<and> f d = Inr x)"
  by (cases j) auto

lemmas policy_simps = policy_parsers policy_dumps policy_makes parse_object scalar_reparse

declare module_hash.simps [simp del] int_from.simps [simp del] int_exactly.simps [simp del]
  boolean_value.simps [simp del] literal_value.simps [simp del]

interpretation module_reference_codec: object_codec parse_module_reference dump_module_reference
  by unfold_locales
    (auto simp: policy_simps intro!: tame_JObj, (blast intro: from_fieldI scalar_tame)+)

interpretation error_policy_codec: object_codec parse_error_policy dump_error_policy
  by unfold_locales
    (auto simp: policy_simps intro!: tame_JObj, (blast intro: from_fieldI scalar_tame)+)

interpretation heartbeat_policy_codec: object_codec parse_heartbeat_policy dump_heartbeat_policy
  by unfold_locales
    (auto simp: policy_simps intro!: tame_JObj, (blast intro: from_fieldI scalar_tame)+)

interpretation unknown_state_codec: object_codec parse_unknown_state dump_unknown_state
  by unfold_locales
    (auto simp: policy_simps intro!: tame_JObj, (blast intro: from_fieldI scalar_tame)+)

interpretation snapshot_policy_codec: object_codec parse_snapshot_policy dump_snapshot_policy
  by unfold_locales
    (auto simp: policy_simps intro!: tame_JObj, (blast intro: from_fieldI scalar_tame)+)

interpretation storage_policy_codec: object_codec parse_storage_policy dump_storage_policy
  by unfold_locales
    (auto simp: policy_simps intro!: tame_JObj, (blast intro: from_fieldI scalar_tame)+)

lemma any_number_Inr: "any_number j = Inr n \<longleftrightarrow> j = json_of_number n"
  by (cases j; cases n) auto

lemma any_number_dump [simp]: "any_number (json_of_number n) = Inr n"
  by (cases n) auto

lemma any_int_Inr: "any_int j = Inr n \<longleftrightarrow> j = JInt n"
  by (cases j) auto

interpretation any_int_codec: object_codec any_int JInt
  by unfold_locales (auto simp: any_int_Inr)

lemma validate_journal_limits_dump:
  "validate_journal_limits b e f = Inr n \<Longrightarrow> any_number b = Inr t \<Longrightarrow> nullable any_int e = Inr m \<Longrightarrow>
     any_int f = Inr i \<Longrightarrow>
     validate_journal_limits (json_of_number t) (dump_nullable JInt m) (JInt i) = Inr n"
  by (auto simp: any_number_Inr any_int_Inr nullable_Inr split: if_splits)

interpretation logging_policy_codec: object_codec parse_logging_policy dump_logging_policy
proof
  fix j p
  assume "parse_logging_policy j = Inr p"
  then obtain d b e f r where d: "j = JObj d" "set (keys d) \<subseteq> {''busy_timeout_seconds'',
      ''max_event_bytes'', ''min_free_bytes'', ''filtered_refresh_interval_seconds''}"
    and b: "map_of d ''busy_timeout_seconds'' = Some b" "any_number b = Inr (busy_timeout_seconds p)"
    and e: "map_of d ''max_event_bytes'' = Some e" "nullable any_int e = Inr (max_event_bytes p)"
    and f: "map_of d ''min_free_bytes'' = Some f" "any_int f = Inr (min_free_bytes p)"
    and r: "map_of d ''filtered_refresh_interval_seconds'' = Some r"
      "positive_number r = Inr (filtered_refresh_interval_seconds p)"
    and norm: "normalize_opening_options d = Inr ()"
    by (auto simp: parse_logging_policy_def parse_object logging_policy.make_def)
  from norm b(1) e(1) f(1) obtain n where n: "validate_journal_limits b e f = Inr n"
    by (auto simp: normalize_opening_options_def)
  have "validate_journal_limits (json_of_number (busy_timeout_seconds p))
      (dump_nullable JInt (max_event_bytes p)) (JInt (min_free_bytes p)) = Inr n"
    by (rule validate_journal_limits_dump [OF n b(2) e(2) f(2)])
  then show "parse_logging_policy (dump_logging_policy p) = Inr p"
    using any_int_codec.nullable_reparse [OF e(2)]
    by (auto simp: parse_logging_policy_def dump_logging_policy_def
        normalize_opening_options_def logging_policy.make_def positive_codec.reparse [OF r(2)])
  have "tame (json_of_number (busy_timeout_seconds p)) b"
    "tame (JInt (min_free_bytes p)) f"
    using b(2) f(2) by (auto simp: any_number_Inr any_int_Inr)
  then show "tame (dump_logging_policy p) j"
    unfolding dump_logging_policy_def d(1) using b(1) e f(1) r
    by (auto intro!: tame_JObj
        intro: from_fieldI [OF b(1)] from_fieldI [OF f(1)]
          from_fieldI [OF e(1) any_int_codec.nullable_tame]
          from_fieldI [OF r(1) positive_codec.tame_dump])
qed (simp add: dump_logging_policy_def)

section \<open>Definitions of the DAG\<close>

definition opt_item :: "string \<Rightarrow> ('a \<Rightarrow> json) \<Rightarrow> 'a option \<Rightarrow> json_object" where
  "opt_item k g x = (case x of None \<Rightarrow> [] | Some y \<Rightarrow> [(k, g y)])"

lemma opt_item_simps [simp]: "opt_item k g None = []" "opt_item k g (Some y) = [(k, g y)]"
  by (simp_all add: opt_item_def)

record stage_definition =
  sd_stage_id :: "string option"
  sd_module :: module_reference
  sd_settings :: json_object
  sd_timeout :: "number option"
  sd_errors :: error_policy
  sd_returns_data :: "bool option"
  sd_snapshot_after :: "bool option"

definition parse_stage_definition :: "json \<Rightarrow> stage_definition result" where
  "parse_stage_definition j =
     (case j of
        JObj d \<Rightarrow>
          v_ap (v_ap (v_ap (v_ap (v_ap (v_ap (v_ap (v_ap
            (Inr (\<lambda>i m s t e r a _. stage_definition.make i m s t e r a))
            (opt_field d ''stage_id'' id_field))
            (field d ''module'' parse_module_reference))
            (field d ''settings'' object_value))
            (field d ''timeout_seconds'' (nullable positive_number)))
            (field d ''errors'' parse_error_policy))
            (opt_field d ''returns_data'' boolean_value))
            (opt_field d ''snapshot_after'' boolean_value))
            (no_extra d [''stage_id'', ''module'', ''settings'', ''timeout_seconds'', ''errors'',
               ''returns_data'', ''snapshot_after''])
      | _ \<Rightarrow> Inl ValueError)"

definition dump_stage_definition :: "stage_definition \<Rightarrow> json" where
  "dump_stage_definition s =
     JObj (opt_item ''stage_id'' JStr (sd_stage_id s) @
       [(''module'', dump_module_reference (sd_module s)),
        (''settings'', JObj (sd_settings s)),
        (''timeout_seconds'', dump_nullable json_of_number (sd_timeout s)),
        (''errors'', dump_error_policy (sd_errors s))] @
       opt_item ''returns_data'' JBool (sd_returns_data s) @
       opt_item ''snapshot_after'' JBool (sd_snapshot_after s))"

record service_call_definition =
  sc_stage_id :: "string option"
  sc_service_id :: string
  sc_settings :: json_object
  sc_timeout :: "number option"
  sc_errors :: error_policy
  sc_snapshot_after :: "bool option"

definition parse_service_call :: "json \<Rightarrow> service_call_definition result" where
  "parse_service_call j =
     (case j of
        JObj d \<Rightarrow>
          v_ap (v_ap (v_ap (v_ap (v_ap (v_ap (v_ap
            (Inr (\<lambda>i v s t e a _. service_call_definition.make i v s t e a))
            (opt_field d ''stage_id'' id_field))
            (field d ''service_id'' id_field))
            (field d ''settings'' object_value))
            (field d ''timeout_seconds'' (nullable positive_number)))
            (field d ''errors'' parse_error_policy))
            (opt_field d ''snapshot_after'' boolean_value))
            (no_extra d [''stage_id'', ''service_id'', ''settings'', ''timeout_seconds'',
               ''errors'', ''snapshot_after''])
      | _ \<Rightarrow> Inl ValueError)"

definition dump_service_call :: "service_call_definition \<Rightarrow> json" where
  "dump_service_call c =
     JObj (opt_item ''stage_id'' JStr (sc_stage_id c) @
       [(''service_id'', JStr (sc_service_id c)),
        (''settings'', JObj (sc_settings c)),
        (''timeout_seconds'', dump_nullable json_of_number (sc_timeout c)),
        (''errors'', dump_error_policy (sc_errors c))] @
       opt_item ''snapshot_after'' JBool (sc_snapshot_after c))"

record service_definition =
  sv_service_id :: "string option"
  sv_module :: module_reference
  sv_settings :: json_object
  sv_heartbeat :: heartbeat_policy
  sv_command_timeout :: number
  sv_on_command_timeout :: command_timeout_action
  sv_state_required :: bool
  sv_errors :: error_policy

definition parse_service_definition :: "json \<Rightarrow> service_definition result" where
  "parse_service_definition j =
     (case j of
        JObj d \<Rightarrow>
          v_ap (v_ap (v_ap (v_ap (v_ap (v_ap (v_ap (v_ap (v_ap
            (Inr (\<lambda>i m s h c a q e _. service_definition.make i m s h c a q e))
            (opt_field d ''service_id'' id_field))
            (field d ''module'' parse_module_reference))
            (field d ''settings'' object_value))
            (field d ''heartbeat'' parse_heartbeat_policy))
            (field d ''command_timeout_seconds'' positive_number))
            (field d ''on_command_timeout'' (literal_value command_timeout_names)))
            (field d ''state_required'' boolean_value))
            (field d ''errors'' parse_error_policy))
            (no_extra d [''service_id'', ''module'', ''settings'', ''heartbeat'',
               ''command_timeout_seconds'', ''on_command_timeout'', ''state_required'',
               ''errors''])
      | _ \<Rightarrow> Inl ValueError)"

definition dump_service_definition :: "service_definition \<Rightarrow> json" where
  "dump_service_definition s =
     JObj (opt_item ''service_id'' JStr (sv_service_id s) @
       [(''module'', dump_module_reference (sv_module s)),
        (''settings'', JObj (sv_settings s)),
        (''heartbeat'', dump_heartbeat_policy (sv_heartbeat s)),
        (''command_timeout_seconds'', json_of_number (sv_command_timeout s)),
        (''on_command_timeout'', name_in command_timeout_names (sv_on_command_timeout s)),
        (''state_required'', JBool (sv_state_required s)),
        (''errors'', dump_error_policy (sv_errors s))])"

record resource_definition =
  rs_name :: string
  rs_path :: string
  rs_hash :: "string option"

definition parse_resource :: "json \<Rightarrow> resource_definition result" where
  "parse_resource j =
     (case j of
        JObj d \<Rightarrow>
          v_ap (v_ap (v_ap (v_ap (Inr (\<lambda>n p h _. resource_definition.make n p h))
            (field d ''name'' resource_name))
            (field d ''path'' text_value))
            (field d ''hash'' (nullable module_hash)))
            (no_extra d [''name'', ''path'', ''hash''])
      | _ \<Rightarrow> Inl ValueError)"

definition dump_resource :: "resource_definition \<Rightarrow> json" where
  "dump_resource r =
     JObj [(''name'', JStr (rs_name r)), (''path'', JStr (rs_path r)),
           (''hash'', dump_nullable JStr (rs_hash r))]"

lemmas definition_simps =
  parse_stage_definition_def parse_service_call_def parse_service_definition_def
  parse_resource_def dump_stage_definition_def dump_service_call_def
  dump_service_definition_def dump_resource_def stage_definition.make_def
  service_call_definition.make_def service_definition.make_def resource_definition.make_def
  parse_object opt_field_Inr

lemmas policy_reparse =
  scalar_reparse module_reference_codec.reparse error_policy_codec.reparse
  heartbeat_policy_codec.reparse positive_codec.nullable_reparse
  module_hash_codec.nullable_reparse

lemmas policy_tame =
  scalar_tame module_reference_codec.tame_dump error_policy_codec.tame_dump
  heartbeat_policy_codec.tame_dump positive_codec.nullable_tame
  module_hash_codec.nullable_tame

interpretation stage_definition_codec: object_codec parse_stage_definition dump_stage_definition
  by unfold_locales
    (auto simp: definition_simps policy_reparse intro!: tame_JObj,
     (blast intro: from_fieldI policy_tame)+)

interpretation service_call_codec: object_codec parse_service_call dump_service_call
  by unfold_locales
    (auto simp: definition_simps policy_reparse intro!: tame_JObj,
     (blast intro: from_fieldI policy_tame)+)

interpretation service_definition_codec:
  object_codec parse_service_definition dump_service_definition
  by unfold_locales
    (auto simp: definition_simps policy_reparse intro!: tame_JObj,
     (blast intro: from_fieldI policy_tame)+)

interpretation resource_codec: object_codec parse_resource dump_resource
  by unfold_locales
    (auto simp: definition_simps policy_reparse intro!: tame_JObj,
     (blast intro: from_fieldI policy_tame)+)

section \<open>DAG nodes\<close>

text \<open>
  \<^verbatim>\<open>StageDefinition | ServiceCallDefinition\<close>: the first alternative that validates. A
  \<^verbatim>\<open>TypeError\<close> of a validator leaves the union at once.
\<close>

datatype dag_node = StageNode stage_definition | CallNode service_call_definition

definition parse_dag_node :: "json \<Rightarrow> dag_node result" where
  "parse_dag_node j =
     (case parse_stage_definition j of
        Inr s \<Rightarrow> Inr (StageNode s)
      | Inl e \<Rightarrow>
          if e \<noteq> ValueError then Inl e
          else res_bind (parse_service_call j) (\<lambda>c. Inr (CallNode c)))"

fun dump_dag_node :: "dag_node \<Rightarrow> json" where
  "dump_dag_node (StageNode s) = dump_stage_definition s"
| "dump_dag_node (CallNode c) = dump_service_call c"

fun node_stage_id :: "dag_node \<Rightarrow> string option" where
  "node_stage_id (StageNode s) = sd_stage_id s"
| "node_stage_id (CallNode c) = sc_stage_id c"

fun node_errors :: "dag_node \<Rightarrow> error_policy" where
  "node_errors (StageNode s) = sd_errors s"
| "node_errors (CallNode c) = sc_errors c"

fun node_timeout :: "dag_node \<Rightarrow> number option" where
  "node_timeout (StageNode s) = sd_timeout s"
| "node_timeout (CallNode c) = sc_timeout c"

fun node_snapshot_after :: "dag_node \<Rightarrow> bool" where
  "node_snapshot_after (StageNode s) = (sd_snapshot_after s = Some True)"
| "node_snapshot_after (CallNode c) = (sc_snapshot_after c = Some True)"

text \<open>\<^verbatim>\<open>"returns_data" in definition.model_fields_set\<close>: a conditional stage.\<close>

fun node_conditional :: "dag_node \<Rightarrow> bool" where
  "node_conditional (StageNode s) = (sd_returns_data s \<noteq> None)"
| "node_conditional (CallNode c) = False"

text \<open>A dumped service call is not a stage: its module is missing and its service ID extra.\<close>

lemma service_call_not_stage:
  assumes "parse_service_call j = Inr c"
  shows "parse_stage_definition (dump_service_call c) = Inl ValueError"
proof -
  have parts: "object_value (JObj (sc_settings c)) = Inr (sc_settings c)"
    "nullable positive_number (dump_nullable json_of_number (sc_timeout c)) = Inr (sc_timeout c)"
    "parse_error_policy (dump_error_policy (sc_errors c)) = Inr (sc_errors c)"
    "\<And>i. sc_stage_id c = Some i \<Longrightarrow> id_field (JStr i) = Inr i"
    using assms by (auto simp: definition_simps policy_reparse)
  show ?thesis
    by (cases "sc_stage_id c"; cases "sc_snapshot_after c")
      (simp_all add: parse_stage_definition_def dump_service_call_def field_def opt_field_def
        no_extra_def require_def boolean_value.simps parts)
qed

interpretation dag_node_codec: object_codec parse_dag_node dump_dag_node
proof
  fix j n
  assume p: "parse_dag_node j = Inr n"
  show "parse_dag_node (dump_dag_node n) = Inr n"
  proof (cases n)
    case (StageNode s)
    then have "parse_stage_definition j = Inr s"
      using p by (auto simp: parse_dag_node_def split: sum.splits if_splits)
    then show ?thesis using StageNode by (simp add: parse_dag_node_def stage_definition_codec.reparse)
  next
    case (CallNode c)
    then have c: "parse_service_call j = Inr c"
      using p by (auto simp: parse_dag_node_def split: sum.splits if_splits)
    then show ?thesis
      using CallNode service_call_not_stage [OF c]
      by (simp add: parse_dag_node_def service_call_codec.reparse)
  qed
  show "tame (dump_dag_node n) j" "dump_dag_node n \<noteq> JNull"
    using p stage_definition_codec.tame_dump service_call_codec.tame_dump
      stage_definition_codec.dump_not_null service_call_codec.dump_not_null
    by (auto simp: parse_dag_node_def split: sum.splits if_splits)
qed

section \<open>The experiment template\<close>

record experiment_template =
  schema_version :: int
  template_name :: string
  cycles :: int
  keep_attempts :: int
  start_timeout :: number
  runner_timeout_margin_seconds :: number
  stages :: "dag_node list"
  services :: "service_definition list"
  resources :: "resource_definition list"
  unknown_state :: unknown_state_policy
  snapshots :: snapshot_policy
  storage :: storage_policy
  logging :: logging_policy

definition nonempty_list :: "(json \<Rightarrow> 'a result) \<Rightarrow> json \<Rightarrow> 'a list result" where
  "nonempty_list f j =
     res_bind (list_of f j) (\<lambda>xs. if xs = [] then Inl ValueError else Inr xs)"

definition template_keys :: "string list" where
  "template_keys = [''schema_version'', ''name'', ''cycles'', ''keep_attempts'', ''start_timeout'',
     ''runner_timeout_margin_seconds'', ''stages'', ''services'', ''resources'',
     ''unknown_state'', ''snapshots'', ''storage'', ''logging'']"

definition template_fields :: "json_object \<Rightarrow> experiment_template result" where
  "template_fields d =
     v_ap (v_ap (v_ap (v_ap (v_ap (v_ap (v_ap (v_ap (v_ap (v_ap (v_ap (v_ap (v_ap (v_ap
       (Inr (\<lambda>v n c k st m sg sv rs u sn so l _.
          experiment_template.make v n c k st m sg sv rs u sn so l))
       (field d ''schema_version'' (int_exactly 2)))
       (field d ''name'' text_value))
       (field d ''cycles'' (int_from 1)))
       (field d ''keep_attempts'' (int_from 1)))
       (field d ''start_timeout'' positive_number))
       (field d ''runner_timeout_margin_seconds'' number_field))
       (field d ''stages'' (nonempty_list parse_dag_node)))
       (field d ''services'' (list_of parse_service_definition)))
       (field d ''resources'' (list_of parse_resource)))
       (field d ''unknown_state'' parse_unknown_state))
       (field d ''snapshots'' parse_snapshot_policy))
       (field d ''storage'' parse_storage_policy))
       (field d ''logging'' parse_logging_policy))
       (no_extra d template_keys)"

definition some_values :: "'a option list \<Rightarrow> 'a list" where
  "some_values xs = List.map_filter id xs"

definition stage_ids :: "experiment_template \<Rightarrow> string list" where
  "stage_ids t = some_values (map node_stage_id (stages t))"

definition service_ids :: "experiment_template \<Rightarrow> string list" where
  "service_ids t = some_values (map sv_service_id (services t))"

text \<open>\<^verbatim>\<open>ExperimentTemplate.validate_references\<close>.\<close>

definition validate_references :: "experiment_template \<Rightarrow> unit result" where
  "validate_references t =
     (if \<not> distinct (stage_ids t @ service_ids t) then Inl ValueError
      else if list_ex (\<lambda>n. case n of
                           CallNode c \<Rightarrow> \<not> List.member (service_ids t) (sc_service_id c)
                         | StageNode s \<Rightarrow> False) (stages t) then Inl ValueError
      else if \<not> distinct (map rs_name (resources t)) then Inl ValueError
      else Inr ())"

definition parse_template :: "json \<Rightarrow> experiment_template result" where
  "parse_template j =
     res_bind (object_value j)
       (\<lambda>d. res_bind (template_fields d)
          (\<lambda>t. res_bind (validate_references t) (\<lambda>_. Inr t)))"

definition dump_template_fields :: "experiment_template \<Rightarrow> json_object" where
  "dump_template_fields t =
     [(''schema_version'', JInt (schema_version t)),
      (''name'', JStr (template_name t)),
      (''cycles'', JInt (cycles t)),
      (''keep_attempts'', JInt (keep_attempts t)),
      (''start_timeout'', json_of_number (start_timeout t)),
      (''runner_timeout_margin_seconds'', json_of_number (runner_timeout_margin_seconds t)),
      (''stages'', dump_list dump_dag_node (stages t)),
      (''services'', dump_list dump_service_definition (services t)),
      (''resources'', dump_list dump_resource (resources t)),
      (''unknown_state'', dump_unknown_state (unknown_state t)),
      (''snapshots'', dump_snapshot_policy (snapshots t)),
      (''storage'', dump_storage_policy (storage t)),
      (''logging'', dump_logging_policy (logging t))]"

definition dump_template :: "experiment_template \<Rightarrow> json" where
  "dump_template t = JObj (dump_template_fields t)"

lemmas template_simps =
  template_fields_def dump_template_fields_def template_keys_def experiment_template.make_def

lemma nonempty_list_Inr: "nonempty_list f j = Inr xs \<longleftrightarrow> list_of f j = Inr xs \<and> xs \<noteq> []"
  by (auto simp: nonempty_list_def split: if_splits)

lemma template_fields_reparse:
  "template_fields d = Inr t \<Longrightarrow> template_fields (dump_template_fields t) = Inr t"
  by (auto simp: template_simps nonempty_list_Inr policy_reparse
      dag_node_codec.list_of_reparse service_definition_codec.list_of_reparse
      resource_codec.list_of_reparse unknown_state_codec.reparse snapshot_policy_codec.reparse
      storage_policy_codec.reparse logging_policy_codec.reparse)

lemma template_fields_tame: "template_fields d = Inr t \<Longrightarrow> tame (dump_template t) (JObj d)"
  unfolding dump_template_def
  by (rule tame_JObj)
    (auto simp: template_simps nonempty_list_Inr,
     (blast intro: from_fieldI policy_tame dag_node_codec.list_of_tame
       service_definition_codec.list_of_tame resource_codec.list_of_tame
       unknown_state_codec.tame_dump snapshot_policy_codec.tame_dump
       storage_policy_codec.tame_dump logging_policy_codec.tame_dump)+)

interpretation template_codec: object_codec parse_template dump_template
proof
  fix j t
  assume "parse_template j = Inr t"
  then obtain d where d: "object_value j = Inr d" "template_fields d = Inr t"
      "validate_references t = Inr ()"
    by (auto simp: parse_template_def)
  then have j: "j = JObj d" "json_height j \<le> 32" "json_printable j"
    by (auto simp: object_value_Inr)
  show tame: "tame (dump_template t) j"
    unfolding j(1) by (rule template_fields_tame [OF d(2)])
  then have "object_value (dump_template t) = Inr (dump_template_fields t)"
    using j(2,3) unfolding object_value_Inr tame_def dump_template_def by (meson le_trans)
  then show "parse_template (dump_template t) = Inr t"
    using template_fields_reparse [OF d(2)] d(3) by (simp add: parse_template_def)
qed (simp add: dump_template_def)

section \<open>References between definitions\<close>

text \<open>\<^verbatim>\<open>ExperimentTemplate.module_reference\<close>; \<^verbatim>\<open>next(...)\<close> of an empty generator raises.\<close>

definition resolve_module :: "experiment_template \<Rightarrow> dag_node \<Rightarrow> module_reference result" where
  "resolve_module t n =
     (case n of
        CallNode c \<Rightarrow>
          (case find (\<lambda>s. sv_service_id s = Some (sc_service_id c)) (services t) of
             None \<Rightarrow> Inl StopIteration
           | Some s \<Rightarrow> Inr (sv_module s))
      | StageNode s \<Rightarrow> Inr (sd_module s))"

lemma some_values_simps [simp]:
  "some_values [] = []"
  "some_values (None # xs) = some_values xs"
  "some_values (Some x # xs) = x # some_values xs"
  by (simp_all add: some_values_def)

lemma some_values_append [simp]: "some_values (xs @ ys) = some_values xs @ some_values ys"
  by (induction xs) (auto simp: some_values_def split: option.splits)

lemma set_some_values: "x \<in> set (some_values xs) \<longleftrightarrow> Some x \<in> set xs"
  by (induction xs) (auto simp: some_values_def split: option.splits)

lemma some_values_distinct_inj:
  assumes "distinct (some_values (map f xs))" "x \<in> set xs" "y \<in> set xs" "f x = Some i" "f y = Some i"
  shows "x = y"
  using assms
proof (induction xs)
  case (Cons z zs)
  have fresh: "False" if "u \<in> set zs" "f u = Some i" "f z = Some i" for u
    using Cons.prems(1) that set_some_values [of i "map f zs"] by (force simp: image_iff)
  have "distinct (some_values (map f zs))"
    using Cons.prems(1) by (cases "f z") auto
  then show ?case using Cons fresh by auto
qed simp

lemma validate_references_iff:
  "validate_references t = Inr u \<longleftrightarrow>
     distinct (stage_ids t @ service_ids t) \<and>
     (\<forall>c. CallNode c \<in> set (stages t) \<longrightarrow> sc_service_id c \<in> set (service_ids t)) \<and>
     distinct (map rs_name (resources t))"
proof -
  have "list_ex (\<lambda>n. case n of
          CallNode c \<Rightarrow> \<not> List.member (service_ids t) (sc_service_id c) | StageNode s \<Rightarrow> False)
        (stages t)
      \<longleftrightarrow> (\<exists>c. CallNode c \<in> set (stages t) \<and> sc_service_id c \<notin> set (service_ids t))"
    (is "list_ex ?p _ \<longleftrightarrow> _")
  proof
    assume "list_ex ?p (stages t)"
    then obtain n where n: "n \<in> set (stages t)" "?p n" unfolding list_ex_iff by blast
    from n(2) obtain c where "n = CallNode c" "sc_service_id c \<notin> set (service_ids t)"
      by (cases n) simp_all
    with n(1) show "\<exists>c. CallNode c \<in> set (stages t) \<and> sc_service_id c \<notin> set (service_ids t)"
      by blast
  next
    assume "\<exists>c. CallNode c \<in> set (stages t) \<and> sc_service_id c \<notin> set (service_ids t)"
    then show "list_ex ?p (stages t)" unfolding list_ex_iff by force
  qed
  then show ?thesis unfolding validate_references_def by (simp only: if_splits) auto
qed

lemma parse_template_references: "parse_template j = Inr t \<Longrightarrow> validate_references t = Inr ()"
  by (auto simp: parse_template_def)

lemma resolve_module_call:
  assumes "validate_references t = Inr ()" "CallNode c \<in> set (stages t)"
  obtains s where "s \<in> set (services t)" "sv_service_id s = Some (sc_service_id c)"
    "resolve_module t (CallNode c) = Inr (sv_module s)"
proof -
  have "sc_service_id c \<in> set (service_ids t)"
    using assms by (auto simp: validate_references_iff)
  then obtain s where "s \<in> set (services t)" "sv_service_id s = Some (sc_service_id c)"
    by (auto simp: service_ids_def set_some_values)
  then have "find (\<lambda>s. sv_service_id s = Some (sc_service_id c)) (services t) \<noteq> None"
    by (auto simp: find_None_iff)
  then obtain v where v: "find (\<lambda>s. sv_service_id s = Some (sc_service_id c)) (services t) = Some v"
    by blast
  then have "v \<in> set (services t)" "sv_service_id v = Some (sc_service_id c)"
    by (auto simp: find_Some_iff)
  with v show ?thesis using that by (simp add: resolve_module_def)
qed

section \<open>Assigning definition IDs\<close>

text \<open>
  \<^verbatim>\<open>_assign_definition_ids\<close>: the nodes and then the services without an ID take the next one of
  \<open>fresh\<close>, the results of \<^verbatim>\<open>uuid4\<close> in the order of the calls. The updated template is validated
  again as a whole; its submodels are valid already.
\<close>

fun set_node_id :: "string \<Rightarrow> dag_node \<Rightarrow> dag_node" where
  "set_node_id i (StageNode s) = StageNode (s\<lparr>sd_stage_id := Some i\<rparr>)"
| "set_node_id i (CallNode c) = CallNode (c\<lparr>sc_stage_id := Some i\<rparr>)"

fun assign_ids :: "('a \<Rightarrow> string option) \<Rightarrow> (string \<Rightarrow> 'a \<Rightarrow> 'a) \<Rightarrow> (nat \<Rightarrow> string) \<Rightarrow> nat
    \<Rightarrow> 'a list \<Rightarrow> 'a list \<times> nat" where
  "assign_ids get put fresh n [] = ([], n)"
| "assign_ids get put fresh n (x # xs) =
     (if get x \<noteq> None
      then (let (ys, m) = assign_ids get put fresh n xs in (x # ys, m))
      else (let (ys, m) = assign_ids get put fresh (Suc n) xs in (put (fresh n) x # ys, m)))"

definition assign_definition_ids ::
    "(nat \<Rightarrow> string) \<Rightarrow> experiment_template \<Rightarrow> experiment_template result" where
  "assign_definition_ids fresh t =
     (let (ns, n) = assign_ids node_stage_id set_node_id fresh 0 (stages t);
          (vs, _) = assign_ids sv_service_id (\<lambda>i s. s\<lparr>sv_service_id := Some i\<rparr>) fresh n (services t);
          u = t\<lparr>stages := ns, services := vs\<rparr>
      in res_bind (validate_references u) (\<lambda>_. Inr u))"

text \<open>Each element is kept when it has an ID and otherwise gets one of the fresh ones.\<close>

lemma assign_ids_pointwise:
  "list_all2 (\<lambda>x y. if get x \<noteq> None then y = x else \<exists>k. y = put (fresh k) x)
     xs (fst (assign_ids get put fresh n xs))"
  by (induction xs arbitrary: n) (auto simp: case_prod_beta Let_def)

lemma assign_ids_same:
  "(\<forall>x \<in> set xs. get x \<noteq> None) \<Longrightarrow> assign_ids get put fresh n xs = (xs, n)"
  by (induction xs arbitrary: n) auto

lemma assign_ids_all_assigned:
  assumes "\<And>i x. get (put i x) = Some i"
  shows "\<forall>y \<in> set (fst (assign_ids get put fresh n xs)). get y \<noteq> None"
  by (induction xs arbitrary: n) (auto simp: case_prod_beta Let_def assms)

lemma set_node_id [simp]: "node_stage_id (set_node_id i n) = Some i"
  by (cases n) auto

lemma assign_definition_ids_Inr:
  assumes "assign_definition_ids fresh t = Inr u"
  shows "\<forall>n \<in> set (stages u). node_stage_id n \<noteq> None"
    and "\<forall>s \<in> set (services u). sv_service_id s \<noteq> None"
    and "validate_references u = Inr ()"
    and "list_all2 (\<lambda>x y. if node_stage_id x \<noteq> None then y = x
           else \<exists>k. y = set_node_id (fresh k) x) (stages t) (stages u)"
proof -
  obtain ns n where ns: "assign_ids node_stage_id set_node_id fresh 0 (stages t) = (ns, n)"
    by (cases "assign_ids node_stage_id set_node_id fresh 0 (stages t)") auto
  obtain vs m where vs: "assign_ids sv_service_id (\<lambda>i s. s\<lparr>sv_service_id := Some i\<rparr>) fresh n
      (services t) = (vs, m)"
    by (cases "assign_ids sv_service_id (\<lambda>i s. s\<lparr>sv_service_id := Some i\<rparr>) fresh n (services t)") auto
  have u: "u = t\<lparr>stages := ns, services := vs\<rparr>" "validate_references u = Inr ()"
    using assms by (auto simp: assign_definition_ids_def ns vs Let_def)
  show "\<forall>n \<in> set (stages u). node_stage_id n \<noteq> None"
    using assign_ids_all_assigned [of node_stage_id set_node_id fresh 0 "stages t"] ns u by simp
  show "\<forall>s \<in> set (services u). sv_service_id s \<noteq> None"
    using assign_ids_all_assigned [of sv_service_id "\<lambda>i s. s\<lparr>sv_service_id := Some i\<rparr>" fresh n
        "services t"] vs u by simp
  show "validate_references u = Inr ()" by (rule u(2))
  show "list_all2 (\<lambda>x y. if node_stage_id x \<noteq> None then y = x
      else \<exists>k. y = set_node_id (fresh k) x) (stages t) (stages u)"
    using assign_ids_pointwise [of node_stage_id set_node_id fresh "stages t" 0] ns u by simp
qed

end
