(* ===== verification/Json_Text.thy ===== *)
theory Json_Text
  imports Json_Values "HOL-Library.List_Lexorder" "HOL-Library.Char_ord"
begin

text \<open>
  Printing JSON as \<^verbatim>\<open>json.dumps\<close> does, which the code uses to compare documents, to take
  fingerprints and to measure messages.

  \<open>dumps_sorted\<close> is \<^verbatim>\<open>sort_keys=True\<close>: the document with the keys of every object sorted.
  \<open>json_text\<close> is the text itself with the default separators; \<open>ascii\<close> is \<^verbatim>\<open>ensure_ascii\<close>, and
  the printing of a float is a parameter. \<open>utf8_length\<close> is the length of the UTF-8 encoding, a
  character of the model being a code point below 256.
\<close>

section \<open>Sorted keys\<close>

fun dumps_sorted :: "json \<Rightarrow> json" where
  "dumps_sorted (JArr xs) = JArr (map dumps_sorted xs)"
| "dumps_sorted (JObj d) = JObj (sort_key fst (map (\<lambda>(k, v). (k, dumps_sorted v)) d))"
| "dumps_sorted j = j"

lemma map_of_eq_of_set:
  "distinct (keys xs) \<Longrightarrow> distinct (keys ys) \<Longrightarrow> set xs = set ys \<Longrightarrow> map_of xs = map_of ys"
  by (rule map_of_inject_set [THEN iffD2])

text \<open>Two objects that print alike have, key by key, values that print alike.\<close>

lemma dumps_sorted_fields:
  assumes "dumps_sorted (JObj d) = dumps_sorted (JObj e)" "distinct (keys d)" "distinct (keys e)"
  shows "map_option dumps_sorted (map_of d k) = map_option dumps_sorted (map_of e k)"
proof -
  let ?f = "map (\<lambda>(k, v). (k, dumps_sorted v))"
  have fields: "map_of (?f x) k = map_option dumps_sorted (map_of x k)" for x :: json_object
    by (induction x) auto
  have keys: "keys (?f x) = keys x" for x :: json_object
    by (simp add: case_prod_beta comp_def)
  have "set (sort_key fst (?f d)) = set (sort_key fst (?f e))" using assms(1) by simp
  then have "set (?f d) = set (?f e)" by (simp only: set_sort)
  then have "map_of (?f d) = map_of (?f e)"
    by (rule map_of_eq_of_set [rotated -1]) (simp_all only: keys assms(2,3))
  then show ?thesis using fields by metis
qed

section \<open>Text\<close>

fun decimal_rev :: "nat \<Rightarrow> string" where
  "decimal_rev n =
     char_of (48 + n mod 10) # (if n < 10 then [] else decimal_rev (n div 10))"

declare decimal_rev.simps [simp del]

definition decimal :: "int \<Rightarrow> string" where
  "decimal n = (if n < 0 then CHR ''-'' # rev (decimal_rev (nat (- n)))
                else rev (decimal_rev (nat n)))"

definition hex_digit :: "nat \<Rightarrow> char" where
  "hex_digit d = char_of (if d < 10 then 48 + d else 87 + d)"

definition json_escape :: "bool \<Rightarrow> char \<Rightarrow> string" where
  "json_escape ascii c =
     (let n = (of_char c :: nat)
      in if n = 34 then [CHR 0x5C, CHR 0x22]
         else if n = 92 then [CHR 0x5C, CHR 0x5C]
         else if n = 8 then [CHR 0x5C, CHR ''b'']
         else if n = 9 then [CHR 0x5C, CHR ''t'']
         else if n = 10 then [CHR 0x5C, CHR ''n'']
         else if n = 12 then [CHR 0x5C, CHR ''f'']
         else if n = 13 then [CHR 0x5C, CHR ''r'']
         else if n < 32 \<or> ascii \<and> 127 \<le> n
              then [CHR 0x5C, CHR ''u'', CHR ''0'', CHR ''0'', hex_digit (n div 16), hex_digit (n mod 16)]
              else [c])"

definition json_string :: "bool \<Rightarrow> string \<Rightarrow> string" where
  "json_string ascii s = CHR 0x22 # concat (map (json_escape ascii) s) @ [CHR 0x22]"

fun separated :: "string list \<Rightarrow> string" where
  "separated [] = []"
| "separated [s] = s"
| "separated (s # ss) = s @ '', '' @ separated ss"

fun json_text :: "(rat \<Rightarrow> string) \<Rightarrow> bool \<Rightarrow> json \<Rightarrow> string" where
  "json_text float ascii JNull = ''null''"
| "json_text float ascii (JBool b) = (if b then ''true'' else ''false'')"
| "json_text float ascii (JInt n) = decimal n"
| "json_text float ascii (JFloat q) = float q"
| "json_text float ascii (JStr s) = json_string ascii s"
| "json_text float ascii (JArr xs) =
     ''['' @ separated (map (json_text float ascii) xs) @ '']''"
| "json_text float ascii (JObj d) =
     ''{'' @ separated (map (\<lambda>(k, v). json_string ascii k @ '': '' @ json_text float ascii v) d)
       @ ''}''"

definition utf8_length :: "string \<Rightarrow> nat" where
  "utf8_length s = (\<Sum>c\<leftarrow>s. if of_char c < (128 :: nat) then 1 else 2)"

end
