(* ===== verification/Reload.thy ===== *)
theory Reload
  imports Template Json_Text
begin

text \<open>
  Model of \<^verbatim>\<open>core/experiments/reload.py\<close>: comparing the applied template with a candidate
  (\<open>reload_layout\<close>), moving the DAG cursor (\<open>reload_cursor\<close>) and checking that only the
  stages and services change (\<open>prepare_reload_candidate\<close>).

  \<^verbatim>\<open>json.dumps(document, sort_keys=True)\<close> is used by the code only to compare documents. It is
  modelled by \<open>dumps_sorted\<close>, the document with the keys of every object sorted: two
  documents print alike exactly when these are equal, the printing of a value being injective
  and keeping the integer and the float spelling of a number apart.
\<close>

section \<open>Fingerprints\<close>

definition pop_key :: "string \<Rightarrow> json \<Rightarrow> json" where
  "pop_key k j = (case j of JObj d \<Rightarrow> JObj (AList.delete k d) | _ \<Rightarrow> j)"

text \<open>\<^verbatim>\<open>_definition_fingerprint\<close> of a DAG node, and of a service that may be absent.\<close>

definition node_fingerprint :: "bool \<Rightarrow> dag_node \<Rightarrow> json" where
  "node_fingerprint ignore_snapshot_policy n =
     dumps_sorted
       (if ignore_snapshot_policy \<or> \<not> node_snapshot_after n
        then pop_key ''snapshot_after'' (dump_dag_node n)
        else dump_dag_node n)"

definition service_fingerprint :: "service_definition option \<Rightarrow> json" where
  "service_fingerprint s =
     dumps_sorted (case s of None \<Rightarrow> JNull | Some v \<Rightarrow> dump_service_definition v)"

definition template_fingerprint :: "experiment_template \<Rightarrow> json" where
  "template_fingerprint t =
     dumps_sorted
       (JObj (map (\<lambda>(k, v).
          if k = ''stages''
          then (k, JArr (map (\<lambda>n. if \<not> node_snapshot_after n
                                  then pop_key ''snapshot_after'' (dump_dag_node n)
                                  else dump_dag_node n) (stages t)))
          else (k, v)) (dump_template_fields t)))"

section \<open>Layout\<close>

type_synonym definition_id = "string option"

record reload_layout =
  old_services :: "(definition_id, service_definition) pydict"
  new_services :: "(definition_id, service_definition) pydict"
  changed_services :: "definition_id list"
  old_stages :: "dag_node list"
  new_stages :: "dag_node list"
  prefix_length :: nat
  next_position :: nat

text \<open>A dict comprehension: a later entry with the same key replaces the value.\<close>

definition dict_of :: "('k \<times> 'v) list \<Rightarrow> ('k, 'v) pydict" where
  "dict_of kvs = fold (\<lambda>(k, v). AList.update k v) kvs []"

definition services_by_id :: "experiment_template \<Rightarrow> (definition_id, service_definition) pydict" where
  "services_by_id t = dict_of (map (\<lambda>s. (sv_service_id s, s)) (services t))"

definition changed_service_ids ::
    "(definition_id, service_definition) pydict \<Rightarrow> (definition_id, service_definition) pydict
     \<Rightarrow> definition_id list" where
  "changed_service_ids old new =
     filter (\<lambda>i. service_fingerprint (map_of old i) \<noteq> service_fingerprint (map_of new i))
       (remdups (keys old @ keys new))"

text \<open>Whether a node differs for the DAG: itself or, for a call, the service it calls.\<close>

definition node_changed :: "definition_id list \<Rightarrow> dag_node \<Rightarrow> dag_node \<Rightarrow> bool" where
  "node_changed changed before after =
     (node_fingerprint True before \<noteq> node_fingerprint True after \<or>
      (case before of
         CallNode c \<Rightarrow> List.member changed (Some (sc_service_id c))
       | StageNode s \<Rightarrow> False))"

fun common_prefix :: "definition_id list \<Rightarrow> dag_node list \<Rightarrow> dag_node list \<Rightarrow> nat" where
  "common_prefix changed (b # bs) (a # as) =
     (if node_changed changed b a then 0 else Suc (common_prefix changed bs as))"
| "common_prefix changed _ _ = 0"

text \<open>\<^verbatim>\<open>new_positions\<close> and the search for the first remaining node that survives.\<close>

definition node_positions :: "dag_node list \<Rightarrow> (definition_id, nat) pydict" where
  "node_positions ns = dict_of (map (\<lambda>(i, n). (node_stage_id n, i)) (enumerate 0 ns))"

fun first_surviving :: "(definition_id, nat) pydict \<Rightarrow> nat \<Rightarrow> dag_node list \<Rightarrow> nat" where
  "first_surviving positions dflt [] = dflt"
| "first_surviving positions dflt (n # ns) =
     (case map_of positions (node_stage_id n) of
        Some i \<Rightarrow> i
      | None \<Rightarrow> first_surviving positions dflt ns)"

definition reload_layout_of ::
    "experiment_template \<Rightarrow> experiment_template \<Rightarrow> int \<Rightarrow> bool \<Rightarrow> reload_layout result" where
  "reload_layout_of previous candidate stage_position pending_advance =
     (let old = services_by_id previous;
          new = services_by_id candidate;
          changed = changed_service_ids old new;
          prefix = common_prefix changed (stages previous) (stages candidate);
          old_next = stage_position - 1 + (if pending_advance then 1 else 0)
      in if \<not> (0 \<le> old_next \<and> old_next \<le> int (length (stages previous))) then Inl ValueError
         else
           let next = first_surviving (node_positions (stages candidate))
                        (length (stages candidate)) (drop (nat old_next) (stages previous));
               next = (if old_next = int prefix then prefix else next)
           in Inr \<lparr>old_services = old, new_services = new, changed_services = changed,
                   old_stages = stages previous, new_stages = stages candidate,
                   prefix_length = prefix, next_position = next\<rparr>)"

section \<open>Cursor\<close>

record reload_cursor =
  cursor_next :: nat
  cursor_stage_position :: nat
  cursor_pending_advance :: bool
  cursor_rewind :: bool
  cursor_preserved :: "definition_id list"

definition reload_cursor_of :: "reload_layout \<Rightarrow> definition_id list \<Rightarrow> reload_cursor" where
  "reload_cursor_of layout completed =
     (let invalidated = map node_stage_id (drop (prefix_length layout) (old_stages layout));
          rewind = (list_ex (List.member invalidated) completed
                    \<and> prefix_length layout < next_position layout);
          next = (if rewind then prefix_length layout else next_position layout);
          next = min next (length (new_stages layout));
          pending = (next = length (new_stages layout));
          position = (if pending then length (new_stages layout) else next + 1)
      in \<lparr>cursor_next = next, cursor_stage_position = position, cursor_pending_advance = pending,
          cursor_rewind = rewind,
          cursor_preserved = map node_stage_id (take (prefix_length layout) (new_stages layout))\<rparr>)"

section \<open>Candidate check\<close>

text \<open>
  \<open>resolve\<close> stands for \<^verbatim>\<open>Path(...).resolve()\<close>, which asks the filesystem. The fresh IDs are
  those of \<^verbatim>\<open>_assign_definition_ids\<close>.
\<close>

definition same_resources ::
    "(string \<Rightarrow> string) \<Rightarrow> resource_definition list \<Rightarrow> resource_definition list \<Rightarrow> bool" where
  "same_resources resolve before after =
     (length after = length before \<and>
      list_all (\<lambda>(b, a). rs_name b = rs_name a \<and> rs_hash b = rs_hash a
                         \<and> resolve (rs_path b) = resolve (rs_path a)) (zip before after))"

definition fixed_template_keys :: "string list" where
  "fixed_template_keys = filter (\<lambda>k. k \<noteq> ''stages'' \<and> k \<noteq> ''services'') template_keys"

datatype definition_role = StageRole | ServiceRole

definition definition_roles :: "experiment_template \<Rightarrow> (definition_id, definition_role) pydict" where
  "definition_roles t =
     dict_of (map (\<lambda>n. (node_stage_id n, StageRole)) (stages t)
              @ map (\<lambda>s. (sv_service_id s, ServiceRole)) (services t))"

definition prepare_reload_candidate ::
    "(string \<Rightarrow> string) \<Rightarrow> (nat \<Rightarrow> string) \<Rightarrow> experiment_template \<Rightarrow> experiment_template
     \<Rightarrow> experiment_template result" where
  "prepare_reload_candidate resolve fresh applied template =
     (let template = (if same_resources resolve (resources applied) (resources template)
                      then template\<lparr>resources := resources applied\<rparr> else template);
          previous = dump_template_fields applied;
          candidate = dump_template_fields template
      in if list_ex (\<lambda>k. map_option dumps_sorted (map_of candidate k)
                          \<noteq> map_option dumps_sorted (map_of previous k)) fixed_template_keys
         then Inl ValueError
         else res_bind (assign_definition_ids fresh template)
           (\<lambda>t. let roles = definition_roles applied
                in if list_ex (\<lambda>n. dict_get roles (node_stage_id n) StageRole \<noteq> StageRole) (stages t)
                     \<or> list_ex (\<lambda>s. dict_get roles (sv_service_id s) ServiceRole \<noteq> ServiceRole)
                          (services t)
                   then Inl ValueError else Inr t))"

section \<open>Facts\<close>

lemma map_of_dict_of: "map_of (dict_of kvs) = map_of (rev kvs)"
proof -
  have "map_of (fold (\<lambda>(k, v). AList.update k v) kvs d) = map_of d ++ map_of (rev kvs)" for d
    by (induction kvs arbitrary: d) (auto simp: fun_eq_iff map_add_def split: option.splits)
  then show ?thesis by (simp add: dict_of_def)
qed

lemma dumps_sorted_differ:
  "map_option dumps_sorted (map_of d k) \<noteq> map_option dumps_sorted (map_of e k) \<Longrightarrow>
     distinct (keys d) \<Longrightarrow> distinct (keys e) \<Longrightarrow> dumps_sorted (JObj d) \<noteq> dumps_sorted (JObj e)"
  using dumps_sorted_fields by blast

lemma map_of_dict_of_distinct:
  "distinct (keys kvs) \<Longrightarrow> map_of (dict_of kvs) = map_of kvs"
  by (simp add: map_of_dict_of map_of_inject_set rev_map [symmetric])

lemma common_prefix_le:
  "common_prefix ch bs as \<le> length bs" "common_prefix ch bs as \<le> length as"
  by (induction ch bs as rule: common_prefix.induct) auto

lemma common_prefix_unchanged:
  "i < common_prefix ch bs as \<Longrightarrow> \<not> node_changed ch (bs ! i) (as ! i)"
  by (induction ch bs as arbitrary: i rule: common_prefix.induct)
    (auto simp: less_Suc_eq_0_disj split: if_splits)

lemma common_prefix_maximal:
  "common_prefix ch bs as < length bs \<Longrightarrow> common_prefix ch bs as < length as \<Longrightarrow>
     node_changed ch (bs ! common_prefix ch bs as) (as ! common_prefix ch bs as)"
  by (induction ch bs as rule: common_prefix.induct) auto

lemma node_changed_refl: "\<not> node_changed [] n n"
  by (cases n) (auto simp: node_changed_def)

lemma changed_service_ids_refl [simp]: "changed_service_ids d d = []"
  by (simp add: changed_service_ids_def)

lemma common_prefix_refl: "common_prefix [] ns ns = length ns"
  by (induction ns) (auto simp: node_changed_refl)

lemma map_of_node_positions:
  assumes "map_of (node_positions ns) k = Some i"
  shows "i < length ns \<and> node_stage_id (ns ! i) = k"
proof -
  have "(k, i) \<in> set (rev (map (\<lambda>(i, n). (node_stage_id n, i)) (enumerate 0 ns)))"
    using assms unfolding node_positions_def map_of_dict_of by (rule map_of_SomeD)
  then show ?thesis by (auto simp: in_set_enumerate_eq)
qed

lemma keys_positions:
  "keys (map (\<lambda>(i, n). (node_stage_id n, i)) (enumerate 0 ns)) = map node_stage_id ns"
  by (simp add: case_prod_beta comp_def enumerate_eq_zip map_snd_zip
      flip: map_map [of node_stage_id snd, unfolded comp_def])

lemma node_positions_None:
  "map_of (node_positions ns) k = None \<longleftrightarrow> k \<notin> node_stage_id ` set ns"
  unfolding node_positions_def map_of_dict_of map_of_eq_None_iff set_rev
  by (metis keys_positions list.set_map)

lemma node_positions_nth:
  assumes "distinct (map node_stage_id ns)" "i < length ns"
  shows "map_of (node_positions ns) (node_stage_id (ns ! i)) = Some i"
  using assms keys_positions [of ns] unfolding node_positions_def
  by (subst map_of_dict_of_distinct) (auto simp: in_set_enumerate_eq intro!: map_of_is_SomeI
      intro: rev_image_eqI [of "(i, ns ! i)"])

lemma first_surviving_le:
  "first_surviving (node_positions ns) (length ns) rest \<le> length ns"
  by (induction rest) (auto split: option.splits dest!: map_of_node_positions)

lemma first_surviving_spec:
  "first_surviving ps dflt rest = i \<Longrightarrow>
     (\<exists>k < length rest. map_of ps (node_stage_id (rest ! k)) = Some i
        \<and> (\<forall>l < k. map_of ps (node_stage_id (rest ! l)) = None))
     \<or> i = dflt \<and> (\<forall>l < length rest. map_of ps (node_stage_id (rest ! l)) = None)"
proof (induction rest)
  case (Cons n ns)
  show ?case
  proof (cases "map_of ps (node_stage_id n)")
    case None
    then have "first_surviving ps dflt ns = i" using Cons.prems by simp
    from Cons.IH [OF this] show ?thesis
    proof (elim disjE exE conjE)
      fix k
      assume "k < length ns" "map_of ps (node_stage_id (ns ! k)) = Some i"
        "\<forall>l < k. map_of ps (node_stage_id (ns ! l)) = None"
      then show ?thesis
        using None by (intro disjI1 exI [of _ "Suc k"]) (simp add: All_less_Suc2)
    next
      assume "i = dflt" "\<forall>l < length ns. map_of ps (node_stage_id (ns ! l)) = None"
      then show ?thesis using None by (simp add: All_less_Suc2)
    qed
  next
    case (Some i')
    with Cons.prems show ?thesis by (intro disjI1 exI [of _ 0]) simp
  qed
qed simp

end
