(* ===== verification/Template_Properties.thy ===== *)
theory Template_Properties
  imports Template "HOL-Library.Multiset"
begin

text \<open>
  What the template model guarantees: accepted templates survive dumping, every node resolves
  to a module, and the assignment of definition IDs is complete, stable and total. The sample
  template is the concrete input of the witnesses.
\<close>

section \<open>A sample document\<close>

text \<open>A small experiment: one stage and one call of one service, the call without an ID.\<close>

definition sample_hash :: string where
  "sample_hash = replicate 64 CHR ''a''"

definition sample_errors :: error_policy where
  "sample_errors = error_policy.make 2 (NInt 0) OnExhaustedSkip"

definition sample_stage :: stage_definition where
  "sample_stage = stage_definition.make (Some (uuid_str 1))
     (module_reference.make ''train'' ''1.0'' sample_hash) [(''rate'', JInt 3)] (Some (NInt 30))
     sample_errors None (Some True)"

definition sample_call :: service_call_definition where
  "sample_call = service_call_definition.make None (uuid_str 2) []
     None sample_errors None"

definition sample_service :: service_definition where
  "sample_service = service_definition.make (Some (uuid_str 2))
     (module_reference.make ''cache'' ''2.1'' sample_hash) []
     (heartbeat_policy.make (NInt 1) (NInt 5)) (NInt 10) TimeoutRestart False sample_errors"

definition sample_template :: experiment_template where
  "sample_template = experiment_template.make 2 ''demo'' 2 1 (NInt 60) (NInt 5)
     [StageNode sample_stage, CallNode sample_call] [sample_service]
     [resource_definition.make ''data'' ''/data'' None]
     (unknown_state_policy.make (NInt 30) UnknownPause 3 LimitStop)
     (snapshot_policy.make AfterStage 2) (storage_policy.make 0)
     (logging_policy.make (NInt 5) None 0 (NInt 1))"

definition sample_document :: json where
  "sample_document = dump_template sample_template"

lemma id_field_uuid_str: "n < uuid_limit \<Longrightarrow> id_field (JStr (uuid_str n)) = Inr (uuid_str n)"
  unfolding id_field_def embed.simps require_text_uuid_str by (simp add: uuid_int_str)

lemma sample_ids [simp]:
  "id_field (JStr (uuid_str (Suc 0))) = Inr (uuid_str (Suc 0))"
  "id_field (JStr (uuid_str 2)) = Inr (uuid_str 2)"
  by (simp_all add: id_field_uuid_str uuid_limit_def)

lemma number_field_int [simp]: "0 \<le> n \<Longrightarrow> number_field (JInt n) = Inr (NInt n)"
  by (simp add: number_field_def)

lemma positive_number_int [simp]: "0 < n \<Longrightarrow> positive_number (JInt n) = Inr (NInt n)"
  by (simp add: positive_number_def)

lemma int_from_int [simp]: "lo \<le> n \<Longrightarrow> int_from lo (JInt n) = Inr n"
  by (simp add: int_from_Inr)

lemma object_value_ok:
  "json_height (JObj d) \<le> 32 \<Longrightarrow> json_printable (JObj d) \<Longrightarrow> object_value (JObj d) = Inr d"
  using object_value_Inr by blast

lemmas evaluate_model = field_def opt_field_def no_extra_def policy_makes nullable_not_null
  parse_module_reference_def dump_module_reference_def boolean_value.simps literal_value.simps
  object_value_ok name_in_def

lemma sample_hash_ok [simp]: "module_hash (JStr sample_hash) = Inr sample_hash"
proof -
  have "hex_val CHR ''a'' \<noteq> None" by code_simp
  then show ?thesis by (simp add: module_hash_Inr sample_hash_def list_all_iff)
qed

lemma sample_names [simp]:
  "component_text (JStr ''train'') = Inr ''train''"
  "component_text (JStr ''1.0'') = Inr ''1.0''"
  "component_text (JStr ''cache'') = Inr ''cache''"
  "component_text (JStr ''2.1'') = Inr ''2.1''"
  "resource_name (JStr ''data'') = Inr ''data''"
  "text_value (JStr ''/data'') = Inr ''/data''"
  "text_value (JStr ''demo'') = Inr ''demo''"
  by code_simp+

lemma sample_errors_ok [simp]: "parse_error_policy (dump_error_policy sample_errors) = Inr sample_errors"
  by (simp add: evaluate_model parse_error_policy_def dump_error_policy_def sample_errors_def
      exhausted_names_def del: v_ap_Inr field_Inr no_extra_Inr)

lemma sample_stage_ok [simp]:
  "parse_stage_definition (dump_stage_definition sample_stage) = Inr sample_stage"
  by (simp add: evaluate_model parse_stage_definition_def dump_stage_definition_def
      sample_stage_def stage_definition.make_def del: v_ap_Inr field_Inr no_extra_Inr)

lemma sample_call_ok [simp]:
  "parse_service_call (dump_service_call sample_call) = Inr sample_call"
  by (simp add: evaluate_model parse_service_call_def dump_service_call_def
      sample_call_def service_call_definition.make_def del: v_ap_Inr field_Inr no_extra_Inr)

lemma sample_nodes_ok [simp]:
  "parse_dag_node (dump_stage_definition sample_stage) = Inr (StageNode sample_stage)"
  "parse_dag_node (dump_service_call sample_call) = Inr (CallNode sample_call)"
  using service_call_not_stage [OF sample_call_ok] by (simp_all add: parse_dag_node_def)

lemma sample_service_ok [simp]:
  "parse_service_definition (dump_service_definition sample_service) = Inr sample_service"
  by (simp add: evaluate_model parse_service_definition_def dump_service_definition_def
      parse_heartbeat_policy_def dump_heartbeat_policy_def command_timeout_names_def
      sample_service_def service_definition.make_def del: v_ap_Inr field_Inr no_extra_Inr)

lemma sample_logging_ok:
  "parse_logging_policy (dump_logging_policy (logging_policy.make (NInt 5) None 0 (NInt 1)))
     = Inr (logging_policy.make (NInt 5) None 0 (NInt 1))"
  by (simp add: evaluate_model parse_logging_policy_def dump_logging_policy_def
      logging_policy.make_def normalize_opening_options_def validate_journal_limits_def
      del: v_ap_Inr field_Inr no_extra_Inr)

lemmas evaluate_policies = parse_unknown_state_def dump_unknown_state_def unknown_names_def
  limit_names_def parse_snapshot_policy_def dump_snapshot_policy_def snapshot_mode_names_def
  parse_storage_policy_def dump_storage_policy_def parse_resource_def dump_resource_def
  resource_definition.make_def

lemma sample_fields: "template_fields (dump_template_fields sample_template) = Inr sample_template"
  by (simp add: evaluate_model evaluate_policies sample_template_def template_simps
      nonempty_list_def dump_list_def sample_logging_ok int_exactly.simps
      del: v_ap_Inr field_Inr no_extra_Inr)

lemma uuid_str_neq [simp]: "uuid_str (Suc 0) \<noteq> uuid_str 2"
  using uuid_int_str [of 1] uuid_int_str [of 2] by (auto simp: uuid_limit_def)

lemma sample_references: "validate_references sample_template = Inr ()"
  by (simp add: validate_references_iff sample_template_def experiment_template.make_def
      stage_ids_def service_ids_def sample_stage_def sample_call_def sample_service_def
      stage_definition.make_def service_call_definition.make_def service_definition.make_def
      resource_definition.make_def)

lemma sample_errors_document:
  "json_height (dump_error_policy sample_errors) = 1" "json_printable (dump_error_policy sample_errors)"
  by (simp_all add: dump_error_policy_def sample_errors_def error_policy.make_def name_in_def
      exhausted_names_def)

lemma sample_document_tame:
  "json_height sample_document \<le> 32" "json_printable sample_document"
  by (simp_all add: sample_document_def dump_template_def dump_template_fields_def
      sample_template_def experiment_template.make_def dump_list_def sample_stage_def
      sample_call_def sample_service_def policy_makes stage_definition.make_def
      service_call_definition.make_def service_definition.make_def resource_definition.make_def
      dump_stage_definition_def dump_service_call_def dump_service_definition_def
      dump_module_reference_def dump_heartbeat_policy_def dump_resource_def
      dump_unknown_state_def dump_snapshot_policy_def dump_storage_policy_def
      dump_logging_policy_def logging_policy.make_def sample_errors_document name_in_def
      command_timeout_names_def unknown_names_def limit_names_def snapshot_mode_names_def)

lemma sample_parses: "parse_template sample_document = Inr sample_template"
proof -
  have "object_value sample_document = Inr (dump_template_fields sample_template)"
    using sample_document_tame unfolding sample_document_def dump_template_def
    by (rule object_value_ok)
  then show ?thesis
    by (simp add: parse_template_def sample_fields sample_references)
qed


section \<open>Properties\<close>

lemma parse_module_reference_form:
  assumes "parse_module_reference j = Inr m"
  shows "safe_component (ref_name m) \<and> safe_component (ref_version m)
     \<and> py_strip (ref_name m) = ref_name m \<and> py_strip (ref_version m) = ref_version m
     \<and> length (ref_hash m) = 64"
  using assms
  by (auto simp: parse_module_reference_def parse_object module_reference.make_def
      component_text_Inr module_hash_Inr)

lemma parsed_list_element:
  "list_of f j = Inr xs \<Longrightarrow> x \<in> set xs \<Longrightarrow> \<exists>i. f i = Inr x"
  by (auto simp: list_of_Inr v_map_Inr list_all2_conv_all_nth in_set_conv_nth)

lemma parsed_template_lists:
  assumes "parse_template j = Inr t"
  shows "n \<in> set (stages t) \<Longrightarrow> \<exists>i. parse_dag_node i = Inr n"
    and "s \<in> set (services t) \<Longrightarrow> \<exists>i. parse_service_definition i = Inr s"
    and "stages t \<noteq> []"
  using assms
  by (auto simp: parse_template_def template_fields_def experiment_template.make_def
      nonempty_list_Inr parsed_list_element)

text \<open>
  C39. A template that was accepted is accepted again in its dumped form and gives the same
  template, the dumped form being no deeper than the JSON depth limit and holding only
  integers that can be printed.
\<close>

theorem template_roundtrip:
  assumes "parse_template j = Inr t"
  shows "parse_template (dump_template t) = Inr t
    \<and> json_height (dump_template t) \<le> 32 \<and> json_printable (dump_template t)"
proof
  show "parse_template (dump_template t) = Inr t"
    by (rule template_codec.reparse [OF assms])
  then show "json_height (dump_template t) \<le> 32 \<and> json_printable (dump_template t)"
    by (auto simp: parse_template_def object_value_Inr dump_template_def
        simp del: json_height.simps json_printable.simps)
qed

theorem template_roundtrip_witness:
  "parse_template (dump_template sample_template) = Inr sample_template
   \<and> json_height (dump_template sample_template) \<le> 32"
  using template_roundtrip [OF sample_parses] by simp

text \<open>
  In an accepted template every DAG node resolves to a module reference (a service call
  to the module of the service it names), whose name and version are stripped and safe as
  path components and whose hash has 64 characters.
\<close>

theorem template_modules_resolve:
  assumes "parse_template j = Inr t" "n \<in> set (stages t)"
  shows "\<exists>m. resolve_module t n = Inr m \<and> safe_component (ref_name m)
     \<and> safe_component (ref_version m) \<and> py_strip (ref_name m) = ref_name m
     \<and> py_strip (ref_version m) = ref_version m \<and> length (ref_hash m) = 64"
proof (cases n)
  case (StageNode s)
  obtain i where "parse_dag_node i = Inr n" using parsed_template_lists(1) [OF assms] by blast
  then have "parse_stage_definition i = Inr s"
    using StageNode by (auto simp: parse_dag_node_def split: sum.splits if_splits)
  then obtain k where "parse_module_reference k = Inr (sd_module s)"
    by (auto simp: parse_stage_definition_def parse_object stage_definition.make_def)
  then show ?thesis
    using StageNode parse_module_reference_form by (simp add: resolve_module_def)
next
  case (CallNode c)
  obtain s where s: "s \<in> set (services t)" "resolve_module t n = Inr (sv_module s)"
    using resolve_module_call [OF parse_template_references [OF assms(1)]] assms(2) CallNode
    by metis
  then obtain i where "parse_service_definition i = Inr s"
    using parsed_template_lists(2) [OF assms(1)] by blast
  then obtain k where "parse_module_reference k = Inr (sv_module s)"
    by (auto simp: parse_service_definition_def parse_object service_definition.make_def)
  then show ?thesis using s(2) parse_module_reference_form by simp
qed

theorem template_modules_resolve_witness:
  "\<exists>m. resolve_module sample_template (CallNode sample_call) = Inr m \<and> safe_component (ref_name m)"
  using template_modules_resolve [OF sample_parses, of "CallNode sample_call"]
  by (auto simp: sample_template_def experiment_template.make_def)

lemma assigned_ids_complete_facts:
  assumes "assign_definition_ids fresh t = Inr u"
  shows "(\<forall>n \<in> set (stages u). node_stage_id n \<noteq> None)
     \<and> (\<forall>s \<in> set (services u). sv_service_id s \<noteq> None)"
    and "distinct (stage_ids u @ service_ids u)"
    and "length (stages u) = length (stages t)
     \<and> (\<forall>i < length (stages t). \<forall>k. node_stage_id (stages t ! i) = Some k
          \<longrightarrow> stages u ! i = stages t ! i)"
    and "assign_definition_ids other u = Inr u"
proof -
  note facts = assign_definition_ids_Inr [OF assms]
  show "(\<forall>n \<in> set (stages u). node_stage_id n \<noteq> None)
     \<and> (\<forall>s \<in> set (services u). sv_service_id s \<noteq> None)"
    using facts by blast
  show "distinct (stage_ids u @ service_ids u)"
    using facts(3) by (simp add: validate_references_iff)
  show "length (stages u) = length (stages t)
     \<and> (\<forall>i < length (stages t). \<forall>k. node_stage_id (stages t ! i) = Some k
          \<longrightarrow> stages u ! i = stages t ! i)"
    using facts(4) by (auto simp: list_all2_conv_all_nth)
  show "assign_definition_ids other u = Inr u"
    using facts(1-3) by (simp add: assign_definition_ids_def assign_ids_same)
qed


lemma assign_ids_used:
  assumes "\<And>i x. get (put i x) = Some i" "assign_ids get put fresh n xs = (ys, m)"
  shows "n \<le> m \<and> mset (some_values (map get ys))
     = mset (some_values (map get xs)) + mset (map fresh [n..<m])"
  using assms(2)
proof (induction xs arbitrary: n ys)
  case Nil
  then show ?case by simp
next
  case (Cons x xs)
  show ?case
  proof (cases "get x")
    case None
    then obtain zs where "assign_ids get put fresh (Suc n) xs = (zs, m)" "ys = put (fresh n) x # zs"
      using Cons.prems by (auto split: prod.splits)
    with Cons.IH [of "Suc n" zs] None show ?thesis
      by (auto simp: assms(1) upt_rec [of n])
  next
    case (Some i)
    then obtain zs where "assign_ids get put fresh n xs = (zs, m)" "ys = x # zs"
      using Cons.prems by (auto split: prod.splits)
    with Cons.IH [of n zs] Some show ?thesis by simp
  qed
qed

lemma assign_ids_calls:
  assumes "assign_ids node_stage_id set_node_id fresh n xs = (ys, m)" "CallNode c \<in> set ys"
  shows "\<exists>c'. CallNode c' \<in> set xs \<and> sc_service_id c' = sc_service_id c"
proof -
  obtain i where i: "i < length xs" "ys ! i = CallNode c"
    and "if node_stage_id (xs ! i) \<noteq> None then ys ! i = xs ! i
         else \<exists>k. ys ! i = set_node_id (fresh k) (xs ! i)"
    using assign_ids_pointwise [of node_stage_id set_node_id fresh xs n] assms
    by (auto simp: list_all2_conv_all_nth in_set_conv_nth)
  then have "\<exists>c'. xs ! i = CallNode c' \<and> sc_service_id c' = sc_service_id c"
    by (cases "xs ! i") (auto split: if_splits)
  then show ?thesis using i by (metis nth_mem)
qed

text \<open>
  With a generator of fresh IDs (no ID twice, none in use) the assignment of a valid
  template always succeeds.
\<close>

theorem assigned_ids_exist:
  assumes valid: "validate_references t = Inr ()" and inj: "inj fresh"
    and unused: "\<forall>k. fresh k \<notin> set (stage_ids t @ service_ids t)"
  shows "\<exists>u. assign_definition_ids fresh t = Inr u"
proof -
  obtain ns n where ns: "assign_ids node_stage_id set_node_id fresh 0 (stages t) = (ns, n)"
    by (cases "assign_ids node_stage_id set_node_id fresh 0 (stages t)") auto
  obtain vs m where vs: "assign_ids sv_service_id (\<lambda>i s. s\<lparr>sv_service_id := Some i\<rparr>) fresh n
      (services t) = (vs, m)"
    by (cases "assign_ids sv_service_id (\<lambda>i s. s\<lparr>sv_service_id := Some i\<rparr>) fresh n (services t)") auto
  let ?u = "t\<lparr>stages := ns, services := vs\<rparr>"
  have sg: "mset (stage_ids ?u) = mset (stage_ids t) + mset (map fresh [0..<n])"
    using assign_ids_used [OF _ ns] by (simp add: stage_ids_def)
  have sv: "n \<le> m" "mset (service_ids ?u) = mset (service_ids t) + mset (map fresh [n..<m])"
    using assign_ids_used [OF _ vs] by (simp_all add: service_ids_def)
  have "[0..<m] = [0..<n] @ [n..<m]"
    using sv(1) upt_add_eq_append [of 0 n "m - n"] by simp
  then have all: "mset (stage_ids ?u @ service_ids ?u)
      = mset ((stage_ids t @ service_ids t) @ map fresh [0..<m])"
    using sg sv(2) by (simp only: mset_append map_append) (simp add: ac_simps)
  have "distinct ((stage_ids t @ service_ids t) @ map fresh [0..<m])"
    using valid inj unused by (auto simp: validate_references_iff distinct_map inj_on_def inj_def)
  then have dist: "distinct (stage_ids ?u @ service_ids ?u)"
    using mset_eq_imp_distinct_iff [OF all] by simp
  have calls: "sc_service_id c \<in> set (service_ids ?u)" if cc: "CallNode c \<in> set ns" for c
  proof -
    obtain c' where "CallNode c' \<in> set (stages t)" "sc_service_id c' = sc_service_id c"
      using assign_ids_calls [OF ns cc] by blast
    then have "sc_service_id c \<in># mset (service_ids t)"
      using valid by (auto simp: validate_references_iff)
    then have "sc_service_id c \<in># mset (service_ids ?u)"
      unfolding sv(2) by simp
    then show ?thesis by simp
  qed
  have "validate_references ?u = Inr ()"
    using dist calls valid by (auto simp: validate_references_iff)
  then show ?thesis by (simp add: assign_definition_ids_def ns vs)
qed

definition sample_fresh :: "nat \<Rightarrow> string" where
  "sample_fresh k = replicate k CHR ''f''"

lemma sample_template_fields:
  "stages sample_template = [StageNode sample_stage, CallNode sample_call]"
  "services sample_template = [sample_service]"
  "resources sample_template = [resource_definition.make ''data'' ''/data'' None]"
  by (simp_all add: sample_template_def experiment_template.make_def)

lemma sample_node_ids [simp]:
  "sd_stage_id sample_stage = Some (uuid_str (Suc 0))" "sc_stage_id sample_call = None"
  "sc_service_id sample_call = uuid_str 2" "sv_service_id sample_service = Some (uuid_str 2)"
  by (simp_all add: sample_stage_def sample_call_def sample_service_def stage_definition.make_def
      service_call_definition.make_def service_definition.make_def)

lemma sample_all_ids:
  "set (stage_ids sample_template @ service_ids sample_template) = {uuid_str (Suc 0), uuid_str 2}"
  by (auto simp: stage_ids_def service_ids_def sample_template_fields)

lemma sample_fresh_facts: "inj sample_fresh"
    "\<forall>k. sample_fresh k \<notin> set (stage_ids sample_template @ service_ids sample_template)"
proof -
  show "inj sample_fresh"
    by (rule injI) (metis length_replicate sample_fresh_def)
  have dash: "CHR ''-'' \<in> set (uuid_str n)" for n
    by (simp add: uuid_str_def dashed_def)
  have "CHR ''-'' \<notin> set (sample_fresh k)" for k
    by (simp add: sample_fresh_def)
  with dash have "sample_fresh k \<noteq> uuid_str n" for n k
    by metis
  then show "\<forall>k. sample_fresh k \<notin> set (stage_ids sample_template @ service_ids sample_template)"
    unfolding sample_all_ids by blast
qed

theorem assigned_ids_exist_witness:
  "\<exists>u. assign_definition_ids sample_fresh sample_template = Inr u"
  by (rule assigned_ids_exist [OF sample_references sample_fresh_facts])

lemma sample_assigned:
  "assign_definition_ids sample_fresh sample_template
     = Inr (sample_template\<lparr>stages := [StageNode sample_stage, set_node_id [] (CallNode sample_call)],
         services := [sample_service]\<rparr>)"
proof -
  have ids: "uuid_str n \<noteq> []" "[] \<noteq> uuid_str n" for n using length_uuid_str [of n] by auto
  have "validate_references (sample_template\<lparr>stages := [StageNode sample_stage,
      set_node_id [] (CallNode sample_call)], services := [sample_service]\<rparr>) = Inr ()"
    by (simp add: validate_references_iff stage_ids_def service_ids_def ids
        sample_template_fields resource_definition.make_def)
  then show ?thesis
    by (simp add: assign_definition_ids_def sample_template_fields sample_fresh_def Let_def)
qed


end
