(* ===== verification/Reload_Properties.thy ===== *)
theory Reload_Properties
  imports Reload Template_Properties
begin

text \<open>
  What the reload model guarantees: where the DAG cursor lands after a reload, which results
  are repeated, and what an accepted candidate may change.
\<close>

section \<open>The layout\<close>

lemma reload_layout_Inr:
  "reload_layout_of p c pos adv = Inr l \<longleftrightarrow>
     (let old = services_by_id p; new = services_by_id c; changed = changed_service_ids old new;
          prefix = common_prefix changed (stages p) (stages c);
          on = pos - 1 + of_bool adv;
          next = first_surviving (node_positions (stages c)) (length (stages c))
                   (drop (nat on) (stages p))
      in 0 \<le> on \<and> on \<le> int (length (stages p))
         \<and> l = \<lparr>old_services = old, new_services = new, changed_services = changed,
               old_stages = stages p, new_stages = stages c, prefix_length = prefix,
               next_position = (if on = int prefix then prefix else next)\<rparr>)"
  by (auto simp: reload_layout_of_def Let_def)

lemma reload_layout_facts:
  assumes "reload_layout_of p c pos adv = Inr l"
  shows "old_stages l = stages p" "new_stages l = stages c"
    and "prefix_length l = common_prefix (changed_services l) (stages p) (stages c)"
    and "prefix_length l \<le> length (stages p)" "prefix_length l \<le> length (stages c)"
    and "next_position l \<le> length (stages c)"
  using assms common_prefix_le first_surviving_le [of "stages c"]
  by (simp_all add: reload_layout_Inr Let_def)

lemma reload_layout_next:
  assumes "reload_layout_of p c pos adv = Inr l"
  shows "0 \<le> pos - 1 + of_bool adv" "pos - 1 + of_bool adv \<le> int (length (stages p))"
    and "next_position l = (if pos - 1 + of_bool adv = int (prefix_length l) then prefix_length l
       else first_surviving (node_positions (stages c)) (length (stages c))
              (drop (nat (pos - 1 + of_bool adv)) (stages p)))"
  using assms unfolding reload_layout_Inr Let_def by (clarify, simp)+

definition completed_invalidated :: "reload_layout \<Rightarrow> definition_id list \<Rightarrow> bool" where
  "completed_invalidated l completed \<longleftrightarrow>
     (\<exists>i. prefix_length l \<le> i \<and> i < length (old_stages l)
        \<and> node_stage_id (old_stages l ! i) \<in> set completed)"

lemma completed_invalidated_iff:
  "list_ex (List.member (map node_stage_id (drop (prefix_length l) (old_stages l)))) completed
     \<longleftrightarrow> completed_invalidated l completed"
proof -
  have "x \<in> set (map node_stage_id (drop n ns)) \<longleftrightarrow>
      (\<exists>i. n \<le> i \<and> i < length ns \<and> node_stage_id (ns ! i) = x)" for x n ns
  proof
    assume "x \<in> set (map node_stage_id (drop n ns))"
    then obtain k where "k < length ns - n" "x = node_stage_id (ns ! (n + k))"
      by (auto simp: in_set_conv_nth)
    then show "\<exists>i. n \<le> i \<and> i < length ns \<and> node_stage_id (ns ! i) = x"
      by (intro exI [of _ "n + k"]) auto
  next
    assume "\<exists>i. n \<le> i \<and> i < length ns \<and> node_stage_id (ns ! i) = x"
    then obtain i where "n \<le> i" "i < length ns" "node_stage_id (ns ! i) = x" by blast
    then have "drop n ns ! (i - n) = ns ! i" "i - n < length (drop n ns)"
      "node_stage_id (ns ! i) = x" by simp_all
    then show "x \<in> set (map node_stage_id (drop n ns))"
      by (metis nth_mem set_map image_eqI)
  qed
  then show ?thesis
    unfolding list_ex_iff completed_invalidated_def List.member_iff by metis
qed

lemma reload_cursor_next:
  assumes "reload_layout_of p c pos adv = Inr l"
  shows "cursor_next (reload_cursor_of l completed)
     = (if completed_invalidated l completed then min (prefix_length l) (next_position l)
        else next_position l)"
  using reload_layout_facts(2,5,6) [OF assms]
  by (auto simp: reload_cursor_of_def Let_def completed_invalidated_iff)

section \<open>Cursor properties\<close>

text \<open>
  Reloading the template that is already applied changes nothing: no service differs, the
  whole DAG is the preserved prefix, nothing is rewound and the cursor stays on the node that
  was next, whatever results are complete.
\<close>

theorem reload_same_template:
  assumes "distinct (map node_stage_id (stages t))"
    and "0 \<le> pos - 1 + of_bool adv" "pos - 1 + of_bool adv \<le> int (length (stages t))"
  shows "\<exists>l. reload_layout_of t t pos adv = Inr l \<and> changed_services l = []
     \<and> prefix_length l = length (stages t)
     \<and> cursor_next (reload_cursor_of l completed) = nat (pos - 1 + of_bool adv)
     \<and> \<not> cursor_rewind (reload_cursor_of l completed)"
proof -
  let ?on = "nat (pos - 1 + of_bool adv)"
  let ?next = "first_surviving (node_positions (stages t)) (length (stages t)) (drop ?on (stages t))"
  have nxt: "?next = ?on"
  proof (cases "?on < length (stages t)")
    case True
    then show ?thesis
      using node_positions_nth [OF assms(1) True] by (simp flip: Cons_nth_drop_Suc)
  next
    case False
    then have "?on = length (stages t)" using assms(2,3) by linarith
    then show ?thesis by simp
  qed
  define l where "l = \<lparr>old_services = services_by_id t, new_services = services_by_id t,
    changed_services = [], old_stages = stages t, new_stages = stages t,
    prefix_length = length (stages t), next_position = ?on\<rparr>"
  have layout: "reload_layout_of t t pos adv = Inr l"
    unfolding reload_layout_Inr Let_def changed_service_ids_refl common_prefix_refl nxt l_def
    using assms(2,3) by auto
  have "?on \<le> length (stages t)" using assms(2,3) by linarith
  then show ?thesis
    using layout by (intro exI [of _ l]) (auto simp: l_def reload_cursor_of_def Let_def)
qed

lemma sample_distinct: "distinct (map node_stage_id (stages sample_template))"
  by (simp add: sample_template_fields)

theorem reload_same_template_witness:
  "\<exists>l. reload_layout_of sample_template sample_template 2 False = Inr l
     \<and> cursor_next (reload_cursor_of l [Some (uuid_str 1)]) = 1"
  using reload_same_template [OF sample_distinct, of 2 False "[Some (uuid_str 1)]"]
  by (auto simp: sample_template_fields)

text \<open>
  C35. The cursor after a reload is always a valid one for the new template: between 0 and the
  number of nodes, an advance pending exactly at the end, and (the DAG being nonempty) with
  a one-based position inside the DAG that stands for the same next node.
\<close>

theorem reload_cursor_valid:
  assumes "reload_layout_of p c pos adv = Inr l" "stages c \<noteq> []"
  shows "let cur = reload_cursor_of l completed in
     cursor_next cur \<le> length (stages c)
     \<and> (cursor_pending_advance cur \<longleftrightarrow> cursor_next cur = length (stages c))
     \<and> 1 \<le> cursor_stage_position cur \<and> cursor_stage_position cur \<le> length (stages c)
     \<and> cursor_stage_position cur - 1 + of_bool (cursor_pending_advance cur) = cursor_next cur"
  using reload_layout_facts [OF assms(1)] assms(2)
  by (cases "stages c") (auto simp: reload_cursor_of_def Let_def)

definition sample_shorter :: experiment_template where
  "sample_shorter = sample_template\<lparr>stages := [StageNode sample_stage]\<rparr>"

lemma sample_shorter_layout:
  "\<exists>l. reload_layout_of sample_template sample_shorter 2 False = Inr l"
  unfolding reload_layout_Inr Let_def
  by (simp add: sample_shorter_def sample_template_fields)

theorem reload_cursor_valid_witness:
  "\<exists>l. reload_layout_of sample_template sample_shorter 2 False = Inr l
     \<and> cursor_stage_position (reload_cursor_of l []) = 1"
proof -
  obtain l where l: "reload_layout_of sample_template sample_shorter 2 False = Inr l"
    using sample_shorter_layout by blast
  have "stages sample_shorter \<noteq> []" "length (stages sample_shorter) = 1"
    by (simp_all add: sample_shorter_def)
  with reload_cursor_valid [OF l, of "[]"] l show ?thesis
    by (auto simp: Let_def)
qed

text \<open>
  C36. When a completed node lies at or after the first difference, the reload moves the cursor
  back to that difference or earlier: every node in front of the new cursor is unchanged, has
  its ID among the preserved ones, and calls only unchanged services.
\<close>

theorem reload_repeats_invalidated:
  assumes layout: "reload_layout_of p c pos adv = Inr l"
    and redo: "i < length (stages p)" "prefix_length l \<le> i"
      "node_stage_id (stages p ! i) \<in> set completed"
    and before: "j < cursor_next (reload_cursor_of l completed)"
  shows "j < length (stages p) \<and> j < length (stages c)
     \<and> \<not> node_changed (changed_services l) (stages p ! j) (stages c ! j)
     \<and> node_stage_id (stages c ! j) \<in> set (cursor_preserved (reload_cursor_of l completed))"
proof -
  note facts = reload_layout_facts [OF layout]
  have "completed_invalidated l completed"
    using redo by (auto simp: completed_invalidated_def facts)
  then have j: "j < prefix_length l"
    using before by (simp add: reload_cursor_next [OF layout])
  have "\<not> node_changed (changed_services l) (stages p ! j) (stages c ! j)"
    using common_prefix_unchanged j facts(3) by metis
  moreover have "node_stage_id (stages c ! j) \<in> set (map node_stage_id (take (prefix_length l) (stages c)))"
    using j facts(5) nth_mem [of j "take (prefix_length l) (stages c)"] by simp
  ultimately show ?thesis
    using j facts(4,5) by (simp add: reload_cursor_of_def Let_def facts(2))
qed


text \<open>
  Samples: the template with its first node's timeout changed, and with the first node removed.
\<close>

definition sample_edited :: experiment_template where
  "sample_edited = sample_template\<lparr>stages := [StageNode sample_stage,
     CallNode (sample_call\<lparr>sc_timeout := Some (NInt 9)\<rparr>)]\<rparr>"

definition sample_removed :: experiment_template where
  "sample_removed = sample_template\<lparr>stages := [CallNode sample_call]\<rparr>"

lemma sample_nodes_changed:
  "node_changed [] (CallNode sample_call) (CallNode (sample_call\<lparr>sc_timeout := Some (NInt 9)\<rparr>))"
  "node_changed [] (StageNode sample_stage) (CallNode sample_call)"
proof -
  have "dumps_sorted (pop_key ''snapshot_after'' (dump_service_call sample_call)) \<noteq>
      dumps_sorted (pop_key ''snapshot_after''
        (dump_service_call (sample_call\<lparr>sc_timeout := Some (NInt 9)\<rparr>)))"
    unfolding pop_key_def dump_service_call_def sample_call_def service_call_definition.make_def
    by simp
  then show "node_changed [] (CallNode sample_call) (CallNode (sample_call\<lparr>sc_timeout := Some (NInt 9)\<rparr>))"
    by (simp add: node_changed_def node_fingerprint_def)
  have "dumps_sorted (pop_key ''snapshot_after'' (dump_stage_definition sample_stage)) \<noteq>
      dumps_sorted (pop_key ''snapshot_after'' (dump_service_call sample_call))"
    unfolding pop_key_def dump_service_call_def sample_call_def service_call_definition.make_def
      dump_stage_definition_def sample_stage_def stage_definition.make_def
    by simp
  then show "node_changed [] (StageNode sample_stage) (CallNode sample_call)"
    by (simp add: node_changed_def node_fingerprint_def)
qed

lemma sample_edited_prefix:
  "common_prefix [] (stages sample_template) (stages sample_edited) = 1"
  "common_prefix [] (stages sample_template) (stages sample_removed) = 0"
  using sample_nodes_changed node_changed_refl
  by (simp_all add: sample_template_fields sample_edited_def sample_removed_def)

lemma sample_layouts:
  obtains l m where "reload_layout_of sample_template sample_edited 2 True = Inr l"
    "prefix_length l = 1" "next_position l = 2"
    "reload_layout_of sample_template sample_removed 2 False = Inr m"
    "prefix_length m = 0" "next_position m = 0"
proof -
  have same: "services_by_id sample_edited = services_by_id sample_template"
    "services_by_id sample_removed = services_by_id sample_template"
    by (simp_all add: services_by_id_def sample_edited_def sample_removed_def)
  have n: "length (stages sample_template) = 2" "length (stages sample_edited) = 2"
    "drop 2 (stages sample_template) = []"
    "drop (Suc 0) (stages sample_template) = [CallNode sample_call]"
    by (simp_all add: sample_template_fields sample_edited_def)
  have "map_of (node_positions (stages sample_removed)) None = Some 0"
    using node_positions_nth [of "stages sample_removed" 0] by (simp add: sample_removed_def)
  then show ?thesis
    using that unfolding reload_layout_Inr Let_def same changed_service_ids_refl
    by (simp add: sample_edited_prefix n)
qed

theorem reload_repeats_invalidated_witness:
  "\<exists>l. reload_layout_of sample_template sample_edited 2 True = Inr l
     \<and> \<not> node_changed (changed_services l) (stages sample_template ! 0) (stages sample_edited ! 0)"
proof -
  obtain l where l: "reload_layout_of sample_template sample_edited 2 True = Inr l"
    "prefix_length l = 1" "next_position l = 2"
    by (rule sample_layouts)
  have redo: "1 < length (stages sample_template)" "prefix_length l \<le> 1"
    "node_stage_id (stages sample_template ! 1) \<in> set [None]"
    by (simp_all add: sample_template_fields l(2))
  have "completed_invalidated l [None]"
    using redo reload_layout_facts(1) [OF l(1)] by (auto simp: completed_invalidated_def)
  then have "0 < cursor_next (reload_cursor_of l [None])"
    by (simp add: reload_cursor_next [OF l(1)] l(2,3))
  then show ?thesis using reload_repeats_invalidated [OF l(1) redo] l(1) by blast
qed

text \<open>
  When no completed node is invalidated, the cursor is kept as far as the new template
  allows: it stays at the end of the unchanged prefix when it was there, and otherwise goes to
  the first remaining node of the old template that the new one still has, the nodes passed
  over being gone; with none left, the cycle is at its end.
\<close>

theorem reload_resumes:
  assumes layout: "reload_layout_of p c pos adv = Inr l"
    and valid: "\<not> completed_invalidated l completed"
    and cursor: "n = cursor_next (reload_cursor_of l completed)" "on = nat (pos - 1 + of_bool adv)"
  shows "if on = prefix_length l then n = on
     else (\<exists>k. on \<le> k \<and> k < length (stages p) \<and> n < length (stages c)
             \<and> node_stage_id (stages c ! n) = node_stage_id (stages p ! k)
             \<and> (\<forall>i. on \<le> i \<and> i < k \<longrightarrow>
                    node_stage_id (stages p ! i) \<notin> node_stage_id ` set (stages c)))
          \<or> n = length (stages c)
             \<and> (\<forall>i. on \<le> i \<and> i < length (stages p) \<longrightarrow>
                    node_stage_id (stages p ! i) \<notin> node_stage_id ` set (stages c))"
proof (cases "on = prefix_length l")
  case True
  then have "pos - 1 + of_bool adv = int (prefix_length l)"
    using reload_layout_next(1) [OF layout] cursor(2) by linarith
  then show ?thesis
    using True valid cursor(1) reload_layout_next(3) [OF layout]
    by (simp add: reload_cursor_next [OF layout])
next
  case False
  let ?ps = "node_positions (stages c)" and ?rest = "drop on (stages p)"
  have range: "int on = pos - 1 + of_bool adv" "on \<le> length (stages p)"
    using reload_layout_next(1,2) [OF layout] cursor(2) by linarith+
  have n: "first_surviving ?ps (length (stages c)) ?rest = n"
  proof -
    have "pos - 1 + of_bool adv \<noteq> int (prefix_length l)" using False range by linarith
    then have "next_position l = first_surviving ?ps (length (stages c)) ?rest"
      using reload_layout_next(3) [OF layout] cursor(2) by presburger
    then show ?thesis using valid cursor(1) by (simp add: reload_cursor_next [OF layout])
  qed
  have gone: "k \<notin> node_stage_id ` set (stages c)" if "map_of ?ps k = None" for k
    using that by (auto simp: node_positions_None)
  from first_surviving_spec [OF n] show ?thesis
  proof (elim disjE exE conjE)
    fix k
    assume k: "k < length ?rest" "map_of ?ps (node_stage_id (?rest ! k)) = Some n"
      "\<forall>l < k. map_of ?ps (node_stage_id (?rest ! l)) = None"
    have "node_stage_id (stages p ! i) \<notin> node_stage_id ` set (stages c)"
      if "on \<le> i" "i < on + k" for i
      using k(1,3) that gone [of "node_stage_id (stages p ! i)"] by (auto dest: spec [of _ "i - on"])
    then show ?thesis
      using False k(1,2) map_of_node_positions [OF k(2)] range
      by (auto intro!: exI [of _ "on + k"])
  next
    assume k: "n = length (stages c)" "\<forall>l < length ?rest. map_of ?ps (node_stage_id (?rest ! l)) = None"
    have "node_stage_id (stages p ! i) \<notin> node_stage_id ` set (stages c)"
      if "on \<le> i" "i < length (stages p)" for i
      using k(2) that gone [of "node_stage_id (stages p ! i)"] by (auto dest: spec [of _ "i - on"])
    then show ?thesis using False k(1) by auto
  qed
qed

theorem reload_resumes_witness:
  "\<exists>l. reload_layout_of sample_template sample_removed 2 False = Inr l
     \<and> node_stage_id (stages sample_removed ! cursor_next (reload_cursor_of l []))
       = node_stage_id (stages sample_template ! 1)"
proof -
  obtain l where l: "reload_layout_of sample_template sample_removed 2 False = Inr l"
    "prefix_length l = 0" "next_position l = 0"
    by (rule sample_layouts)
  have none: "\<not> completed_invalidated l []" by (simp add: completed_invalidated_def)
  have n: "cursor_next (reload_cursor_of l []) = 0"
    by (simp add: reload_cursor_next [OF l(1)] none l(3))
  have len: "length (stages sample_template) = 2" "length (stages sample_removed) = 1"
    by (simp_all add: sample_template_fields sample_removed_def)
  from reload_resumes [OF l(1) none refl refl]
  obtain k where "Suc 0 \<le> k" "k < 2"
    "node_stage_id (stages sample_removed ! 0) = node_stage_id (stages sample_template ! k)"
    by (auto simp: n l(2) len)
  moreover from this have "k = 1" by simp
  ultimately show ?thesis using l(1) n by auto
qed

section \<open>Candidates\<close>

lemma update_definitions_fields:
  "k \<in> set fixed_template_keys \<Longrightarrow>
     map_of (dump_template_fields (t\<lparr>stages := ns, services := vs\<rparr>)) k
       = map_of (dump_template_fields t) k"
  by (auto simp: fixed_template_keys_def template_keys_def dump_template_fields_def)

lemma fixed_key_eq:
  "list_all (\<lambda>k. map_option dumps_sorted (map_of (dump_template_fields t) k)
                = map_option dumps_sorted (map_of (dump_template_fields u) k)) fixed_template_keys \<longleftrightarrow>
   schema_version t = schema_version u \<and> template_name t = template_name u \<and> cycles t = cycles u
   \<and> keep_attempts t = keep_attempts u
   \<and> dumps_sorted (json_of_number (start_timeout t)) = dumps_sorted (json_of_number (start_timeout u))
   \<and> dumps_sorted (json_of_number (runner_timeout_margin_seconds t))
       = dumps_sorted (json_of_number (runner_timeout_margin_seconds u))
   \<and> dumps_sorted (dump_list dump_resource (resources t))
       = dumps_sorted (dump_list dump_resource (resources u))
   \<and> dumps_sorted (dump_unknown_state (unknown_state t))
       = dumps_sorted (dump_unknown_state (unknown_state u))
   \<and> dumps_sorted (dump_snapshot_policy (snapshots t))
       = dumps_sorted (dump_snapshot_policy (snapshots u))
   \<and> dumps_sorted (dump_storage_policy (storage t)) = dumps_sorted (dump_storage_policy (storage u))
   \<and> dumps_sorted (dump_logging_policy (logging t)) = dumps_sorted (dump_logging_policy (logging u))"
  by (auto simp: fixed_template_keys_def template_keys_def dump_template_fields_def)

lemma dumps_sorted_number [simp]:
  "dumps_sorted (json_of_number m) = dumps_sorted (json_of_number n) \<longleftrightarrow> m = n"
  by (cases m; cases n) auto

lemma dumps_sorted_name [simp]:
  "dumps_sorted (name_in unknown_names a) = dumps_sorted (name_in unknown_names b) \<longleftrightarrow> a = b"
  "dumps_sorted (name_in limit_names c) = dumps_sorted (name_in limit_names d) \<longleftrightarrow> c = d"
  "dumps_sorted (name_in snapshot_mode_names e) = dumps_sorted (name_in snapshot_mode_names f)
     \<longleftrightarrow> e = f"
  subgoal by (cases a; cases b; simp add: name_in_def unknown_names_def)
  subgoal by (cases c; cases d; simp add: name_in_def limit_names_def)
  subgoal by (cases e; cases f; simp add: name_in_def snapshot_mode_names_def)
  done

lemma dumps_sorted_nullable [simp]:
  "dumps_sorted (dump_nullable JStr a) = dumps_sorted (dump_nullable JStr b) \<longleftrightarrow> a = b"
  "dumps_sorted (dump_nullable JInt c) = dumps_sorted (dump_nullable JInt d) \<longleftrightarrow> c = d"
  by (cases a; cases b; simp) (cases c; cases d; simp)

text \<open>The fields of two documents with the same distinct keys that print alike.\<close>

lemma dumps_sorted_same_keys:
  assumes same: "dumps_sorted (JObj d) = dumps_sorted (JObj e)"
    and "keys d = ks" "keys e = ks" "distinct ks"
  shows "list_all (\<lambda>k. map_option dumps_sorted (map_of d k) = map_option dumps_sorted (map_of e k)) ks"
proof -
  have "distinct (keys d)" "distinct (keys e)" using assms(2-4) by simp_all
  from dumps_sorted_fields [OF same this] show ?thesis unfolding list_all_iff by blast
qed

lemma dumps_sorted_policies:
  "dumps_sorted (dump_unknown_state a) = dumps_sorted (dump_unknown_state b) \<Longrightarrow> a = b"
  "dumps_sorted (dump_snapshot_policy c) = dumps_sorted (dump_snapshot_policy d) \<Longrightarrow> c = d"
  "dumps_sorted (dump_storage_policy e) = dumps_sorted (dump_storage_policy f) \<Longrightarrow> e = f"
  "dumps_sorted (dump_logging_policy g) = dumps_sorted (dump_logging_policy h) \<Longrightarrow> g = h"
  "dumps_sorted (dump_resource r) = dumps_sorted (dump_resource s) \<Longrightarrow> r = s"
  unfolding policy_dumps dump_logging_policy_def dump_resource_def
  by (drule dumps_sorted_same_keys, simp, simp, simp, simp)+

lemma dumps_sorted_resources:
  "dumps_sorted (dump_list dump_resource rs) = dumps_sorted (dump_list dump_resource ss) \<Longrightarrow> rs = ss"
  unfolding dump_list_def
  by (simp add: comp_def) (meson dumps_sorted_policies(5) inj_map_eq_map injI)

lemma fixed_keys_determine:
  assumes "list_all (\<lambda>k. map_option dumps_sorted (map_of (dump_template_fields t) k)
                = map_option dumps_sorted (map_of (dump_template_fields u) k)) fixed_template_keys"
  shows "t = u\<lparr>stages := stages t, services := services t\<rparr>"
  using assms unfolding fixed_key_eq
  by (intro experiment_template.equality) (auto dest: dumps_sorted_policies dumps_sorted_resources)

lemma assign_definition_ids_shape:
  "assign_definition_ids fresh t = Inr u \<Longrightarrow> u = t\<lparr>stages := stages u, services := services u\<rparr>"
  by (auto simp: assign_definition_ids_def Let_def split: prod.splits)

lemma definition_roles_lookup:
  "map_of (definition_roles t) i =
     (if i \<in> sv_service_id ` set (services t) then Some ServiceRole
      else if i \<in> node_stage_id ` set (stages t) then Some StageRole else None)"
proof -
  have const: "map_of (map (\<lambda>x. (f x, c)) xs) i = (if i \<in> f ` set xs then Some c else None)"
    for f :: "'c \<Rightarrow> definition_id" and c :: definition_role and xs
    by (induction xs) auto
  show ?thesis
    by (simp add: definition_roles_def map_of_dict_of rev_map map_add_def const)
qed

lemma reload_candidate_accepted_facts:
  assumes valid: "validate_references applied = Inr ()"
    and ok: "prepare_reload_candidate resolve fresh applied template = Inr t"
  shows "t = applied\<lparr>stages := stages t, services := services t\<rparr>"
    and "distinct (stage_ids t @ service_ids t)"
    and "set (stage_ids t) \<inter> set (service_ids applied) = {}
      \<and> set (service_ids t) \<inter> set (stage_ids applied) = {}"
proof -
  define tpl where "tpl = (if same_resources resolve (resources applied) (resources template)
    then template\<lparr>resources := resources applied\<rparr> else template)"
  have same: "list_all (\<lambda>k. map_option dumps_sorted (map_of (dump_template_fields tpl) k)
      = map_option dumps_sorted (map_of (dump_template_fields applied) k)) fixed_template_keys"
    and ids: "assign_definition_ids fresh tpl = Inr t"
    and roles: "\<forall>n \<in> set (stages t). dict_get (definition_roles applied) (node_stage_id n) StageRole
        = StageRole"
      "\<forall>s \<in> set (services t). dict_get (definition_roles applied) (sv_service_id s) ServiceRole
        = ServiceRole"
    using ok unfolding prepare_reload_candidate_def Let_def tpl_def [symmetric]
    by (auto simp: list_ex_iff list_all_iff split: if_splits)
  note tpl = fixed_keys_determine [OF same] and t = assign_definition_ids_shape [OF ids]
  show "t = applied\<lparr>stages := stages t, services := services t\<rparr>"
    using arg_cong [OF tpl, of "\<lambda>x. x\<lparr>stages := stages t, services := services t\<rparr>"] t by simp
  show "distinct (stage_ids t @ service_ids t)"
    using assign_definition_ids_Inr(3) [OF ids] by (simp add: validate_references_iff)
  have "i \<notin> set (service_ids applied)" if i: "i \<in> set (stage_ids t)" for i
  proof
    assume "i \<in> set (service_ids applied)"
    then have "map_of (definition_roles applied) (Some i) = Some ServiceRole"
      by (simp add: service_ids_def set_some_values definition_roles_lookup)
    then show False
      using i roles(1) by (auto simp: stage_ids_def set_some_values dict_get_def)
  qed
  moreover have "i \<notin> set (stage_ids applied)" if i: "i \<in> set (service_ids t)" for i
  proof
    assume stage: "i \<in> set (stage_ids applied)"
    then have "i \<notin> set (service_ids applied)"
      using valid by (auto simp: validate_references_iff)
    then have "map_of (definition_roles applied) (Some i) = Some StageRole"
      using stage
      by (auto simp: stage_ids_def service_ids_def set_some_values definition_roles_lookup)
    then show False
      using i roles(2) by (auto simp: service_ids_def set_some_values dict_get_def)
  qed
  ultimately show "set (stage_ids t) \<inter> set (service_ids applied) = {}
      \<and> set (service_ids t) \<inter> set (stage_ids applied) = {}"
    by blast
qed

text \<open>
  C37. An accepted reload candidate is the applied template with other stages and services: no
  other entry changes. All its IDs are distinct, and no ID of the applied template has changed
  from a stage to a service or back.
\<close>

theorem reload_candidate_accepted:
  assumes "validate_references applied = Inr ()"
    and "prepare_reload_candidate resolve fresh applied template = Inr t"
  shows "t = applied\<lparr>stages := stages t, services := services t\<rparr>
     \<and> distinct (stage_ids t @ service_ids t)
     \<and> set (stage_ids t) \<inter> set (service_ids applied) = {}
     \<and> set (service_ids t) \<inter> set (stage_ids applied) = {}"
  using reload_candidate_accepted_facts [OF assms] by blast

theorem reload_candidate_accepted_witness:
  "\<exists>t. prepare_reload_candidate id sample_fresh sample_template sample_template = Inr t
     \<and> t = sample_template\<lparr>stages := stages t, services := services t\<rparr>"
proof -
  have keep: "same_resources id (resources sample_template) (resources sample_template)"
    by (auto simp: same_resources_def list_all_iff set_zip)
  obtain t where t: "prepare_reload_candidate id sample_fresh sample_template sample_template = Inr t"
  proof -
    have "dict_get (definition_roles sample_template) (Some []) StageRole = StageRole"
      "dict_get (definition_roles sample_template) (Some (uuid_str (Suc 0))) StageRole = StageRole"
      "dict_get (definition_roles sample_template) (Some (uuid_str 2)) ServiceRole = ServiceRole"
      using uuid_str_neq length_uuid_str [of 2]
      by (auto simp: dict_get_def definition_roles_lookup sample_template_fields)
    then show ?thesis
      using that keep
      by (simp add: prepare_reload_candidate_def sample_assigned Let_def list_ex_iff)
  qed
  then show ?thesis using reload_candidate_accepted [OF sample_references t] by blast
qed

end
