(* ===== verification/Server_Commands.thy ===== *)
theory Server_Commands
  imports Boundary_Models Json_Text
begin

text \<open>
  Model of \<^verbatim>\<open>core/models/server_commands.py\<close> and \<^verbatim>\<open>core/models/server_receipts.py\<close>: the
  documents that cross the HTTP boundary and the two controller queues.

  A command or a chain is a record, parsed by \<open>parse_...\<close> and printed by \<open>dump_...\<close>
  (\<^verbatim>\<open>model_dump(exclude_none=True)\<close>); \<open>fresh\<close> gives the UUIDs generated for omitted IDs.
  Outcomes and receipts allow extra fields, so they keep their document: \<open>model_document\<close> is
  the dump of an accepted one, the model's own fields first, in order, and then the others.
\<close>

section \<open>Commands\<close>

datatype target_kind = StageTarget | ServiceTarget

definition target_kinds :: "(string \<times> target_kind) list" where
  "target_kinds = [(''stage'', StageTarget), (''service'', ServiceTarget)]"

record command_target =
  ct_kind :: target_kind
  ct_position :: int

definition starts_with :: "string \<Rightarrow> string \<Rightarrow> bool" where
  "starts_with s p = (take (length p) s = p)"

fun plain_object :: "json \<Rightarrow> json_object result" where
  "plain_object (JObj d) = Inr d"
| "plain_object _ = Inl ValueError"

definition parse_command_target :: "json \<Rightarrow> command_target result" where
  "parse_command_target j =
     res_bind (object_value j)
       (\<lambda>d. v_ap (v_ap (v_ap (Inr (\<lambda>k p _. command_target.make k p))
          (field d ''kind'' (literal_value target_kinds)))
          (field d ''position'' (int_from 1)))
          (no_extra d [''kind'', ''position'']))"

definition dump_command_target :: "command_target \<Rightarrow> json" where
  "dump_command_target t =
     JObj [(''kind'', JStr (case ct_kind t of StageTarget \<Rightarrow> ''stage'' | ServiceTarget \<Rightarrow> ''service'')),
           (''position'', JInt (ct_position t))]"

record server_command =
  cmd_id :: string
  cmd_name :: string
  cmd_args :: json_object
  cmd_target :: "command_target option"

definition command_keys :: "string list" where
  "command_keys = [''api_version'', ''command_id'', ''command'', ''args'', ''target'']"

text \<open>\<^verbatim>\<open>ServerCommand.detach\<close>: an empty target is removed.\<close>

definition detach_command :: "json \<Rightarrow> json_object result" where
  "detach_command j =
     res_bind (object_value j)
       (\<lambda>d. if list_ex (\<lambda>k. \<not> List.member command_keys k) (keys d) then Inl ValueError
            else case map_of d ''target'' of
                   None \<Rightarrow> Inr d
                 | Some t \<Rightarrow>
                     res_bind (object_value t)
                       (\<lambda>target. Inr (if target = [] then AList.delete ''target'' d else d)))"

definition lifecycle_commands :: "string list" where
  "lifecycle_commands = [''server.restart'', ''server.mode'', ''server.shutdown'']"

definition validate_lifecycle :: "server_command \<Rightarrow> unit result" where
  "validate_lifecycle c =
     (if \<not> starts_with (cmd_name c) ''server.'' then Inr ()
      else if \<not> List.member lifecycle_commands (cmd_name c) then Inl ValueError
      else if cmd_target c \<noteq> None then Inl ValueError
      else if (cmd_name c = ''server.restart'' \<or> cmd_name c = ''server.shutdown'') \<and> cmd_args c \<noteq> []
           then Inl ValueError
      else if cmd_name c = ''server.mode'' \<and>
              \<not> (list_all (\<lambda>k. k = ''mode'') (keys (cmd_args c))
                 \<and> (map_of (cmd_args c) ''mode'' = Some (JStr ''run'')
                    \<or> map_of (cmd_args c) ''mode'' = Some (JStr ''maintenance'')))
           then Inl ValueError
      else Inr ())"

definition uuid_field :: "json \<Rightarrow> string result" where
  "uuid_field j = uuid_text (embed j)"

definition normalized_field :: "json \<Rightarrow> string result" where
  "normalized_field j = normalized_uuid (embed j)"

definition value_or :: "'a \<Rightarrow> 'a option \<Rightarrow> 'a" where
  "value_or x r = (case r of None \<Rightarrow> x | Some y \<Rightarrow> y)"

definition command_fields :: "string \<Rightarrow> json_object \<Rightarrow> server_command result" where
  "command_fields fresh d =
     v_ap (v_ap (v_ap (v_ap (v_ap
       (Inr (\<lambda>_ i n a t. server_command.make (value_or fresh i) n (value_or [] a) t))
       (opt_field d ''api_version'' (int_exactly 1)))
       (opt_field d ''command_id'' normalized_field))
       (field d ''command'' text_value))
       (opt_field d ''args'' plain_object))
       (opt_field d ''target'' parse_command_target)"

definition parse_server_command :: "string \<Rightarrow> json \<Rightarrow> server_command result" where
  "parse_server_command fresh j =
     res_bind (detach_command j)
       (\<lambda>d. res_bind (command_fields fresh d)
          (\<lambda>c. res_bind (validate_lifecycle c) (\<lambda>_. Inr c)))"

definition dump_server_command :: "server_command \<Rightarrow> json_object" where
  "dump_server_command c =
     [(''api_version'', JInt 1), (''command_id'', JStr (cmd_id c)), (''command'', JStr (cmd_name c)),
      (''args'', JObj (cmd_args c))] @
     (case cmd_target c of None \<Rightarrow> [] | Some t \<Rightarrow> [(''target'', dump_command_target t)])"

section \<open>Chains\<close>

record server_chain =
  chain_identity :: string
  chain_commands :: "server_command list"

definition parse_chain_commands :: "(nat \<Rightarrow> string) \<Rightarrow> json \<Rightarrow> server_command list result" where
  "parse_chain_commands fresh j =
     (case j of
        JArr xs \<Rightarrow>
          if xs = [] then Inl ValueError
          else v_map (\<lambda>(i, x). parse_server_command (fresh (Suc i)) x) (enumerate 0 xs)
      | _ \<Rightarrow> Inl ValueError)"

text \<open>\<^verbatim>\<open>ServerChain\<close> with \<^verbatim>\<open>exclude_lifecycle\<close>.\<close>

definition parse_server_chain :: "(nat \<Rightarrow> string) \<Rightarrow> json \<Rightarrow> server_chain result" where
  "parse_server_chain fresh j =
     res_bind (object_value j)
       (\<lambda>d. res_bind
          (v_ap (v_ap (v_ap (v_ap
            (Inr (\<lambda>_ i cs _. server_chain.make (value_or (fresh 0) i) cs))
            (opt_field d ''api_version'' (int_exactly 1)))
            (opt_field d ''chain_id'' normalized_field))
            (field d ''commands'' (parse_chain_commands fresh)))
            (no_extra d [''api_version'', ''chain_id'', ''commands'']))
          (\<lambda>c. if list_ex (\<lambda>x. starts_with (cmd_name x) ''server.'') (chain_commands c)
               then Inl ValueError else Inr c))"

section \<open>Controller intake\<close>

record controller_command =
  cc_id :: string
  cc_name :: string
  cc_args :: json_object
  cc_target :: json_object
  cc_chain :: "string option"

definition parse_controller_command :: "json \<Rightarrow> controller_command result" where
  "parse_controller_command j =
     res_bind (object_value j)
       (\<lambda>d. if has_key d ''commands'' then Inl ValueError
            else v_ap (v_ap (v_ap (v_ap (v_ap (v_ap (v_ap
              (Inr (\<lambda>_ i n a t c _.
                 controller_command.make i n (value_or [] a) (value_or [] t) (value_or None c)))
              (field d ''api_version'' (int_exactly 1)))
              (field d ''command_id'' uuid_field))
              (field d ''command'' text_value))
              (opt_field d ''args'' plain_object))
              (opt_field d ''target'' plain_object))
              (opt_field d ''chain_id'' (nullable uuid_field)))
              (no_extra d [''api_version'', ''command_id'', ''command'', ''args'', ''target'',
                 ''chain_id'']))"

text \<open>\<^verbatim>\<open>ControllerChain.detach\<close> binds each child to the chain ID and the API version.\<close>

definition bind_chain_children :: "json_object \<Rightarrow> json_object result" where
  "bind_chain_children d =
     (case map_of d ''commands'' of
        Some (JArr xs) \<Rightarrow>
          res_bind
            (res_map (\<lambda>x. res_bind (object_value x)
               (\<lambda>c. Inr (JObj (AList.update ''chain_id'' (dict_get d ''chain_id'' JNull)
                                (AList.update ''api_version'' (JInt 1) c))))) xs)
            (\<lambda>ys. Inr (AList.update ''commands'' (JArr ys) d))
      | _ \<Rightarrow> Inr d)"

record controller_chain =
  cch_id :: string
  cch_commands :: "controller_command list"

definition parse_controller_chain :: "json \<Rightarrow> controller_chain result" where
  "parse_controller_chain j =
     res_bind (object_value j)
       (\<lambda>d0. res_bind (bind_chain_children d0)
          (\<lambda>d. v_ap (v_ap (v_ap (v_ap (Inr (\<lambda>_ i cs _. controller_chain.make i cs))
             (field d ''api_version'' (int_exactly 1)))
             (field d ''chain_id'' uuid_field))
             (field d ''commands''
                (\<lambda>x. res_bind (list_of parse_controller_command x)
                   (\<lambda>cs. if cs = [] then Inl ValueError else Inr cs))))
             (no_extra d [''api_version'', ''chain_id'', ''commands''])))"

section \<open>Outcomes\<close>

datatype command_state = Pending | Unknown | Unavailable | Succeeded | Failed | Cancelled

datatype command_result = Success | Fail

definition command_states :: "(string \<times> command_state) list" where
  "command_states = [(''pending'', Pending), (''unknown'', Unknown), (''unavailable'', Unavailable),
     (''succeeded'', Succeeded), (''failed'', Failed), (''cancelled'', Cancelled)]"

definition outcome_states :: "(string \<times> command_state) list" where
  "outcome_states = [(''succeeded'', Succeeded), (''failed'', Failed), (''cancelled'', Cancelled)]"

definition command_results :: "(string \<times> command_result) list" where
  "command_results = [(''success'', Success), (''fail'', Fail)]"

fun state_name :: "command_state \<Rightarrow> string" where
  "state_name Pending = ''pending''"
| "state_name Unknown = ''unknown''"
| "state_name Unavailable = ''unavailable''"
| "state_name Succeeded = ''succeeded''"
| "state_name Failed = ''failed''"
| "state_name Cancelled = ''cancelled''"

fun dump_result :: "command_result option \<Rightarrow> json" where
  "dump_result None = JNull"
| "dump_result (Some Success) = JStr ''success''"
| "dump_result (Some Fail) = JStr ''fail''"

text \<open>\<^verbatim>\<open>CommandStatus.match_result\<close>.\<close>

fun expected_result :: "command_state \<Rightarrow> command_result option" where
  "expected_result Succeeded = Some Success"
| "expected_result Failed = Some Fail"
| "expected_result Cancelled = Some Fail"
| "expected_result _ = None"

definition match_result :: "command_state \<Rightarrow> command_result option \<Rightarrow> unit result" where
  "match_result s r = require (r = expected_result s) ValueError"

definition model_document :: "string list \<Rightarrow> json_object \<Rightarrow> json_object" where
  "model_document ks d =
     List.map_filter (\<lambda>k. map_option (Pair k) (map_of d k)) ks
     @ filter (\<lambda>(k, v). \<not> List.member ks k) d"

record command_outcome =
  oc_state :: command_state
  oc_result :: "command_result option"
  oc_id :: string
  oc_document :: json_object

definition outcome_fields :: "string list" where
  "outcome_fields = [''state'', ''result'', ''command_id'', ''data'', ''error'']"

definition parse_controller_outcome :: "json \<Rightarrow> command_outcome result" where
  "parse_controller_outcome j =
     res_bind (object_value j)
       (\<lambda>d. res_bind
          (v_ap (v_ap (v_ap
            (Inr (\<lambda>s r i. command_outcome.make s (Some r) i (model_document outcome_fields d)))
            (field d ''state'' (literal_value outcome_states)))
            (field d ''result'' (literal_value command_results)))
            (field d ''command_id'' uuid_field))
          (\<lambda>c. res_bind (match_result (oc_state c) (oc_result c)) (\<lambda>_. Inr c)))"

definition parse_runtime_outcome :: "json \<Rightarrow> command_outcome result" where
  "parse_runtime_outcome j =
     res_bind (object_value j)
       (\<lambda>d. res_bind
          (v_ap (v_ap (v_ap
            (Inr (\<lambda>s r i. command_outcome.make s r i (model_document outcome_fields d)))
            (field d ''state'' (literal_value command_states)))
            (field d ''result'' (nullable (literal_value command_results))))
            (field d ''command_id'' uuid_field))
          (\<lambda>c. res_bind (match_result (oc_state c) (oc_result c)) (\<lambda>_. Inr c)))"

section \<open>Notices of the controller process\<close>

record runtime_notice =
  notice_stopped :: bool
  notice_message :: json

definition parse_runtime_stopped :: "json \<Rightarrow> runtime_notice result" where
  "parse_runtime_stopped j =
     res_bind (object_value j)
       (\<lambda>d. v_ap (Inr (\<lambda>k. runtime_notice.make k (dict_get d ''message'' (JStr ''Controller stopped.''))))
          (field d ''_runtime'' (literal_value [(''stopped'', True), (''error'', False)])))"

record runtime_ready =
  ready_process :: json_object
  ready_storage :: json_object

definition parse_runtime_ready :: "json \<Rightarrow> runtime_ready result" where
  "parse_runtime_ready j =
     res_bind (object_value j)
       (\<lambda>d. v_ap (v_ap (v_ap (Inr (\<lambda>_ p s. runtime_ready.make p (value_or [] s)))
          (field d ''_runtime'' (literal_value [(''ready'', ())])))
          (field d ''process'' plain_object))
          (opt_field d ''storage'' plain_object))"

section \<open>Receipts\<close>

definition receipt_fields :: "string list" where
  "receipt_fields = [''state'', ''result'', ''command_id'', ''server_instance_id'', ''chain_id'']"

record command_receipt =
  rc_state :: command_state
  rc_id :: string
  rc_server :: string
  rc_chain :: "string option"
  rc_document :: json_object

definition parse_command_receipt :: "json \<Rightarrow> command_receipt result" where
  "parse_command_receipt j =
     res_bind (object_value j)
       (\<lambda>d. res_bind
          (v_ap (v_ap (v_ap (v_ap (v_ap
            (Inr (\<lambda>s r i v c. (r, command_receipt.make s i v (value_or None c)
                                 (model_document receipt_fields d))))
            (field d ''state'' (literal_value command_states)))
            (field d ''result'' (nullable (literal_value command_results))))
            (field d ''command_id'' uuid_field))
            (field d ''server_instance_id'' uuid_field))
            (opt_field d ''chain_id'' (nullable uuid_field)))
          (\<lambda>(r, c). res_bind (match_result (rc_state c) r) (\<lambda>_. Inr c)))"

text \<open>
  \<^verbatim>\<open>ChainReceipt\<close> over receipts that are validated models already: \<^verbatim>\<open>match_instance\<close> and the
  dump.
\<close>

definition chain_receipt :: "string \<Rightarrow> string \<Rightarrow> command_receipt list \<Rightarrow> json result" where
  "chain_receipt server chain receipts =
     res_bind (uuid_field (JStr chain))
       (\<lambda>_. res_bind (uuid_field (JStr server))
          (\<lambda>_. if receipts = [] then Inl ValueError
               else if list_ex (\<lambda>r. rc_server r \<noteq> server
                                 \<or> rc_chain r \<noteq> None \<and> rc_chain r \<noteq> Some chain) receipts
               then Inl ValueError
               else Inr (JObj [(''chain_id'', JStr chain), (''server_instance_id'', JStr server),
                      (''commands'', JArr (map (\<lambda>r. JObj (rc_document r)) receipts))])))"

end
