(* ===== verification/Server_Runtime.thy ===== *)
theory Server_Runtime
  imports Server_Commands
begin

text \<open>
  Model of \<^verbatim>\<open>ServerRuntime\<close> and \<^verbatim>\<open>CommandRecord\<close> in \<^verbatim>\<open>core/server/runtime.py\<close>: admission of
  commands and chains, retained receipts, controller responses, and the lifecycle of the
  controller process as far as this state is concerned.

  A method is a function of the object (\<open>server_runtime\<close>), run to completion: the asyncio code
  of these methods has no suspension point, and where a coroutine does suspend (\<^verbatim>\<open>read\<close>,
  \<^verbatim>\<open>_run_lifecycle_command\<close>) it is split there or takes the awaited effect as a parameter. The
  process and its two queues are not under the model's control: the request queue is the list
  of messages put so far with its capacity, and \<open>rt_process\<close> tells whether a process exists and
  is alive.

  \<open>server_env\<close> holds what the standard library supplies: the clocks and UUIDs, indexed by the
  number of readings so far (\<open>rt_ticks\<close>), the SHA-256 digest, the printing of floats, of other
  JSON values and of exceptions.
\<close>

section \<open>State\<close>

record server_env =
  env_clock :: "nat \<Rightarrow> rat"
  env_stamp :: "nat \<Rightarrow> string"
  env_uuid :: "nat \<Rightarrow> nat \<Rightarrow> string"
  env_digest :: "string \<Rightarrow> string"
  env_float :: "rat \<Rightarrow> string"
  env_repr :: "json \<Rightarrow> string"
  env_describe :: "exn \<Rightarrow> string"

datatype server_mode = RunMode | MaintenanceMode

record server_settings =
  server_mode :: server_mode
  max_request_bytes :: nat
  max_response_bytes :: nat
  max_pending :: nat
  max_reads :: nat
  max_records :: nat
  max_cache_bytes :: nat
  result_ttl :: rat

record command_record =
  rec_request :: server_command
  rec_fingerprint :: string
  rec_chain :: "string option"
  rec_command :: string
  rec_is_stop :: bool
  rec_submitted_at :: string
  rec_finished_at :: "rat option"
  rec_response :: "command_outcome option"
  rec_size :: nat

datatype runtime_state = NewState | StartingState | ReadyState | StoppedState | UnavailableState
  | ClosedState

datatype waiter = Waiting | Resolved command_outcome | Broken exn

datatype ready_future = ReadyPending | ReadySet | ReadyFailed exn

record ipc_queue =
  q_items :: "json list"
  q_capacity :: nat

record server_runtime =
  rt_settings :: server_settings
  rt_instance_id :: string
  rt_stop_http :: bool
  rt_process :: "bool option"
  rt_requests :: "ipc_queue option"
  rt_ready :: "ready_future option"
  rt_records :: "(string, command_record) pydict"
  rt_chains :: "(string, string list) pydict"
  rt_reads :: "(string, waiter) pydict"
  rt_cache_bytes :: int
  rt_state :: runtime_state
  rt_error :: "string option"
  rt_closing :: bool
  rt_last_response_at :: "string option"
  rt_identity :: "json_object option"
  rt_storage :: "json_object option"
  rt_runtime_id :: string
  rt_restart_task :: bool
  rt_restart_command :: "server_command option"
  rt_restart_blocked :: "string option"
  rt_http_closing :: bool
  rt_ticks :: nat

definition initial_runtime :: "server_settings \<Rightarrow> bool \<Rightarrow> string \<Rightarrow> string \<Rightarrow> server_runtime" where
  "initial_runtime settings stop_http instance_id runtime_id =
     \<lparr>rt_settings = settings, rt_instance_id = instance_id, rt_stop_http = stop_http,
      rt_process = None, rt_requests = None, rt_ready = None, rt_records = [], rt_chains = [],
      rt_reads = [], rt_cache_bytes = 0, rt_state = NewState, rt_error = None,
      rt_closing = False, rt_last_response_at = None, rt_identity = None, rt_storage = None,
      rt_runtime_id = runtime_id, rt_restart_task = False, rt_restart_command = None,
      rt_restart_blocked = None, rt_http_closing = False, rt_ticks = 0\<rparr>"

definition tick :: "server_runtime \<Rightarrow> server_runtime" where
  "tick s = s\<lparr>rt_ticks := Suc (rt_ticks s)\<rparr>"

definition encoded_size :: "server_env \<Rightarrow> bool \<Rightarrow> json \<Rightarrow> nat" where
  "encoded_size env ascii j = utf8_length (json_text (env_float env) ascii j)"

text \<open>\<^verbatim>\<open>CommandRecord.__init__\<close>.\<close>

definition with_chain :: "string option \<Rightarrow> json_object \<Rightarrow> json_object" where
  "with_chain chain d = (case chain of None \<Rightarrow> d | Some c \<Rightarrow> AList.update ''chain_id'' (JStr c) d)"

definition command_fingerprint :: "server_env \<Rightarrow> server_command \<Rightarrow> string option \<Rightarrow> string" where
  "command_fingerprint env c chain =
     env_digest env (json_text (env_float env) False
       (dumps_sorted (JObj (with_chain chain (dump_server_command c)))))"

definition new_record :: "server_env \<Rightarrow> nat \<Rightarrow> server_command \<Rightarrow> string option \<Rightarrow> command_record" where
  "new_record env n c chain =
     \<lparr>rec_request = c, rec_fingerprint = command_fingerprint env c chain, rec_chain = chain,
      rec_command = cmd_name c, rec_is_stop = (cmd_name c = ''stop'' \<and> chain = None),
      rec_submitted_at = env_stamp env n, rec_finished_at = None, rec_response = None,
      rec_size = 0\<rparr>"

section \<open>Pruning\<close>

definition finished_records :: "server_runtime \<Rightarrow> (rat \<times> string \<times> command_record) list" where
  "finished_records s =
     sort_key fst
       (List.map_filter (\<lambda>(i, r). map_option (\<lambda>t. (t, i, r)) (rec_finished_at r)) (rt_records s))"

definition evict :: "rat \<Rightarrow> nat \<Rightarrow> rat \<times> string \<times> command_record \<Rightarrow> server_runtime \<Rightarrow> server_runtime" where
  "evict now required = (\<lambda>(finished_at, i, r) s.
     if finished_at + result_ttl (rt_settings s) \<le> now
        \<or> max_records (rt_settings s) < length (rt_records s) + required
        \<or> int (max_cache_bytes (rt_settings s)) < rt_cache_bytes s
     then s\<lparr>rt_cache_bytes := rt_cache_bytes s - int (rec_size r),
            rt_records := AList.delete i (rt_records s)\<rparr>
     else s)"

definition drop_empty_chains :: "server_runtime \<Rightarrow> server_runtime" where
  "drop_empty_chains s =
     s\<lparr>rt_chains := filter (\<lambda>(c, ids). list_ex (has_key (rt_records s)) ids) (rt_chains s)\<rparr>"

definition prune :: "server_env \<Rightarrow> nat \<Rightarrow> server_runtime \<Rightarrow> server_runtime" where
  "prune env required s =
     (let now = env_clock env (rt_ticks s); t = tick s
      in drop_empty_chains (fold (evict now required) (finished_records t) t))"

section \<open>Receipts\<close>

definition pending_document :: "string \<Rightarrow> string option \<Rightarrow> json_object" where
  "pending_document i chain =
     [(''command_id'', JStr i), (''chain_id'', dump_nullable JStr chain), (''state'', JStr ''pending''),
      (''result'', JNull), (''experiment_id'', JNull), (''data'', JNull), (''error'', JNull)]"

definition receipt_of :: "server_runtime \<Rightarrow> string \<Rightarrow> command_record \<Rightarrow> command_receipt result" where
  "receipt_of s i r =
     res_bind
       (case rec_response r of
          Some response \<Rightarrow> Inr response
        | None \<Rightarrow> parse_runtime_outcome (JObj (pending_document i (rec_chain r))))
       (\<lambda>response. parse_command_receipt (JObj
          (AList.update ''submitted_at'' (JStr (rec_submitted_at r))
            (AList.update ''server_instance_id'' (JStr (rt_instance_id s)) (oc_document response)))))"

text \<open>\<^verbatim>\<open>_result\<close>, \<^verbatim>\<open>result\<close> and \<^verbatim>\<open>_receipt\<close>.\<close>

definition find_result :: "server_env \<Rightarrow> string \<Rightarrow> (server_runtime, command_receipt) py" where
  "find_result env command_id =
     py_bind (py_lift (uuid_int command_id))
       (\<lambda>n. py_then (py_modify (prune env 0))
          (py_read (\<lambda>s. case map_of (rt_records s) (uuid_str n) of
               None \<Rightarrow> py_raise (ServerErr ''unknown_command'' 404)
             | Some r \<Rightarrow> py_lift (receipt_of s (uuid_str n) r))))"

definition read_result :: "server_env \<Rightarrow> string \<Rightarrow> (server_runtime, json) py" where
  "read_result env command_id =
     py_bind (find_result env command_id) (\<lambda>r. py_return (JObj (rc_document r)))"

fun find_results :: "server_env \<Rightarrow> string list \<Rightarrow> (server_runtime, command_receipt list) py" where
  "find_results env [] = py_return []"
| "find_results env (i # is) =
     py_bind (find_result env i)
       (\<lambda>r. py_bind (find_results env is) (\<lambda>rs. py_return (r # rs)))"

definition receipt :: "server_env \<Rightarrow> string list \<Rightarrow> string option \<Rightarrow> (server_runtime, json) py" where
  "receipt env ids chain =
     (case chain of
        None \<Rightarrow> (case ids of [] \<Rightarrow> py_raise KeyError | i # _ \<Rightarrow> read_result env i)
      | Some c \<Rightarrow>
          py_bind (find_results env ids)
            (\<lambda>rs. py_read (\<lambda>s. py_lift
               (res_bind (chain_receipt (rt_instance_id s) c rs)
                  (\<lambda>j. res_bind (object_value j) (\<lambda>d. Inr (JObj d)))))))"

section \<open>Admission\<close>

datatype submission = Document json | TypedCommand server_command | TypedChain server_chain

definition normalize_submission ::
    "(nat \<Rightarrow> string) \<Rightarrow> submission \<Rightarrow> bool
     \<Rightarrow> (string option \<times> server_command list \<times> (server_chain + server_command)) result" where
  "normalize_submission fresh document chain =
     (if chain
      then res_bind
        (case document of
           TypedChain c \<Rightarrow> Inr c
         | Document j \<Rightarrow> parse_server_chain fresh j
         | TypedCommand c \<Rightarrow> Inl TypeError)
        (\<lambda>c. Inr (Some (chain_identity c), chain_commands c, Inl c))
      else res_bind
        (case document of
           TypedCommand c \<Rightarrow> Inr c
         | Document j \<Rightarrow> parse_server_command (fresh 0) j
         | TypedChain c \<Rightarrow> Inl TypeError)
        (\<lambda>c. Inr (None, [c], Inr c)))"

definition command_document :: "server_command \<Rightarrow> string option \<Rightarrow> json result" where
  "command_document c chain =
     (if chain \<noteq> None \<and> starts_with (cmd_name c) ''server.'' then Inl ValueError
      else Inr (JObj (with_chain chain (dump_server_command c))))"

fun submission_document :: "server_chain + server_command \<Rightarrow> json result" where
  "submission_document (Inl c) =
     res_bind (res_map (\<lambda>x. command_document x (Some (chain_identity c))) (chain_commands c))
       (\<lambda>ds. Inr (JObj [(''api_version'', JInt 1), (''chain_id'', JStr (chain_identity c)),
                        (''commands'', JArr ds)]))"
| "submission_document (Inr c) = command_document c None"

definition check_submission_identifiers ::
    "string list \<Rightarrow> string option \<Rightarrow> server_runtime \<Rightarrow> unit result" where
  "check_submission_identifiers ids chain s =
     (if \<not> distinct ids then Inl ValueError
      else if list_ex (has_key (rt_reads s)) ids then Inl (ServerErr ''command_id_conflict'' 409)
      else case chain of
             None \<Rightarrow> Inr ()
           | Some c \<Rightarrow>
               (case map_of (rt_chains s) c of
                  Some old \<Rightarrow> if old \<noteq> ids then Inl (ServerErr ''chain_id_conflict'' 409) else Inr ()
                | None \<Rightarrow> Inr ()))"

definition is_retained_submission ::
    "string list \<Rightarrow> command_record list \<Rightarrow> server_runtime \<Rightarrow> bool result" where
  "is_retained_submission ids recs s =
     (if list_ex (has_key (rt_records s)) ids
      then if \<not> list_all (has_key (rt_records s)) ids
              \<or> list_ex (\<lambda>(i, r). map_option rec_fingerprint (map_of (rt_records s) i)
                                    \<noteq> Some (rec_fingerprint r)) (zip ids recs)
           then Inl (ServerErr ''command_id_conflict'' 409)
           else Inr True
      else Inr False)"

definition run_mode_commands :: "string list" where
  "run_mode_commands = [''service.start'', ''service.stop'', ''reload_template'']"

definition check_submission_mode :: "server_command list \<Rightarrow> server_runtime \<Rightarrow> unit result" where
  "check_submission_mode cs s =
     (if list_ex (\<lambda>c. List.member run_mode_commands (cmd_name c)
                        \<and> server_mode (rt_settings s) \<noteq> RunMode
                      \<or> starts_with (cmd_name c) ''module.''
                        \<and> server_mode (rt_settings s) \<noteq> MaintenanceMode) cs
      then Inl (ServerErr ''invalid_mode'' 409) else Inr ())"

definition pending_records :: "server_runtime \<Rightarrow> command_record list" where
  "pending_records s = filter (\<lambda>r. rec_response r = None) (dict_values (rt_records s))"

definition check_submission_capacity ::
    "server_env \<Rightarrow> nat \<Rightarrow> string option \<Rightarrow> bool \<Rightarrow> bool \<Rightarrow> (server_runtime, unit) py" where
  "check_submission_capacity env count chain priority_stop lifecycle =
     py_read (\<lambda>s.
       if (case chain of None \<Rightarrow> False | Some c \<Rightarrow> has_key (rt_chains s) c)
       then py_raise (ServerErr ''chain_id_conflict'' 409)
       else if priority_stop \<and> list_ex rec_is_stop (pending_records s)
       then py_raise (ServerErr ''stop_pending'' 409)
       else if max_pending (rt_settings s) + of_bool (priority_stop \<or> lifecycle)
                 < length (pending_records s) + count
       then py_raise (ServerErr ''queue_full'' 429)
       else py_then (py_modify (prune env count))
         (py_read (\<lambda>t. if max_records (rt_settings t) < length (rt_records t) + count
                        then py_raise (ServerErr ''queue_full'' 429) else py_return ())))"

definition admit_lifecycle_command :: "server_command \<Rightarrow> server_runtime \<Rightarrow> unit result" where
  "admit_lifecycle_command c s =
     (case rt_restart_command s of
        Some r \<Rightarrow> Inl (ServerErr (if cmd_name r = ''server.shutdown'' then ''shutdown_pending''
                                  else ''restart_pending'') 409)
      | None \<Rightarrow>
          if cmd_name c = ''server.shutdown'' \<and> \<not> rt_stop_http s
          then Inl (ServerErr ''unsupported_feature'' 501)
          else if rt_http_closing s \<or> rt_state s = NewState \<or> rt_state s = StartingState
          then Inl (ServerErr ''controller_unavailable'' 503)
          else if rt_restart_blocked s \<noteq> None then Inl (ServerErr ''restart_blocked'' 409)
          else Inr ())"

definition require_ready :: "server_runtime \<Rightarrow> ipc_queue result" where
  "require_ready s =
     (if rt_closing s \<or> rt_restart_command s \<noteq> None \<or> rt_state s \<noteq> ReadyState
         \<or> rt_process s \<noteq> Some True
      then Inl (ServerErr ''controller_unavailable'' 503)
      else case rt_requests s of
             None \<Rightarrow> Inl (ServerErr ''controller_unavailable'' 503)
           | Some q \<Rightarrow> Inr q)"

text \<open>\<^verbatim>\<open>requests.put_nowait(message)\<close>.\<close>

definition put_nowait :: "json \<Rightarrow> (server_runtime, unit) py" where
  "put_nowait message =
     py_read (\<lambda>s. case rt_requests s of
         None \<Rightarrow> py_raise AttributeError
       | Some q \<Rightarrow>
           if q_capacity q \<le> length (q_items q) then py_raise (ServerErr ''queue_full'' 429)
           else py_modify (\<lambda>s. s\<lparr>rt_requests := Some (q\<lparr>q_items := q_items q @ [message]\<rparr>)\<rparr>))"

definition store_records :: "string list \<Rightarrow> command_record list \<Rightarrow> server_runtime \<Rightarrow> server_runtime" where
  "store_records ids recs s =
     s\<lparr>rt_records := fold (\<lambda>(i, r). AList.update i r) (zip ids recs) (rt_records s)\<rparr>"

definition is_lifecycle :: "bool \<Rightarrow> server_command list \<Rightarrow> bool" where
  "is_lifecycle chain cs = (\<not> chain \<and> List.member lifecycle_commands (cmd_name (hd cs)))"

definition is_priority_stop :: "bool \<Rightarrow> server_command list \<Rightarrow> bool" where
  "is_priority_stop chain cs = (\<not> chain \<and> cmd_name (hd cs) = ''stop'')"

text \<open>\<^verbatim>\<open>submit\<close> after the replay check: the admission of new work.\<close>

definition admit_new ::
    "server_env \<Rightarrow> bool \<Rightarrow> string option \<Rightarrow> server_command list \<Rightarrow> json \<Rightarrow> string list
     \<Rightarrow> command_record list \<Rightarrow> (server_runtime, unit) py" where
  "admit_new env chain chain_id cs message ids recs =
     py_read (\<lambda>s. py_then (py_lift (check_submission_mode cs s))
      (py_then
        (if is_lifecycle chain cs then py_lift (admit_lifecycle_command (hd cs) s)
         else py_lift (res_bind (require_ready s) (\<lambda>_. Inr ())))
      (py_then (check_submission_capacity env (length cs) chain_id
                  (is_priority_stop chain cs) (is_lifecycle chain cs))
      (py_then (py_when (\<not> is_lifecycle chain cs) (put_nowait message))
      (py_then (py_modify (store_records ids recs))
      (py_then (py_modify (\<lambda>s. case chain_id of
           None \<Rightarrow> s | Some c \<Rightarrow> s\<lparr>rt_chains := AList.update c ids (rt_chains s)\<rparr>))
      (py_when (is_lifecycle chain cs)
        (py_modify (\<lambda>s. s\<lparr>rt_restart_command := Some (hd cs), rt_restart_task := True\<rparr>)))))))))"

definition submit :: "server_env \<Rightarrow> submission \<Rightarrow> bool \<Rightarrow> (server_runtime, json) py" where
  "submit env document chain =
     py_then (py_modify (prune env 0))
      (py_read (\<lambda>s. py_bind (py_lift (normalize_submission (env_uuid env (rt_ticks s)) document chain))
        (\<lambda>(chain_id, cs, submission).
          py_bind (py_lift (submission_document submission))
           (\<lambda>message.
              if max_request_bytes (rt_settings s) < encoded_size env False message
              then py_raise (ServerErr ''request_too_large'' 413)
              else
                let ids = map cmd_id cs in
                py_then (py_lift (check_submission_identifiers ids chain_id s))
                 (let recs = map (\<lambda>(k, c). new_record env (rt_ticks s + k) c chain_id)
                               (enumerate 0 cs) in
                  py_bind (py_lift (is_retained_submission ids recs s))
                   (\<lambda>retained.
                      if retained then receipt env ids chain_id
                      else py_then (py_modify (\<lambda>s. s\<lparr>rt_ticks := rt_ticks s + length cs\<rparr>))
                            (py_then (admit_new env chain chain_id cs message ids recs)
                              (receipt env ids chain_id))))))))"

end
