(* ===== verification/Server_Responses.thy ===== *)
theory Server_Responses
  imports Server_Runtime
begin

text \<open>
  The rest of \<^verbatim>\<open>ServerRuntime\<close>: listing retained commands, fresh reads, the responses of the
  controller process, its loss, and the completion of lifecycle commands.
\<close>

section \<open>Listing\<close>

record list_arguments =
  la_after :: "string option"
  la_limit :: nat
  la_state :: "command_state option"
  la_command :: "string option"

definition parse_list_arguments :: "json \<Rightarrow> list_arguments result" where
  "parse_list_arguments j =
     res_bind (object_value j)
       (\<lambda>d. v_ap (v_ap (v_ap (v_ap (v_ap
          (Inr (\<lambda>l s c a _. list_arguments.make (value_or None a) (nat (value_or 100 l))
                              (value_or None s) (value_or None c)))
          (opt_field d ''limit'' (\<lambda>x. res_bind (int_from 1 x)
             (\<lambda>n. if n \<le> 1000 then Inr n else Inl ValueError))))
          (opt_field d ''state'' (nullable (literal_value command_states))))
          (opt_field d ''command'' (nullable text_value)))
          (opt_field d ''after'' (nullable normalized_field)))
          (no_extra d [''limit'', ''state'', ''command'', ''after'']))"

record command_item =
  ci_id :: string
  ci_command :: string
  ci_state :: command_state
  ci_chain :: "string option"
  ci_submitted_at :: string
  ci_experiment :: json

definition current_state :: "command_record \<Rightarrow> command_state" where
  "current_state r = (case rec_response r of None \<Rightarrow> Pending | Some o' \<Rightarrow> oc_state o')"

definition command_item_of :: "string \<Rightarrow> command_record \<Rightarrow> command_item" where
  "command_item_of i r =
     \<lparr>ci_id = i, ci_command = rec_command r, ci_state = current_state r, ci_chain = rec_chain r,
      ci_submitted_at = rec_submitted_at r,
      ci_experiment = (case rec_response r of None \<Rightarrow> JNull
         | Some o' \<Rightarrow> dict_get (oc_document o') ''experiment_id'' JNull)\<rparr>"

definition matches_filter :: "list_arguments \<Rightarrow> string \<times> command_record \<Rightarrow> bool" where
  "matches_filter a = (\<lambda>(i, r).
     (case la_state a of None \<Rightarrow> True | Some s \<Rightarrow> current_state r = s)
     \<and> (case la_command a of None \<Rightarrow> True | Some c \<Rightarrow> rec_command r = c))"

text \<open>The loop over the entries, left when one item more than the limit was found.\<close>

fun collect_items :: "list_arguments \<Rightarrow> (string \<times> command_record) list \<Rightarrow> command_item list
    \<Rightarrow> command_item list" where
  "collect_items a [] items = items"
| "collect_items a ((i, r) # entries) items =
     (if \<not> matches_filter a (i, r) then collect_items a entries items
      else let items = items @ [command_item_of i r]
           in if la_limit a < length items then items else collect_items a entries items)"

record command_page =
  pg_items :: "command_item list"
  pg_has_more :: bool
  pg_next_after :: "string option"
  pg_server :: string

fun entries_after :: "string \<Rightarrow> (string \<times> 'a) list \<Rightarrow> (string \<times> 'a) list" where
  "entries_after k [] = []"
| "entries_after k ((i, r) # es) = (if i = k then es else entries_after k es)"

definition list_retained :: "list_arguments \<Rightarrow> server_runtime \<Rightarrow> command_page result" where
  "list_retained a s =
     res_bind
       (case la_after a of
          None \<Rightarrow> Inr (rt_records s)
        | Some k \<Rightarrow>
            if has_key (rt_records s) k then Inr (entries_after k (rt_records s))
            else Inl (ServerErr ''unknown_command'' 404))
       (\<lambda>entries.
          let items = collect_items a entries [];
              has_more = (la_limit a < length items);
              items = take (la_limit a) items
          in Inr \<lparr>pg_items = items, pg_has_more = has_more,
                  pg_next_after = (if has_more then Some (ci_id (last items)) else None),
                  pg_server = rt_instance_id s\<rparr>)"

definition list_commands :: "server_env \<Rightarrow> list_arguments \<Rightarrow> (server_runtime, command_page) py" where
  "list_commands env a =
     py_then (py_modify (prune env 0)) (py_read (\<lambda>s. py_lift (list_retained a s)))"

section \<open>Fresh reads\<close>

text \<open>
  \<^verbatim>\<open>read\<close> draws UUIDs until one is unused, registers a waiter and sends the request
  (\<open>begin_read\<close>); the coroutine then waits for its future and always removes it
  (\<open>finish_read\<close>). The drawing loop is a partial function of the draws.
\<close>

partial_function (option) draw_unused :: "(nat \<Rightarrow> string) \<Rightarrow> (string \<Rightarrow> bool) \<Rightarrow> nat \<Rightarrow> string option"
  where
  "draw_unused draw used n = (if used (draw n) then draw_unused draw used (Suc n) else Some (draw n))"

declare draw_unused.simps [code]

definition begin_read ::
    "server_env \<Rightarrow> string \<Rightarrow> json_object \<Rightarrow> server_runtime \<Rightarrow> (string result \<times> server_runtime) option"
  where
  "begin_read env name args s =
     (case require_ready s of
        Inl e \<Rightarrow> Some (Inl e, s)
      | Inr q \<Rightarrow>
          if \<not> (starts_with name ''stats.'' \<or> starts_with name ''logs.'') then Some (Inl ValueError, s)
          else if max_reads (rt_settings s) \<le> length (rt_reads s)
          then Some (Inl (ServerErr ''too_many_reads'' 429), s)
          else
            map_option
              (\<lambda>i. let s = tick (s\<lparr>rt_reads := AList.update i Waiting (rt_reads s)\<rparr>)
                   in case put_nowait (JObj [(''api_version'', JInt 1), (''command_id'', JStr i),
                             (''command'', JStr name), (''args'', JObj args)]) s of
                        (Inl e, t) \<Rightarrow> (Inl e, t\<lparr>rt_reads := AList.delete i (rt_reads t)\<rparr>)
                      | (Inr _, t) \<Rightarrow> (Inr i, t))
              (draw_unused (env_uuid env (rt_ticks s))
                 (\<lambda>i. has_key (rt_records s) i \<or> has_key (rt_reads s) i) 0))"

text \<open>A future still waiting here has run into the read timeout.\<close>

definition finish_read :: "string \<Rightarrow> (server_runtime, json) py" where
  "finish_read i =
     py_read (\<lambda>s. py_finally
       (case map_of (rt_reads s) i of
          Some (Resolved o') \<Rightarrow> py_return (JObj (oc_document o'))
        | Some (Broken e) \<Rightarrow> py_raise e
        | _ \<Rightarrow> py_raise (ServerErr ''controller_timeout'' 504))
       (\<lambda>s. s\<lparr>rt_reads := AList.delete i (rt_reads s)\<rparr>))"

section \<open>Loss of the controller\<close>

definition unknown_document :: "string \<Rightarrow> string option \<Rightarrow> string \<Rightarrow> json_object" where
  "unknown_document i chain message =
     [(''command_id'', JStr i), (''chain_id'', dump_nullable JStr chain), (''state'', JStr ''unknown''),
      (''result'', JNull), (''data'', JNull),
      (''error'', JObj [(''code'', JStr ''command_outcome_unknown''), (''message'', JStr message),
                        (''details'', JObj [])])]"

definition set_response ::
    "server_env \<Rightarrow> string \<Rightarrow> command_record \<Rightarrow> command_outcome \<Rightarrow> nat \<Rightarrow> server_runtime \<Rightarrow> server_runtime"
  where
  "set_response env i r response sz s =
     tick (s\<lparr>rt_records := AList.update i (r\<lparr>rec_response := Some response,
                rec_finished_at := Some (env_clock env (rt_ticks s)), rec_size := sz\<rparr>) (rt_records s),
             rt_cache_bytes := rt_cache_bytes s - int (rec_size r) + int sz\<rparr>)"

definition mark_unknown :: "server_env \<Rightarrow> string \<Rightarrow> string \<Rightarrow> (server_runtime, unit) py" where
  "mark_unknown env message i =
     py_read (\<lambda>s. case map_of (rt_records s) i of
         None \<Rightarrow> py_return ()
       | Some r \<Rightarrow>
           if map_option cmd_id (rt_restart_command s) = Some i \<or> rec_response r \<noteq> None
           then py_return ()
           else let d = unknown_document i (rec_chain r) message in
             py_bind (py_lift (parse_runtime_outcome (JObj d)))
               (\<lambda>response. py_modify
                  (set_response env i (r\<lparr>rec_size := 0\<rparr>) response (encoded_size env True (JObj d)))))"

definition fail_waiter :: "exn \<Rightarrow> waiter \<Rightarrow> waiter" where
  "fail_waiter e w = (case w of Waiting \<Rightarrow> Broken e | _ \<Rightarrow> w)"

text \<open>The futures fail and the state changes before any record is touched.\<close>

definition announce_unavailable :: "string \<Rightarrow> server_runtime \<Rightarrow> server_runtime" where
  "announce_unavailable message s =
     (let e = ServerErr ''controller_unavailable'' 503
      in s\<lparr>rt_state := UnavailableState, rt_error := Some message,
           rt_ready := (case rt_ready s of Some ReadyPending \<Rightarrow> Some (ReadyFailed e) | r \<Rightarrow> r),
           rt_reads := map (\<lambda>(i, w). (i, fail_waiter e w)) (rt_reads s)\<rparr>)"

definition unavailable :: "server_env \<Rightarrow> string \<Rightarrow> string option \<Rightarrow> (server_runtime, unit) py" where
  "unavailable env message runtime_id =
     py_read (\<lambda>s.
       if rt_state s = ClosedState \<or> (runtime_id \<noteq> None \<and> runtime_id \<noteq> Some (rt_runtime_id s))
       then py_return ()
       else py_then (py_modify (announce_unavailable message))
         (py_then (py_for (mark_unknown env message) (keys (rt_records s)))
            (py_modify (prune env 0))))"

section \<open>Responses\<close>

definition too_large_document :: "string \<Rightarrow> command_outcome \<Rightarrow> json_object" where
  "too_large_document i outcome =
     [(''command_id'', JStr i), (''chain_id'', dict_get (oc_document outcome) ''chain_id'' JNull),
      (''state'', JStr ''unavailable''), (''result'', JNull), (''data'', JNull),
      (''error'', JObj [(''code'', JStr ''response_too_large''),
         (''message'', JStr ''Controller response exceeded its configured limit.''),
         (''details'', JObj [(''command_state'', JStr (state_name (oc_state outcome))),
                             (''command_result'', dump_result (oc_result outcome))])])]"

definition bounded_response ::
    "server_env \<Rightarrow> server_settings \<Rightarrow> command_outcome \<Rightarrow> string \<Rightarrow> (command_outcome \<times> nat) result" where
  "bounded_response env settings outcome i =
     (let sz = encoded_size env False (JObj (oc_document outcome))
      in if sz \<le> max_response_bytes settings then Inr (outcome, sz)
         else let d = too_large_document i outcome
              in res_bind (parse_runtime_outcome (JObj d))
                   (\<lambda>o'. Inr (o', encoded_size env True (JObj d))))"

definition accept_read_response :: "string \<Rightarrow> command_outcome \<Rightarrow> (server_runtime, bool) py" where
  "accept_read_response i response =
     py_read (\<lambda>s. if map_of (rt_reads s) i = Some Waiting
       then py_then (py_modify (\<lambda>s. s\<lparr>rt_reads := AList.update i (Resolved response) (rt_reads s)\<rparr>))
              (py_return True)
       else py_return False)"

definition replaceable :: "command_record \<Rightarrow> bool" where
  "replaceable r = (case rec_response r of None \<Rightarrow> True | Some o' \<Rightarrow> oc_state o' = Unknown)"

definition accept_command_response :: "server_env \<Rightarrow> command_outcome \<Rightarrow> (server_runtime, unit) py" where
  "accept_command_response env outcome =
     py_bind (py_lift (uuid_int (oc_id outcome)))
      (\<lambda>n. let i = uuid_str n in
        py_read (\<lambda>s. py_bind (py_lift (bounded_response env (rt_settings s) outcome i))
          (\<lambda>(response, sz). py_bind (accept_read_response i response)
             (\<lambda>handled. if handled then py_return ()
               else case map_of (rt_records s) i of
                      None \<Rightarrow> py_return ()
                    | Some r \<Rightarrow> py_when (replaceable r)
                        (py_then (py_modify (set_response env i r response sz))
                           (py_modify (prune env 0)))))))"

definition py_str :: "server_env \<Rightarrow> json \<Rightarrow> string" where
  "py_str env j = (case j of JStr s \<Rightarrow> s | _ \<Rightarrow> env_repr env j)"

definition accept_runtime_ready :: "runtime_ready \<Rightarrow> server_runtime \<Rightarrow> server_runtime" where
  "accept_runtime_ready notice s =
     s\<lparr>rt_identity := Some (ready_process notice), rt_storage := Some (ready_storage notice),
       rt_state := ReadyState,
       rt_ready := (case rt_ready s of Some ReadyPending \<Rightarrow> Some ReadySet | r \<Rightarrow> r)\<rparr>"

definition accept_runtime_response ::
    "server_env \<Rightarrow> json_object \<Rightarrow> json option \<Rightarrow> (server_runtime, bool) py" where
  "accept_runtime_response env response kind =
     py_read (\<lambda>s.
       if kind = Some (JStr ''ready'')
       then if rt_closing s \<or> rt_process s \<noteq> Some True then py_return True
            else py_bind (py_lift (parse_runtime_ready (JObj response)))
              (\<lambda>notice. py_then (py_modify (accept_runtime_ready notice)) (py_return True))
       else if kind = Some (JStr ''stopped'') \<or> kind = Some (JStr ''error'')
       then py_bind (py_lift (parse_runtime_stopped (JObj response)))
              (\<lambda>notice. py_then (unavailable env (py_str env (notice_message notice)) None)
                 (py_then (py_when (notice_stopped notice)
                             (py_modify (\<lambda>s. s\<lparr>rt_state := StoppedState\<rparr>)))
                    (py_return True)))
       else py_return False)"

datatype ipc_message = RawMessage json | TypedOutcome command_outcome

definition note_response :: "server_env \<Rightarrow> server_runtime \<Rightarrow> server_runtime" where
  "note_response env s = tick (s\<lparr>rt_last_response_at := Some (env_stamp env (rt_ticks s))\<rparr>)"

definition dispatch_response :: "server_env \<Rightarrow> ipc_message \<Rightarrow> (server_runtime, unit) py" where
  "dispatch_response env message =
     (case message of
        TypedOutcome outcome \<Rightarrow>
          py_then (py_modify (note_response env)) (accept_command_response env outcome)
      | RawMessage j \<Rightarrow>
          py_bind (py_lift (object_value j))
            (\<lambda>response. py_then (py_modify (note_response env))
               (py_bind (accept_runtime_response env response (map_of response ''_runtime''))
                  (\<lambda>handled. if handled then py_return ()
                     else py_bind (py_lift (parse_controller_outcome (JObj response)))
                       (accept_command_response env)))))"

definition accept_response ::
    "server_env \<Rightarrow> ipc_message \<Rightarrow> string option \<Rightarrow> (server_runtime, unit) py" where
  "accept_response env message runtime_id =
     py_read (\<lambda>s.
       if rt_state s = ClosedState \<or> (runtime_id \<noteq> None \<and> runtime_id \<noteq> Some (rt_runtime_id s))
       then py_return ()
       else py_catch (dispatch_response env message)
         (\<lambda>e. unavailable env (''Invalid controller response: '' @ env_describe env e) None))"

section \<open>Lifecycle commands\<close>

text \<open>
  \<^verbatim>\<open>_run_lifecycle_command\<close>. Stopping the owned controller (\<^verbatim>\<open>close(restarting=True)\<close>, shielded by
  \<^verbatim>\<open>_close_for_lifecycle\<close>) and starting a new one are the parameters \<open>close\<close> and \<open>launch\<close>: the
  process, its queues and its threads are outside this model. \<open>interrupted\<close> tells whether the
  owner was cancelled while the shutdown ran.
\<close>

definition close_for_lifecycle ::
    "server_env \<Rightarrow> (server_runtime, unit) py \<Rightarrow> bool \<Rightarrow> (server_runtime, unit) py" where
  "close_for_lifecycle env close interrupted s =
     (case close s of
        (Inr _, t) \<Rightarrow> (if interrupted then Inl CancelledError else Inr (), t)
      | (Inl CancelledError, t) \<Rightarrow> (Inl CancelledError, t)
      | (Inl e, t) \<Rightarrow>
          (if interrupted then Inl CancelledError else Inl e,
           t\<lparr>rt_restart_blocked := (case rt_restart_blocked t of
                Some m \<Rightarrow> if m = [] then Some (''Runtime shutdown was not confirmed: '' @ env_describe env e)
                          else Some m
              | None \<Rightarrow> Some (''Runtime shutdown was not confirmed: '' @ env_describe env e))\<rparr>))"

definition reset_for_replacement :: "string \<Rightarrow> server_runtime \<Rightarrow> server_runtime" where
  "reset_for_replacement runtime_id s =
     s\<lparr>rt_runtime_id := runtime_id, rt_ready := None, rt_identity := None, rt_storage := None,
       rt_last_response_at := None, rt_error := None, rt_closing := False, rt_state := NewState\<rparr>"

definition requested_mode :: "server_command \<Rightarrow> server_runtime \<Rightarrow> server_mode" where
  "requested_mode c s =
     (case map_of (cmd_args c) ''mode'' of
        Some (JStr m) \<Rightarrow> if m = ''run'' then RunMode else MaintenanceMode
      | _ \<Rightarrow> server_mode (rt_settings s))"

definition lifecycle_work ::
    "server_env \<Rightarrow> (server_runtime, unit) py \<Rightarrow> (server_runtime, unit) py \<Rightarrow> bool \<Rightarrow> server_command
     \<Rightarrow> (server_runtime, bool) py" where
  "lifecycle_work env close launch interrupted c =
     py_read (\<lambda>s0. let mode = requested_mode c s0 in
       if cmd_name c = ''server.mode'' \<and> mode = server_mode (rt_settings s0)
          \<and> rt_state s0 = ReadyState \<and> rt_process s0 = Some True
       then py_return True
       else py_then (close_for_lifecycle env close interrupted)
         (py_read (\<lambda>s. if rt_http_closing s then py_raise CancelledError
            else if cmd_name c = ''server.shutdown''
            then py_then
              (if rt_stop_http s then py_modify (\<lambda>s. s\<lparr>rt_http_closing := True\<rparr>)
               else py_raise TypeError)
              (py_return False)
            else py_then (py_modify (\<lambda>s. tick (reset_for_replacement (env_uuid env (rt_ticks s) 0)
                      (s\<lparr>rt_settings := (rt_settings s)\<lparr>server_mode := mode\<rparr>\<rparr>))))
                 (py_then launch (py_return False)))))"

definition mode_name :: "server_mode \<Rightarrow> json" where
  "mode_name m = JStr (case m of RunMode \<Rightarrow> ''run'' | MaintenanceMode \<Rightarrow> ''maintenance'')"

definition lifecycle_data :: "server_command \<Rightarrow> string \<Rightarrow> bool \<Rightarrow> server_runtime \<Rightarrow> json" where
  "lifecycle_data c previous unchanged s =
     (if cmd_name c = ''server.shutdown''
      then JObj [(''runtime_id'', JStr (rt_runtime_id s)), (''runtime_stopped'', JBool True),
                 (''http_shutdown_requested'', JBool True)]
      else JObj [(''previous_runtime_id'', JStr previous), (''runtime_id'', JStr (rt_runtime_id s)),
                 (''server_mode'', mode_name (server_mode (rt_settings s))),
                 (''changed'', JBool (\<not> unchanged)),
                 (''controller'', dump_nullable JObj (rt_identity s))])"

definition lifecycle_document :: "server_command \<Rightarrow> string \<Rightarrow> json \<Rightarrow> json \<Rightarrow> json \<Rightarrow> json_object" where
  "lifecycle_document c state result data error =
     [(''command_id'', JStr (cmd_id c)), (''chain_id'', JNull), (''experiment_id'', JNull),
      (''state'', JStr state), (''result'', result), (''data'', data), (''error'', error)]"

definition lifecycle_failure :: "server_env \<Rightarrow> server_command \<Rightarrow> exn \<Rightarrow> json_object" where
  "lifecycle_failure env c e =
     lifecycle_document c (if e = CancelledError then ''cancelled'' else ''failed'') (JStr ''fail'') JNull
       (JObj [(''code'', JStr (if e = CancelledError then ''command_cancelled''
                 else if cmd_name c = ''server.shutdown'' then ''server_shutdown_failed''
                 else ''runtime_restart_failed'')),
              (''message'', JStr (if e = CancelledError then ''HTTP server is stopping.''
                                  else env_describe env e)),
              (''details'', JObj [(''notes'', JArr [])])])"

definition finish_lifecycle :: "server_env \<Rightarrow> server_command \<Rightarrow> json_object \<Rightarrow> (server_runtime, unit) py" where
  "finish_lifecycle env c document =
     py_then (py_modify (\<lambda>s. if rt_state s = ClosedState then s\<lparr>rt_state := UnavailableState\<rparr> else s))
      (py_bind (py_lift (parse_controller_outcome (JObj document)))
        (\<lambda>response. py_then (accept_response env (TypedOutcome response) None)
          (py_modify (\<lambda>s. s\<lparr>rt_restart_command := None,
             rt_state := (if cmd_name c = ''server.shutdown'' \<and> oc_state response = Succeeded
                          then ClosedState else rt_state s)\<rparr>))))"

definition fail_lifecycle :: "server_env \<Rightarrow> server_command \<Rightarrow> exn \<Rightarrow> (server_runtime, unit) py" where
  "fail_lifecycle env c e =
     py_then (py_modify (\<lambda>s. s\<lparr>rt_error := Some (if e = CancelledError then ''HTTP server is stopping.''
                                                   else env_describe env e)\<rparr>))
       (finish_lifecycle env c (lifecycle_failure env c e))"

definition run_lifecycle_command ::
    "server_env \<Rightarrow> (server_runtime, unit) py \<Rightarrow> (server_runtime, unit) py \<Rightarrow> bool \<Rightarrow> server_command
     \<Rightarrow> (server_runtime, unit) py" where
  "run_lifecycle_command env close launch interrupted c s =
     (if rt_restart_command s \<noteq> Some c then (Inl RuntimeError, s)
      else case lifecycle_work env close launch interrupted c s of
             (Inl e, t) \<Rightarrow> fail_lifecycle env c e t
           | (Inr unchanged, t) \<Rightarrow>
               let d = lifecycle_document c ''succeeded'' (JStr ''success'')
                         (lifecycle_data c (rt_runtime_id s) unchanged t) JNull
               in case parse_controller_outcome (JObj d) of
                    Inl e \<Rightarrow> fail_lifecycle env c e t
                  | Inr _ \<Rightarrow> finish_lifecycle env c d t)"

section \<open>Health\<close>

record health_report =
  hr_runtime_id :: string
  hr_mode :: server_mode
  hr_state :: string
  hr_alive :: bool
  hr_pending :: nat
  hr_error :: "string option"
  hr_blocked :: "string option"

fun runtime_state_name :: "runtime_state \<Rightarrow> string" where
  "runtime_state_name NewState = ''new''"
| "runtime_state_name StartingState = ''starting''"
| "runtime_state_name ReadyState = ''ready''"
| "runtime_state_name StoppedState = ''stopped''"
| "runtime_state_name UnavailableState = ''unavailable''"
| "runtime_state_name ClosedState = ''closed''"

definition health :: "server_runtime \<Rightarrow> health_report" where
  "health s =
     \<lparr>hr_runtime_id = rt_runtime_id s, hr_mode = server_mode (rt_settings s),
      hr_state = (case rt_restart_command s of
          Some c \<Rightarrow> if cmd_name c = ''server.shutdown'' then ''shutting_down'' else ''restarting''
        | None \<Rightarrow> runtime_state_name (rt_state s)),
      hr_alive = (rt_process s = Some True), hr_pending = length (pending_records s),
      hr_error = rt_error s, hr_blocked = rt_restart_blocked s\<rparr>"

end
