(* ===== verification/Server_Pruning.thy ===== *)
theory Server_Pruning
  imports Server_Responses "HOL-Library.Multiset"
begin

text \<open>
  Facts about \<open>prune\<close>: which receipts it evicts and what it leaves alone, and the accounting
  invariant of the retained records.
\<close>

section \<open>Record accounting\<close>

definition record_ok :: "command_record \<Rightarrow> bool" where
  "record_ok r \<longleftrightarrow> (rec_response r = None \<longleftrightarrow> rec_finished_at r = None)
     \<and> (rec_response r = None \<longrightarrow> rec_size r = 0)"

definition cache_total :: "(string, command_record) pydict \<Rightarrow> int" where
  "cache_total d = (\<Sum>(i, r)\<leftarrow>d. int (rec_size r))"

definition accounting_ok :: "server_runtime \<Rightarrow> bool" where
  "accounting_ok s \<longleftrightarrow> distinct (keys (rt_records s))
     \<and> (\<forall>(i, r) \<in> set (rt_records s). record_ok r)
     \<and> rt_cache_bytes s = cache_total (rt_records s)"

lemma cache_total_simps [simp]:
  "cache_total [] = 0" "cache_total ((i, r) # d) = int (rec_size r) + cache_total d"
  "cache_total (d @ e) = cache_total d + cache_total e"
  by (simp_all add: cache_total_def)

lemma cache_total_nonneg [simp]: "0 \<le> cache_total d"
  by (induction d) auto

lemma delete_absent: "i \<notin> set (keys d) \<Longrightarrow> AList.delete i d = d"
  by (induction d) (auto simp: AList.delete_eq)

lemma cache_total_delete:
  "distinct (keys d) \<Longrightarrow> map_of d i = Some r \<Longrightarrow>
     cache_total (AList.delete i d) = cache_total d - int (rec_size r)"
proof (induction d)
  case (Cons p d)
  then show ?case
    by (cases p) (auto simp: delete_absent split: if_splits dest!: map_of_SomeD intro: rev_image_eqI)
qed simp

lemma cache_total_update:
  "distinct (keys d) \<Longrightarrow> map_of d i = Some r \<Longrightarrow>
     cache_total (AList.update i r' d) = cache_total d - int (rec_size r) + int (rec_size r')"
  by (induction d) (auto split: if_splits)

lemma set_delete_subset: "set (AList.delete i d) \<subseteq> set d"
  by (auto simp: AList.delete_eq)

lemma length_delete_le: "length (AList.delete i d) \<le> length d"
  by (simp add: AList.delete_eq)

section \<open>One eviction\<close>

definition must_evict :: "rat \<Rightarrow> nat \<Rightarrow> rat \<Rightarrow> server_runtime \<Rightarrow> bool" where
  "must_evict now required finished_at s \<longleftrightarrow>
     finished_at + result_ttl (rt_settings s) \<le> now
     \<or> max_records (rt_settings s) < length (rt_records s) + required
     \<or> int (max_cache_bytes (rt_settings s)) < rt_cache_bytes s"

definition drop_record :: "string \<Rightarrow> command_record \<Rightarrow> server_runtime \<Rightarrow> server_runtime" where
  "drop_record i r s =
     s\<lparr>rt_cache_bytes := rt_cache_bytes s - int (rec_size r),
       rt_records := AList.delete i (rt_records s)\<rparr>"

lemma evict_eq:
  "evict now required (f, i, r) s = (if must_evict now required f s then drop_record i r s else s)"
  by (simp add: evict_def must_evict_def drop_record_def)

text \<open>Everything \<open>prune\<close> does not touch.\<close>

definition same_rest :: "server_runtime \<Rightarrow> server_runtime \<Rightarrow> bool" where
  "same_rest s t \<longleftrightarrow>
     (\<exists>d c b n. t = s\<lparr>rt_records := d, rt_chains := c, rt_cache_bytes := b, rt_ticks := n\<rparr>)"

lemma same_rest_refl [simp]: "same_rest s s"
  unfolding same_rest_def
  by (intro exI [of _ "rt_records s"] exI [of _ "rt_chains s"] exI [of _ "rt_cache_bytes s"]
      exI [of _ "rt_ticks s"]) simp

lemma same_rest_trans: "same_rest s t \<Longrightarrow> same_rest t u \<Longrightarrow> same_rest s u"
proof -
  assume "same_rest s t" "same_rest t u"
  then obtain d c b n d' c' b' n' where
    "t = s\<lparr>rt_records := d, rt_chains := c, rt_cache_bytes := b, rt_ticks := n\<rparr>"
    "u = t\<lparr>rt_records := d', rt_chains := c', rt_cache_bytes := b', rt_ticks := n'\<rparr>"
    unfolding same_rest_def by blast
  then have "u = s\<lparr>rt_records := d', rt_chains := c', rt_cache_bytes := b', rt_ticks := n'\<rparr>" by simp
  then show ?thesis unfolding same_rest_def by blast
qed

lemma same_rest_fields:
  assumes "same_rest s t"
  shows "rt_settings t = rt_settings s" "rt_instance_id t = rt_instance_id s"
    "rt_requests t = rt_requests s" "rt_reads t = rt_reads s" "rt_state t = rt_state s"
    "rt_restart_command t = rt_restart_command s" "rt_process t = rt_process s"
    "rt_closing t = rt_closing s" "rt_http_closing t = rt_http_closing s"
    "rt_restart_blocked t = rt_restart_blocked s" "rt_stop_http t = rt_stop_http s"
    "rt_runtime_id t = rt_runtime_id s" "rt_restart_task t = rt_restart_task s"
  using assms unfolding same_rest_def by (elim exE, simp)+

section \<open>A run of evictions\<close>

definition sound_entries :: "(rat \<times> string \<times> command_record) list \<Rightarrow> server_runtime \<Rightarrow> bool" where
  "sound_entries es s \<longleftrightarrow> distinct (map (\<lambda>(f, i, r). i) es)
     \<and> (\<forall>(f, i, r) \<in> set es. map_of (rt_records s) i = Some r \<and> rec_finished_at r = Some f)"

lemma drop_record_accounting:
  "accounting_ok s \<Longrightarrow> map_of (rt_records s) i = Some r \<Longrightarrow> accounting_ok (drop_record i r s)"
  using set_delete_subset [of i "rt_records s"]
  by (auto simp: accounting_ok_def drop_record_def cache_total_delete)

lemma evict_sound:
  assumes "sound_entries ((f, i, r) # es) s"
  shows "sound_entries es (evict now required (f, i, r) s)"
  using assms by (force simp: sound_entries_def evict_eq drop_record_def)

lemma evict_accounting:
  "accounting_ok s \<Longrightarrow> sound_entries ((f, i, r) # es) s \<Longrightarrow>
     accounting_ok (evict now required (f, i, r) s)"
  by (simp add: evict_eq drop_record_accounting sound_entries_def)

lemma evict_same_rest: "same_rest s (evict now required e s)"
proof -
  obtain f i r where e: "e = (f, i, r)" by (cases e) auto
  have "same_rest s (drop_record i r s)"
    unfolding same_rest_def drop_record_def
    by (intro exI [of _ "AList.delete i (rt_records s)"] exI [of _ "rt_chains s"]
        exI [of _ "rt_cache_bytes s - int (rec_size r)"] exI [of _ "rt_ticks s"]) simp
  then show ?thesis by (simp add: e evict_eq)
qed

lemma fold_evict_same_rest: "same_rest s (fold (evict now required) es s)"
  by (induction es arbitrary: s) (auto intro: same_rest_trans evict_same_rest)

lemma fold_evict_accounting:
  "accounting_ok s \<Longrightarrow> sound_entries es s \<Longrightarrow> accounting_ok (fold (evict now required) es s)"
  by (induction es arbitrary: s) (auto dest: evict_sound evict_accounting)

text \<open>The retained records are the old ones filtered, and only entries of the run go.\<close>

lemma evict_records:
  "\<exists>P. rt_records (evict now required (f, i, r) s) = filter P (rt_records s)
     \<and> (\<forall>p \<in> set (rt_records s). fst p \<noteq> i \<longrightarrow> P p)"
proof (cases "must_evict now required f s")
  case True
  then show ?thesis
    by (intro exI [of _ "\<lambda>p. fst p \<noteq> i"]) (auto simp: evict_eq drop_record_def AList.delete_eq intro!: filter_cong)
next
  case False
  then show ?thesis by (intro exI [of _ "\<lambda>_. True"]) (simp add: evict_eq)
qed

lemma fold_evict_records:
  "\<exists>P. rt_records (fold (evict now required) es s) = filter P (rt_records s)
     \<and> (\<forall>p \<in> set (rt_records s). fst p \<notin> (\<lambda>(f, i, r). i) ` set es \<longrightarrow> P p)"
proof (induction es arbitrary: s)
  case Nil
  show ?case by (intro exI [of _ "\<lambda>_. True"]) simp
next
  case (Cons e es)
  obtain f i r where e: "e = (f, i, r)" by (cases e) auto
  obtain P where P: "rt_records (evict now required e s) = filter P (rt_records s)"
    "\<forall>p \<in> set (rt_records s). fst p \<noteq> i \<longrightarrow> P p"
    using evict_records [of now required f i r s] e by auto
  obtain Q where Q: "rt_records (fold (evict now required) (e # es) s)
      = filter Q (rt_records (evict now required e s))"
    "\<forall>p \<in> set (rt_records (evict now required e s)). fst p \<notin> (\<lambda>(f, i, r). i) ` set es \<longrightarrow> Q p"
    using Cons.IH [of "evict now required e s"] by auto
  show ?case
    by (rule exI [of _ "\<lambda>p. P p \<and> Q p"]) (use P Q e in \<open>auto simp: conj_commute\<close>)
qed

section \<open>The whole of prune\<close>

lemma finished_records_iff:
  "(f, i, r) \<in> set (finished_records s) \<longleftrightarrow> (i, r) \<in> set (rt_records s) \<and> rec_finished_at r = Some f"
  by (force simp: finished_records_def map_filter_def)

lemma finished_records_tick [simp]: "finished_records (tick s) = finished_records s"
  by (simp add: finished_records_def tick_def)

lemma finished_records_sound:
  assumes "distinct (keys (rt_records s))"
  shows "sound_entries (finished_records s) s"
proof -
  let ?es = "List.map_filter (\<lambda>(i, r). map_option (\<lambda>t. (t, i, r)) (rec_finished_at r)) (rt_records s)"
  have "distinct (map (\<lambda>(f, i, r). i) (List.map_filter
      (\<lambda>(i, r). map_option (\<lambda>t. (t, i, r)) (rec_finished_at r)) d))" if "distinct (keys d)" for d
    using that
  proof (induction d)
    case (Cons p d)
    have "(\<lambda>(f, i, r). i) ` set (List.map_filter
        (\<lambda>(i, r). map_option (\<lambda>t. (t, i, r)) (rec_finished_at r)) d) \<subseteq> set (keys d)"
      by (force simp: map_filter_def)
    then have "i \<in> set (keys d)" if "(f, i, r) \<in> set (List.map_filter
        (\<lambda>(i, r). map_option (\<lambda>t. (t, i, r)) (rec_finished_at r)) d)" for f i r
      using that by force
    then show ?case
      using Cons by (cases p) (auto simp: map_filter_simps split: option.splits)
  qed (simp add: map_filter_simps)
  then have "distinct (map (\<lambda>(f, i, r). i) ?es)" using assms .
  moreover have "mset (finished_records s) = mset ?es"
    by (simp add: finished_records_def)
  then have "mset (map (\<lambda>(f, i, r). i) (finished_records s)) = mset (map (\<lambda>(f, i, r). i) ?es)"
    by (simp only: mset_map)
  ultimately have "distinct (map (\<lambda>(f, i, r). i) (finished_records s))"
    using mset_eq_imp_distinct_iff by blast
  moreover have "map_of (rt_records s) i = Some r \<and> rec_finished_at r = Some f"
    if "(f, i, r) \<in> set (finished_records s)" for f i r
    using that assms by (simp add: finished_records_iff)
  ultimately show ?thesis unfolding sound_entries_def by blast
qed

definition retained :: "server_runtime \<Rightarrow> server_runtime \<Rightarrow> bool" where
  "retained s t \<longleftrightarrow>
     (\<exists>P. rt_records t = filter P (rt_records s)
        \<and> (\<forall>(i, r) \<in> set (rt_records s). rec_finished_at r = None \<longrightarrow> P (i, r)))"

lemma drop_empty_chains_simps [simp]:
  "rt_records (drop_empty_chains s) = rt_records s"
  "rt_cache_bytes (drop_empty_chains s) = rt_cache_bytes s"
  "rt_settings (drop_empty_chains s) = rt_settings s"
  by (simp_all add: drop_empty_chains_def)

lemma tick_simps [simp]:
  "rt_records (tick s) = rt_records s" "rt_cache_bytes (tick s) = rt_cache_bytes s"
  "rt_settings (tick s) = rt_settings s" "rt_chains (tick s) = rt_chains s"
  "rt_restart_command (tick s) = rt_restart_command s" "rt_requests (tick s) = rt_requests s"
  by (simp_all add: tick_def)

lemma accounting_tick [simp]: "accounting_ok (tick s) = accounting_ok s"
  by (simp add: accounting_ok_def)

lemma accounting_drop_chains [simp]: "accounting_ok (drop_empty_chains s) = accounting_ok s"
  by (simp add: accounting_ok_def)

lemma sound_entries_tick [simp]: "sound_entries es (tick s) = sound_entries es s"
  by (simp add: sound_entries_def)

lemma prune_same_rest: "same_rest s (prune env n s)"
proof -
  have a: "same_rest s (tick s)"
    unfolding same_rest_def tick_def
    by (intro exI [of _ "rt_records s"] exI [of _ "rt_chains s"] exI [of _ "rt_cache_bytes s"]
        exI [of _ "Suc (rt_ticks s)"]) simp
  have b: "same_rest u (drop_empty_chains u)" for u
    unfolding same_rest_def drop_empty_chains_def
    by (intro exI [of _ "rt_records u"]
        exI [of _ "filter (\<lambda>(c, ids). list_ex (has_key (rt_records u)) ids) (rt_chains u)"]
        exI [of _ "rt_cache_bytes u"] exI [of _ "rt_ticks u"]) simp
  show ?thesis
    unfolding prune_def Let_def
    by (rule same_rest_trans [OF a same_rest_trans [OF fold_evict_same_rest b]])
qed

lemmas prune_rest [simp] = same_rest_fields [OF prune_same_rest]

lemma prune_accounting: "accounting_ok s \<Longrightarrow> accounting_ok (prune env n s)"
  using finished_records_sound [of s]
  by (simp add: prune_def Let_def fold_evict_accounting accounting_ok_def [of s, THEN iffD1])

lemma prune_retained: "distinct (keys (rt_records s)) \<Longrightarrow> retained s (prune env n s)"
proof -
  assume distinct: "distinct (keys (rt_records s))"
  let ?now = "env_clock env (rt_ticks s)"
  obtain P where P: "rt_records (fold (evict ?now n) (finished_records s) (tick s)) = filter P (rt_records s)"
    "\<forall>p \<in> set (rt_records s). fst p \<notin> (\<lambda>(f, i, r). i) ` set (finished_records s) \<longrightarrow> P p"
    using fold_evict_records [of ?now n "finished_records s" "tick s"] by auto
  have "P (i, r)" if "(i, r) \<in> set (rt_records s)" "rec_finished_at r = None" for i r
  proof -
    have "i \<notin> (\<lambda>(f, i, r). i) ` set (finished_records s)"
    proof
      assume "i \<in> (\<lambda>(f, i, r). i) ` set (finished_records s)"
      then obtain f q where "(i, q) \<in> set (rt_records s)" "rec_finished_at q = Some f"
        by (auto simp: finished_records_iff)
      then show False using that eq_key_imp_eq_value [OF distinct, of i r q] by simp
    qed
    with P(2) that(1) show ?thesis by auto
  qed
  with P(1) show ?thesis
    unfolding retained_def prune_def Let_def by (intro exI [of _ P]) auto
qed

lemma retained_keys: "retained s t \<Longrightarrow> set (keys (rt_records t)) \<subseteq> set (keys (rt_records s))"
  by (auto simp: retained_def)

lemma retained_length: "retained s t \<Longrightarrow> length (rt_records t) \<le> length (rt_records s)"
  by (auto simp: retained_def)

lemma map_of_filter_eq:
  "distinct (keys d) \<Longrightarrow> map_of (filter P d) i
     = (case map_of d i of None \<Rightarrow> None | Some r \<Rightarrow> if P (i, r) then Some r else None)"
  by (induction d) (auto simp: map_of_eq_None_iff image_iff split: option.splits)

lemma retained_map_of:
  assumes "distinct (keys (rt_records s))" "retained s t"
  shows "map_of (rt_records t) i = None \<or> map_of (rt_records t) i = map_of (rt_records s) i"
proof -
  obtain P where "rt_records t = filter P (rt_records s)"
    using assms(2) by (auto simp: retained_def)
  then show ?thesis
    using assms(1) by (cases "map_of (rt_records s) i") (simp_all add: map_of_filter_eq)
qed

lemma retained_pending:
  assumes "distinct (keys (rt_records s))" "retained s t"
    "map_of (rt_records s) i = Some r" "rec_finished_at r = None"
  shows "map_of (rt_records t) i = Some r"
proof -
  obtain P where "rt_records t = filter P (rt_records s)" "P (i, r)"
    using assms(2-4) map_of_SomeD [OF assms(3)] by (auto simp: retained_def)
  then show ?thesis using assms(1,3) by (simp add: map_of_filter_eq)
qed

lemma retained_pending_records:
  assumes "accounting_ok s" "retained s t"
  shows "pending_records t = pending_records s"
proof -
  obtain P where P: "rt_records t = filter P (rt_records s)"
    "\<forall>(i, r) \<in> set (rt_records s). rec_finished_at r = None \<longrightarrow> P (i, r)"
    using assms(2) by (auto simp: retained_def)
  have pend: "\<forall>p \<in> set (rt_records s). rec_response (snd p) = None \<longrightarrow> P p"
    using assms(1) P(2) by (auto simp: accounting_ok_def record_ok_def)
  have "filter (\<lambda>r. rec_response r = None) (map snd (filter P d))
      = filter (\<lambda>r. rec_response r = None) (map snd d)"
    if "\<forall>p \<in> set d. rec_response (snd p) = None \<longrightarrow> P p" for d
    using that by (induction d) auto
  then show ?thesis using pend by (simp add: pending_records_def P(1))
qed

section \<open>Effect of prune\<close>

lemma must_evict_mono:
  assumes "\<not> must_evict now n f s" "f \<le> g"
  shows "\<not> must_evict now n g s"
  using assms by (auto simp: must_evict_def)

text \<open>Evicting in the order of completion removes the first entries, as few as needed.\<close>

lemma fold_evict_prefix:
  assumes "sorted (map fst es)"
  shows "\<exists>k \<le> length es. fold (evict now n) es s = fold (\<lambda>(f, i, r). drop_record i r) (take k es) s
     \<and> (k < length es \<longrightarrow> \<not> must_evict now n (fst (es ! k)) (fold (evict now n) es s))"
  using assms
proof (induction es arbitrary: s)
  case (Cons e es)
  obtain f i r where e: "e = (f, i, r)" by (cases e) auto
  show ?case
  proof (cases "must_evict now n f s")
    case True
    obtain k where k: "k \<le> length es"
      "fold (evict now n) es (drop_record i r s)
         = fold (\<lambda>(f, i, r). drop_record i r) (take k es) (drop_record i r s)"
      "k < length es \<longrightarrow> \<not> must_evict now n (fst (es ! k)) (fold (evict now n) es (drop_record i r s))"
      using Cons.IH [of "drop_record i r s"] Cons.prems by auto
    then show ?thesis using True by (intro exI [of _ "Suc k"]) (simp add: e evict_eq)
  next
    case False
    have stop: "fold (evict now n) es' s = s" if "\<forall>x \<in> set es'. f \<le> fst x" for es'
      using that
    proof (induction es')
      case (Cons x es')
      obtain g j q where x: "x = (g, j, q)" by (cases x) auto
      have "\<not> must_evict now n g s" by (rule must_evict_mono [OF False]) (use Cons.prems x in simp)
      then show ?case using Cons by (simp add: x evict_eq)
    qed simp
    have "\<forall>x \<in> set es. f \<le> fst x" using Cons.prems e by auto
    then have "fold (evict now n) (e # es) s = s" using False stop by (simp add: e evict_eq)
    then show ?thesis using False e by (intro exI [of _ 0]) simp
  qed
qed simp

lemma fold_drop_records:
  "rt_records (fold (\<lambda>(f, i, r). drop_record i r) es s)
     = filter (\<lambda>p. fst p \<notin> (\<lambda>(f, i, r). i) ` set es) (rt_records s)"
proof (induction es arbitrary: s)
  case (Cons e es)
  obtain f i r where e: "e = (f, i, r)" by (cases e) auto
  have "rt_records (drop_record i r s) = filter (\<lambda>p. fst p \<noteq> i) (rt_records s)"
    by (auto simp: drop_record_def AList.delete_eq intro!: filter_cong)
  then show ?case using Cons.IH [of "drop_record i r s"] by (simp add: e)
qed simp

lemma cache_total_pending:
  "\<forall>(i, r) \<in> set d. record_ok r \<and> rec_response r = None \<Longrightarrow> cache_total d = 0"
  by (induction d) (auto simp: record_ok_def)

lemma prune_limits_facts:
  assumes ok: "accounting_ok s" and t: "t = prune env n s"
  shows "rt_cache_bytes t \<le> int (max_cache_bytes (rt_settings s))"
    and "(i, r) \<in> set (rt_records t) \<Longrightarrow> rec_finished_at r = Some f \<Longrightarrow>
       env_clock env (rt_ticks s) < f + result_ttl (rt_settings s)"
    and "length (rt_records t) + n \<le> max_records (rt_settings s)
       \<or> (\<forall>(i, r) \<in> set (rt_records t). rec_response r = None)"
    and "map_of (rt_records s) i = Some r \<Longrightarrow> rec_response r = None \<Longrightarrow>
       map_of (rt_records t) i = Some r"
    and "map_of (rt_records s) i = Some r \<Longrightarrow> map_of (rt_records t) i = None \<Longrightarrow>
       (j, q) \<in> set (rt_records t) \<Longrightarrow> rec_finished_at q = Some g \<Longrightarrow>
       \<exists>f. rec_finished_at r = Some f \<and> f \<le> g"
    and "(c, ids) \<in> set (rt_chains t) \<Longrightarrow> \<exists>i \<in> set ids. has_key (rt_records t) i"
proof -
  let ?now = "env_clock env (rt_ticks s)" and ?es = "finished_records s"
  let ?u = "fold (evict ?now n) ?es (tick s)"
  have tu: "t = drop_empty_chains ?u" by (simp add: t prune_def Let_def)
  have sorted: "sorted (map fst ?es)" by (simp add: finished_records_def)
  obtain k where k: "k \<le> length ?es" "?u = fold (\<lambda>(f, i, r). drop_record i r) (take k ?es) (tick s)"
    "k < length ?es \<longrightarrow> \<not> must_evict ?now n (fst (?es ! k)) ?u"
    using fold_evict_prefix [OF sorted, of ?now n "tick s"] by blast
  have settings: "rt_settings ?u = rt_settings s"
    using same_rest_fields(1) [OF fold_evict_same_rest] by simp
  have records: "rt_records t = filter (\<lambda>p. fst p \<notin> (\<lambda>(f, i, r). i) ` set (take k ?es)) (rt_records s)"
    unfolding tu k(2) by (simp add: fold_drop_records)
  have acc: "accounting_ok t" unfolding t by (rule prune_accounting [OF ok])
  have distinct: "distinct (keys (rt_records s))" using ok by (simp add: accounting_ok_def)
  have later: "k < length ?es \<and> fst (?es ! k) \<le> f"
    if "(i, r) \<in> set (rt_records t)" "rec_finished_at r = Some f" for i r f
  proof -
    have "(f, i, r) \<in> set ?es" "(f, i, r) \<notin> set (take k ?es)"
      using that by (force simp: records finished_records_iff)+
    then have "(f, i, r) \<in> set (drop k ?es)"
      by (metis UnE append_take_drop_id set_append)
    then obtain m where m: "m < length ?es - k" "?es ! (k + m) = (f, i, r)"
      by (auto simp: in_set_conv_nth)
    then have "fst (?es ! k) \<le> fst (?es ! (k + m))"
      using sorted_nth_mono [OF sorted, of k "k + m"] by simp
    with m show ?thesis by simp
  qed
  have pending: "\<forall>(i, r) \<in> set (rt_records t). rec_response r = None" if "\<not> k < length ?es"
    using that later acc by (fastforce simp: accounting_ok_def record_ok_def)
  show "rt_cache_bytes t \<le> int (max_cache_bytes (rt_settings s))"
  proof (cases "k < length ?es")
    case True
    then show ?thesis using k(3) settings by (simp add: must_evict_def tu)
  next
    case False
    then have "cache_total (rt_records t) = 0"
      using pending acc by (intro cache_total_pending) (auto simp: accounting_ok_def)
    then show ?thesis using acc by (simp add: accounting_ok_def)
  qed
  show "?now < f + result_ttl (rt_settings s)"
    if "(i, r) \<in> set (rt_records t)" "rec_finished_at r = Some f"
    using later [OF that] k(3) settings by (auto simp: must_evict_def)
  show "length (rt_records t) + n \<le> max_records (rt_settings s)
      \<or> (\<forall>(i, r) \<in> set (rt_records t). rec_response r = None)"
    using pending k(3) settings by (cases "k < length ?es") (auto simp: must_evict_def tu)
  show "map_of (rt_records t) i = Some r" if "map_of (rt_records s) i = Some r" "rec_response r = None"
  proof (rule retained_pending [OF distinct _ that(1)])
    show "retained s t" unfolding t by (rule prune_retained [OF distinct])
    show "rec_finished_at r = None"
      using ok that map_of_SomeD [OF that(1)] by (auto simp: accounting_ok_def record_ok_def)
  qed
  show "\<exists>f. rec_finished_at r = Some f \<and> f \<le> g"
    if gone: "map_of (rt_records s) i = Some r" "map_of (rt_records t) i = None"
      and kept: "(j, q) \<in> set (rt_records t)" "rec_finished_at q = Some g"
  proof -
    have "i \<in> (\<lambda>(f, i, r). i) ` set (take k ?es)"
      using gone by (auto simp: records map_of_filter_eq [OF distinct] split: if_splits)
    then obtain f r' where "(f, i, r') \<in> set (take k ?es)" by auto
    then obtain m where m: "m < k" "?es ! m = (f, i, r')" "m < length ?es"
      by (auto simp: in_set_conv_nth)
    then have "(f, i, r') \<in> set ?es" by (metis nth_mem)
    then have "r' = r" "rec_finished_at r = Some f"
      using gone(1) distinct by (auto simp: finished_records_iff map_of_eq_Some_iff dest: eq_key_imp_eq_value)
    moreover have "f \<le> g"
      using later [OF kept] m sorted_nth_mono [OF sorted, of m k] by fastforce
    ultimately show ?thesis by blast
  qed
  show "\<exists>i \<in> set ids. has_key (rt_records t) i" if "(c, ids) \<in> set (rt_chains t)"
    using that by (auto simp: tu drop_empty_chains_def list_ex_iff)
qed

text \<open>
  C33. Pruning keeps exactly what the limits allow. Afterwards the cached results fit their
  byte limit, no expired receipt remains, and the record limit with the required slots is met
  unless only pending commands are left. Pending commands are never evicted, finished receipts
  go oldest first, and every retained chain has a retained member.
\<close>

theorem prune_limits:
  assumes "accounting_ok s" and "t = prune env n s"
  shows "rt_cache_bytes t \<le> int (max_cache_bytes (rt_settings s))
     \<and> (\<forall>i r f. (i, r) \<in> set (rt_records t) \<longrightarrow> rec_finished_at r = Some f \<longrightarrow>
          env_clock env (rt_ticks s) < f + result_ttl (rt_settings s))
     \<and> (length (rt_records t) + n \<le> max_records (rt_settings s)
          \<or> (\<forall>(i, r) \<in> set (rt_records t). rec_response r = None))
     \<and> (\<forall>i r. map_of (rt_records s) i = Some r \<longrightarrow> rec_response r = None \<longrightarrow>
          map_of (rt_records t) i = Some r)
     \<and> (\<forall>i r j q g. map_of (rt_records s) i = Some r \<longrightarrow> map_of (rt_records t) i = None \<longrightarrow>
          (j, q) \<in> set (rt_records t) \<longrightarrow> rec_finished_at q = Some g \<longrightarrow>
          (\<exists>f. rec_finished_at r = Some f \<and> f \<le> g))
     \<and> (\<forall>c ids. (c, ids) \<in> set (rt_chains t) \<longrightarrow> (\<exists>i \<in> set ids. has_key (rt_records t) i))"
  using prune_limits_facts [OF assms] by blast

end
