(* ===== verification/Server_Invariants.thy ===== *)
theory Server_Invariants
  imports Server_Pruning
begin

text \<open>
  The invariant of the runtime's retained records and chains, kept by every operation: the
  accounting of \<open>Server_Pruning\<close>, the capacity limits, at most one pending standalone stop, and
  a retained member for every chain. \<open>server_step\<close> is one operation of the object, or a change
  made by the process and the lifecycle code outside it.
\<close>

definition runtime_ok :: "server_runtime \<Rightarrow> bool" where
  "runtime_ok s \<longleftrightarrow> accounting_ok s
     \<and> length (rt_records s) \<le> max_records (rt_settings s)
     \<and> length (pending_records s) \<le> max_pending (rt_settings s) + 1
     \<and> length (filter rec_is_stop (pending_records s)) \<le> 1
     \<and> (\<forall>(c, ids) \<in> set (rt_chains s). \<exists>i \<in> set ids. has_key (rt_records s) i)"

lemma runtime_ok_distinct: "runtime_ok s \<Longrightarrow> distinct (keys (rt_records s))"
  by (simp add: runtime_ok_def accounting_ok_def)

lemma initial_runtime_ok: "runtime_ok (initial_runtime settings stop_http i r)"
  by (simp add: runtime_ok_def accounting_ok_def initial_runtime_def pending_records_def)

section \<open>Pruning and responses\<close>

lemma prune_ok: "runtime_ok s \<Longrightarrow> runtime_ok (prune env n s)"
proof -
  assume ok: "runtime_ok s"
  then have acc: "accounting_ok s" by (simp add: runtime_ok_def)
  have ret: "retained s (prune env n s)" by (rule prune_retained [OF runtime_ok_distinct [OF ok]])
  have "\<exists>i \<in> set ids. has_key (rt_records (prune env n s)) i"
    if "(c, ids) \<in> set (rt_chains (prune env n s))" for c ids
    using that by (auto simp: prune_def Let_def drop_empty_chains_def list_ex_iff)
  then show ?thesis
    using ok prune_accounting [OF acc] retained_length [OF ret] retained_pending_records [OF acc ret]
    by (auto simp: runtime_ok_def)
qed

lemma filter_update_le:
  "\<not> P r' \<Longrightarrow> map_of d i = Some r \<Longrightarrow>
     length (filter P (map snd (AList.update i r' d))) \<le> length (filter P (map snd d))"
  by (induction d) (auto split: if_splits)

lemma set_update_present:
  "distinct (keys d) \<Longrightarrow> (j, q) \<in> set (AList.update i r d) \<Longrightarrow> (j, q) = (i, r) \<or> (j, q) \<in> set d"
  by (induction d) (auto split: if_splits)

lemma length_update_present: "i \<in> set (keys d) \<Longrightarrow> length (AList.update i r d) = length d"
  by (induction d) auto

lemma set_response_simps [simp]:
  "rt_settings (set_response env i r o' sz s) = rt_settings s"
  "rt_chains (set_response env i r o' sz s) = rt_chains s"
  "rt_requests (set_response env i r o' sz s) = rt_requests s"
  "rt_restart_command (set_response env i r o' sz s) = rt_restart_command s"
  "rt_reads (set_response env i r o' sz s) = rt_reads s"
  "rt_instance_id (set_response env i r o' sz s) = rt_instance_id s"
  by (simp_all add: set_response_def tick_def)

lemma rt_records_set_response:
  "rt_records (set_response env i r o' sz s) = AList.update i (r\<lparr>rec_response := Some o',
     rec_finished_at := Some (env_clock env (rt_ticks s)), rec_size := sz\<rparr>) (rt_records s)"
  by (simp add: set_response_def tick_def)

lemma set_response_ok:
  assumes ok: "runtime_ok s" and r: "map_of (rt_records s) i = Some r"
  shows "runtime_ok (set_response env i r o' sz s)"
proof -
  let ?r = "r\<lparr>rec_response := Some o', rec_finished_at := Some (env_clock env (rt_ticks s)), rec_size := sz\<rparr>"
  have i: "i \<in> set (keys (rt_records s))" using r by (force dest: map_of_SomeD)
  have "accounting_ok (set_response env i r o' sz s)"
    unfolding accounting_ok_def
  proof (intro conjI)
    show "distinct (keys (rt_records (set_response env i r o' sz s)))"
      using runtime_ok_distinct [OF ok] by (simp add: rt_records_set_response)
    have "record_ok q" if "(j, q) \<in> set (rt_records (set_response env i r o' sz s))" for j q
      using set_update_present [OF runtime_ok_distinct [OF ok] that [unfolded rt_records_set_response]] ok
      by (auto simp: runtime_ok_def accounting_ok_def record_ok_def)
    then show "\<forall>(j, q) \<in> set (rt_records (set_response env i r o' sz s)). record_ok q" by blast
    show "rt_cache_bytes (set_response env i r o' sz s)
        = cache_total (rt_records (set_response env i r o' sz s))"
      using ok cache_total_update [OF runtime_ok_distinct [OF ok] r]
      by (simp add: runtime_ok_def accounting_ok_def set_response_def)
  qed
  moreover have "length (pending_records (set_response env i r o' sz s)) \<le> length (pending_records s)"
    using filter_update_le [of "\<lambda>r. rec_response r = None" ?r "rt_records s" i r] r
    by (simp add: pending_records_def rt_records_set_response)
  moreover have "length (filter rec_is_stop (pending_records (set_response env i r o' sz s)))
      \<le> length (filter rec_is_stop (pending_records s))"
    using filter_update_le [of "\<lambda>r. rec_response r = None \<and> rec_is_stop r" ?r "rt_records s" i r] r
    by (simp add: pending_records_def rt_records_set_response)
  moreover have "length (rt_records (set_response env i r o' sz s)) = length (rt_records s)"
    using i by (simp add: rt_records_set_response length_update_present)
  ultimately show ?thesis
    using ok by (fastforce simp: runtime_ok_def rt_records_set_response)
qed

lemma runtime_ok_pending_size:
  assumes "runtime_ok s" "map_of (rt_records s) i = Some r" "rec_response r = None"
  shows "r\<lparr>rec_size := 0\<rparr> = r"
proof -
  have "rec_size r = 0"
    using assms by (auto simp: runtime_ok_def accounting_ok_def record_ok_def dest!: map_of_SomeD)
  then show ?thesis by simp
qed

text \<open>Operations that only change the other fields.\<close>

definition same_books :: "server_runtime \<Rightarrow> server_runtime \<Rightarrow> bool" where
  "same_books s t \<longleftrightarrow> rt_records t = rt_records s \<and> rt_chains t = rt_chains s
     \<and> rt_cache_bytes t = rt_cache_bytes s
     \<and> max_records (rt_settings t) = max_records (rt_settings s)
     \<and> max_pending (rt_settings t) = max_pending (rt_settings s)"

lemma same_books_ok: "same_books s t \<Longrightarrow> runtime_ok s \<Longrightarrow> runtime_ok t"
  by (simp add: same_books_def runtime_ok_def accounting_ok_def pending_records_def)

section \<open>What the operations keep\<close>

text \<open>
  The operations change the books only by pruning and by setting the response of a record that
  has none or an unknown one. An invariant kept by these two, and depending on the books alone,
  is kept by every operation apart from an admission.
\<close>

locale books =
  fixes I :: "server_runtime \<Rightarrow> bool"
  assumes prune_kept: "I s \<Longrightarrow> I (prune env n s)"
    and response_kept: "I s \<Longrightarrow> map_of (rt_records s) i = Some r \<Longrightarrow> replaceable r \<Longrightarrow>
      I (set_response env i r o' sz s)"
    and books_kept: "I s \<Longrightarrow> same_books s t \<Longrightarrow> I t"
    and pending_size: "I s \<Longrightarrow> map_of (rt_records s) i = Some r \<Longrightarrow> rec_response r = None \<Longrightarrow>
      r\<lparr>rec_size := 0\<rparr> = r"

context books begin

lemma keeps_prune [keeps_rules]: "keeps I (py_modify (prune env n))"
  by (simp add: keeps_modify prune_kept)

lemma keeps_same_books: "(\<And>s. same_books s (snd (m s))) \<Longrightarrow> keeps I m"
  by (auto simp: keeps_def intro: books_kept)

lemma keeps_modify_books: "(\<And>s. same_books s (f s)) \<Longrightarrow> keeps I (py_modify f)"
  by (rule keeps_same_books) simp

lemma mark_unknown_ok: "keeps I (mark_unknown env message i)"
proof (rule keepsI)
  fix s assume ok: "I s"
  show "I (snd (mark_unknown env message i s))"
  proof (cases "map_of (rt_records s) i")
    case (Some r)
    then show ?thesis
      using ok response_kept [OF ok Some] pending_size [OF ok Some]
      by (auto simp: mark_unknown_def py_simps Let_def replaceable_def split: sum.splits)
  qed (simp add: mark_unknown_def ok)
qed

lemma unavailable_ok [keeps_rules]: "keeps I (unavailable env message runtime_id)"
  unfolding unavailable_def
  by (intro keeps_rules mark_unknown_ok keeps_modify_books)
    (simp add: same_books_def announce_unavailable_def Let_def)

lemma accept_read_response_ok [keeps_rules]: "keeps I (accept_read_response i response)"
  unfolding accept_read_response_def
  by (intro keeps_rules keeps_modify_books) (simp add: same_books_def)

lemma accept_read_response_records:
  "accept_read_response i response s = (r, t) \<Longrightarrow> rt_records t = rt_records s"
  by (auto simp: accept_read_response_def py_simps split: if_splits)

lemma accept_command_response_ok [keeps_rules]: "keeps I (accept_command_response env outcome)"
proof (rule keepsI)
  fix s assume ok: "I s"
  show "I (snd (accept_command_response env outcome s))"
  proof (cases "uuid_int (oc_id outcome)")
    case (Inl e)
    then show ?thesis using ok by (simp add: accept_command_response_def)
  next
    case (Inr n)
    let ?i = "uuid_str n"
    show ?thesis
    proof (cases "bounded_response env (rt_settings s) outcome ?i")
      case (Inl e)
      then show ?thesis using ok Inr by (simp add: accept_command_response_def Let_def)
    next
      case b: (Inr p)
      obtain response sz where p: "p = (response, sz)" by (cases p)
      obtain h u where u: "accept_read_response ?i response s = (h, u)" by fastforce
      have u_ok: "I u" "rt_records u = rt_records s"
        using keepsD [OF accept_read_response_ok ok u] accept_read_response_records [OF u] by auto
      show ?thesis
        using Inr b p u u_ok
        by (auto simp: accept_command_response_def py_simps Let_def py_when_def
            split: sum.splits option.splits intro!: prune_kept response_kept)
    qed
  qed
qed

lemma note_response_ok [keeps_rules]: "keeps I (py_modify (note_response env))"
  by (rule keeps_modify_books) (simp add: same_books_def note_response_def tick_def)

lemma accept_runtime_response_ok [keeps_rules]:
  "keeps I (accept_runtime_response env response kind)"
  unfolding accept_runtime_response_def
  by (intro keeps_rules keeps_modify_books)
    (simp_all add: same_books_def accept_runtime_ready_def)

lemma accept_response_ok [keeps_rules]: "keeps I (accept_response env message runtime_id)"
proof -
  have "keeps I (dispatch_response env message)"
    unfolding dispatch_response_def by (cases message) (auto intro!: keeps_rules)
  then show ?thesis unfolding accept_response_def by (intro keeps_rules)
qed

lemma finish_lifecycle_ok [keeps_rules]: "keeps I (finish_lifecycle env c document)"
  unfolding finish_lifecycle_def
  by (intro keeps_rules keeps_modify_books) (simp_all add: same_books_def)

lemma find_result_books:
  "find_result env i s = (r, t) \<Longrightarrow> t = s \<or> t = prune env 0 s"
  by (cases "uuid_int i") (auto simp: find_result_def py_simps split: option.splits)

lemma find_result_ok [keeps_rules]: "keeps I (find_result env i)"
  by (rule keepsI) (metis find_result_books prod.collapse prune_kept)

lemma find_results_ok [keeps_rules]: "keeps I (find_results env is)"
  by (induction "is") (simp_all only: find_results.simps, (intro keeps_rules, assumption?)+)

lemma receipt_ok [keeps_rules]: "keeps I (receipt env ids chain)"
  unfolding receipt_def read_result_def
  by (cases chain; cases ids) (auto intro!: keeps_rules)

end

interpretation runtime_books: books runtime_ok
  by unfold_locales
    (auto intro: prune_ok set_response_ok same_books_ok runtime_ok_pending_size)

section \<open>Admission\<close>

text \<open>The state after new work was admitted into \<open>u\<close>.\<close>

definition admission_effect ::
    "bool \<Rightarrow> string option \<Rightarrow> server_command list \<Rightarrow> json \<Rightarrow> string list \<Rightarrow> command_record list
     \<Rightarrow> server_runtime \<Rightarrow> server_runtime" where
  "admission_effect lifecycle chain_id cs message ids recs u =
     (let u = (if lifecycle then u
               else u\<lparr>rt_requests := map_option (\<lambda>q. q\<lparr>q_items := q_items q @ [message]\<rparr>) (rt_requests u)\<rparr>);
          u = store_records ids recs u;
          u = (case chain_id of None \<Rightarrow> u | Some c \<Rightarrow> u\<lparr>rt_chains := AList.update c ids (rt_chains u)\<rparr>)
      in if lifecycle then u\<lparr>rt_restart_command := Some (hd cs), rt_restart_task := True\<rparr> else u)"

lemma check_capacity_cases:
  assumes "check_submission_capacity env n chain_id stop lifecycle s = (r, t)"
  shows "(\<exists>e. r = Inl e) \<and> (t = s \<or> t = prune env n s)
    \<or> r = Inr () \<and> t = prune env n s \<and> (\<forall>c. chain_id = Some c \<longrightarrow> \<not> has_key (rt_chains s) c)
      \<and> \<not> (stop \<and> list_ex rec_is_stop (pending_records s))
      \<and> length (pending_records s) + n \<le> max_pending (rt_settings s) + of_bool (stop \<or> lifecycle)
      \<and> length (rt_records t) + n \<le> max_records (rt_settings s)"
  using assms unfolding check_submission_capacity_def
  by (cases chain_id) (auto simp: py_simps not_less split: if_splits)

lemma put_nowait_cases:
  assumes "put_nowait message s = (r, t)" "rt_requests s = Some q"
  shows "(\<exists>e. r = Inl e) \<and> t = s \<and> q_capacity q \<le> length (q_items q)
    \<or> r = Inr () \<and> t = s\<lparr>rt_requests := Some (q\<lparr>q_items := q_items q @ [message]\<rparr>)\<rparr>
      \<and> length (q_items q) < q_capacity q"
  using assms by (auto simp: put_nowait_def split: if_splits)

lemma require_ready_queue: "require_ready s = Inr q \<Longrightarrow> rt_requests s = Some q"
  by (auto simp: require_ready_def split: if_splits option.splits)

lemma admit_new_cases:
  assumes "admit_new env chain chain_id cs message ids recs s = (r, t)"
  shows "(\<exists>e. r = Inl e) \<and> (t = s \<or> t = prune env (length cs) s)
    \<or> r = Inr () \<and> check_submission_mode cs s = Inr ()
      \<and> (if is_lifecycle chain cs then admit_lifecycle_command (hd cs) s = Inr ()
         else \<exists>q. require_ready s = Inr q \<and> length (q_items q) < q_capacity q)
      \<and> fst (check_submission_capacity env (length cs) chain_id (is_priority_stop chain cs)
               (is_lifecycle chain cs) s) = Inr ()
      \<and> t = admission_effect (is_lifecycle chain cs) chain_id cs message ids recs
               (prune env (length cs) s)"
proof -
  let ?life = "is_lifecycle chain cs" and ?u = "prune env (length cs) s"
  obtain c u where cu: "check_submission_capacity env (length cs) chain_id (is_priority_stop chain cs)
      ?life s = (c, u)" by fastforce
  note cap = check_capacity_cases [OF cu]
  show ?thesis
  proof (cases "check_submission_mode cs s")
    case (Inl e)
    then have "r = Inl e \<and> t = s" using assms by (simp add: admit_new_def py_simps)
    then show ?thesis by blast
  next
    case mode: (Inr x)
    show ?thesis
    proof (cases ?life)
      case life: True
      show ?thesis
      proof (cases "admit_lifecycle_command (hd cs) s")
        case (Inl e)
        then have "r = Inl e \<and> t = s" using assms mode life by (simp add: admit_new_def py_simps)
        then show ?thesis by blast
      next
        case admit: (Inr x)
        show ?thesis
        proof (cases c)
          case (Inl e)
          then have "r = Inl e \<and> t = u"
            using assms mode life admit cu by (simp add: admit_new_def py_simps)
          then show ?thesis using cap Inl by blast
        next
          case (Inr y)
          then show ?thesis
            using assms mode life admit cu cap
            by (auto simp: admit_new_def py_simps admission_effect_def Let_def split: option.splits)
        qed
      qed
    next
      case life: False
      show ?thesis
      proof (cases "require_ready s")
        case (Inl e)
        then have "r = Inl e \<and> t = s" using assms mode life by (simp add: admit_new_def py_simps)
        then show ?thesis by blast
      next
        case ready: (Inr q)
        have q: "rt_requests s = Some q" by (rule require_ready_queue [OF ready])
        show ?thesis
        proof (cases c)
          case (Inl e)
          then have "r = Inl e \<and> t = u"
            using assms mode life ready cu by (simp add: admit_new_def py_simps)
          then show ?thesis using cap Inl by blast
        next
          case (Inr y)
          then have u: "u = ?u" "rt_requests u = Some q" using cap q by auto
          obtain p v where pv: "put_nowait message u = (p, v)" by fastforce
          show ?thesis
            using put_nowait_cases [OF pv u(2)] assms mode life ready cu cap pv u Inr
            by (auto simp: admit_new_def py_simps admission_effect_def Let_def split: option.splits)
        qed
      qed
    qed
  qed
qed

lemma fold_update_new:
  "length ids = length recs \<Longrightarrow> distinct ids \<Longrightarrow> set ids \<inter> set (keys d) = {} \<Longrightarrow>
     fold (\<lambda>(i, r). AList.update i r) (zip ids recs) d = d @ zip ids recs"
proof (induction ids recs arbitrary: d rule: list_induct2)
  case (Cons i ids r recs)
  have "AList.update i r d = d @ [(i, r)]"
    using Cons.prems(2) by (induction d) auto
  then show ?case using Cons by auto
qed simp

lemma admission_effect_simps [simp]:
  "rt_settings (admission_effect l c cs m ids recs u) = rt_settings u"
  "rt_cache_bytes (admission_effect l c cs m ids recs u) = rt_cache_bytes u"
  "rt_instance_id (admission_effect l c cs m ids recs u) = rt_instance_id u"
  "rt_records (admission_effect l c cs m ids recs u)
     = fold (\<lambda>(i, r). AList.update i r) (zip ids recs) (rt_records u)"
  "rt_chains (admission_effect l c cs m ids recs u)
     = (case c of None \<Rightarrow> rt_chains u | Some k \<Rightarrow> AList.update k ids (rt_chains u))"
  "rt_requests (admission_effect l c cs m ids recs u)
     = (if l then rt_requests u
        else map_option (\<lambda>q. q\<lparr>q_items := q_items q @ [m]\<rparr>) (rt_requests u))"
  by (cases c; simp add: admission_effect_def store_records_def Let_def)+

lemma set_update_subset: "set (AList.update k v d) \<subseteq> insert (k, v) (set d)"
  by (induction d) auto

definition fresh_records :: "command_record list \<Rightarrow> bool" where
  "fresh_records recs \<longleftrightarrow>
     (\<forall>r \<in> set recs. rec_response r = None \<and> rec_finished_at r = None \<and> rec_size r = 0)"

lemma admission_effect_ok:
  assumes ok: "runtime_ok u" and len: "length ids = length recs" and dist: "distinct ids"
    and new: "set ids \<inter> set (keys (rt_records u)) = {}" and fresh: "fresh_records recs"
    and cap: "length (pending_records u) + length recs \<le> max_pending (rt_settings u) + 1"
      "length (rt_records u) + length recs \<le> max_records (rt_settings u)"
      "length (filter rec_is_stop (pending_records u)) + length (filter rec_is_stop recs) \<le> 1"
    and chain: "chain_id \<noteq> None \<Longrightarrow> ids \<noteq> []"
  shows "runtime_ok (admission_effect l chain_id cs m ids recs u)"
proof -
  let ?t = "admission_effect l chain_id cs m ids recs u"
  have records: "rt_records ?t = rt_records u @ zip ids recs"
    by (simp add: fold_update_new [OF len dist new])
  have zeros: "cache_total (zip ids recs) = 0"
    using len fresh
    by (induction ids recs rule: list_induct2) (auto simp: fresh_records_def)
  have "accounting_ok ?t"
    using ok fresh dist new zeros set_zip_rightD [of _ _ ids recs] len
    unfolding accounting_ok_def records runtime_ok_def
    by (auto simp: fresh_records_def record_ok_def map_fst_zip)
  moreover have pend: "pending_records ?t = pending_records u @ recs"
    using len fresh unfolding pending_records_def records
    by (simp add: map_snd_zip fresh_records_def filter_id_conv)
  moreover have "\<exists>i \<in> set is. has_key (rt_records ?t) i" if "(c, is) \<in> set (rt_chains ?t)" for c "is"
  proof -
    have "(c, is) \<in> set (rt_chains u) \<or> chain_id \<noteq> None \<and> is = ids"
    proof (cases chain_id)
      case (Some k)
      then have "(c, is) \<in> insert (k, ids) (set (rt_chains u))"
        using that set_update_subset [of k ids "rt_chains u"] by auto
      then show ?thesis using Some by auto
    qed (use that in simp)
    then consider "(c, is) \<in> set (rt_chains u)" | "chain_id \<noteq> None" "is = ids" by blast
    then show ?thesis
    proof cases
      case 1
      then obtain i where "i \<in> set is" "has_key (rt_records u) i"
        using ok unfolding runtime_ok_def by blast
      then show ?thesis unfolding has_key_iff records by auto
    next
      case 2
      then have "hd ids \<in> set ids" "hd ids \<in> set (keys (rt_records ?t))"
        using chain len unfolding records by (auto simp: map_fst_zip)
      then show ?thesis using 2 unfolding has_key_iff by blast
    qed
  qed
  moreover have "length (rt_records ?t) = length (rt_records u) + length recs"
    unfolding records using len by simp
  ultimately show ?thesis
    using cap unfolding runtime_ok_def pend by auto
qed

section \<open>Submission\<close>

fun valid_submission :: "submission \<Rightarrow> bool" where
  "valid_submission (TypedChain c) = (chain_commands c \<noteq> [])"
| "valid_submission _ = True"

lemma parse_chain_commands_nonempty: "parse_chain_commands fresh j = Inr cs \<Longrightarrow> cs \<noteq> []"
  by (cases j) (auto simp: parse_chain_commands_def v_map_Inr list_all2_conv_all_nth split: if_splits)

lemma parse_server_chain_nonempty: "parse_server_chain fresh j = Inr c \<Longrightarrow> chain_commands c \<noteq> []"
  using parse_chain_commands_nonempty
  by (fastforce simp: parse_server_chain_def server_chain.make_def split: if_splits)

lemma normalize_submission_cases:
  assumes "normalize_submission fresh document chain = Inr (chain_id, cs, sub)"
    "valid_submission document"
  shows "if chain then \<exists>c. chain_id = Some c \<and> cs \<noteq> [] \<and> sub = Inl (server_chain.make c cs)
     else chain_id = None \<and> (\<exists>c. cs = [c] \<and> sub = Inr c)"
  using assms parse_server_chain_nonempty
  by (cases document)
    (auto simp: normalize_submission_def server_chain.make_def split: if_splits)

definition submitted_records ::
    "server_env \<Rightarrow> nat \<Rightarrow> server_command list \<Rightarrow> string option \<Rightarrow> command_record list" where
  "submitted_records env n cs chain_id =
     map (\<lambda>(k, c). new_record env (n + k) c chain_id) (enumerate 0 cs)"

lemma submitted_records_facts:
  "length (submitted_records env n cs chain_id) = length cs"
  "fresh_records (submitted_records env n cs chain_id)"
  by (auto simp: submitted_records_def fresh_records_def new_record_def)

lemma submitted_records_stops:
  assumes "chain \<longleftrightarrow> chain_id \<noteq> None" "\<not> chain \<Longrightarrow> \<exists>c. cs = [c]"
  shows "length (filter rec_is_stop (submitted_records env n cs chain_id))
     = of_bool (is_priority_stop chain cs)"
proof (cases chain)
  case True
  then have "\<forall>r \<in> set (submitted_records env n cs chain_id). \<not> rec_is_stop r"
    using assms(1) by (auto simp: submitted_records_def new_record_def)
  then show ?thesis using True by (simp add: is_priority_stop_def)
next
  case False
  then obtain c where "cs = [c]" using assms(2) by blast
  then show ?thesis
    using False assms(1) by (simp add: submitted_records_def new_record_def is_priority_stop_def)
qed

text \<open>The three ways a submission ends: refused, replayed or admitted.\<close>

datatype submit_end = Refused | Replayed | Admitted

definition submit_ends ::
    "server_env \<Rightarrow> submission \<Rightarrow> bool \<Rightarrow> server_runtime \<Rightarrow> json result \<Rightarrow> server_runtime \<Rightarrow> submit_end
     \<Rightarrow> string option \<Rightarrow> server_command list \<Rightarrow> json \<Rightarrow> bool" where
  "submit_ends env document chain s r t how chain_id cs message \<longleftrightarrow>
     (let u = prune env 0 s; v = u\<lparr>rt_ticks := rt_ticks u + length cs\<rparr>;
          w = prune env (length cs) v; ids = map cmd_id cs;
          recs = submitted_records env (rt_ticks u) cs chain_id
      in case how of
           Refused \<Rightarrow> (\<exists>e. r = Inl e) \<and> (t = u \<or> t = v \<or> t = w)
         | Replayed \<Rightarrow>
             (\<exists>sub. normalize_submission (env_uuid env (rt_ticks u)) document chain = Inr (chain_id, cs, sub))
             \<and> check_submission_identifiers ids chain_id u = Inr ()
             \<and> is_retained_submission ids recs u = Inr True \<and> receipt env ids chain_id u = (r, t)
         | Admitted \<Rightarrow>
             (\<exists>sub. normalize_submission (env_uuid env (rt_ticks u)) document chain = Inr (chain_id, cs, sub)
                \<and> submission_document sub = Inr message)
             \<and> encoded_size env False message \<le> max_request_bytes (rt_settings s)
             \<and> check_submission_identifiers ids chain_id u = Inr ()
             \<and> is_retained_submission ids recs u = Inr False
             \<and> check_submission_mode cs v = Inr ()
             \<and> (if is_lifecycle chain cs then admit_lifecycle_command (hd cs) v = Inr ()
                else \<exists>q. require_ready v = Inr q \<and> length (q_items q) < q_capacity q)
             \<and> fst (check_submission_capacity env (length cs) chain_id (is_priority_stop chain cs)
                      (is_lifecycle chain cs) v) = Inr ()
             \<and> receipt env ids chain_id
                 (admission_effect (is_lifecycle chain cs) chain_id cs message ids recs w) = (r, t))"

lemma submit_cases:
  assumes "submit env document chain s = (r, t)"
  shows "\<exists>how chain_id cs message. submit_ends env document chain s r t how chain_id cs message"
proof -
  let ?u = "prune env 0 s"
  have refused: ?thesis if "r = Inl e" "t = ?u" for e
    using that by (intro exI [of _ Refused]) (simp add: submit_ends_def Let_def)
  show ?thesis
  proof (cases "normalize_submission (env_uuid env (rt_ticks ?u)) document chain")
    case (Inl e)
    then show ?thesis using assms by (intro refused [of e]) (simp_all add: submit_def py_simps)
  next
    case (Inr n)
    obtain chain_id cs sub where n: "n = (chain_id, cs, sub)" by (cases n) auto
    let ?ids = "map cmd_id cs" and ?recs = "submitted_records env (rt_ticks ?u) cs chain_id"
    note run = assms [unfolded submit_def submitted_records_def [symmetric] Let_def]
    show ?thesis
    proof (cases "submission_document sub")
      case (Inl e)
      then show ?thesis using assms Inr n by (intro refused [of e]) (simp_all add: submit_def py_simps)
    next
      case message: (Inr message)
      show ?thesis
      proof (cases "encoded_size env False message \<le> max_request_bytes (rt_settings s)")
        case False
        then show ?thesis using assms Inr n message
          by (intro refused [of "ServerErr ''request_too_large'' 413"]) (simp_all add: submit_def py_simps)
      next
        case fits: True
        show ?thesis
        proof (cases "check_submission_identifiers ?ids chain_id ?u")
          case (Inl e)
          then show ?thesis using assms Inr n message fits
            by (intro refused [of e]) (simp_all add: submit_def py_simps Let_def)
        next
          case checked: (Inr x)
          show ?thesis
          proof (cases "is_retained_submission ?ids ?recs ?u")
            case (Inl e)
            then show ?thesis using run Inr n message fits checked
              by (intro refused [of e]) (simp_all add: py_simps)
          next
            case again: (Inr b)
            show ?thesis
            proof (cases b)
              case True
              then have "submit_ends env document chain s r t Replayed chain_id cs message"
                using run Inr n message fits checked again
                by (simp add: py_simps submit_ends_def Let_def)
              then show ?thesis by blast
            next
              case False
              let ?v = "?u\<lparr>rt_ticks := rt_ticks ?u + length cs\<rparr>"
              obtain a w where aw: "admit_new env chain chain_id cs message ?ids ?recs ?v = (a, w)"
                by fastforce
              note cases = admit_new_cases [OF aw]
              have "submit_ends env document chain s r t (if \<exists>e. a = Inl e then Refused else Admitted)
                  chain_id cs message"
                using run Inr n message fits checked again False aw cases
                by (auto simp: py_simps submit_ends_def Let_def)
              then show ?thesis by blast
            qed
          qed
        qed
      qed
    qed
  qed
qed

lemma retained_none:
  "is_retained_submission ids recs s = Inr False \<Longrightarrow> set ids \<inter> set (keys (rt_records s)) = {}"
  by (auto simp: is_retained_submission_def list_ex_iff has_key_iff split: if_splits)

lemma check_identifiers_distinct: "check_submission_identifiers ids c s = Inr x \<Longrightarrow> distinct ids"
  by (auto simp: check_submission_identifiers_def split: if_splits)

lemma filter_member_le: "\<not> list_ex P xs \<Longrightarrow> filter P xs = []"
  by (auto simp: list_ex_iff filter_empty_conv)

text \<open>The books after an admission, before the receipt is built.\<close>

lemma admitted_books:
  assumes ok: "runtime_ok s" and valid: "valid_submission document"
    and ends: "submit_ends env document chain s r t Admitted chain_id cs message"
    and u: "u = prune env 0 s" and v: "v = u\<lparr>rt_ticks := rt_ticks u + length cs\<rparr>"
    and w: "w = prune env (length cs) v"
    and recs: "recs = submitted_records env (rt_ticks u) cs chain_id"
  shows "runtime_ok w" "distinct (map cmd_id cs)"
    "set (map cmd_id cs) \<inter> set (keys (rt_records u)) = {}"
    "set (map cmd_id cs) \<inter> set (keys (rt_records w)) = {}"
    "runtime_ok (admission_effect (is_lifecycle chain cs) chain_id cs message (map cmd_id cs) recs w)"
proof -
  let ?ids = "map cmd_id cs" and ?life = "is_lifecycle chain cs" and ?stop = "is_priority_stop chain cs"
  have u_ok: "runtime_ok u" unfolding u by (rule prune_ok [OF ok])
  have v_ok: "runtime_ok v" unfolding v by (rule same_books_ok [OF _ u_ok]) (simp add: same_books_def)
  show w_ok: "runtime_ok w" unfolding w by (rule prune_ok [OF v_ok])
  from ends obtain sub where
    norm: "normalize_submission (env_uuid env (rt_ticks u)) document chain = Inr (chain_id, cs, sub)"
    and ids: "check_submission_identifiers ?ids chain_id u = Inr ()"
    and new: "is_retained_submission ?ids recs u = Inr False"
    and cap: "fst (check_submission_capacity env (length cs) chain_id ?stop ?life v) = Inr ()"
    unfolding submit_ends_def Let_def u v recs by auto
  show dist: "distinct ?ids" by (rule check_identifiers_distinct [OF ids])
  show fresh: "set ?ids \<inter> set (keys (rt_records u)) = {}" by (rule retained_none [OF new])
  have ret: "retained v w" unfolding w by (rule prune_retained [OF runtime_ok_distinct [OF v_ok]])
  show fresh_w: "set ?ids \<inter> set (keys (rt_records w)) = {}"
  proof -
    have "set (keys (rt_records w)) \<subseteq> set (keys (rt_records u))"
      using retained_keys [OF ret] v by simp
    with fresh show ?thesis by blast
  qed
  have shape: "if chain then chain_id \<noteq> None \<and> cs \<noteq> [] else chain_id = None \<and> (\<exists>c. cs = [c])"
    using normalize_submission_cases [OF norm valid] by (auto split: if_splits)
  obtain x y where xy: "check_submission_capacity env (length cs) chain_id ?stop ?life v = (x, y)"
    by fastforce
  with cap check_capacity_cases [OF xy]
  have caps: "\<not> (?stop \<and> list_ex rec_is_stop (pending_records v))"
    "length (pending_records v) + length cs \<le> max_pending (rt_settings v) + of_bool (?stop \<or> ?life)"
    "length (rt_records w) + length cs \<le> max_records (rt_settings v)"
    unfolding w by auto
  have pend: "pending_records w = pending_records v"
    using retained_pending_records [OF _ ret] v_ok by (simp add: runtime_ok_def)
  have settings: "rt_settings w = rt_settings v" by (simp add: w)
  have "length (filter rec_is_stop recs) = of_bool ?stop"
    unfolding recs using shape by (intro submitted_records_stops) (auto split: if_splits)
  moreover have "length (filter rec_is_stop (pending_records v)) \<le> 1"
    "?stop \<Longrightarrow> filter rec_is_stop (pending_records v) = []"
    using v_ok filter_member_le caps(1) by (auto simp: runtime_ok_def)
  ultimately have stops: "length (filter rec_is_stop (pending_records w))
      + length (filter rec_is_stop recs) \<le> 1"
    unfolding pend by (cases ?stop) auto
  show "runtime_ok (admission_effect ?life chain_id cs message ?ids recs w)"
  proof (rule admission_effect_ok [OF w_ok _ dist fresh_w _ _ _ stops])
    show "length ?ids = length recs" by (simp add: recs submitted_records_facts)
    show "fresh_records recs" by (simp add: recs submitted_records_facts)
    show "length (pending_records w) + length recs \<le> max_pending (rt_settings w) + 1"
      using caps(2) unfolding pend settings recs submitted_records_facts(1)
      by (cases "?stop \<or> ?life") auto
    show "length (rt_records w) + length recs \<le> max_records (rt_settings w)"
      using caps(3) unfolding settings recs submitted_records_facts(1) .
    show "?ids \<noteq> []" if "chain_id \<noteq> None"
      using shape by (auto split: if_splits)
  qed
qed

lemma submit_ok:
  assumes ok: "runtime_ok s" and valid: "valid_submission document"
    and run: "submit env document chain s = (r, t)"
  shows "runtime_ok t"
proof -
  obtain how chain_id cs message where ends: "submit_ends env document chain s r t how chain_id cs message"
    using submit_cases [OF run] by blast
  have u: "runtime_ok (prune env 0 s)" by (rule prune_ok [OF ok])
  have tick: "runtime_ok (x\<lparr>rt_ticks := n\<rparr>)" if "runtime_ok x" for x n
    by (rule same_books_ok [OF _ that]) (simp add: same_books_def)
  show ?thesis
  proof (cases how)
    case Refused
    then show ?thesis using ends u tick prune_ok by (auto simp: submit_ends_def Let_def)
  next
    case Replayed
    then show ?thesis
      using ends u keepsD [OF runtime_books.receipt_ok] by (auto simp: submit_ends_def Let_def)
  next
    case Admitted
    note admitted = ends [unfolded Admitted]
    note books = admitted_books(5) [OF ok valid admitted refl refl refl refl]
    show ?thesis
      using keepsD [OF runtime_books.receipt_ok books] admitted unfolding submit_ends_def Let_def by auto
  qed
qed

end
