(* ===== verification/Server_Properties.thy ===== *)
theory Server_Properties
  imports Server_Invariants Template_Properties
begin

text \<open>
  The properties of the server runtime: the invariant of all reachable states, the fate of
  outcomes, the effect of a submission on every path, replays, admission by mode, pagination,
  and the loss of the controller.
\<close>

section \<open>Steps\<close>

inductive server_step :: "server_env \<Rightarrow> server_runtime \<Rightarrow> server_runtime \<Rightarrow> bool" for env where
  Submit: "valid_submission d \<Longrightarrow> submit env d chain s = (r, t) \<Longrightarrow> server_step env s t"
| Result: "read_result env i s = (r, t) \<Longrightarrow> server_step env s t"
| ListCommands: "list_commands env a s = (r, t) \<Longrightarrow> server_step env s t"
| BeginRead: "begin_read env name args s = Some (r, t) \<Longrightarrow> server_step env s t"
| FinishRead: "finish_read i s = (r, t) \<Longrightarrow> server_step env s t"
| Response: "accept_response env message runtime_id s = (r, t) \<Longrightarrow> server_step env s t"
| Lost: "unavailable env msg runtime_id s = (r, t) \<Longrightarrow> server_step env s t"
| Finished: "finish_lifecycle env c d s = (r, t) \<Longrightarrow> server_step env s t"
| Outside: "same_books s t \<Longrightarrow> server_step env s t"

lemma begin_read_books: "begin_read env name args s = Some (r, t) \<Longrightarrow> same_books s t"
  by (auto simp: begin_read_def put_nowait_def same_books_def tick_def Let_def
      split: sum.splits if_splits option.splits prod.splits)

lemma finish_read_books: "finish_read i s = (r, t) \<Longrightarrow> same_books s t"
  by (auto simp: finish_read_def py_finally_run same_books_def split: option.splits waiter.splits)

context books begin

lemma list_commands_kept: "keeps I (list_commands env a)"
  unfolding list_commands_def by (intro keeps_rules)

lemma read_result_kept: "keeps I (read_result env i)"
  unfolding read_result_def by (intro keeps_rules)

text \<open>Every step but a submission.\<close>

lemma other_step_kept:
  assumes "server_step env s t" "I s"
  shows "I t \<or> (\<exists>d chain r. valid_submission d \<and> submit env d chain s = (r, t))"
  using assms(1)
proof cases
  case (Submit d chain r)
  then show ?thesis by blast
next
  case (Result i r)
  then show ?thesis using keepsD [OF read_result_kept assms(2)] by blast
next
  case (ListCommands a r)
  then show ?thesis using keepsD [OF list_commands_kept assms(2)] by blast
next
  case (BeginRead name args r)
  then show ?thesis using books_kept [OF assms(2)] begin_read_books by blast
next
  case (FinishRead i r)
  then show ?thesis using books_kept [OF assms(2)] finish_read_books by blast
next
  case (Response message runtime_id r)
  then show ?thesis using keepsD [OF accept_response_ok assms(2)] by blast
next
  case (Lost msg runtime_id r)
  then show ?thesis using keepsD [OF unavailable_ok assms(2)] by blast
next
  case (Finished c d r)
  then show ?thesis using keepsD [OF finish_lifecycle_ok assms(2)] by blast
next
  case Outside
  then show ?thesis using books_kept [OF assms(2)] by blast
qed

end

lemma server_step_ok: "server_step env s t \<Longrightarrow> runtime_ok s \<Longrightarrow> runtime_ok t"
  using runtime_books.other_step_kept submit_ok by blast

text \<open>
  C11. In every reachable state the books are right: no command ID is retained twice, the cache
  counter is the sum of the sizes of the retained results, the record and pending limits hold
  with one slot reserved for a standalone stop or a lifecycle command, at most one standalone
  stop is pending, and every retained chain has a retained member.
\<close>

theorem server_books:
  assumes "(server_step env)\<^sup>*\<^sup>* (initial_runtime settings stop_http i r) s"
  shows "distinct (keys (rt_records s))
     \<and> rt_cache_bytes s = (\<Sum>(i, r)\<leftarrow>rt_records s. int (rec_size r))
     \<and> (\<forall>(i, r) \<in> set (rt_records s). rec_response r = None \<longleftrightarrow> rec_finished_at r = None)
     \<and> length (rt_records s) \<le> max_records (rt_settings s)
     \<and> length (pending_records s) \<le> max_pending (rt_settings s) + 1
     \<and> length (filter rec_is_stop (pending_records s)) \<le> 1
     \<and> (\<forall>(c, ids) \<in> set (rt_chains s). \<exists>i \<in> set ids. has_key (rt_records s) i)"
proof -
  have "runtime_ok s"
    using assms by (induction rule: rtranclp_induct) (auto intro: server_step_ok initial_runtime_ok)
  then show ?thesis
    by (auto simp: runtime_ok_def accounting_ok_def record_ok_def cache_total_def)
qed

section \<open>Outcomes are final\<close>

definition known_outcome :: "command_record \<Rightarrow> bool" where
  "known_outcome r \<longleftrightarrow> (\<exists>o'. rec_response r = Some o' \<and> oc_state o' \<noteq> Unknown)"

text \<open>Records with a known outcome are kept as they are or evicted.\<close>

definition settled :: "server_runtime \<Rightarrow> server_runtime \<Rightarrow> bool" where
  "settled s t \<longleftrightarrow> runtime_ok t \<and>
     (\<forall>i r. map_of (rt_records s) i = Some r \<longrightarrow> known_outcome r \<longrightarrow>
        map_of (rt_records t) i = None \<or> map_of (rt_records t) i = Some r)"

interpretation settled_books: books "settled s0" for s0
proof
  fix s env n
  assume s: "settled s0 s"
  then have ok: "runtime_ok s" by (simp add: settled_def)
  show "settled s0 (prune env n s)"
    using s prune_ok [OF ok]
      retained_map_of [OF runtime_ok_distinct [OF ok] prune_retained [OF runtime_ok_distinct [OF ok]]]
    unfolding settled_def by metis
next
  fix s i r env o' sz
  assume s: "settled s0 s" "map_of (rt_records s) i = Some r" "replaceable r"
  then have "runtime_ok (set_response env i r o' sz s)"
    by (auto simp: settled_def intro: set_response_ok)
  moreover have "\<not> known_outcome r"
    using s(3) by (auto simp: replaceable_def known_outcome_def)
  moreover have "map_of (rt_records (set_response env i r o' sz s)) j = None
      \<or> map_of (rt_records (set_response env i r o' sz s)) j = Some q"
    if "map_of (rt_records s0) j = Some q" "known_outcome q" for j q
  proof -
    have "map_of (rt_records s) j = None \<or> map_of (rt_records s) j = Some q"
      using s(1) that by (auto simp: settled_def)
    then show ?thesis
      using s(2) that(2) \<open>\<not> known_outcome r\<close> by (cases "i = j") (auto simp: rt_records_set_response)
  qed
  ultimately show "settled s0 (set_response env i r o' sz s)"
    by (simp add: settled_def)
next
  fix s t assume "settled s0 s" "same_books s t"
  then show "settled s0 t" by (auto simp: settled_def same_books_def intro: same_books_ok [of s])
next
  fix s i r
  assume "settled s0 s" "map_of (rt_records s) i = Some r" "rec_response r = None"
  then show "r\<lparr>rec_size := 0\<rparr> = r" by (auto simp: settled_def intro: runtime_ok_pending_size)
qed


text \<open>The ways a submission can end, seen from the records.\<close>

lemma submit_records:
  assumes ok: "runtime_ok s" and valid: "valid_submission d" and run: "submit env d chain s = (r, t)"
  shows "settled s t \<or>
     (\<exists>chain_id cs message w. submit_ends env d chain s r t Admitted chain_id cs message
        \<and> settled s w \<and> set (map cmd_id cs) \<inter> set (keys (rt_records w)) = {}
        \<and> receipt env (map cmd_id cs) chain_id
            (admission_effect (is_lifecycle chain cs) chain_id cs message (map cmd_id cs)
               (submitted_records env (rt_ticks (prune env 0 s)) cs chain_id) w) = (r, t)
        \<and> runtime_ok (admission_effect (is_lifecycle chain cs) chain_id cs message (map cmd_id cs)
               (submitted_records env (rt_ticks (prune env 0 s)) cs chain_id) w)
        \<and> distinct (map cmd_id cs))"
proof -
  obtain how chain_id cs message where ends: "submit_ends env d chain s r t how chain_id cs message"
    using submit_cases [OF run] by blast
  define u where "u = prune env 0 s"
  define v where "v = u\<lparr>rt_ticks := rt_ticks u + length cs\<rparr>"
  define w where "w = prune env (length cs) v"
  have u: "settled s u" unfolding u_def
    by (rule settled_books.prune_kept) (simp add: settled_def ok)
  have v: "settled s v" unfolding v_def
    by (rule settled_books.books_kept [OF u]) (simp add: same_books_def)
  have w: "settled s w" unfolding w_def by (rule settled_books.prune_kept [OF v])
  show ?thesis
  proof (cases how)
    case Refused
    then show ?thesis using ends u v w
      by (auto simp: submit_ends_def Let_def u_def v_def w_def)
  next
    case Replayed
    then have "receipt env (map cmd_id cs) chain_id u = (r, t)"
      using ends by (simp add: submit_ends_def Let_def u_def)
    then show ?thesis using keepsD [OF settled_books.receipt_ok u] by blast
  next
    case Admitted
    note admitted = ends [unfolded Admitted]
    note books = admitted_books(2,4,5) [OF ok valid admitted u_def v_def w_def refl]
    have "receipt env (map cmd_id cs) chain_id
            (admission_effect (is_lifecycle chain cs) chain_id cs message (map cmd_id cs)
               (submitted_records env (rt_ticks u) cs chain_id) w) = (r, t)"
      using admitted unfolding submit_ends_def Let_def u_def v_def w_def by simp
    with books w admitted show ?thesis unfolding u_def by blast
  qed
qed

lemma admission_records:
  assumes "distinct (map cmd_id cs)" "set (map cmd_id cs) \<inter> set (keys (rt_records w)) = {}"
  shows "rt_records (admission_effect l chain_id cs m (map cmd_id cs) (submitted_records env n cs chain_id) w)
     = rt_records w @ zip (map cmd_id cs) (submitted_records env n cs chain_id)"
  using assms by (simp add: fold_update_new submitted_records_facts)

text \<open>Receipts keep the records up to pruning.\<close>

definition pruned_from :: "server_runtime \<Rightarrow> server_runtime \<Rightarrow> bool" where
  "pruned_from s t \<longleftrightarrow> accounting_ok t \<and> retained s t \<and> same_rest s t"

lemma retained_refl: "retained s s"
  by (auto simp: retained_def intro!: exI [of _ "\<lambda>_. True"])

lemma retained_trans: "retained s t \<Longrightarrow> retained t u \<Longrightarrow> retained s u"
proof -
  assume "retained s t" "retained t u"
  then obtain P Q where "rt_records t = filter P (rt_records s)"
    "\<forall>(i, r) \<in> set (rt_records s). rec_finished_at r = None \<longrightarrow> P (i, r)"
    "rt_records u = filter Q (rt_records t)"
    "\<forall>(i, r) \<in> set (rt_records t). rec_finished_at r = None \<longrightarrow> Q (i, r)"
    unfolding retained_def by blast
  then show ?thesis
    unfolding retained_def
    by (intro exI [of _ "\<lambda>p. P p \<and> Q p"]) (auto simp: filter_filter conj_commute)
qed

lemma keeps_pruned [keeps_rules]: "keeps (pruned_from s) (py_modify (prune env n))"
proof (rule keeps_modify)
  fix t assume t: "pruned_from s t"
  then have "distinct (keys (rt_records t))" by (simp add: pruned_from_def accounting_ok_def)
  then show "pruned_from s (prune env n t)"
    using t prune_accounting retained_trans [OF _ prune_retained] same_rest_trans [OF _ prune_same_rest]
    unfolding pruned_from_def by blast
qed

lemma find_result_pruned [keeps_rules]: "keeps (pruned_from s) (find_result env i)"
  unfolding find_result_def by (intro keeps_rules) (auto intro: keeps_rules split: option.splits)

lemma find_results_pruned [keeps_rules]: "keeps (pruned_from s) (find_results env is)"
  by (induction "is") (simp_all only: find_results.simps, (intro keeps_rules, assumption?)+)

lemma receipt_pruned [keeps_rules]: "keeps (pruned_from s) (receipt env ids chain)"
  unfolding receipt_def read_result_def
  by (cases chain; cases ids) (auto intro!: keeps_rules)

lemma pruned_from_refl: "runtime_ok s \<Longrightarrow> pruned_from s s"
  by (simp add: pruned_from_def retained_refl runtime_ok_def)

lemma retained_Some:
  assumes "retained s t" "distinct (keys (rt_records s))" "map_of (rt_records t) i = Some q"
  shows "map_of (rt_records s) i = Some q"
  using retained_map_of [OF assms(2,1), of i] assms(3) by auto

lemma submitted_records_new:
  "(i, q) \<in> set (zip ids (submitted_records env n cs chain_id)) \<Longrightarrow> rec_response q = None"
  using submitted_records_facts(2) [of env n cs chain_id]
  by (auto simp: fresh_records_def dest!: set_zip_rightD)


section \<open>Submissions\<close>

definition untouched :: "server_runtime \<Rightarrow> server_runtime \<Rightarrow> bool" where
  "untouched s t \<longleftrightarrow> rt_requests t = rt_requests s \<and> rt_restart_command t = rt_restart_command s
     \<and> set (rt_records t) \<subseteq> set (rt_records s)"

lemma prune_ticks [simp]: "rt_ticks (prune env n s) = Suc (rt_ticks s)"
proof -
  have "rt_ticks (evict now n e x) = rt_ticks x" for now e x
    by (cases e) (simp add: evict_eq drop_record_def)
  then have "rt_ticks (fold (evict now n) es x) = rt_ticks x" for now es x
    by (induction es arbitrary: x) simp_all
  then show ?thesis by (simp add: prune_def Let_def drop_empty_chains_def tick_def)
qed

lemma retained_subset: "retained s t \<Longrightarrow> set (rt_records t) \<subseteq> set (rt_records s)"
  by (auto simp: retained_def)

lemma untouched_pruned: "pruned_from s t \<Longrightarrow> untouched s t"
  using retained_subset by (auto simp: pruned_from_def untouched_def same_rest_fields)

lemma untouched_trans: "untouched s t \<Longrightarrow> untouched t u \<Longrightarrow> untouched s u"
  by (auto simp: untouched_def)

lemma pruned_step: "runtime_ok s \<Longrightarrow> pruned_from s (prune env n s)"
  using prune_accounting [of s] prune_retained [OF runtime_ok_distinct, of s]
  by (simp add: pruned_from_def prune_same_rest runtime_ok_def)

lemma mode_same_settings: "rt_settings s = rt_settings t \<Longrightarrow>
    check_submission_mode cs s = check_submission_mode cs t"
  by (simp add: check_submission_mode_def)

lemma require_ready_rest:
  "require_ready s = Inr q \<Longrightarrow> rt_requests s = Some q \<and> rt_restart_command s = None"
  by (auto simp: require_ready_def split: if_splits option.splits)

lemma submitted_records_requests:
  "map (rec_request \<circ> snd) (zip (map cmd_id cs) (submitted_records env n cs chain_id)) = cs"
  "keys (zip (map cmd_id cs) (submitted_records env n cs chain_id)) = map cmd_id cs"
  "(i, x) \<in> set (zip (map cmd_id cs) (submitted_records env n cs chain_id)) \<Longrightarrow> rec_chain x = chain_id"
proof -
  have len: "length (map cmd_id cs) = length (submitted_records env n cs chain_id)"
    by (simp add: submitted_records_facts)
  have "map rec_request (submitted_records env n cs chain_id) = cs"
    by (intro nth_equalityI) (simp_all add: submitted_records_def nth_enumerate_eq new_record_def)
  then show "map (rec_request \<circ> snd) (zip (map cmd_id cs) (submitted_records env n cs chain_id)) = cs"
    using map_snd_zip [OF len] by (simp flip: map_map)
  show "keys (zip (map cmd_id cs) (submitted_records env n cs chain_id)) = map cmd_id cs"
    by (rule map_fst_zip [OF len])
  show "rec_chain x = chain_id"
    if "(i, x) \<in> set (zip (map cmd_id cs) (submitted_records env n cs chain_id))"
    using that by (auto simp: submitted_records_def new_record_def dest!: set_zip_rightD)
qed

lemma admission_effect_restart:
  "rt_restart_command (admission_effect l c cs m ids recs u)
     = (if l then Some (hd cs) else rt_restart_command u)"
  by (cases c) (simp_all add: admission_effect_def store_records_def Let_def)

text \<open>New pending entries survive the pruning of the receipt, in order.\<close>

lemma retained_append:
  assumes "retained x t" "rt_records x = old @ new" "\<forall>(i, r) \<in> set new. rec_finished_at r = None"
  shows "\<exists>old'. rt_records t = old' @ new \<and> set old' \<subseteq> set old"
proof -
  obtain P where P: "rt_records t = filter P (old @ new)"
    "\<forall>(i, r) \<in> set (old @ new). rec_finished_at r = None \<longrightarrow> P (i, r)"
    using assms(1) unfolding retained_def assms(2) by blast
  have "P (i, r)" if "(i, r) \<in> set new" for i r
    using bspec [OF P(2), of "(i, r)"] bspec [OF assms(3), of "(i, r)"] that by simp
  then have "\<forall>p \<in> set new. P p" by auto
  then have "filter P new = new" by (simp add: filter_id_conv)
  then show ?thesis using P(1) by (intro exI [of _ "filter P old"]) auto
qed

text \<open>
  C15. A submission admits all of its commands or nothing. On any path the request queue and the
  pending lifecycle command change only if the submission was new and passed every check; then
  one message is queued (none for a lifecycle command, which becomes the pending one), and the
  retained records are those that survive pruning followed by exactly the submitted commands,
  pending and in order.
\<close>

theorem submit_all_or_nothing:
  assumes ok: "runtime_ok s" and valid: "valid_submission d" and run: "submit env d chain s = (r, t)"
  shows "untouched s t \<or>
     (\<exists>chain_id cs sub message q.
        normalize_submission (env_uuid env (Suc (rt_ticks s))) d chain = Inr (chain_id, cs, sub)
        \<and> submission_document sub = Inr message
        \<and> check_submission_mode cs s = Inr ()
        \<and> (if is_lifecycle chain cs
           then rt_requests t = rt_requests s \<and> rt_restart_command t = Some (hd cs)
           else rt_requests s = Some q \<and> length (q_items q) < q_capacity q
              \<and> rt_requests t = Some (q\<lparr>q_items := q_items q @ [message]\<rparr>)
              \<and> rt_restart_command s = None \<and> rt_restart_command t = None)
        \<and> (\<exists>old new. rt_records t = old @ new \<and> set old \<subseteq> set (rt_records s)
              \<and> keys new = map cmd_id cs
              \<and> (\<forall>(i, x) \<in> set new. rec_response x = None \<and> rec_chain x = chain_id)
              \<and> map (rec_request \<circ> snd) new = cs))"
proof -
  obtain how chain_id cs message where ends: "submit_ends env d chain s r t how chain_id cs message"
    using submit_cases [OF run] by blast
  define u where "u = prune env 0 s"
  define v where "v = u\<lparr>rt_ticks := rt_ticks u + length cs\<rparr>"
  define w where "w = prune env (length cs) v"
  have u_ok: "runtime_ok u" unfolding u_def by (rule prune_ok [OF ok])
  have v_ok: "runtime_ok v" unfolding v_def by (rule same_books_ok [OF _ u_ok]) (simp add: same_books_def)
  have su: "untouched s u" unfolding u_def by (rule untouched_pruned [OF pruned_step [OF ok]])
  have sv: "untouched s v" using su by (simp add: v_def untouched_def)
  have sw: "untouched s w"
    using untouched_trans [OF sv untouched_pruned [OF pruned_step [OF v_ok]]] by (simp add: w_def)
  show ?thesis
  proof (cases how)
    case Refused
    then show ?thesis using ends su sv sw by (auto simp: submit_ends_def Let_def u_def v_def w_def)
  next
    case Replayed
    then have "receipt env (map cmd_id cs) chain_id u = (r, t)"
      using ends by (simp add: submit_ends_def Let_def u_def)
    from keepsD [OF receipt_pruned pruned_from_refl [OF u_ok] this]
    show ?thesis using su untouched_trans untouched_pruned by blast
  next
    case Admitted
    note admitted = ends [unfolded Admitted]
    let ?recs = "submitted_records env (rt_ticks u) cs chain_id"
    let ?new = "zip (map cmd_id cs) ?recs"
    let ?x = "admission_effect (is_lifecycle chain cs) chain_id cs message (map cmd_id cs) ?recs w"
    note books = admitted_books [OF ok valid admitted u_def v_def w_def refl]
    have facts: "receipt env (map cmd_id cs) chain_id ?x = (r, t)"
      "check_submission_mode cs v = Inr ()"
      "if is_lifecycle chain cs then admit_lifecycle_command (hd cs) v = Inr ()
         else \<exists>q. require_ready v = Inr q \<and> length (q_items q) < q_capacity q"
      using admitted unfolding submit_ends_def Let_def u_def v_def w_def submit_end.case by blast+
    obtain sub where sub: "normalize_submission (env_uuid env (rt_ticks u)) d chain = Inr (chain_id, cs, sub)"
      "submission_document sub = Inr message"
      using admitted unfolding submit_ends_def Let_def u_def by auto
    have xt: "pruned_from ?x t" using keepsD [OF receipt_pruned pruned_from_refl [OF books(5)] facts(1)] .
    have x_records: "rt_records ?x = rt_records w @ ?new"
      by (rule admission_records [OF books(2,4)])
    have "\<forall>(i, x) \<in> set ?new. rec_finished_at x = None"
      using submitted_records_facts(2) [of env "rt_ticks u" cs chain_id]
      by (auto simp: fresh_records_def dest!: set_zip_rightD)
    then obtain old where old: "rt_records t = old @ ?new" "set old \<subseteq> set (rt_records w)"
      using retained_append [OF _ x_records] xt unfolding pruned_from_def by blast
    have rest: "rt_requests t = rt_requests ?x" "rt_restart_command t = rt_restart_command ?x"
      using xt same_rest_fields(3,6) unfolding pruned_from_def by blast+
    have "check_submission_mode cs s = Inr ()"
      using facts(2) mode_same_settings [of v s] by (simp add: v_def u_def)
    moreover have "if is_lifecycle chain cs
           then rt_requests t = rt_requests s \<and> rt_restart_command t = Some (hd cs)
           else \<exists>q. rt_requests s = Some q \<and> length (q_items q) < q_capacity q
              \<and> rt_requests t = Some (q\<lparr>q_items := q_items q @ [message]\<rparr>)
              \<and> rt_restart_command s = None \<and> rt_restart_command t = None"
    proof (cases "is_lifecycle chain cs")
      case True
      then show ?thesis
        using rest by (simp add: admission_effect_restart w_def v_def u_def)
    next
      case False
      then obtain q where q: "require_ready v = Inr q" "length (q_items q) < q_capacity q"
        using facts(3) by auto
      from require_ready_rest [OF q(1)] have "rt_requests s = Some q" "rt_restart_command s = None"
        by (simp_all add: v_def u_def)
      then show ?thesis
        using False q(2) rest by (simp add: admission_effect_restart w_def v_def u_def)
    qed
    moreover have "\<exists>old new. rt_records t = old @ new \<and> set old \<subseteq> set (rt_records s)
        \<and> keys new = map cmd_id cs \<and> (\<forall>(i, x) \<in> set new. rec_response x = None \<and> rec_chain x = chain_id)
        \<and> map (rec_request \<circ> snd) new = cs"
      using old sw submitted_records_new submitted_records_requests
      by (intro exI [of _ old] exI [of _ ?new]) (auto simp: untouched_def)
    ultimately show ?thesis using sub unfolding u_def prune_ticks by (metis (no_types, lifting))
  qed
qed

section \<open>Replays\<close>

lemma retained_submission:
  assumes "\<forall>c \<in> set cs. \<exists>r. map_of (rt_records s) (cmd_id c) = Some r
      \<and> rec_fingerprint r = command_fingerprint env c chain_id" "cs \<noteq> []"
  shows "is_retained_submission (map cmd_id cs) (submitted_records env n cs chain_id) s = Inr True"
proof -
  have "\<forall>i \<in> set (map cmd_id cs). has_key (rt_records s) i"
    using assms(1) by (auto simp: has_key_def)
  moreover have "hd (map cmd_id cs) \<in> set (map cmd_id cs)"
    using assms(2) by (intro hd_in_set) simp
  moreover have "map_option rec_fingerprint (map_of (rt_records s) i) = Some (rec_fingerprint r)"
    if zip: "(i, r) \<in> set (zip (map cmd_id cs) (submitted_records env n cs chain_id))" for i r
  proof -
    from zip obtain k where k: "k < length cs" "i = cmd_id (cs ! k)"
      "r = submitted_records env n cs chain_id ! k"
      by (auto simp: set_zip submitted_records_facts)
    then have "rec_fingerprint r = command_fingerprint env (cs ! k) chain_id"
      by (simp add: submitted_records_def nth_enumerate_eq new_record_def)
    moreover have "cs ! k \<in> set cs" using k(1) by simp
    ultimately show ?thesis using assms(1) k(2) by fastforce
  qed
  ultimately show ?thesis
    unfolding is_retained_submission_def list_ex_iff list_all_iff by fastforce
qed

lemma submit_replay_facts:
  assumes ok: "runtime_ok s" and u: "u = prune env 0 s"
    and norm: "normalize_submission (env_uuid env (rt_ticks u)) d chain = Inr (chain_id, cs, sub)"
      "submission_document sub = Inr message"
      "encoded_size env False message \<le> max_request_bytes (rt_settings s)"
    and ids: "check_submission_identifiers (map cmd_id cs) chain_id u = Inr ()" "cs \<noteq> []"
    and retained: "\<forall>c \<in> set cs. \<exists>r. map_of (rt_records u) (cmd_id c) = Some r
      \<and> rec_fingerprint r = command_fingerprint env c chain_id"
  shows "submit env d chain s = receipt env (map cmd_id cs) chain_id u"
    and "untouched s (snd (submit env d chain s))"
proof -
  have again: "is_retained_submission (map cmd_id cs)
      (map (\<lambda>(k, c). new_record env (rt_ticks u + k) c chain_id) (enumerate 0 cs)) u = Inr True"
    using retained_submission [OF retained ids(2), of "rt_ticks u"] by (simp add: submitted_records_def)
  show run: "submit env d chain s = receipt env (map cmd_id cs) chain_id u"
    using norm ids(1) again unfolding submit_def Let_def u by (simp add: py_simps)
  have u_ok: "runtime_ok u" unfolding u by (rule prune_ok [OF ok])
  have "pruned_from u (snd (receipt env (map cmd_id cs) chain_id u))"
    using keepsD [OF receipt_pruned pruned_from_refl [OF u_ok]] by (metis prod.collapse)
  then show "untouched s (snd (submit env d chain s))"
    unfolding run using untouched_trans untouched_pruned pruned_step [OF ok] unfolding u by blast
qed

text \<open>
  Submitting again what is retained executes nothing: when every command of the submission
  is retained (after pruning) with the same fingerprint, and no read uses its ID, the result is
  the receipt of the retained commands, no message is queued, no lifecycle command becomes
  pending and no record is added, whatever mode and capacity the runtime is in.
\<close>

theorem submit_replay:
  assumes "runtime_ok s" and "u = prune env 0 s"
    and "normalize_submission (env_uuid env (rt_ticks u)) d chain = Inr (chain_id, cs, sub)"
    and "submission_document sub = Inr message"
    and "encoded_size env False message \<le> max_request_bytes (rt_settings s)"
    and "check_submission_identifiers (map cmd_id cs) chain_id u = Inr ()" "cs \<noteq> []"
    and "\<forall>c \<in> set cs. \<exists>r. map_of (rt_records u) (cmd_id c) = Some r
      \<and> rec_fingerprint r = command_fingerprint env c chain_id"
  shows "submit env d chain s = receipt env (map cmd_id cs) chain_id u
     \<and> untouched s (snd (submit env d chain s))"
  using submit_replay_facts [OF assms] by blast

section \<open>Pagination\<close>

lemma collect_items_spec:
  "length items \<le> la_limit a \<Longrightarrow>
     collect_items a entries items
       = take (Suc (la_limit a)) (items @ map (case_prod command_item_of) (filter (matches_filter a) entries))"
proof (induction entries arbitrary: items)
  case (Cons e entries)
  obtain i r where e: "e = (i, r)" by (cases e)
  show ?case
  proof (cases "matches_filter a (i, r) \<and> la_limit a < Suc (length items)")
    case True
    then have "length items = la_limit a" using Cons.prems by simp
    then show ?thesis using True e by simp
  next
    case False
    then show ?thesis using Cons.IH [of items] Cons.IH [of "items @ [command_item_of i r]"] Cons.prems e
      by auto
  qed
qed simp

lemma filter_nth_split:
  "n < length (filter P xs) \<Longrightarrow> \<exists>us y vs. xs = us @ y # vs \<and> filter P xs ! n = y
     \<and> length (filter P us) = n \<and> P y"
proof (induction xs arbitrary: n)
  case (Cons x xs)
  show ?case
  proof (cases "P x \<and> n = 0")
    case True
    then show ?thesis by (intro exI [of _ "[]"] exI [of _ x] exI [of _ xs]) simp
  next
    case False
    define m where "m = (if P x then n - 1 else n)"
    have "m < length (filter P xs)" using Cons.prems False by (auto simp: m_def)
    from Cons.IH [OF this] obtain us y vs where
      "xs = us @ y # vs" "filter P xs ! m = y" "length (filter P us) = m" "P y" by blast
    then show ?thesis
      using False by (intro exI [of _ "x # us"] exI [of _ y] exI [of _ vs]) (auto simp: m_def nth_Cons')
  qed
qed simp

lemma entries_after_split:
  "distinct (keys d) \<Longrightarrow> d = xs @ (i, r) # ys \<Longrightarrow> entries_after i d = ys"
proof (induction xs arbitrary: d)
  case (Cons x xs)
  then show ?case by (cases x) auto
qed simp

definition page_source :: "list_arguments \<Rightarrow> server_runtime \<Rightarrow> (string \<times> command_record) list" where
  "page_source a s = (case la_after a of None \<Rightarrow> rt_records s | Some k \<Rightarrow> entries_after k (rt_records s))"

definition matching_items :: "list_arguments \<Rightarrow> server_runtime \<Rightarrow> command_item list" where
  "matching_items a s = map (case_prod command_item_of) (filter (matches_filter a) (page_source a s))"

lemma list_retained_Inr:
  assumes "list_retained a s = Inr p"
  shows "pg_items p = take (la_limit a) (matching_items a s)"
    and "pg_has_more p \<longleftrightarrow> la_limit a < length (matching_items a s)"
    and "pg_next_after p = (if pg_has_more p then Some (ci_id (last (pg_items p))) else None)"
  using assms
  by (auto simp: list_retained_def matching_items_def page_source_def Let_def collect_items_spec
      split: option.splits if_splits)

lemma entries_after_suffix: "\<exists>xs. d = xs @ entries_after k d"
proof (induction d)
  case (Cons e d)
  then obtain xs where "d = xs @ entries_after k d" by blast
  then show ?case
    by (cases e) (auto intro: exI [of _ "[e]"] exI [of _ "e # xs"])
qed simp

lemma pages_continue_facts:
  assumes ok: "runtime_ok s" and page: "list_retained a s = Inr p" and limit: "0 < la_limit a"
  shows "pg_items p = take (la_limit a) (matching_items a s)"
    and "pg_next_after p = Some k \<Longrightarrow>
       matching_items (a\<lparr>la_after := Some k\<rparr>) s = drop (la_limit a) (matching_items a s)"
    and "pg_next_after p = None \<Longrightarrow> pg_items p = matching_items a s"
proof -
  note facts = list_retained_Inr [OF page]
  show "pg_items p = take (la_limit a) (matching_items a s)" by (rule facts(1))
  show "pg_items p = matching_items a s" if "pg_next_after p = None"
    using facts that by (auto split: if_splits)
  show "matching_items (a\<lparr>la_after := Some k\<rparr>) s = drop (la_limit a) (matching_items a s)"
    if next_k: "pg_next_after p = Some k"
  proof -
    let ?f = "matches_filter a" and ?n = "la_limit a"
    let ?src = "page_source a s"
    have more: "?n < length (matching_items a s)" and k: "k = ci_id (last (pg_items p))"
      using facts next_k by (auto split: if_splits)
    obtain pre where pre: "rt_records s = pre @ ?src"
    proof (cases "la_after a")
      case None
      then show ?thesis using that [of "[]"] by (simp add: page_source_def)
    next
      case (Some j)
      then show ?thesis
        using that entries_after_suffix [of "rt_records s" j] by (auto simp: page_source_def)
    qed
    have len: "?n - 1 < length (filter ?f ?src)"
      using more limit by (simp add: matching_items_def)
    obtain xs y ys where split: "?src = xs @ y # ys" "filter ?f ?src ! (?n - 1) = y"
      "length (filter ?f xs) = ?n - 1" "?f y"
      using filter_nth_split [OF len] by blast
    have "take ?n (matching_items a s) \<noteq> []" using more limit by auto
    then have "last (pg_items p) = matching_items a s ! (?n - 1)"
      using more limit unfolding facts(1) by (simp add: last_conv_nth min_def)
    then have "last (pg_items p) = case_prod command_item_of (filter ?f ?src ! (?n - 1))"
      using len by (simp add: matching_items_def)
    then have "k = fst y" using k split(2) by (cases y) (simp add: command_item_of_def)
    then have rest: "entries_after k (rt_records s) = ys"
      using entries_after_split [OF runtime_ok_distinct [OF ok], of "pre @ xs" k "snd y" ys] pre split(1)
      by simp
    have "filter ?f ?src = (filter ?f xs @ [y]) @ filter ?f ys" using split(1,4) by simp
    moreover have "length (filter ?f xs @ [y]) = ?n" using split(3) limit by simp
    ultimately have "drop ?n (filter ?f ?src) = filter ?f ys"
      by (metis append_eq_conv_conj)
    then have "drop ?n (matching_items a s) = map (case_prod command_item_of) (filter ?f ys)"
      by (simp only: matching_items_def drop_map)
    moreover have "matches_filter (a\<lparr>la_after := Some k\<rparr>) = ?f"
      by (simp add: matches_filter_def fun_eq_iff)
    ultimately show ?thesis using rest
      by (simp add: matching_items_def [of "a\<lparr>la_after := Some k\<rparr>"]
          page_source_def [of "a\<lparr>la_after := Some k\<rparr>"])
  qed
qed

text \<open>
  Pages of retained commands follow one another without gap or repetition: a page holds the
  first matching commands after its cursor, in submission order and at most the limit of them,
  and continuing from its cursor lists exactly the matching commands that are left.
\<close>

theorem pages_continue:
  assumes "runtime_ok s" and "list_retained a s = Inr p" and "0 < la_limit a"
  shows "pg_items p = take (la_limit a) (matching_items a s)
     \<and> (\<forall>k. pg_next_after p = Some k \<longrightarrow>
          matching_items (a\<lparr>la_after := Some k\<rparr>) s = drop (la_limit a) (matching_items a s))
     \<and> (pg_next_after p = None \<longrightarrow> pg_items p = matching_items a s)"
  using pages_continue_facts [OF assms] by blast

section \<open>Loss of the controller\<close>

lemma uuid_field_str: "n < uuid_limit \<Longrightarrow> uuid_field (JStr (uuid_str n)) = Inr (uuid_str n)"
  unfolding uuid_field_def uuid_text_def embed.simps require_text_uuid_str
  by (simp add: uuid_int_str)

lemma state_literals [simp]:
  "literal_value command_states (JStr ''pending'') = Inr Pending"
  "literal_value command_states (JStr ''unknown'') = Inr Unknown"
  "literal_value command_states (JStr ''unavailable'') = Inr Unavailable"
  by (simp_all add: literal_value.simps command_states_def)

lemma nullable_strings [simp]:
  "json_height (dump_nullable JStr c) = 0" "json_printable (dump_nullable JStr c)"
  by (cases c; simp)+

lemma parse_unknown_document:
  assumes "n < uuid_limit"
  shows "\<exists>o'. parse_runtime_outcome (JObj (unknown_document (uuid_str n) c msg)) = Inr o'
     \<and> oc_state o' = Unknown"
proof -
  have "object_value (JObj (unknown_document (uuid_str n) c msg)) = Inr (unknown_document (uuid_str n) c msg)"
    by (rule object_value_ok) (simp_all add: unknown_document_def)
  then show ?thesis
    using uuid_field_str [OF assms]
    by (simp add: parse_runtime_outcome_def field_def unknown_document_def match_result_def
        command_outcome.make_def require_def command_states_def literal_value.simps
        del: v_ap_Inr field_Inr)
qed

text \<open>What marking does to one entry of the records.\<close>

definition marked :: "string option \<Rightarrow> bool \<Rightarrow> string \<Rightarrow> command_record option \<Rightarrow> command_record option \<Rightarrow> bool"
  where
  "marked restart covered i before after \<longleftrightarrow>
     (case before of
        None \<Rightarrow> after = None
      | Some r \<Rightarrow>
          if covered \<and> rec_response r = None \<and> restart \<noteq> Some i
          then \<exists>q o'. after = Some q \<and> rec_response q = Some o' \<and> oc_state o' = Unknown
          else after = Some r)"

lemma mark_unknown_run:
  assumes "n < uuid_limit"
  shows "\<exists>t. mark_unknown env msg (uuid_str n) s = (Inr (), t)
     \<and> rt_restart_command t = rt_restart_command s \<and> keys (rt_records t) = keys (rt_records s)
     \<and> rt_state t = rt_state s \<and> rt_reads t = rt_reads s
     \<and> (\<forall>j. marked (map_option cmd_id (rt_restart_command s)) (j = uuid_str n) j
              (map_of (rt_records s) j) (map_of (rt_records t) j))"
proof (cases "map_of (rt_records s) (uuid_str n)")
  case None
  then show ?thesis by (auto simp: mark_unknown_def marked_def split: option.splits)
next
  case (Some r)
  have key: "uuid_str n \<in> set (keys (rt_records s))" using Some by (force dest: map_of_SomeD)
  obtain o' where o': "parse_runtime_outcome (JObj (unknown_document (uuid_str n) (rec_chain r) msg)) = Inr o'"
    "oc_state o' = Unknown"
    using parse_unknown_document [OF assms] by blast
  show ?thesis
  proof (cases "map_option cmd_id (rt_restart_command s) = Some (uuid_str n) \<or> rec_response r \<noteq> None")
    case True
    then have "mark_unknown env msg (uuid_str n) s = (Inr (), s)" using Some by (simp add: mark_unknown_def)
    then show ?thesis using True Some by (auto simp: marked_def split: option.splits)
  next
    case False
    then show ?thesis
      using Some o' key
      by (auto simp: mark_unknown_def py_simps Let_def rt_records_set_response keys_update marked_def
          set_response_def tick_def split: option.splits)
  qed
qed

lemma for_mark_unknown:
  assumes "\<forall>i \<in> set ks. \<exists>n < uuid_limit. i = uuid_str n"
  shows "\<exists>t. py_for (mark_unknown env msg) ks s = (Inr (), t)
     \<and> rt_restart_command t = rt_restart_command s \<and> keys (rt_records t) = keys (rt_records s)
     \<and> rt_state t = rt_state s \<and> rt_reads t = rt_reads s
     \<and> (\<forall>j. marked (map_option cmd_id (rt_restart_command s)) (j \<in> set ks) j
              (map_of (rt_records s) j) (map_of (rt_records t) j))"
  using assms
proof (induction ks arbitrary: s)
  case Nil
  then show ?case by (auto simp: marked_def split: option.splits)
next
  case (Cons i ks)
  obtain n where n: "n < uuid_limit" "i = uuid_str n" using Cons.prems by auto
  obtain u where u: "mark_unknown env msg i s = (Inr (), u)"
    "rt_restart_command u = rt_restart_command s" "keys (rt_records u) = keys (rt_records s)"
    "rt_state u = rt_state s" "rt_reads u = rt_reads s"
    "\<forall>j. marked (map_option cmd_id (rt_restart_command s)) (j = i) j
       (map_of (rt_records s) j) (map_of (rt_records u) j)"
    using mark_unknown_run [OF n(1), of env msg s] n(2) by blast
  obtain t where t: "py_for (mark_unknown env msg) ks u = (Inr (), t)"
    "rt_restart_command t = rt_restart_command u" "keys (rt_records t) = keys (rt_records u)"
    "rt_state t = rt_state u" "rt_reads t = rt_reads u"
    "\<forall>j. marked (map_option cmd_id (rt_restart_command u)) (j \<in> set ks) j
       (map_of (rt_records u) j) (map_of (rt_records t) j)"
    using Cons.IH [of u] Cons.prems by auto
  have "marked (map_option cmd_id (rt_restart_command s)) (j \<in> set (i # ks)) j
       (map_of (rt_records s) j) (map_of (rt_records t) j)" for j
    using spec [OF u(6), of j] spec [OF t(6), of j] u(2)
    by (auto simp: marked_def split: option.splits if_splits)
  then show ?case using u t by (intro exI [of _ t]) auto
qed

lemma unavailable_resolves_facts:
  assumes ok: "runtime_ok s" and ids: "\<forall>i \<in> set (keys (rt_records s)). \<exists>n < uuid_limit. i = uuid_str n"
    and current: "rt_state s \<noteq> ClosedState" "runtime_id = None \<or> runtime_id = Some (rt_runtime_id s)"
    and run: "unavailable env msg runtime_id s = (r, t)"
  shows "r = Inr () \<and> rt_state t = UnavailableState \<and> Waiting \<notin> set (dict_values (rt_reads t))"
    and "map_of (rt_records t) i = Some q \<Longrightarrow>
       rec_response q \<noteq> None \<or> map_option cmd_id (rt_restart_command s) = Some i"
    and "map_of (rt_records s) i = Some p \<Longrightarrow> rec_response p = None \<Longrightarrow>
       map_of (rt_records t) i = Some q \<Longrightarrow> map_option cmd_id (rt_restart_command s) \<noteq> Some i \<Longrightarrow>
       \<exists>o'. rec_response q = Some o' \<and> oc_state o' = Unknown"
    and "map_of (rt_records s) i = Some p \<Longrightarrow> rec_response p \<noteq> None \<Longrightarrow>
       map_of (rt_records t) i = Some q \<Longrightarrow> q = p"
proof -
  let ?a = "announce_unavailable msg s"
  have a: "rt_records ?a = rt_records s" "rt_restart_command ?a = rt_restart_command s"
    "rt_state ?a = UnavailableState" "Waiting \<notin> set (dict_values (rt_reads ?a))"
    by (auto simp: announce_unavailable_def Let_def fail_waiter_def split: waiter.splits)
  obtain u where u: "py_for (mark_unknown env msg) (keys (rt_records s)) ?a = (Inr (), u)"
    "keys (rt_records u) = keys (rt_records s)" "rt_state u = UnavailableState" "rt_reads u = rt_reads ?a"
    "\<forall>j. marked (map_option cmd_id (rt_restart_command s)) (j \<in> set (keys (rt_records s))) j
       (map_of (rt_records s) j) (map_of (rt_records u) j)"
    using for_mark_unknown [OF ids, of env msg ?a] unfolding a by blast
  have rt: "r = Inr ()" "t = prune env 0 u"
    using run current u(1) a by (auto simp: unavailable_def py_simps)
  show "r = Inr () \<and> rt_state t = UnavailableState \<and> Waiting \<notin> set (dict_values (rt_reads t))"
    using rt u(3,4) a(4) by simp
  have "distinct (keys (rt_records u))" using u(2) runtime_ok_distinct [OF ok] by simp
  from retained_Some [OF prune_retained [OF this] this]
  have earlier: "map_of (rt_records u) i = Some q" if "map_of (rt_records t) i = Some q" for i q
    using that rt(2) by blast
  have key: "i \<in> set (keys (rt_records s))" if "map_of (rt_records s) i = Some p" for i p
    using that by (force dest: map_of_SomeD)
  show "rec_response q \<noteq> None \<or> map_option cmd_id (rt_restart_command s) = Some i"
    if "map_of (rt_records t) i = Some q"
    using spec [OF u(5), of i] earlier [OF that] key
    by (cases "map_of (rt_records s) i") (auto simp: marked_def split: if_splits)
  show "\<exists>o'. rec_response q = Some o' \<and> oc_state o' = Unknown"
    if "map_of (rt_records s) i = Some p" "rec_response p = None" "map_of (rt_records t) i = Some q"
      "map_option cmd_id (rt_restart_command s) \<noteq> Some i"
    using spec [OF u(5), of i] earlier [OF that(3)] key [OF that(1)] that by (auto simp: marked_def)
  show "q = p"
    if "map_of (rt_records s) i = Some p" "rec_response p \<noteq> None" "map_of (rt_records t) i = Some q"
    using spec [OF u(5), of i] earlier [OF that(3)] that by (auto simp: marked_def)
qed

text \<open>
  C32. When the controller of the current runtime is lost, every waiting read fails and every
  unfinished command other than a pending lifecycle command gets the outcome unknown; nothing
  stays pending, and known outcomes stay as they are.
\<close>

theorem unavailable_resolves:
  assumes "runtime_ok s" and "\<forall>i \<in> set (keys (rt_records s)). \<exists>n < uuid_limit. i = uuid_str n"
    and "rt_state s \<noteq> ClosedState" "runtime_id = None \<or> runtime_id = Some (rt_runtime_id s)"
    and "unavailable env msg runtime_id s = (r, t)"
  shows "r = Inr () \<and> rt_state t = UnavailableState \<and> Waiting \<notin> set (dict_values (rt_reads t))
     \<and> (\<forall>i q. map_of (rt_records t) i = Some q \<longrightarrow>
          rec_response q \<noteq> None \<or> map_option cmd_id (rt_restart_command s) = Some i)
     \<and> (\<forall>i p q. map_of (rt_records s) i = Some p \<longrightarrow> rec_response p = None \<longrightarrow>
          map_of (rt_records t) i = Some q \<longrightarrow> map_option cmd_id (rt_restart_command s) \<noteq> Some i \<longrightarrow>
          (\<exists>o'. rec_response q = Some o' \<and> oc_state o' = Unknown))
     \<and> (\<forall>i p q. map_of (rt_records s) i = Some p \<longrightarrow> rec_response p \<noteq> None \<longrightarrow>
          map_of (rt_records t) i = Some q \<longrightarrow> q = p)"
  using unavailable_resolves_facts [OF assms] by blast

section \<open>Concrete runs\<close>

text \<open>
  A ready runtime with room for one ordinary pending command, holding a finished command 1 and
  a pending command 2.
\<close>

definition sample_env :: server_env where
  "sample_env = \<lparr>env_clock = of_nat, env_stamp = (\<lambda>_. ''now''), env_uuid = (\<lambda>n k. uuid_str (n + k)),
     env_digest = id, env_float = (\<lambda>_. ''0.0''), env_repr = (\<lambda>_. ''json''), env_describe = (\<lambda>_. ''error'')\<rparr>"

definition sample_settings :: server_settings where
  "sample_settings = \<lparr>server_mode = RunMode, max_request_bytes = 10000, max_response_bytes = 1000,
     max_pending = 2, max_reads = 2, max_records = 4, max_cache_bytes = 2000, result_ttl = 100\<rparr>"

definition sample_command :: "nat \<Rightarrow> server_command" where
  "sample_command n = \<lparr>cmd_id = uuid_str n, cmd_name = ''run'', cmd_args = [], cmd_target = None\<rparr>"

definition sample_outcome :: command_outcome where
  "sample_outcome = \<lparr>oc_state = Succeeded, oc_result = Some Success, oc_id = uuid_str 1,
     oc_document = [(''state'', JStr ''succeeded''), (''result'', JStr ''success''),
       (''command_id'', JStr (uuid_str 1))]\<rparr>"

definition sample_records :: "(string, command_record) pydict" where
  "sample_records =
     [(uuid_str 1, (new_record sample_env 0 (sample_command 1) None)
         \<lparr>rec_response := Some sample_outcome, rec_finished_at := Some 0, rec_size := 10\<rparr>),
      (uuid_str 2, new_record sample_env 0 (sample_command 2) None)]"

definition sample_runtime :: server_runtime where
  "sample_runtime = (initial_runtime sample_settings True (uuid_str 7) (uuid_str 8))
     \<lparr>rt_state := ReadyState, rt_process := Some True, rt_requests := Some \<lparr>q_items = [], q_capacity = 8\<rparr>,
      rt_records := sample_records, rt_cache_bytes := 10, rt_reads := [(uuid_str 5, Waiting)]\<rparr>"

lemma uuid_str_eq: "m < uuid_limit \<Longrightarrow> n < uuid_limit \<Longrightarrow> uuid_str m = uuid_str n \<longleftrightarrow> m = n"
  by (metis sum.inject(2) uuid_int_str)

lemma sample_uuid_eq [simp]:
  "uuid_str (Suc 0) = uuid_str 2 \<longleftrightarrow> False" "uuid_str 2 = uuid_str (Suc 0) \<longleftrightarrow> False"
  "uuid_str 3 = uuid_str (Suc 0) \<longleftrightarrow> False" "uuid_str (Suc 0) = uuid_str 3 \<longleftrightarrow> False"
  "uuid_str 3 = uuid_str 2 \<longleftrightarrow> False" "uuid_str 2 = uuid_str 3 \<longleftrightarrow> False"
  "uuid_str 5 = uuid_str 2 \<longleftrightarrow> False" "uuid_str 5 = uuid_str (Suc 0) \<longleftrightarrow> False"
  "uuid_str 5 = uuid_str 3 \<longleftrightarrow> False" "uuid_str 2 = uuid_str 5 \<longleftrightarrow> False"
  "uuid_str 3 = uuid_str 5 \<longleftrightarrow> False"
  by (simp_all add: uuid_str_eq uuid_limit_def)

lemma sample_runtime_ok: "runtime_ok sample_runtime"
  by (simp add: runtime_ok_def accounting_ok_def sample_runtime_def initial_runtime_def
      sample_records_def new_record_def record_ok_def pending_records_def sample_settings_def
      sample_command_def)

lemma sample_prune:
  "rt_records (prune sample_env 0 sample_runtime) = sample_records"
proof -
  have "finished_records sample_runtime = [(0, hd sample_records)]"
    by (simp add: finished_records_def sample_runtime_def sample_records_def new_record_def
        map_filter_simps)
  then show ?thesis
    unfolding prune_def Let_def
    by simp (simp add: evict_def sample_records_def sample_runtime_def initial_runtime_def
        sample_env_def sample_settings_def tick_def)
qed

theorem prune_limits_witness:
  "rt_cache_bytes (prune sample_env 0 sample_runtime) \<le> 2000
   \<and> map_of (rt_records (prune sample_env 0 sample_runtime)) (uuid_str 2)
       = Some (new_record sample_env 0 (sample_command 2) None)"
proof -
  have ok: "accounting_ok sample_runtime" using sample_runtime_ok by (simp add: runtime_ok_def)
  have "map_of (rt_records sample_runtime) (uuid_str 2) = Some (new_record sample_env 0 (sample_command 2) None)"
    "rec_response (new_record sample_env 0 (sample_command 2) None) = None"
    "max_cache_bytes (rt_settings sample_runtime) = 2000"
    by (simp_all add: sample_runtime_def sample_records_def new_record_def initial_runtime_def
        sample_settings_def)
  then show ?thesis
    using prune_limits [where env = sample_env and n = 0, OF ok refl] by auto
qed

theorem server_books_witness:
  "\<exists>s. (server_step sample_env)\<^sup>*\<^sup>* (initial_runtime sample_settings True (uuid_str 7) (uuid_str 8)) s
     \<and> rt_state s = ReadyState \<and> length (rt_records s) \<le> 4"
proof -
  let ?s = "initial_runtime sample_settings True (uuid_str 7) (uuid_str 8)"
  let ?t = "?s\<lparr>rt_state := ReadyState, rt_process := Some True\<rparr>"
  have "server_step sample_env ?s ?t" by (rule server_step.Outside) (simp add: same_books_def)
  then have step: "(server_step sample_env)\<^sup>*\<^sup>* ?s ?t" by blast
  have "max_records (rt_settings ?t) = 4" by (simp add: initial_runtime_def sample_settings_def)
  then show ?thesis using server_books [OF step] step by (intro exI [of _ ?t]) simp
qed


theorem pages_continue_witness:
  "\<exists>p k. list_retained \<lparr>la_after = None, la_limit = 1, la_state = None, la_command = None\<rparr> sample_runtime = Inr p
     \<and> pg_next_after p = Some k \<and> length (pg_items p) = 1
     \<and> length (matching_items \<lparr>la_after = Some k, la_limit = 1, la_state = None, la_command = None\<rparr>
                sample_runtime) = 1"
proof -
  let ?a = "\<lparr>la_after = None, la_limit = 1, la_state = None, la_command = None\<rparr>"
  obtain p where p: "list_retained ?a sample_runtime = Inr p" by (simp add: list_retained_def Let_def)
  have two: "length (matching_items ?a sample_runtime) = 2"
    by (simp add: matching_items_def page_source_def matches_filter_def sample_runtime_def
        sample_records_def)
  then obtain k where k: "pg_next_after p = Some k"
    using list_retained_Inr(2,3) [OF p] by auto
  have limit: "0 < la_limit ?a" by simp
  show ?thesis
    using pages_continue [OF sample_runtime_ok p limit] p k two by auto
qed

theorem unavailable_resolves_witness:
  "\<exists>t. unavailable sample_env ''lost'' None sample_runtime = (Inr (), t)
     \<and> Waiting \<notin> set (dict_values (rt_reads t)) \<and> rt_state t = UnavailableState"
proof -
  obtain r t where run: "unavailable sample_env ''lost'' None sample_runtime = (r, t)" by fastforce
  have ids: "\<forall>i \<in> set (keys (rt_records sample_runtime)). \<exists>n < uuid_limit. i = uuid_str n"
  proof -
    have "Suc 0 < uuid_limit" "2 < uuid_limit" by (simp_all add: uuid_limit_def)
    then have "\<exists>n < uuid_limit. uuid_str (Suc 0) = uuid_str n" "\<exists>n < uuid_limit. uuid_str 2 = uuid_str n"
      by blast+
    then show ?thesis by (auto simp: sample_runtime_def sample_records_def)
  qed
  have open_state: "rt_state sample_runtime \<noteq> ClosedState" by (simp add: sample_runtime_def)
  show ?thesis
    using unavailable_resolves [OF sample_runtime_ok ids open_state disjI1 [OF refl] run] run by auto
qed

text \<open>Submitting command 2 again, and a new command 3.\<close>

lemma sample_prune_runtime: "rt_reads (prune sample_env 0 sample_runtime) = [(uuid_str 5, Waiting)]"
  by (simp add: sample_runtime_def)

definition sample_message :: "nat \<Rightarrow> json" where
  "sample_message n = JObj (dump_server_command (sample_command n))"

lemma sample_normalize:
  "normalize_submission fresh (TypedCommand (sample_command n)) False
     = Inr (None, [sample_command n], Inr (sample_command n))"
  "submission_document (Inr (sample_command n)) = Inr (sample_message n)"
  by (simp_all add: normalize_submission_def command_document_def sample_message_def with_chain_def)

lemma utf8_length_append [simp]: "utf8_length (s @ t) = utf8_length s + utf8_length t"
  by (simp add: utf8_length_def)

lemma utf8_length_Cons [simp]:
  "utf8_length (c # s) = (if of_char c < (128 :: nat) then 1 else 2) + utf8_length s"
  "utf8_length [] = 0"
  by (simp_all add: utf8_length_def)

lemma utf8_length_le: "utf8_length s \<le> 2 * length s"
  by (induction s) auto

lemma length_json_escape: "length (json_escape ascii c) \<le> 6"
  by (simp add: json_escape_def Let_def)

lemma utf8_length_string: "utf8_length (json_string ascii s) \<le> 4 + 12 * length s"
proof -
  have "length (concat (map (json_escape ascii) s)) \<le> 6 * length s"
  proof (induction s)
    case (Cons c s)
    then show ?case using length_json_escape [of ascii c] by simp
  qed simp
  then show ?thesis using utf8_length_le [of "json_string ascii s"] by (simp add: json_string_def)
qed

lemma sample_message_size: "encoded_size sample_env False (sample_message n) \<le> 10000"
proof -
  have strings: "utf8_length (json_string False k) \<le> 4 + 12 * length k" for k
    by (rule utf8_length_string)
  have "utf8_length (json_string False (uuid_str n)) \<le> 436"
    using strings [of "uuid_str n"] by (simp add: length_uuid_str)
  moreover have "utf8_length (decimal 1) = 1"
    by (simp add: decimal_def decimal_rev.simps)
  ultimately show ?thesis
    using strings [of "''api_version''"] strings [of "''command_id''"] strings [of "''command''"]
      strings [of "''run''"] strings [of "''args''"]
    by (simp add: encoded_size_def sample_message_def dump_server_command_def sample_command_def)
qed

lemma sample_identifiers:
  "check_submission_identifiers [uuid_str 2] None (prune sample_env 0 sample_runtime) = Inr ()"
  "check_submission_identifiers [uuid_str 3] None (prune sample_env 0 sample_runtime) = Inr ()"
  by (simp_all add: check_submission_identifiers_def has_key_def sample_runtime_def)

theorem submit_replay_witness:
  "untouched sample_runtime (snd (submit sample_env (TypedCommand (sample_command 2)) False sample_runtime))"
proof (rule submit_replay [OF sample_runtime_ok refl sample_normalize, THEN conjunct2])
  show "encoded_size sample_env False (sample_message 2) \<le> max_request_bytes (rt_settings sample_runtime)"
    using sample_message_size by (simp add: sample_runtime_def initial_runtime_def sample_settings_def)
  show "check_submission_identifiers (map cmd_id [sample_command 2]) None
      (prune sample_env 0 sample_runtime) = Inr ()"
    using sample_identifiers(1) by (simp add: sample_command_def)
  show "\<forall>c \<in> set [sample_command 2]. \<exists>r. map_of (rt_records (prune sample_env 0 sample_runtime)) (cmd_id c)
      = Some r \<and> rec_fingerprint r = command_fingerprint sample_env c None"
    unfolding sample_prune by (simp add: sample_records_def new_record_def sample_command_def)
qed simp

text \<open>Admitting command 3 appends its message and its record.\<close>

theorem submit_all_or_nothing_witness:
  "\<exists>r t. submit sample_env (TypedCommand (sample_command 3)) False sample_runtime = (r, t)
     \<and> (untouched sample_runtime t
        \<or> (\<exists>q. rt_requests t = Some q \<and> q_items q = [sample_message 3]))"
proof -
  obtain r t where run: "submit sample_env (TypedCommand (sample_command 3)) False sample_runtime = (r, t)"
    by fastforce
  have valid: "valid_submission (TypedCommand (sample_command 3))" by simp
  have "\<not> is_lifecycle False [sample_command 3]"
    by (simp add: is_lifecycle_def lifecycle_commands_def sample_command_def)
  moreover have "rt_requests sample_runtime = Some \<lparr>q_items = [], q_capacity = 8\<rparr>"
    by (simp add: sample_runtime_def)
  ultimately show ?thesis
    using submit_all_or_nothing [OF sample_runtime_ok valid run] run sample_normalize(2) [of 3]
    by (auto simp: sample_normalize)
qed

end
