(* ===== verification/Paths.thy ===== *)
theory Paths
  imports Prelude
begin

text \<open>
  The part of POSIX \<^verbatim>\<open>pathlib\<close> the code uses on paths it stores: parsing a text into its parts,
  \<^verbatim>\<open>as_posix\<close>, the join \<^verbatim>\<open>a / b\<close>, \<^verbatim>\<open>relative_to\<close> and \<^verbatim>\<open>is_relative_to\<close>. \<^verbatim>\<open>Path.resolve\<close> asks the
  filesystem and is a parameter of the functions that call it. (An anchor of exactly two
  slashes, which POSIX keeps apart, is read as one.)

  The main result is that the text of a path of a well-formed \<open>path\<close> is read back.
\<close>

datatype path = Path (path_anchored: bool) (path_parts: "string list")

section \<open>Splitting and joining\<close>

fun split_on :: "char \<Rightarrow> string \<Rightarrow> string list" where
  "split_on c [] = [[]]"
| "split_on c (x # xs) =
     (if x = c then [] # split_on c xs
      else case split_on c xs of
             [] \<Rightarrow> [[x]]
           | w # ws \<Rightarrow> (x # w) # ws)"

fun join_with :: "char \<Rightarrow> string list \<Rightarrow> string" where
  "join_with c [] = []"
| "join_with c [w] = w"
| "join_with c (w # v # ws) = w @ c # join_with c (v # ws)"

lemma split_on_not_Nil [simp]: "split_on c s \<noteq> []"
  by (cases s) (auto split: list.splits)

lemma split_on_word:
  "c \<notin> set w \<Longrightarrow> split_on c (w @ s) = (w @ hd (split_on c s)) # tl (split_on c s)"
  by (induction w) (auto split: list.splits)

lemma split_join: "ws \<noteq> [] \<Longrightarrow> \<forall>w \<in> set ws. c \<notin> set w \<Longrightarrow> split_on c (join_with c ws) = ws"
proof (induction c ws rule: join_with.induct)
  case (2 c w)
  then show ?case using split_on_word [of c w "[]"] by simp
next
  case (3 c w v ws)
  then show ?case using split_on_word [of c w "c # join_with c (v # ws)"] by simp
qed simp

section \<open>Paths and their texts\<close>

definition path_part :: "string \<Rightarrow> bool" where
  "path_part w \<longleftrightarrow> w \<noteq> [] \<and> w \<noteq> ''.'' \<and> CHR ''/'' \<notin> set w"

definition path_of :: "string \<Rightarrow> path" where
  "path_of s = Path (s \<noteq> [] \<and> hd s = CHR ''/'')
                 (filter (\<lambda>w. w \<noteq> [] \<and> w \<noteq> ''.'') (split_on CHR ''/'' s))"

fun path_text :: "path \<Rightarrow> string" where
  "path_text (Path anchored parts) =
     (if anchored then CHR ''/'' # join_with CHR ''/'' parts
      else if parts = [] then ''.'' else join_with CHR ''/'' parts)"

definition path_ok :: "path \<Rightarrow> bool" where
  "path_ok p \<longleftrightarrow> list_all path_part (path_parts p)"

definition path_join :: "path \<Rightarrow> path \<Rightarrow> path" where
  "path_join base p =
     (if path_anchored p then p else Path (path_anchored base) (path_parts base @ path_parts p))"

definition is_relative_to :: "path \<Rightarrow> path \<Rightarrow> bool" where
  "is_relative_to p base \<longleftrightarrow> path_anchored p = path_anchored base
     \<and> take (length (path_parts base)) (path_parts p) = path_parts base"

definition relative_to :: "path \<Rightarrow> path \<Rightarrow> path result" where
  "relative_to p base =
     (if is_relative_to p base
      then Inr (Path False (drop (length (path_parts base)) (path_parts p)))
      else Inl ValueError)"

lemma filter_parts: "list_all path_part ws \<Longrightarrow> filter (\<lambda>w. w \<noteq> [] \<and> w \<noteq> ''.'') ws = ws"
  by (auto simp: filter_id_conv list_all_iff path_part_def)

lemma join_hd:
  assumes "list_all path_part ws" "ws \<noteq> []"
  shows "join_with CHR ''/'' ws \<noteq> [] \<and> hd (join_with CHR ''/'' ws) \<noteq> CHR ''/''"
proof -
  obtain w vs where ws: "ws = w # vs" using assms(2) by (cases ws) auto
  then have "w \<noteq> []" "CHR ''/'' \<notin> set w" using assms(1) by (auto simp: path_part_def)
  moreover from this have "hd w \<noteq> CHR ''/''" by (metis hd_in_set)
  ultimately show ?thesis by (cases vs) (auto simp: ws)
qed

text \<open>Reading the text of a well-formed path gives the path.\<close>

lemma path_of_text: "path_ok p \<Longrightarrow> path_of (path_text p) = p"
proof (cases p)
  case (Path anchored parts)
  assume "path_ok p"
  then have ok: "list_all path_part parts" by (simp add: path_ok_def Path)
  have words: "\<forall>w \<in> set parts. CHR ''/'' \<notin> set w"
    using ok by (auto simp: list_all_iff path_part_def)
  show ?thesis
  proof (cases "parts = []")
    case True
    then show ?thesis using Path by (auto simp: path_of_def)
  next
    case False
    note split = split_join [OF False words]
    show ?thesis
      using join_hd [OF ok False] filter_parts [OF ok] False split
      by (simp add: Path path_of_def)
  qed
qed

lemma relative_to_Inr:
  "relative_to p base = Inr q \<longleftrightarrow>
     is_relative_to p base \<and> q = Path False (drop (length (path_parts base)) (path_parts p))"
  by (auto simp: relative_to_def)

lemma relative_join: "relative_to p base = Inr q \<Longrightarrow> path_join base q = p"
  using append_take_drop_id [of "length (path_parts base)" "path_parts p"]
  by (cases p) (simp add: relative_to_Inr is_relative_to_def path_join_def)

lemma relative_ok: "relative_to p base = Inr q \<Longrightarrow> path_ok p \<Longrightarrow> path_ok q \<and> \<not> path_anchored q"
  by (auto simp: relative_to_Inr path_ok_def list_all_iff dest: in_set_dropD)

lemma relative_to_join:
  "\<not> path_anchored q \<Longrightarrow> relative_to (path_join base q) base = Inr q"
  by (cases q) (simp add: relative_to_def is_relative_to_def path_join_def)

end
