(* ===== verification/Runner_State.thy ===== *)
theory Runner_State
  imports Template Paths "HOL-Library.FSet" "HOL-Library.List_Lexorder" "HOL-Library.Char_ord"
begin

text \<open>
  Model of \<^verbatim>\<open>core/experiments/state.py\<close> with the document models of
  \<^verbatim>\<open>core/models/runner_state.py\<close>: the records of a running experiment, their constructors, and
  the conversion between the live state and the saved checkpoint.

  A live record and its saved document have the same fields. They differ in the type of paths
  (\<open>path\<close> in the live state, the text of a path relative to the experiment in the document) and
  of the set of used request IDs (sorted in the document), so one record with these two
  type parameters stands for both; \<^verbatim>\<open>schema_version\<close>, constant in documents written by this
  code, is left out, and the experiment directory, which is not saved, is the extra field of
  the live \<open>runner_state\<close>.

  Statuses reported by participants are kept as the JSON they are exchanged as. Fields the
  types make well-formed (booleans, modes, nonnegative counters) need no check; what the
  pydantic models verify besides is \<open>validate_saved\<close>.
\<close>

section \<open>Attempts\<close>

record process_identity =
  pi_pid :: int
  pi_created_at :: nat
  pi_host_id :: string
  pi_boot_id :: string

datatype retained_identity = FullIdentity process_identity | PartialIdentity json_object

record participant_identity =
  pt_experiment_id :: string
  pt_participant_id :: string
  pt_instance_id :: string
  pt_extra :: json_object

record 'p stage_attempt =
  at_attempt_id :: string
  at_stage_id :: string
  at_execution_id :: string
  at_cycle_number :: int
  at_attempt_number :: int
  at_artifacts :: 'p
  at_input :: json
  at_settings :: json_object
  at_timeout :: "number option"
  at_process :: "retained_identity option"
  at_started_at :: "string option"
  at_result_request :: "string option"
  at_outcome :: "string option"
  at_executor :: json
  at_request_id :: string
  at_participant :: "participant_identity option"
  at_endpoint :: "'p option"
  at_service_id :: "string option"
  at_queued_monotonic :: "rat option"
  at_queued_at :: "string option"

definition is_uuid :: "string \<Rightarrow> bool" where
  "is_uuid s = is_ok (uuid_text (PStr s))"

definition is_text :: "string \<Rightarrow> bool" where
  "is_text s = is_ok (require_text (PStr s))"

text \<open>\<^verbatim>\<open>AttemptParameters\<close> and \<^verbatim>\<open>StageAttempt._configure\<close>.\<close>

definition absolute_path :: "path \<Rightarrow> bool" where
  "absolute_path p = (path_anchored p \<and> null_char \<notin> set (path_text p))"

definition new_attempt ::
    "string \<Rightarrow> string \<Rightarrow> string \<Rightarrow> int \<Rightarrow> int \<Rightarrow> path \<Rightarrow> json \<Rightarrow> json_object \<Rightarrow> number option
     \<Rightarrow> path stage_attempt result" where
  "new_attempt attempt_id stage_id execution_id cycle number artifacts input settings timeout =
     (if is_ok (copy_json_object (embed (JObj [(''input_data'', input),
                                               (''effective_settings'', JObj settings)])))
         \<and> is_uuid attempt_id \<and> is_uuid stage_id \<and> is_uuid execution_id
         \<and> 0 < cycle \<and> 0 < number \<and> absolute_path artifacts
         \<and> (case timeout of None \<Rightarrow> True | Some t \<Rightarrow> 0 < number_value t)
      then Inr \<lparr>at_attempt_id = attempt_id, at_stage_id = stage_id,
                at_execution_id = execution_id, at_cycle_number = cycle,
                at_attempt_number = number, at_artifacts = artifacts, at_input = input,
                at_settings = settings, at_timeout = timeout, at_process = None,
                at_started_at = None, at_result_request = None, at_outcome = None,
                at_executor = JNull, at_request_id = attempt_id, at_participant = None,
                at_endpoint = None, at_service_id = None, at_queued_monotonic = None,
                at_queued_at = None\<rparr>
      else Inl ValueError)"

section \<open>Services\<close>

datatype request_owner = CallerOwned | ServiceOwned

record service_request =
  rq_owner :: request_owner
  rq_id :: string
  rq_command :: string
  rq_args :: json_object
  rq_queued :: rat
  rq_deadline :: "rat option"
  rq_sent :: "rat option"
  rq_instance_id :: "string option"
  rq_timed_out :: bool
  rq_extra :: json_object

datatype blocked_action = BlockedPause | BlockedStop

datatype implementation = FullImplementation | ActionImplementation

record service_failure =
  sf_code :: string
  sf_message :: string

record 'p service_instance =
  si_service_id :: string
  si_instance_id :: string
  si_definition :: service_definition
  si_process :: "process_identity option"
  si_endpoint :: "'p option"
  si_ready :: bool
  si_started_at :: "string option"
  si_last_status :: "json_object option"
  si_restart_count :: nat
  si_pending :: "service_request list"
  si_active :: "service_request option"
  si_start_deadline :: "rat option"
  si_ever_ready :: bool
  si_stopping :: bool
  si_stopped :: bool
  si_manually_stopped :: bool
  si_blocked :: "blocked_action option"
  si_failure :: "service_failure option"
  si_freeze_id :: "string option"
  si_prepared_freeze_id :: "string option"
  si_artifacts :: "'p option"
  si_implementation :: implementation

text \<open>\<^verbatim>\<open>ServiceParameters.match_definition\<close> and \<^verbatim>\<open>ServiceInstance._configure\<close>.\<close>

definition new_service_instance ::
    "string \<Rightarrow> string \<Rightarrow> service_definition \<Rightarrow> path service_instance result" where
  "new_service_instance service_id instance_id d =
     (if is_uuid service_id \<and> is_uuid instance_id \<and> sv_service_id d = Some service_id
      then Inr \<lparr>si_service_id = service_id, si_instance_id = instance_id, si_definition = d,
                si_process = None, si_endpoint = None, si_ready = False, si_started_at = None,
                si_last_status = None, si_restart_count = 0, si_pending = [], si_active = None,
                si_start_deadline = None, si_ever_ready = False, si_stopping = False,
                si_stopped = False, si_manually_stopped = False, si_blocked = None,
                si_failure = None, si_freeze_id = None, si_prepared_freeze_id = None,
                si_artifacts = None, si_implementation = FullImplementation\<rparr>
      else Inl ValueError)"

section \<open>Conditional decisions\<close>

text \<open>
  \<^verbatim>\<open>DagDecision\<close>: the target field is present exactly for a move. Its presence
  (\<^verbatim>\<open>model_fields_set\<close>) is the outer option, a present null the inner one.
\<close>

datatype dag_command = PauseCommand | StopCommand | MoveCommand

record dag_decision =
  dd_command :: "dag_command option"
  dd_stage_id :: "string option option"

definition dd_target :: "dag_decision \<Rightarrow> string option" where
  "dd_target d = Option.bind (dd_stage_id d) id"

definition dag_decision_ok :: "dag_decision \<Rightarrow> bool" where
  "dag_decision_ok d \<longleftrightarrow> (dd_command d = Some MoveCommand) = (dd_stage_id d \<noteq> None)"

record last_decision =
  ld_request_id :: string
  ld_source_stage :: string
  ld_experiment_id :: string
  ld_decision :: dag_decision

record pending_input =
  in_request_id :: string
  in_source_stage :: string
  in_experiment_id :: string
  in_stage_id :: string

record pending_rebuild =
  rb_operation_id :: string
  rb_snapshot_id :: string
  rb_template_revision_id :: string
  rb_run_id :: string

section \<open>The runner state\<close>

datatype runner_mode = RunningMode | PausedMode

datatype runner_phase =
    PhaseIdle | PhaseStarting | PhaseStageRunning | PhaseWaiting | PhaseSnapshotting
  | PhaseRebuilding | PhaseRestoring | PhaseStopped | PhaseCompleted | PhaseFailed

record ('p, 'ids) checkpoint =
  st_experiment_id :: string
  st_run_id :: string
  st_template_path :: 'p
  st_template_revision :: string
  st_template_yaml :: string
  st_template :: experiment_template
  st_mode :: runner_mode
  st_phase :: runner_phase
  st_pause_requested :: bool
  st_cycle_number :: int
  st_stage_position :: int
  st_active_attempt :: "'p stage_attempt option"
  st_retry_counts :: "(string, nat) pydict"
  st_attempt_numbers :: "(string, nat) pydict"
  st_services :: "(string, 'p service_instance) pydict"
  st_last_result :: json
  st_last_result_id :: "string option"
  st_result_ids :: "(string, string option) pydict"
  st_recovery_count :: nat
  st_used_request_ids :: 'ids
  st_stable_snapshot :: "string option"
  st_pending_rebuild :: "pending_rebuild option"
  st_pending_advance :: bool
  st_result_origins :: "(string, string) pydict"
  st_checkpoint_id :: "string option"
  st_owner :: "process_identity option"
  st_pending_input :: "pending_input option"
  st_last_decision :: "last_decision option"
  st_pending_decision :: "last_decision option"
  st_retained_artifacts :: "string list"

record runner_state = "(path, string fset) checkpoint" +
  st_directory :: path

type_synonym saved_runner_state = "(string, string list) checkpoint"

text \<open>\<^verbatim>\<open>StateParameters\<close> and \<^verbatim>\<open>RunnerState._configure\<close>.\<close>

definition new_runner_state ::
    "string \<Rightarrow> path \<Rightarrow> string \<Rightarrow> path \<Rightarrow> string \<Rightarrow> string \<Rightarrow> experiment_template \<Rightarrow> runner_mode
     \<Rightarrow> runner_state result" where
  "new_runner_state experiment_id directory run_id template_path revision yaml t mode =
     (if is_text experiment_id \<and> absolute_path directory \<and> is_text run_id
         \<and> absolute_path template_path \<and> is_uuid revision \<and> is_text yaml
      then Inr \<lparr>st_experiment_id = experiment_id, st_run_id = run_id,
                st_template_path = template_path, st_template_revision = revision,
                st_template_yaml = yaml, st_template = t, st_mode = mode, st_phase = PhaseIdle,
                st_pause_requested = False, st_cycle_number = 1, st_stage_position = 1,
                st_active_attempt = None, st_retry_counts = [], st_attempt_numbers = [],
                st_services = [], st_last_result = JNull, st_last_result_id = None,
                st_result_ids = [], st_recovery_count = 0, st_used_request_ids = {||},
                st_stable_snapshot = None, st_pending_rebuild = None,
                st_pending_advance = False, st_result_origins = [], st_checkpoint_id = None,
                st_owner = None, st_pending_input = None, st_last_decision = None,
                st_pending_decision = None, st_retained_artifacts = [],
                st_directory = directory\<rparr>
      else Inl ValueError)"

end
