(* ===== verification/Conditional_Result.thy ===== *)
theory Conditional_Result
  imports Runner_State
begin

text \<open>
  Results of stages: \<^verbatim>\<open>StageOutcomeResult\<close> (\<^verbatim>\<open>core/models/participant_protocol.py\<close>),
  \<^verbatim>\<open>ConditionalDecision\<close> (\<^verbatim>\<open>core/models/conditional_result.py\<close>), the separation of a decision
  from the application output (\<^verbatim>\<open>core/experiments/results.py\<close>) and its use in
  \<^verbatim>\<open>StageRunner._normalize_accepted_response\<close> (\<^verbatim>\<open>core/experiments/stages.py\<close>).

  Optional fields are options: their presence is what \<^verbatim>\<open>model_fields_set\<close> records.
\<close>

section \<open>Result envelopes\<close>

datatype result_kind = SuccessResult | FailResult

record stage_result =
  or_result :: result_kind
  or_data :: json
  or_error :: "json option"
  or_execution :: "json option"
  or_extra :: json_object

definition result_names :: "(string \<times> result_kind) list" where
  "result_names = [(''success'', SuccessResult), (''fail'', FailResult)]"

definition result_keys :: "string list" where
  "result_keys = [''result'', ''data'', ''error'', ''execution'']"

definition dump_stage_result :: "stage_result \<Rightarrow> json_object" where
  "dump_stage_result r =
     [(''result'', name_in result_names (or_result r)), (''data'', or_data r)]
     @ (case or_error r of None \<Rightarrow> [] | Some e \<Rightarrow> [(''error'', e)])
     @ (case or_execution r of None \<Rightarrow> [] | Some e \<Rightarrow> [(''execution'', e)])
     @ or_extra r"

definition parse_stage_result :: "json \<Rightarrow> stage_result result" where
  "parse_stage_result j =
     res_bind (copy_json_object (embed j)) (\<lambda>d.
       v_ap (v_ap (v_ap (v_ap
         (Inr (\<lambda>r v e x. stage_result.make r v e x
             (filter (\<lambda>(k, v). \<not> List.member result_keys k) d)))
         (field d ''result'' (literal_value result_names)))
         (field d ''data'' Inr))
         (opt_field d ''error'' Inr))
         (opt_field d ''execution'' Inr))"

text \<open>
  \<^verbatim>\<open>_update_model\<close>: the document with some fields replaced is validated again; the only check
  the replaced fields can fail is the one on the whole JSON document.
\<close>

definition update_stage_result :: "stage_result \<Rightarrow> stage_result result" where
  "update_stage_result r =
     res_bind (copy_json_object (embed (JObj (dump_stage_result r)))) (\<lambda>_. Inr r)"

section \<open>Conditional decisions\<close>

record conditional_decision =
  cd_command :: "dag_command option"
  cd_stage_id :: "string option"
  cd_data :: "json option"

definition dag_command_names :: "(string \<times> dag_command) list" where
  "dag_command_names = [(''pause'', PauseCommand), (''stop'', StopCommand), (''move'', MoveCommand)]"

definition decision_keys :: "string list" where
  "decision_keys = [''command'', ''stage_id'', ''data'']"

text \<open>\<^verbatim>\<open>ConditionalDecision.detach\<close>\<close>

definition detach_decision :: "json \<Rightarrow> json_object result" where
  "detach_decision j =
     (case j of
        JNull \<Rightarrow> Inr []
      | JObj d \<Rightarrow>
          res_bind (copy_json_object (embed (JObj d))) (\<lambda>d.
            let command = dict_get d ''command'' JNull in
            if \<not> list_all (\<lambda>k. List.member decision_keys k) (keys d) then Inl ValueError
            else if \<not> List.member [JNull, JStr ''pause'', JStr ''stop'', JStr ''move''] command
            then Inl ValueError
            else if command \<noteq> JStr ''move'' \<and> has_key d ''stage_id'' then Inl ValueError
            else Inr d)
      | _ \<Rightarrow> Inl ValueError)"

definition normalized_id_field :: "json \<Rightarrow> string result" where
  "normalized_id_field j = normalized_uuid (embed j)"

definition flatten_option :: "'a option option \<Rightarrow> 'a option" where
  "flatten_option x = Option.bind x id"

definition parse_conditional_decision :: "json \<Rightarrow> conditional_decision result" where
  "parse_conditional_decision j =
     res_bind (detach_decision j) (\<lambda>d.
     res_bind
       (v_ap (v_ap (v_ap
         (Inr (\<lambda>c i v. conditional_decision.make (flatten_option c) (flatten_option i) v))
         (opt_field d ''command'' (nullable (literal_value dag_command_names))))
         (opt_field d ''stage_id'' (nullable normalized_id_field)))
         (opt_field d ''data'' Inr))
       (\<lambda>c. if cd_command c = Some MoveCommand \<and> cd_stage_id c = None then Inl ValueError
             else Inr c))"

definition dump_command :: "dag_command option \<Rightarrow> json" where
  "dump_command c = dump_nullable (name_in dag_command_names) c"

text \<open>\<^verbatim>\<open>_conditional_output\<close>: the control document and the application output.\<close>

definition conditional_output ::
    "conditional_decision \<Rightarrow> json \<Rightarrow> bool \<Rightarrow> experiment_template \<Rightarrow> (json_object \<times> json) result" where
  "conditional_output decision input returns_data t =
     (if cd_command decision = Some MoveCommand
         \<and> \<not> List.member (map node_stage_id (stages t)) (cd_stage_id decision)
      then Inl ValueError
      else if returns_data \<and> cd_data decision = None then Inl MissingConditionalDataError
      else Inr ((''command'', dump_command (cd_command decision))
                # (if cd_command decision = Some MoveCommand
                   then [(''stage_id'', dump_nullable JStr (cd_stage_id decision))] else []),
                if cd_command decision \<noteq> None \<and> returns_data
                then (case cd_data decision of Some v \<Rightarrow> v | None \<Rightarrow> JNull)
                else input))"

text \<open>\<^verbatim>\<open>{**execution, "dag_decision": control}\<close>: only a mapping can be unpacked.\<close>

definition with_decision :: "json option \<Rightarrow> json_object \<Rightarrow> json result" where
  "with_decision execution control =
     (case execution of
        None \<Rightarrow> Inr (JObj [(''dag_decision'', JObj control)])
      | Some (JObj e) \<Rightarrow> Inr (JObj (AList.update ''dag_decision'' (JObj control) e))
      | Some _ \<Rightarrow> Inl TypeError)"

text \<open>\<^verbatim>\<open>_normalize_conditional_result\<close>\<close>

definition normalize_conditional_result ::
    "stage_result \<Rightarrow> json \<Rightarrow> bool \<Rightarrow> experiment_template \<Rightarrow> stage_result result" where
  "normalize_conditional_result r input returns_data t =
     res_bind (parse_conditional_decision (or_data r)) (\<lambda>decision.
     res_bind (conditional_output decision input returns_data t) (\<lambda>(control, out).
     res_bind (with_decision (or_execution r) control) (\<lambda>execution.
       update_stage_result (r\<lparr>or_data := out, or_execution := Some execution\<rparr>))))"

section \<open>Accepting a response\<close>

definition conditional_code :: "exn \<Rightarrow> string" where
  "conditional_code e = (if e = MissingConditionalDataError then ''conditional_missing_data''
                         else ''invalid_conditional_result'')"

definition value_or_type_error :: "exn \<Rightarrow> bool" where
  "value_or_type_error e = (e = ValueError \<or> e = TypeError \<or> e = MissingConditionalDataError)"

definition conditional_failure :: "(exn \<Rightarrow> string) \<Rightarrow> stage_result \<Rightarrow> exn \<Rightarrow> stage_result result" where
  "conditional_failure describe r e =
     update_stage_result (r\<lparr>or_result := FailResult,
       or_data := JObj [(''reason'', JStr (conditional_code e)), (''message'', JStr (describe e))],
       or_error := Some (JObj [(''code'', JStr (conditional_code e)),
                               (''message'', JStr (describe e))])\<rparr>)"

record accepted_response =
  ac_result :: stage_result
  ac_outcome :: string
  ac_ignored_payload :: bool

text \<open>
  \<^verbatim>\<open>_normalize_accepted_response\<close> for the node at the cursor. \<open>ac_ignored_payload\<close> says that the
  payload of a stage with \<^verbatim>\<open>returns_data=false\<close> was reported in the journal as ignored.
\<close>

definition normalize_accepted_response ::
    "(exn \<Rightarrow> string) \<Rightarrow> experiment_template \<Rightarrow> dag_node \<Rightarrow> json \<Rightarrow> stage_result \<Rightarrow> string
     \<Rightarrow> accepted_response result" where
  "normalize_accepted_response describe t node input r out =
     (case node of
        StageNode d \<Rightarrow>
          (case sd_returns_data d of
             Some returns_data \<Rightarrow>
               if or_result r = SuccessResult then
                 (case normalize_conditional_result r input returns_data t of
                    Inl e \<Rightarrow>
                      if value_or_type_error e
                      then res_bind (conditional_failure describe r e)
                             (\<lambda>f. Inr \<lparr>ac_result = f, ac_outcome = ''failed'',
                                       ac_ignored_payload = False\<rparr>)
                      else Inl e
                  | Inr s \<Rightarrow>
                      Inr \<lparr>ac_result = s, ac_outcome = out,
                           ac_ignored_payload = (\<not> returns_data
                             \<and> (case or_data r of JObj d \<Rightarrow> has_key d ''data'' | _ \<Rightarrow> False))\<rparr>)
               else Inr \<lparr>ac_result = r, ac_outcome = out, ac_ignored_payload = False\<rparr>
           | None \<Rightarrow> Inr \<lparr>ac_result = r, ac_outcome = out, ac_ignored_payload = False\<rparr>)
      | CallNode c \<Rightarrow> Inr \<lparr>ac_result = r, ac_outcome = out, ac_ignored_payload = False\<rparr>)"

section \<open>The saved decision\<close>

text \<open>\<^verbatim>\<open>DagDecision.model_validate\<close>\<close>

definition string_field :: "json \<Rightarrow> string result" where
  "string_field j = (case j of JStr s \<Rightarrow> Inr s | _ \<Rightarrow> Inl ValueError)"

definition parse_dag_decision :: "json \<Rightarrow> dag_decision result" where
  "parse_dag_decision j =
     res_bind (copy_json_object (embed j)) (\<lambda>d.
     res_bind
       (v_ap (v_ap (v_ap
         (Inr (\<lambda>c i _. dag_decision.make c i))
         (field d ''command'' (nullable (literal_value dag_command_names))))
         (opt_field d ''stage_id'' (nullable string_field)))
         (no_extra d [''command'', ''stage_id'']))
       (\<lambda>dd. if dag_decision_ok dd then Inr dd else Inl ValueError))"

text \<open>\<^verbatim>\<open>response.execution["dag_decision"]\<close>\<close>

definition accepted_decision :: "stage_result \<Rightarrow> dag_decision result" where
  "accepted_decision r =
     (case or_execution r of
        Some (JObj e) \<Rightarrow> res_bind (dict_item e ''dag_decision'') parse_dag_decision
      | _ \<Rightarrow> Inl TypeError)"

end
