(* ===== verification/State_Store.thy ===== *)
theory State_Store
  imports Runner_State
begin

text \<open>
  \<^verbatim>\<open>state_to_document\<close>, \<^verbatim>\<open>state_from_document\<close> and \<^verbatim>\<open>RunnerStateStore\<close> of
  \<^verbatim>\<open>core/experiments/state.py\<close>, with the validation of \<^verbatim>\<open>SavedRunnerState\<close> in
  \<^verbatim>\<open>core/models/runner_state.py\<close>.

  \<open>resolve\<close> is \<^verbatim>\<open>Path.resolve\<close>. The paths of a document are texts relative to the experiment
  directory; \<open>saved_path\<close> reads one back and refuses those that leave the directory.
\<close>

section \<open>Scalars and payloads\<close>

text \<open>
  \<^verbatim>\<open>copy_json_object\<close> of the whole document visits the JSON values it carries below its top
  level: each pair is a value with its depth in the document.
\<close>

type_synonym payload = "nat \<times> json"

definition payload_ok :: "payload \<Rightarrow> bool" where
  "payload_ok p = (case p of (depth, j) \<Rightarrow>
     is_ok (validate_json depth (embed j)) \<and> is_ok (dumps_loads (embed j)))"

definition request_payloads :: "nat \<Rightarrow> service_request \<Rightarrow> payload list" where
  "request_payloads depth r = [(Suc depth, JObj (rq_args r)), (depth, JObj (rq_extra r))]"

definition service_payloads :: "'p service_instance \<Rightarrow> payload list" where
  "service_payloads s =
     (case si_last_status s of None \<Rightarrow> [] | Some d \<Rightarrow> [(3, JObj d)])
     @ [(3, dump_service_definition (si_definition s))]
     @ concat (map (request_payloads 4) (si_pending s))
     @ (case si_active s of None \<Rightarrow> [] | Some r \<Rightarrow> request_payloads 3 r)"

section \<open>Process identities\<close>

definition process_identity_ok :: "process_identity \<Rightarrow> bool" where
  "process_identity_ok i = (0 < pi_pid i \<and> is_text (pi_host_id i) \<and> is_text (pi_boot_id i))"

text \<open>\<^verbatim>\<open>_process_identity_document\<close>\<close>

definition dump_process_identity :: "process_identity \<Rightarrow> json_object" where
  "dump_process_identity i =
     [(''pid'', JInt (pi_pid i)), (''created_at_os'', JInt (int (pi_created_at i))),
      (''host_id'', JStr (pi_host_id i)), (''boot_id'', JStr (pi_boot_id i))]"

fun identity_document :: "retained_identity \<Rightarrow> json_object" where
  "identity_document (FullIdentity i) = dump_process_identity i"
| "identity_document (PartialIdentity d) = d"

text \<open>\<^verbatim>\<open>ProcessIdentity.model_validate\<close> and \<^verbatim>\<open>_retain_process_identity\<close>\<close>

definition parse_process_identity :: "json_object \<Rightarrow> process_identity result" where
  "parse_process_identity d =
     v_ap (v_ap (v_ap (v_ap (v_ap (Inr (\<lambda>p c h b _. process_identity.make p (nat c) h b))
       (field d ''pid'' (int_from 1)))
       (field d ''created_at_os'' (int_from 0)))
       (field d ''host_id'' text_value))
       (field d ''boot_id'' text_value))
       (no_extra d [''pid'', ''created_at_os'', ''host_id'', ''boot_id''])"

definition retain_process_identity :: "json_object \<Rightarrow> retained_identity" where
  "retain_process_identity d =
     (case parse_process_identity d of Inr i \<Rightarrow> FullIdentity i | Inl e \<Rightarrow> PartialIdentity d)"

definition retained_payloads :: "retained_identity option \<Rightarrow> payload list" where
  "retained_payloads i = (case i of None \<Rightarrow> [] | Some r \<Rightarrow> [(2, JObj (identity_document r))])"

definition attempt_payloads :: "'p stage_attempt \<Rightarrow> payload list" where
  "attempt_payloads a =
     [(2, at_input a), (2, JObj (at_settings a)), (2, at_executor a)]
     @ retained_payloads (at_process a)
     @ (case at_participant a of None \<Rightarrow> [] | Some p \<Rightarrow> [(2, JObj (pt_extra p))])"

definition document_payloads :: "('p, 'ids, 'z) checkpoint_scheme \<Rightarrow> payload list" where
  "document_payloads d =
     [(1, st_last_result d), (1, dump_template (st_template d))]
     @ (case st_active_attempt d of None \<Rightarrow> [] | Some a \<Rightarrow> attempt_payloads a)
     @ concat (map service_payloads (dict_values (st_services d)))"

section \<open>Serialization\<close>

definition relative_text :: "(path \<Rightarrow> path) \<Rightarrow> path \<Rightarrow> path \<Rightarrow> string result" where
  "relative_text resolve base p = res_bind (relative_to (resolve p) base) (\<lambda>q. Inr (path_text q))"

fun res_option :: "('a \<Rightarrow> 'b result) \<Rightarrow> 'a option \<Rightarrow> 'b option result" where
  "res_option f None = Inr None"
| "res_option f (Some x) = res_bind (f x) (\<lambda>y. Inr (Some y))"

definition service_with_paths ::
    "('p \<Rightarrow> 'q result) \<Rightarrow> 'p service_instance \<Rightarrow> 'q service_instance result" where
  "service_with_paths f s =
     res_bind (res_option f (si_endpoint s)) (\<lambda>endpoint.
     res_bind (res_option f (si_artifacts s)) (\<lambda>artifacts.
       Inr \<lparr>si_service_id = si_service_id s, si_instance_id = si_instance_id s,
            si_definition = si_definition s, si_process = si_process s, si_endpoint = endpoint,
            si_ready = si_ready s, si_started_at = si_started_at s,
            si_last_status = si_last_status s, si_restart_count = si_restart_count s,
            si_pending = si_pending s, si_active = si_active s,
            si_start_deadline = si_start_deadline s, si_ever_ready = si_ever_ready s,
            si_stopping = si_stopping s, si_stopped = si_stopped s,
            si_manually_stopped = si_manually_stopped s, si_blocked = si_blocked s,
            si_failure = si_failure s, si_freeze_id = si_freeze_id s,
            si_prepared_freeze_id = si_prepared_freeze_id s, si_artifacts = artifacts,
            si_implementation = si_implementation s\<rparr>))"

definition attempt_with_paths ::
    "('p \<Rightarrow> 'q result) \<Rightarrow> (retained_identity \<Rightarrow> retained_identity) \<Rightarrow> 'p stage_attempt
     \<Rightarrow> 'q stage_attempt result" where
  "attempt_with_paths f g a =
     res_bind (f (at_artifacts a)) (\<lambda>artifacts.
     res_bind (res_option f (at_endpoint a)) (\<lambda>endpoint.
       Inr \<lparr>at_attempt_id = at_attempt_id a, at_stage_id = at_stage_id a,
            at_execution_id = at_execution_id a, at_cycle_number = at_cycle_number a,
            at_attempt_number = at_attempt_number a, at_artifacts = artifacts,
            at_input = at_input a, at_settings = at_settings a, at_timeout = at_timeout a,
            at_process = map_option g (at_process a), at_started_at = at_started_at a,
            at_result_request = at_result_request a, at_outcome = at_outcome a,
            at_executor = at_executor a, at_request_id = at_request_id a,
            at_participant = at_participant a, at_endpoint = endpoint,
            at_service_id = at_service_id a, at_queued_monotonic = at_queued_monotonic a,
            at_queued_at = at_queued_at a\<rparr>))"

definition items_with ::
    "('v \<Rightarrow> 'w result) \<Rightarrow> (string, 'v) pydict \<Rightarrow> (string, 'w) pydict result" where
  "items_with f d = res_map (\<lambda>(k, v). res_bind (f v) (\<lambda>w. Inr (k, w))) d"

definition template_path_text :: "(path \<Rightarrow> path) \<Rightarrow> path \<Rightarrow> path \<Rightarrow> string" where
  "template_path_text resolve base p =
     (case relative_to (resolve p) base of
        Inr q \<Rightarrow> path_text q
      | Inl e \<Rightarrow> path_text (resolve p))"

definition state_to_document :: "(path \<Rightarrow> path) \<Rightarrow> runner_state \<Rightarrow> saved_runner_state result" where
  "state_to_document resolve s =
     (let base = resolve (st_directory s); rel = relative_text resolve base in
      res_bind (items_with (service_with_paths rel) (st_services s)) (\<lambda>saved_services.
      res_bind (res_option (attempt_with_paths rel (\<lambda>i. PartialIdentity (identity_document i)))
                  (st_active_attempt s)) (\<lambda>attempt.
      let d = \<lparr>st_experiment_id = st_experiment_id s, st_run_id = st_run_id s,
               st_template_path = template_path_text resolve base (st_template_path s),
               st_template_revision = st_template_revision s,
               st_template_yaml = st_template_yaml s, st_template = st_template s,
               st_mode = st_mode s, st_phase = st_phase s,
               st_pause_requested = st_pause_requested s,
               st_cycle_number = st_cycle_number s, st_stage_position = st_stage_position s,
               st_active_attempt = attempt, st_retry_counts = st_retry_counts s,
               st_attempt_numbers = st_attempt_numbers s, st_services = saved_services,
               st_last_result = st_last_result s, st_last_result_id = st_last_result_id s,
               st_result_ids = st_result_ids s, st_recovery_count = st_recovery_count s,
               st_used_request_ids = sorted_list_of_fset (st_used_request_ids s),
               st_stable_snapshot = st_stable_snapshot s,
               st_pending_rebuild = st_pending_rebuild s,
               st_pending_advance = st_pending_advance s,
               st_result_origins = st_result_origins s, st_checkpoint_id = st_checkpoint_id s,
               st_owner = st_owner s, st_pending_input = st_pending_input s,
               st_last_decision = st_last_decision s,
               st_pending_decision = st_pending_decision s,
               st_retained_artifacts = st_retained_artifacts s\<rparr>
      in res_bind (require (list_all payload_ok (document_payloads d)) ValueError)
           (\<lambda>_. Inr d))))"

section \<open>Validation of a document\<close>

definition request_ok :: "service_request \<Rightarrow> bool" where
  "request_ok r = (is_uuid (rq_id r) \<and> is_text (rq_command r) \<and> 0 \<le> rq_queued r
     \<and> optional (\<lambda>t. 0 \<le> t) (rq_deadline r) \<and> optional (\<lambda>t. 0 \<le> t) (rq_sent r))"

text \<open>\<^verbatim>\<open>SavedService\<close>, with \<^verbatim>\<open>match_requests\<close>.\<close>

definition match_requests :: "'p service_instance \<Rightarrow> bool" where
  "match_requests s =
     (sv_service_id (si_definition s) = Some (si_service_id s)
      \<and> list_all (\<lambda>r. rq_sent r = None \<and> \<not> rq_timed_out r) (si_pending s)
      \<and> optional (\<lambda>r. rq_sent r \<noteq> None \<and> rq_instance_id r = Some (si_instance_id s)) (si_active s))"

definition saved_service_ok :: "string service_instance \<Rightarrow> bool" where
  "saved_service_ok s =
     (is_uuid (si_service_id s) \<and> is_uuid (si_instance_id s)
      \<and> is_ok (parse_service_definition (dump_service_definition (si_definition s)))
      \<and> optional process_identity_ok (si_process s)
      \<and> optional is_text (si_endpoint s) \<and> optional is_text (si_started_at s)
      \<and> list_all request_ok (si_pending s) \<and> optional request_ok (si_active s)
      \<and> optional (\<lambda>t. 0 \<le> t) (si_start_deadline s)
      \<and> optional (\<lambda>f. is_text (sf_code f) \<and> is_text (sf_message f)) (si_failure s)
      \<and> optional is_uuid (si_freeze_id s) \<and> optional is_uuid (si_prepared_freeze_id s)
      \<and> optional is_text (si_artifacts s) \<and> match_requests s)"

definition participant_ok :: "participant_identity \<Rightarrow> bool" where
  "participant_ok p = (is_text (pt_experiment_id p) \<and> is_uuid (pt_participant_id p)
     \<and> is_uuid (pt_instance_id p))"

text \<open>\<^verbatim>\<open>SavedAttempt\<close>, with \<^verbatim>\<open>match_participant\<close>.\<close>

definition saved_attempt_ok :: "'p stage_attempt \<Rightarrow> bool" where
  "saved_attempt_ok a =
     (is_uuid (at_attempt_id a) \<and> is_uuid (at_stage_id a) \<and> is_uuid (at_execution_id a)
      \<and> 0 < at_cycle_number a \<and> 0 < at_attempt_number a
      \<and> optional (\<lambda>t. 0 < number_value t) (at_timeout a)
      \<and> optional is_uuid (at_result_request a) \<and> is_uuid (at_request_id a)
      \<and> (case at_participant a of None \<Rightarrow> False
         | Some p \<Rightarrow> participant_ok p
             \<and> optional (\<lambda>i. is_uuid i \<and> pt_participant_id p = i) (at_service_id a))
      \<and> optional (\<lambda>t. 0 \<le> t) (at_queued_monotonic a))"

definition last_decision_ok :: "last_decision \<Rightarrow> bool" where
  "last_decision_ok d = (is_uuid (ld_request_id d) \<and> is_uuid (ld_source_stage d)
     \<and> is_text (ld_experiment_id d) \<and> dag_decision_ok (ld_decision d))"

definition pending_input_ok :: "pending_input \<Rightarrow> bool" where
  "pending_input_ok i = (is_uuid (in_request_id i) \<and> is_uuid (in_source_stage i)
     \<and> is_text (in_experiment_id i))"

definition pending_rebuild_ok :: "pending_rebuild \<Rightarrow> bool" where
  "pending_rebuild_ok b = (is_uuid (rb_operation_id b) \<and> is_uuid (rb_snapshot_id b)
     \<and> is_uuid (rb_template_revision_id b) \<and> is_text (rb_run_id b))"

text \<open>The fields of \<^verbatim>\<open>SavedRunnerState\<close>.\<close>

definition saved_fields_ok :: "('p, 'ids, 'z) checkpoint_scheme \<Rightarrow> bool" where
  "saved_fields_ok d =
     (is_text (st_experiment_id d) \<and> is_text (st_run_id d) \<and> is_uuid (st_template_revision d)
      \<and> is_text (st_template_yaml d) \<and> parse_template (dump_template (st_template d)) = Inr (st_template d)
      \<and> 0 < st_cycle_number d \<and> 0 < st_stage_position d
      \<and> optional saved_attempt_ok (st_active_attempt d)
      \<and> list_all is_uuid (keys (st_retry_counts d)) \<and> list_all is_uuid (keys (st_attempt_numbers d))
      \<and> optional is_uuid (st_last_result_id d)
      \<and> list_all (\<lambda>(k, v). is_uuid k \<and> v \<noteq> None \<and> optional is_uuid v) (st_result_ids d)
      \<and> optional pending_rebuild_ok (st_pending_rebuild d)
      \<and> list_all (\<lambda>(k, v). is_uuid k \<and> is_text v) (st_result_origins d)
      \<and> optional is_uuid (st_checkpoint_id d) \<and> optional process_identity_ok (st_owner d)
      \<and> optional pending_input_ok (st_pending_input d)
      \<and> optional last_decision_ok (st_last_decision d)
      \<and> optional last_decision_ok (st_pending_decision d)
      \<and> list_all is_text (st_retained_artifacts d))"

text \<open>The node at the one-based cursor, when there is one.\<close>

definition cursor_node :: "('p, 'ids, 'z) checkpoint_scheme \<Rightarrow> dag_node option" where
  "cursor_node d =
     (let p = st_stage_position d; ns = stages (st_template d)
      in if 1 \<le> p \<and> p \<le> int (length ns) then Some (ns ! nat (p - 1)) else None)"

definition cursor_stage :: "('p, 'ids, 'z) checkpoint_scheme \<Rightarrow> string option" where
  "cursor_stage d = Option.bind (cursor_node d) node_stage_id"

text \<open>\<^verbatim>\<open>SavedRunnerState._validate_transitions\<close>.\<close>

definition known_stage :: "('p, 'ids, 'z) checkpoint_scheme \<Rightarrow> string option \<Rightarrow> bool" where
  "known_stage d i = List.member (map node_stage_id (stages (st_template d))) i"

definition validate_transitions :: "('p, 'ids, 'z) checkpoint_scheme \<Rightarrow> bool" where
  "validate_transitions d =
     (list_all (\<lambda>n. node_stage_id n \<noteq> None) (stages (st_template d))
      \<and> list_all (\<lambda>s. sv_service_id s \<noteq> None) (services (st_template d))
      \<and> optional (\<lambda>i. known_stage d (Some (in_source_stage i))) (st_pending_input d)
      \<and> optional (\<lambda>l. known_stage d (Some (ld_source_stage l))) (st_last_decision d)
      \<and> optional (\<lambda>l. known_stage d (Some (ld_source_stage l))) (st_pending_decision d)
      \<and> optional (\<lambda>i. known_stage d (Some (in_stage_id i))
                     \<and> cursor_stage d = Some (in_stage_id i)) (st_pending_input d)
      \<and> optional (\<lambda>l. dd_command (ld_decision l) = Some MoveCommand \<longrightarrow>
                       known_stage d (dd_target (ld_decision l))) (st_last_decision d)
      \<and> optional (\<lambda>l. st_active_attempt d = None \<and> st_last_decision d = None
                     \<and> st_last_result_id d = Some (ld_request_id l)
                     \<and> map_of (st_result_ids d) (ld_source_stage l) = Some (Some (ld_request_id l))
                     \<and> cursor_stage d = Some (ld_source_stage l)
                     \<and> (dd_command (ld_decision l) = Some MoveCommand \<longrightarrow>
                         known_stage d (dd_target (ld_decision l)))) (st_pending_decision d))"

text \<open>\<^verbatim>\<open>SavedRunnerState.validate_references\<close>: the request IDs of all queues are used and distinct.\<close>

definition queued_requests :: "'p service_instance \<Rightarrow> service_request list" where
  "queued_requests s = si_pending s @ (case si_active s of None \<Rightarrow> [] | Some r \<Rightarrow> [r])"

definition all_requests :: "('p, 'ids, 'z) checkpoint_scheme \<Rightarrow> service_request list" where
  "all_requests d = concat (map queued_requests (dict_values (st_services d)))"

definition validate_state_references :: "saved_runner_state \<Rightarrow> bool" where
  "validate_state_references d =
     (optional (\<lambda>b. st_stable_snapshot d = Some (rb_snapshot_id b)) (st_pending_rebuild d)
      \<and> distinct (st_used_request_ids d)
      \<and> list_all (\<lambda>k. has_key (st_result_ids d) k) (keys (st_result_origins d))
      \<and> distinct (st_retained_artifacts d)
      \<and> list_all (\<lambda>(k, s). k = si_service_id s) (st_services d)
      \<and> list_all (\<lambda>r. List.member (st_used_request_ids d) (rq_id r)) (all_requests d)
      \<and> distinct (map rq_id (all_requests d))
      \<and> validate_transitions d)"

definition validate_saved :: "saved_runner_state \<Rightarrow> unit result" where
  "validate_saved d =
     require (saved_fields_ok d \<and> list_all is_uuid (st_used_request_ids d)
              \<and> list_all saved_service_ok (dict_values (st_services d))
              \<and> validate_state_references d) ValueError"

section \<open>Restoring\<close>

definition saved_path :: "(path \<Rightarrow> path) \<Rightarrow> path \<Rightarrow> string \<Rightarrow> path result" where
  "saved_path resolve base relative =
     (let p = path_of relative; resolved = resolve (path_join base p)
      in if path_anchored p then Inl ValueError
         else res_bind (relative_to resolved base) (\<lambda>_. Inr resolved))"

definition restore_service ::
    "(path \<Rightarrow> path) \<Rightarrow> path \<Rightarrow> string service_instance \<Rightarrow> path service_instance result" where
  "restore_service resolve base = service_with_paths (saved_path resolve base)"

definition restore_attempt ::
    "(path \<Rightarrow> path) \<Rightarrow> path \<Rightarrow> string stage_attempt \<Rightarrow> path stage_attempt result" where
  "restore_attempt resolve base =
     attempt_with_paths (saved_path resolve base) (\<lambda>i. retain_process_identity (identity_document i))"

definition retained_artifact_ok :: "(path \<Rightarrow> path) \<Rightarrow> path \<Rightarrow> string \<Rightarrow> bool" where
  "retained_artifact_ok resolve base relative =
     (\<not> path_anchored (path_of relative)
      \<and> is_relative_to (resolve (path_join base (path_of relative)))
          (resolve (path_join base (path_of ''shared_artifacts''))))"

definition restore_state ::
    "(path \<Rightarrow> path) \<Rightarrow> path \<Rightarrow> saved_runner_state \<Rightarrow> runner_state result" where
  "restore_state resolve base d =
     res_bind (require (list_all (retained_artifact_ok resolve base) (st_retained_artifacts d))
                 ValueError) (\<lambda>_.
     res_bind (res_option (restore_attempt resolve base) (st_active_attempt d)) (\<lambda>attempt.
     res_bind (items_with (restore_service resolve base) (st_services d)) (\<lambda>live_services.
       Inr \<lparr>st_experiment_id = st_experiment_id d, st_run_id = st_run_id d,
            st_template_path = path_join base (path_of (st_template_path d)),
            st_template_revision = st_template_revision d,
            st_template_yaml = st_template_yaml d, st_template = st_template d,
            st_mode = st_mode d, st_phase = st_phase d,
            st_pause_requested = st_pause_requested d,
            st_cycle_number = st_cycle_number d, st_stage_position = st_stage_position d,
            st_active_attempt = attempt, st_retry_counts = st_retry_counts d,
            st_attempt_numbers = st_attempt_numbers d, st_services = live_services,
            st_last_result = st_last_result d, st_last_result_id = st_last_result_id d,
            st_result_ids = st_result_ids d, st_recovery_count = st_recovery_count d,
            st_used_request_ids = fset_of_list (st_used_request_ids d),
            st_stable_snapshot = st_stable_snapshot d,
            st_pending_rebuild = st_pending_rebuild d,
            st_pending_advance = st_pending_advance d,
            st_result_origins = st_result_origins d, st_checkpoint_id = st_checkpoint_id d,
            st_owner = st_owner d, st_pending_input = st_pending_input d,
            st_last_decision = st_last_decision d, st_pending_decision = st_pending_decision d,
            st_retained_artifacts = st_retained_artifacts d, st_directory = base\<rparr>)))"

definition state_from_document ::
    "(path \<Rightarrow> path) \<Rightarrow> path \<Rightarrow> saved_runner_state \<Rightarrow> runner_state result" where
  "state_from_document resolve base d =
     res_bind (require (path_anchored base) ValueError) (\<lambda>_.
     res_bind (validate_saved d) (\<lambda>_. restore_state resolve base d))"

section \<open>The state file\<close>

text \<open>
  \<^verbatim>\<open>RunnerStateStore.save\<close> and \<^verbatim>\<open>load\<close>: the files are a map from paths to documents, and the
  document written is what \<^verbatim>\<open>read_json\<close> returns for that path.
\<close>

type_synonym state_files = "path \<Rightarrow> saved_runner_state option"

definition state_file :: "path \<Rightarrow> path" where
  "state_file base = path_join base (path_of ''runner/state.json'')"

definition save_state_file ::
    "(path \<Rightarrow> path) \<Rightarrow> runner_state \<Rightarrow> (state_files, unit) py" where
  "save_state_file resolve s =
     (let base = resolve (st_directory s) in
      py_bind (py_lift (state_to_document resolve s)) (\<lambda>d.
      py_then (py_bind (py_lift (state_from_document resolve base d)) (\<lambda>_. py_return ()))
        (if \<not> is_relative_to (resolve (path_join base (path_of ''runner''))) base
         then py_raise ValueError
         else py_modify (\<lambda>files. files(state_file base \<mapsto> d)))))"

definition load_state_file ::
    "(path \<Rightarrow> path) \<Rightarrow> path \<Rightarrow> state_files \<Rightarrow> runner_state result" where
  "load_state_file resolve directory files =
     (if \<not> path_anchored directory then Inl ValueError
      else case files (state_file directory) of
             None \<Rightarrow> Inl FileNotFoundError
           | Some d \<Rightarrow> state_from_document resolve (resolve directory) d)"

end
