(* ===== verification/State_Properties.thy ===== *)
theory State_Properties
  imports State_Store Template_Properties
begin

text \<open>
  The saved state is read back unchanged. \<open>live_ok\<close> is what holds of a state the runner built:
  its paths are resolved, and a process identity is kept in its typed form when it has one.
\<close>

section \<open>Paths\<close>

definition settled :: "(path \<Rightarrow> path) \<Rightarrow> path \<Rightarrow> bool" where
  "settled resolve p \<longleftrightarrow> path_ok p \<and> resolve p = p"

lemma saved_path_back:
  assumes "settled resolve p" "relative_text resolve base p = Inr w"
  shows "saved_path resolve base w = Inr p"
proof -
  obtain q where q: "relative_to p base = Inr q" "w = path_text q"
    using assms by (auto simp: relative_text_def settled_def)
  have "path_ok q \<and> \<not> path_anchored q"
    using relative_ok [OF q(1)] assms(1) by (simp add: settled_def)
  then show ?thesis
    using relative_join [OF q(1)] assms(1) q
    by (simp add: saved_path_def Let_def path_of_text settled_def)
qed

lemma template_path_back:
  assumes "settled resolve p" "path_anchored p"
  shows "path_join base (path_of (template_path_text resolve base p)) = p"
proof (cases "relative_to p base")
  case (Inl e)
  then show ?thesis
    using assms by (simp add: template_path_text_def settled_def path_of_text path_join_def)
next
  case (Inr q)
  have "path_ok q" using relative_ok [OF Inr] assms(1) by (simp add: settled_def)
  then show ?thesis
    using relative_join [OF Inr] assms Inr
    by (simp add: template_path_text_def settled_def path_of_text)
qed

section \<open>Records\<close>

lemma res_option_back:
  "res_option f x = Inr y \<Longrightarrow> (\<And>p q. x = Some p \<Longrightarrow> f p = Inr q \<Longrightarrow> g q = Inr p) \<Longrightarrow>
     res_option g y = Inr x"
  by (cases x) auto

definition service_paths :: "'p service_instance \<Rightarrow> 'p set" where
  "service_paths s = set_option (si_endpoint s) \<union> set_option (si_artifacts s)"

definition attempt_paths :: "'p stage_attempt \<Rightarrow> 'p set" where
  "attempt_paths a = insert (at_artifacts a) (set_option (at_endpoint a))"

lemma service_with_paths_Inr:
  assumes "service_with_paths f s = Inr d"
  shows "res_option f (si_endpoint s) = Inr (si_endpoint d)"
    and "res_option f (si_artifacts s) = Inr (si_artifacts d)"
  using assms
  by (cases "res_option f (si_endpoint s)"; cases "res_option f (si_artifacts s)";
      auto simp: service_with_paths_def)+

lemma service_back:
  assumes "service_with_paths f s = Inr d" "\<And>p q. p \<in> service_paths s \<Longrightarrow> f p = Inr q \<Longrightarrow> g q = Inr p"
  shows "service_with_paths g d = Inr s"
proof -
  note fields = service_with_paths_Inr [OF assms(1)]
  have "res_option g (si_endpoint d) = Inr (si_endpoint s)"
    by (rule res_option_back [OF fields(1)]) (simp add: assms(2) service_paths_def)
  moreover have "res_option g (si_artifacts d) = Inr (si_artifacts s)"
    by (rule res_option_back [OF fields(2)]) (simp add: assms(2) service_paths_def)
  moreover have "d = \<lparr>si_service_id = si_service_id s, si_instance_id = si_instance_id s,
      si_definition = si_definition s, si_process = si_process s, si_endpoint = si_endpoint d,
      si_ready = si_ready s, si_started_at = si_started_at s,
      si_last_status = si_last_status s, si_restart_count = si_restart_count s,
      si_pending = si_pending s, si_active = si_active s,
      si_start_deadline = si_start_deadline s, si_ever_ready = si_ever_ready s,
      si_stopping = si_stopping s, si_stopped = si_stopped s,
      si_manually_stopped = si_manually_stopped s, si_blocked = si_blocked s,
      si_failure = si_failure s, si_freeze_id = si_freeze_id s,
      si_prepared_freeze_id = si_prepared_freeze_id s, si_artifacts = si_artifacts d,
      si_implementation = si_implementation s\<rparr>"
    using assms(1) fields by (simp add: service_with_paths_def)
  ultimately show ?thesis
    by (cases s; cases d) (simp add: service_with_paths_def)
qed

lemma attempt_with_paths_Inr:
  assumes "attempt_with_paths f h a = Inr d"
  shows "f (at_artifacts a) = Inr (at_artifacts d)"
    and "res_option f (at_endpoint a) = Inr (at_endpoint d)"
  using assms
  by (cases "f (at_artifacts a)"; cases "res_option f (at_endpoint a)";
      auto simp: attempt_with_paths_def)+

lemma attempt_back:
  assumes "attempt_with_paths f h a = Inr d" "\<And>p q. p \<in> attempt_paths a \<Longrightarrow> f p = Inr q \<Longrightarrow> g q = Inr p"
    and "\<And>i. at_process a = Some i \<Longrightarrow> k (h i) = i"
  shows "attempt_with_paths g k d = Inr a"
proof -
  note fields = attempt_with_paths_Inr [OF assms(1)]
  have "g (at_artifacts d) = Inr (at_artifacts a)"
    by (rule assms(2) [OF _ fields(1)]) (simp add: attempt_paths_def)
  moreover have "res_option g (at_endpoint d) = Inr (at_endpoint a)"
    by (rule res_option_back [OF fields(2)]) (simp add: assms(2) attempt_paths_def)
  moreover have "map_option k (map_option h (at_process a)) = at_process a"
    using assms(3) by (cases "at_process a") auto
  moreover have "d = \<lparr>at_attempt_id = at_attempt_id a, at_stage_id = at_stage_id a,
      at_execution_id = at_execution_id a, at_cycle_number = at_cycle_number a,
      at_attempt_number = at_attempt_number a, at_artifacts = at_artifacts d,
      at_input = at_input a, at_settings = at_settings a, at_timeout = at_timeout a,
      at_process = map_option h (at_process a), at_started_at = at_started_at a,
      at_result_request = at_result_request a, at_outcome = at_outcome a,
      at_executor = at_executor a, at_request_id = at_request_id a,
      at_participant = at_participant a, at_endpoint = at_endpoint d,
      at_service_id = at_service_id a, at_queued_monotonic = at_queued_monotonic a,
      at_queued_at = at_queued_at a\<rparr>"
    using assms(1) fields by (simp add: attempt_with_paths_def)
  ultimately show ?thesis
    by (cases a; cases d) (simp add: attempt_with_paths_def del: option.map_comp)
qed

lemma items_back:
  assumes "items_with f d = Inr e" "\<And>k v w. (k, v) \<in> set d \<Longrightarrow> f v = Inr w \<Longrightarrow> g w = Inr v"
  shows "items_with g e = Inr d"
  using assms
proof (induction d arbitrary: e)
  case (Cons x d)
  obtain k v where x: "x = (k, v)" by (cases x)
  obtain w e' where w: "f v = Inr w" "items_with f d = Inr e'" "e = (k, w) # e'"
    using Cons.prems(1) by (auto simp: items_with_def x)
  have "items_with g e' = Inr d"
    by (rule Cons.IH [OF w(2)]) (use Cons.prems(2) in auto)
  moreover have "g w = Inr v" by (rule Cons.prems(2) [OF _ w(1), of k]) (simp add: x)
  ultimately show ?case by (simp add: items_with_def w(3) x)
qed (simp add: items_with_def)

section \<open>Process identities\<close>

lemma parse_dump_identity:
  "process_identity_ok i \<Longrightarrow> parse_process_identity (dump_process_identity i) = Inr i"
  by (simp add: process_identity_ok_def is_text_def is_ok_iff parse_process_identity_def
      dump_process_identity_def field_def process_identity.make_def no_extra_def text_value_Inr split: if_splits)

definition identity_settled :: "retained_identity \<Rightarrow> bool" where
  "identity_settled i = (case i of
     FullIdentity p \<Rightarrow> process_identity_ok p
   | PartialIdentity d \<Rightarrow> \<not> is_ok (parse_process_identity d))"

lemma retain_back:
  "identity_settled i \<Longrightarrow>
     retain_process_identity (identity_document (PartialIdentity (identity_document i))) = i"
  by (cases i) (auto simp: identity_settled_def retain_process_identity_def parse_dump_identity
      is_ok_iff split: sum.splits)

section \<open>States\<close>

definition live_ok :: "(path \<Rightarrow> path) \<Rightarrow> runner_state \<Rightarrow> bool" where
  "live_ok resolve s \<longleftrightarrow>
     settled resolve (st_directory s) \<and> path_anchored (st_directory s)
     \<and> settled resolve (st_template_path s) \<and> path_anchored (st_template_path s)
     \<and> optional (\<lambda>a. (\<forall>p \<in> attempt_paths a. settled resolve p)
                      \<and> optional identity_settled (at_process a)) (st_active_attempt s)
     \<and> (\<forall>i \<in> set (dict_values (st_services s)). \<forall>p \<in> service_paths i. settled resolve p)
     \<and> list_all (retained_artifact_ok resolve (st_directory s)) (st_retained_artifacts s)"

lemma state_to_document_Inr:
  assumes "state_to_document resolve s = Inr d" "resolve (st_directory s) = base"
  shows "items_with (service_with_paths (relative_text resolve base)) (st_services s)
      = Inr (st_services d)"
    and "res_option (attempt_with_paths (relative_text resolve base)
      (\<lambda>i. PartialIdentity (identity_document i))) (st_active_attempt s) = Inr (st_active_attempt d)"
    and "st_template_path d = template_path_text resolve base (st_template_path s)"
    and "st_used_request_ids d = sorted_list_of_fset (st_used_request_ids s)"
  using assms by (auto simp: state_to_document_def Let_def)

lemma document_fields:
  assumes "state_to_document resolve s = Inr d"
  shows "st_experiment_id d = st_experiment_id s"
    "st_run_id d = st_run_id s"
    "st_template_revision d = st_template_revision s"
    "st_template_yaml d = st_template_yaml s"
    "st_template d = st_template s"
    "st_mode d = st_mode s"
    "st_phase d = st_phase s"
    "st_pause_requested d = st_pause_requested s"
    "st_cycle_number d = st_cycle_number s"
    "st_stage_position d = st_stage_position s"
    "st_retry_counts d = st_retry_counts s"
    "st_attempt_numbers d = st_attempt_numbers s"
    "st_last_result d = st_last_result s"
    "st_last_result_id d = st_last_result_id s"
    "st_result_ids d = st_result_ids s"
    "st_recovery_count d = st_recovery_count s"
    "st_stable_snapshot d = st_stable_snapshot s"
    "st_pending_rebuild d = st_pending_rebuild s"
    "st_pending_advance d = st_pending_advance s"
    "st_result_origins d = st_result_origins s"
    "st_checkpoint_id d = st_checkpoint_id s"
    "st_owner d = st_owner s"
    "st_pending_input d = st_pending_input s"
    "st_last_decision d = st_last_decision s"
    "st_pending_decision d = st_pending_decision s"
    "st_retained_artifacts d = st_retained_artifacts s"
  using assms by (auto simp: state_to_document_def Let_def)

lemma restore_document:
  assumes ok: "live_ok resolve s" and d: "state_to_document resolve s = Inr d"
  shows "restore_state resolve (st_directory s) d = Inr s"
proof -
  let ?base = "st_directory s"
  have base: "resolve ?base = ?base" using ok by (simp add: live_ok_def settled_def)
  note doc = state_to_document_Inr [OF d base]
  have artifacts: "list_all (retained_artifact_ok resolve ?base) (st_retained_artifacts s)"
    using ok by (simp add: live_ok_def)
  have template: "path_join ?base (path_of (st_template_path d)) = st_template_path s"
    unfolding doc(3) using ok by (intro template_path_back) (auto simp: live_ok_def)
  have attempt: "res_option (restore_attempt resolve ?base) (st_active_attempt d)
      = Inr (st_active_attempt s)"
  proof (rule res_option_back [OF doc(2)])
    fix a b
    assume a: "st_active_attempt s = Some a"
      "attempt_with_paths (relative_text resolve ?base) (\<lambda>i. PartialIdentity (identity_document i)) a
         = Inr b"
    show "restore_attempt resolve ?base b = Inr a"
      unfolding restore_attempt_def
      using ok a(1)
      by (intro attempt_back [OF a(2)]) (auto simp: live_ok_def saved_path_back retain_back
          simp del: identity_document.simps)
  qed
  have saved: "items_with (restore_service resolve ?base) (st_services d) = Inr (st_services s)"
  proof (rule items_back [OF doc(1)])
    fix k v w
    assume v: "(k, v) \<in> set (st_services s)" "service_with_paths (relative_text resolve ?base) v = Inr w"
    then have "\<forall>p \<in> service_paths v. settled resolve p"
      using ok by (force simp: live_ok_def)
    then show "restore_service resolve ?base w = Inr v"
      unfolding restore_service_def by (intro service_back [OF v(2)]) (auto simp: saved_path_back)
  qed
  have ids: "fset_of_list (st_used_request_ids d) = st_used_request_ids s"
    by (simp add: doc(4))
  note restored = restore_state_def template attempt saved ids artifacts document_fields [OF d]
  have "restore_state resolve ?base d = Inr t \<Longrightarrow> t = s" for t
    by (rule runner_state.equality) (auto simp: restored)
  moreover have "is_ok (restore_state resolve ?base d)"
    by (simp add: restored)
  ultimately show ?thesis by (auto simp: is_ok_iff)
qed

text \<open>
  C27. A state written to its file is what is read back from it, and no other file changes: a
  successful \<^verbatim>\<open>RunnerStateStore.save\<close> followed by \<^verbatim>\<open>load\<close> reconstructs every field of the live
  state, including the paths, which are stored relative to the experiment.
\<close>

theorem saved_state_reads_back:
  assumes "live_ok resolve s" and "save_state_file resolve s files = (Inr (), files')"
  shows "load_state_file resolve (st_directory s) files' = Inr s
     \<and> (\<forall>p. p \<noteq> state_file (st_directory s) \<longrightarrow> files' p = files p)"
proof -
  have base: "resolve (st_directory s) = st_directory s" "path_anchored (st_directory s)"
    using assms(1) by (auto simp: live_ok_def settled_def)
  obtain d t where d: "state_to_document resolve s = Inr d"
    "state_from_document resolve (st_directory s) d = Inr t"
    "files' = files(state_file (st_directory s) \<mapsto> d)"
    using assms(2)
    by (auto simp: save_state_file_def Let_def base py_simps split: sum.splits if_splits)
  have "t = s"
    using d(2) restore_document [OF assms(1) d(1)] by (auto simp: state_from_document_def)
  with d show ?thesis by (simp add: load_state_file_def base)
qed

end
