(* ===== verification/Sample_Run.thy ===== *)
theory Sample_Run
  imports State_Properties
begin

text \<open>
  A concrete experiment for the witnesses: three nodes (a stage, a call of the service, a
  conditional stage), two cycles, and its initial runner state.
\<close>

section \<open>The template\<close>

definition run_call :: service_call_definition where
  "run_call = sample_call\<lparr>sc_stage_id := Some (uuid_str 3)\<rparr>"

definition run_choice :: stage_definition where
  "run_choice = sample_stage\<lparr>sd_stage_id := Some (uuid_str 4), sd_returns_data := Some True\<rparr>"

definition run_template :: experiment_template where
  "run_template = sample_template\<lparr>stages := [StageNode sample_stage, CallNode run_call,
     StageNode run_choice]\<rparr>"

lemma run_ids [simp]:
  "id_field (JStr (uuid_str 3)) = Inr (uuid_str 3)"
  "id_field (JStr (uuid_str 4)) = Inr (uuid_str 4)"
  by (simp_all add: id_field_uuid_str uuid_limit_def)

lemma uuid_str_inject: "m < uuid_limit \<Longrightarrow> n < uuid_limit \<Longrightarrow> uuid_str m = uuid_str n \<longleftrightarrow> m = n"
  by (metis uuid_int_str sum.inject(2))

lemma small_uuids [simp]: "Suc 0 < uuid_limit" "numeral k < uuid_limit \<longleftrightarrow> (numeral k :: nat) < 2 ^ 128"
  by (simp_all add: uuid_limit_def)

lemma run_stage_ok [simp]:
  "parse_stage_definition (dump_stage_definition run_choice) = Inr run_choice"
  by (simp add: evaluate_model parse_stage_definition_def dump_stage_definition_def run_choice_def
      sample_stage_def stage_definition.make_def del: v_ap_Inr field_Inr no_extra_Inr)

lemma run_call_ok [simp]: "parse_service_call (dump_service_call run_call) = Inr run_call"
  by (simp add: evaluate_model parse_service_call_def dump_service_call_def run_call_def
      sample_call_def service_call_definition.make_def del: v_ap_Inr field_Inr no_extra_Inr)

lemma run_nodes_ok [simp]:
  "parse_dag_node (dump_stage_definition run_choice) = Inr (StageNode run_choice)"
  "parse_dag_node (dump_service_call run_call) = Inr (CallNode run_call)"
  using service_call_not_stage [OF run_call_ok] by (simp_all add: parse_dag_node_def)

lemma run_fields: "template_fields (dump_template_fields run_template) = Inr run_template"
  by (simp add: evaluate_model evaluate_policies run_template_def sample_template_def template_simps
      nonempty_list_def dump_list_def sample_logging_ok int_exactly.simps
      del: v_ap_Inr field_Inr no_extra_Inr)

lemma run_template_simps [simp]:
  "stages run_template = [StageNode sample_stage, CallNode run_call, StageNode run_choice]"
  "services run_template = [sample_service]" "cycles run_template = 2"
  "snapshot_mode (snapshots run_template) = AfterStage"
  "resources run_template = [resource_definition.make ''data'' ''/data'' None]"
  by (simp_all add: run_template_def sample_template_def experiment_template.make_def
      snapshot_policy.make_def)

lemma run_node_ids [simp]:
  "sd_stage_id sample_stage = Some (uuid_str (Suc 0))" "sc_stage_id run_call = Some (uuid_str 3)"
  "sd_stage_id run_choice = Some (uuid_str 4)" "sv_service_id sample_service = Some (uuid_str 2)"
  "sc_service_id run_call = uuid_str 2"
  "sd_returns_data sample_stage = None" "sd_returns_data run_choice = Some True"
  "sd_snapshot_after sample_stage = Some True" "sd_snapshot_after run_choice = Some True"
  "sc_snapshot_after run_call = None"
  "sd_errors sample_stage = sample_errors" "sd_errors run_choice = sample_errors"
  "sc_errors run_call = sample_errors"
  by (simp_all add: sample_stage_def run_call_def run_choice_def sample_service_def
      stage_definition.make_def sample_call_def service_call_definition.make_def
      service_definition.make_def)

lemma run_references: "validate_references run_template = Inr ()"
  by (simp add: validate_references_iff stage_ids_def service_ids_def uuid_str_inject)

lemma run_document_height:
  "json_height (dump_template run_template) \<le> 31" "json_printable (dump_template run_template)"
  by (simp_all add: dump_template_def dump_template_fields_def run_template_def
      sample_template_def experiment_template.make_def dump_list_def sample_stage_def
      sample_call_def sample_service_def policy_makes stage_definition.make_def
      service_call_definition.make_def service_definition.make_def resource_definition.make_def
      dump_stage_definition_def dump_service_call_def dump_service_definition_def
      dump_module_reference_def dump_heartbeat_policy_def dump_resource_def
      dump_unknown_state_def dump_snapshot_policy_def dump_storage_policy_def
      dump_logging_policy_def logging_policy.make_def sample_errors_document name_in_def
      command_timeout_names_def unknown_names_def limit_names_def snapshot_mode_names_def
      run_call_def run_choice_def)

lemma run_parses: "parse_template (dump_template run_template) = Inr run_template"
proof -
  have "object_value (dump_template run_template) = Inr (dump_template_fields run_template)"
    using run_document_height unfolding dump_template_def by (intro object_value_ok) auto
  then show ?thesis
    by (simp add: parse_template_def run_fields run_references)
qed

section \<open>The initial state\<close>

definition run_directory :: path where
  "run_directory = Path True [''experiments'', ''demo'']"

definition run_revision :: string where
  "run_revision = uuid_str 9"

definition run_state :: runner_state where
  "run_state = (case new_runner_state ''demo'' run_directory ''run'' (Path True [''experiments'', ''demo'',
       ''experiment.yaml'']) run_revision ''stages'' run_template PausedMode of Inr s \<Rightarrow> s)"

lemma is_uuid_str [simp]: "n < uuid_limit \<Longrightarrow> is_uuid (uuid_str n)"
  by (simp add: is_uuid_def uuid_text_def require_text_uuid_str uuid_int_str del: require_text.simps)

lemma sample_texts [simp]: "is_text ''demo''" "is_text ''run''" "is_text ''stages''"
  by code_simp+

lemma run_absolute [simp]:
  "absolute_path run_directory"
  "absolute_path (Path True [''experiments'', ''demo'', ''experiment.yaml''])"
  by (simp_all add: absolute_path_def run_directory_def null_char_def)

lemma run_state_eq:
  "run_state = \<lparr>st_experiment_id = ''demo'', st_run_id = ''run'',
     st_template_path = Path True [''experiments'', ''demo'', ''experiment.yaml''],
     st_template_revision = run_revision, st_template_yaml = ''stages'',
     st_template = run_template, st_mode = PausedMode, st_phase = PhaseIdle,
     st_pause_requested = False, st_cycle_number = 1, st_stage_position = 1,
     st_active_attempt = None, st_retry_counts = [], st_attempt_numbers = [],
     st_services = [], st_last_result = JNull, st_last_result_id = None,
     st_result_ids = [], st_recovery_count = 0, st_used_request_ids = {||},
     st_stable_snapshot = None, st_pending_rebuild = None,
     st_pending_advance = False, st_result_origins = [], st_checkpoint_id = None,
     st_owner = None, st_pending_input = None, st_last_decision = None,
     st_pending_decision = None, st_retained_artifacts = [], st_directory = run_directory\<rparr>"
  by (simp add: run_state_def new_runner_state_def run_revision_def)

text \<open>An instance of the service, launched and with one request in its queue.\<close>

definition run_request :: service_request where
  "run_request = \<lparr>rq_owner = CallerOwned, rq_id = uuid_str 20, rq_command = ''demo'', rq_args = [],
     rq_queued = 1, rq_deadline = Some 5, rq_sent = None, rq_instance_id = None,
     rq_timed_out = False, rq_extra = []\<rparr>"

definition run_instance :: "path service_instance" where
  "run_instance = \<lparr>si_service_id = uuid_str 2, si_instance_id = uuid_str 10,
     si_definition = sample_service, si_process = None,
     si_endpoint = Some (Path True [''experiments'', ''demo'', ''runner'', ''cache.json'']),
     si_ready = True, si_started_at = None, si_last_status = None, si_restart_count = 1,
     si_pending = [run_request], si_active = None, si_start_deadline = Some 9,
     si_ever_ready = True, si_stopping = False, si_stopped = False,
     si_manually_stopped = False, si_blocked = None, si_failure = None, si_freeze_id = None,
     si_prepared_freeze_id = None, si_artifacts = None, si_implementation = FullImplementation\<rparr>"

definition run_progress :: runner_state where
  "run_progress = run_state\<lparr>st_stage_position := 2, st_services := [(uuid_str 2, run_instance)],
     st_result_ids := [(uuid_str 1, Some (uuid_str 11))], st_last_result := JInt 7,
     st_last_result_id := Some (uuid_str 11),
     st_used_request_ids := {|uuid_str 11, uuid_str 20|}\<rparr>"

lemma run_live: "live_ok id run_progress"
  by (simp add: live_ok_def run_progress_def run_state_eq settled_def path_ok_def path_part_def
      run_directory_def service_paths_def run_instance_def)

lemma sample_service_height:
  "json_height (dump_service_definition sample_service) \<le> 29"
  "json_printable (dump_service_definition sample_service)"
  by (simp_all add: sample_service_def service_definition.make_def dump_service_definition_def
      dump_module_reference_def dump_heartbeat_policy_def sample_errors_document name_in_def
      policy_makes command_timeout_names_def)

lemma payload_ok_iff: "payload_ok (depth, j) \<longleftrightarrow> depth + json_height j \<le> 32 \<and> json_printable j"
  using validate_json_embed [of depth j] dumps_loads_embed [of j] dumps_loads_Inr [of "embed j"]
  by (auto simp: payload_ok_def is_ok_iff)

lemmas evaluate_document = state_to_document_def items_with_def service_with_paths_def
  relative_text_def relative_to_def is_relative_to_def document_payloads_def
  service_payloads_def request_payloads_def payload_ok_iff

lemmas evaluate_validation = validate_saved_def saved_fields_ok_def saved_service_ok_def
  match_requests_def request_ok_def validate_state_references_def validate_transitions_def
  all_requests_def queued_requests_def known_stage_def

lemma sample_file_texts [simp]: "is_text ''runner/cache.json''"
  by code_simp

lemma run_progress_saved:
  "\<exists>files. save_state_file id run_progress (\<lambda>p. None) = (Inr (), files)"
proof -
  obtain d where d: "state_to_document id run_progress = Inr d"
    by (simp add: evaluate_document Let_def run_progress_def run_state_eq run_instance_def
        run_directory_def run_document_height sample_service_height run_request_def)
  have valid: "validate_saved d = Inr ()"
    using d
    by (simp add: evaluate_document Let_def run_progress_def run_state_eq run_instance_def
        run_directory_def run_document_height sample_service_height run_request_def)
      (hypsubst, simp add: evaluate_validation run_parses run_revision_def list_all_iff uuid_str_inject
        sorted_list_of_fset.rep_eq)
  have base: "st_directory run_progress = run_directory" "path_anchored run_directory"
    by (simp_all add: run_progress_def run_state_eq run_directory_def)
  have "state_from_document id run_directory d = Inr run_progress"
    using restore_document [OF run_live d] valid by (simp add: state_from_document_def base)
  moreover have "is_relative_to (path_join run_directory (path_of ''runner'')) run_directory"
    by (simp add: is_relative_to_def path_join_def path_of_def)
  ultimately show ?thesis
    by (simp add: save_state_file_def Let_def base d py_simps)
qed

theorem saved_state_reads_back_witness:
  "\<exists>files. load_state_file id run_directory files = Inr run_progress
     \<and> st_services run_progress = [(uuid_str 2, run_instance)]"
proof -
  have "st_directory run_progress = run_directory" "st_services run_progress = [(uuid_str 2, run_instance)]"
    by (simp_all add: run_progress_def run_state_eq)
  then show ?thesis
    using run_progress_saved saved_state_reads_back [OF run_live] by metis
qed

end
