(* ===== verification/Conditional_Properties.thy ===== *)
theory Conditional_Properties
  imports Conditional_Result Sample_Run
begin

text \<open>
  An accepted response of a conditional stage is settled: it is either a success that carries a
  valid decision for this DAG, or a coded failure. The collection \<open>raises_rules\<close> shows which
  exceptions the validators can raise.
\<close>

named_theorems raises_rules "rules showing that a function raises only some exceptions"

section \<open>Which exceptions are raised\<close>

definition raises_only :: "(exn \<Rightarrow> bool) \<Rightarrow> 'a result \<Rightarrow> bool" where
  "raises_only P r \<longleftrightarrow> (\<forall>e. r = Inl e \<longrightarrow> P e)"

lemma raises_Inr [raises_rules]: "raises_only P (Inr x)"
  by (simp add: raises_only_def)

lemma raises_Inl [raises_rules]: "P e \<Longrightarrow> raises_only P (Inl e)"
  by (simp add: raises_only_def)

lemma raises_bind [raises_rules]:
  "raises_only P r \<Longrightarrow> (\<And>x. r = Inr x \<Longrightarrow> raises_only P (f x)) \<Longrightarrow> raises_only P (res_bind r f)"
  by (cases r) (auto simp: raises_only_def)

lemma raises_if [raises_rules]:
  "(b \<Longrightarrow> raises_only P r) \<Longrightarrow> (\<not> b \<Longrightarrow> raises_only P s) \<Longrightarrow> raises_only P (if b then r else s)"
  by simp

lemma raises_require [raises_rules]: "P e \<Longrightarrow> raises_only P (require b e)"
  by (simp add: require_def raises_only_def)

lemma raises_map [raises_rules]:
  "(\<And>x. x \<in> set xs \<Longrightarrow> raises_only P (f x)) \<Longrightarrow> raises_only P (res_map f xs)"
  by (induction xs) (auto intro!: raises_rules)

lemma raises_ap [raises_rules]:
  "raises_only P f \<Longrightarrow> raises_only P x \<Longrightarrow> raises_only P (v_ap f x)"
proof (cases "(f, x)" rule: v_ap.cases)
  case (4 e e')
  then show "raises_only P f \<Longrightarrow> raises_only P x \<Longrightarrow> raises_only P (v_ap f x)"
    by (cases e) (auto simp: raises_only_def)
qed (auto simp: raises_only_def)

lemma raises_field [raises_rules]:
  "P ValueError \<Longrightarrow> (\<And>j. raises_only P (f j)) \<Longrightarrow> raises_only P (field d k f)"
  by (auto simp: field_def raises_only_def split: option.splits)

lemma raises_opt_field [raises_rules]:
  "(\<And>j. raises_only P (f j)) \<Longrightarrow> raises_only P (opt_field d k f)"
  by (auto simp: opt_field_def intro!: raises_rules split: option.splits)

lemma raises_nullable [raises_rules]:
  "(\<And>j. raises_only P (f j)) \<Longrightarrow> raises_only P (nullable f j)"
  by (cases j) (auto intro!: raises_rules)

abbreviation usual :: "exn \<Rightarrow> bool" where
  "usual \<equiv> value_or_type_error"

lemma usual_simps [simp]:
  "usual ValueError" "usual TypeError" "usual MissingConditionalDataError"
  by (simp_all add: value_or_type_error_def)

lemma raises_text: "raises_only usual (require_text v)"
  by (cases v) (auto simp: raises_only_def)

lemma raises_literal: "raises_only usual (literal_value table j)"
  by (cases j) (auto simp: literal_value.simps raises_only_def split: option.splits)

lemma raises_validate: "raises_only usual (validate_json depth v)"
proof (induction depth v rule: validate_json.induct)
  case (6 depth items)
  then show ?case by (fastforce intro!: raises_rules simp: case_prod_beta)
qed (auto intro!: raises_rules)

lemma raises_dumps: "raises_only usual (dumps_loads v)"
proof (induction v)
  case (PFloat x)
  then show ?case by (cases x) (auto simp: raises_only_def)
next
  case (PDict items)
  have "raises_only usual (case p of (key, item) \<Rightarrow> case key of
      PStr k \<Rightarrow> res_bind (dumps_loads item) (\<lambda>j. Inr (k, j)) | _ \<Rightarrow> Inl TypeError)"
    if "p \<in> set items" for p
    using PDict.IH(2) [OF that, of "snd p"]
    by (auto intro!: raises_rules simp: snds.simps case_prod_beta split: pyobj.splits)
  then show ?case by (auto intro!: raises_rules)
qed (auto intro!: raises_rules)

lemma raises_copy: "raises_only usual (copy_json_object v)"
  unfolding copy_json_object_def
  by (cases v) (auto intro!: raises_rules raises_validate raises_dumps
      simp del: validate_json.simps dumps_loads.simps split: json.splits)

lemma raises_uuid: "raises_only usual (normalized_uuid v)"
proof -
  have "raises_only usual (uuid_int s)" for s
    by (auto simp: uuid_int_def Let_def raises_only_def split: option.splits)
  then show ?thesis
    unfolding normalized_uuid_def uuid_text_def by (intro raises_rules raises_text)
qed

lemma raises_normalize: "raises_only usual (normalize_conditional_result r input b t)"
proof -
  have decision: "raises_only usual (parse_conditional_decision j)" for j
  proof -
    have "raises_only usual (detach_decision j)"
      unfolding detach_decision_def
      by (cases j) (auto simp: Let_def intro!: raises_rules raises_copy simp del: embed.simps)
    then show ?thesis
      unfolding parse_conditional_decision_def normalized_id_field_def
      by (intro raises_rules raises_literal raises_uuid) auto
  qed
  have "raises_only usual (conditional_output d input b t)" for d
    unfolding conditional_output_def by (intro raises_rules) auto
  moreover have "raises_only usual (with_decision e c)" for e c
    unfolding with_decision_def by (auto simp: raises_only_def split: option.splits json.splits)
  ultimately show ?thesis
    unfolding normalize_conditional_result_def update_stage_result_def
    by (auto intro!: raises_rules decision raises_copy)
qed

section \<open>Accepted decisions\<close>

lemma copy_ok: "json_height (JObj d) \<le> 32 \<Longrightarrow> json_printable (JObj d) \<Longrightarrow> copy_json_object (embed (JObj d)) = Inr d"
  using copy_json_object_iff by blast

lemma command_names:
  "literal_value dag_command_names (name_in dag_command_names c) = Inr c"
  "name_in dag_command_names c \<noteq> JNull"
  "json_height (name_in dag_command_names c) = 0" "json_printable (name_in dag_command_names c)"
  by (cases c; simp add: dag_command_names_def name_in_def literal_value.simps)+

lemma dump_command_simps:
  "nullable (literal_value dag_command_names) (dump_command c) = Inr c"
  "json_height (dump_command c) = 0" "json_printable (dump_command c)"
  by (cases c; simp add: dump_command_def command_names nullable_not_null)+

lemma parse_dag_decision_dump:
  "parse_dag_decision (JObj [(''command'', dump_command c)])
     = (if c = Some MoveCommand then Inl ValueError else Inr \<lparr>dd_command = c, dd_stage_id = None\<rparr>)"
  "parse_dag_decision (JObj [(''command'', dump_command c), (''stage_id'', JStr i)])
     = (if c = Some MoveCommand then Inr \<lparr>dd_command = c, dd_stage_id = Some (Some i)\<rparr>
        else Inl ValueError)"
  by (simp_all add: parse_dag_decision_def copy_ok field_def opt_field_def dump_command_simps
      no_extra_def dag_decision.make_def dag_decision_ok_def string_field_def
      del: v_ap_Inr field_Inr no_extra_Inr embed.simps)

definition decision_settled :: "experiment_template \<Rightarrow> stage_result \<Rightarrow> bool" where
  "decision_settled t r \<longleftrightarrow> (\<exists>dd. accepted_decision r = Inr dd \<and> dag_decision_ok dd
     \<and> (dd_command dd = Some MoveCommand \<longrightarrow>
          (\<exists>i. dd_target dd = Some i \<and> Some i \<in> node_stage_id ` set (stages t))))"

lemma settled_control:
  assumes "conditional_output d input b t = Inr (control, out)"
    and "cd_command d = Some MoveCommand \<longrightarrow> cd_stage_id d \<noteq> None"
    and "with_decision e control = Inr x"
  shows "decision_settled t (r\<lparr>or_data := out, or_execution := Some x\<rparr>)"
proof -
  obtain o' where x: "x = JObj o'" "map_of o' ''dag_decision'' = Some (JObj control)"
    using assms(3) by (auto simp: with_decision_def split: option.splits json.splits)
  have "accepted_decision (r\<lparr>or_data := out, or_execution := Some x\<rparr>)
      = parse_dag_decision (JObj control)"
    using x by (simp add: accepted_decision_def dict_item_def)
  moreover have "\<exists>dd. parse_dag_decision (JObj control) = Inr dd \<and> dag_decision_ok dd
     \<and> (dd_command dd = Some MoveCommand \<longrightarrow>
          (\<exists>i. dd_target dd = Some i \<and> Some i \<in> node_stage_id ` set (stages t)))"
  proof (cases "cd_command d = Some MoveCommand")
    case True
    then obtain i where i: "cd_stage_id d = Some i" using assms(2) by auto
    have "control = [(''command'', dump_command (cd_command d)), (''stage_id'', JStr i)]"
      "Some i \<in> node_stage_id ` set (stages t)"
      using assms(1) True i
      by (auto simp: conditional_output_def split: if_splits)
    then show ?thesis
      using True by (simp add: parse_dag_decision_dump dag_decision_ok_def dd_target_def)
  next
    case False
    then have "control = [(''command'', dump_command (cd_command d))]"
      using assms(1) by (auto simp: conditional_output_def split: if_splits)
    then show ?thesis
      using False by (simp add: parse_dag_decision_dump dag_decision_ok_def)
  qed
  ultimately show ?thesis by (simp add: decision_settled_def)
qed

lemma normalized_result:
  assumes "normalize_conditional_result r input b t = Inr s" "or_result r = SuccessResult"
  shows "decision_settled t s \<and> or_result s = SuccessResult"
proof -
  obtain d control out x where d: "parse_conditional_decision (or_data r) = Inr d"
    "conditional_output d input b t = Inr (control, out)" "with_decision (or_execution r) control = Inr x"
    "s = r\<lparr>or_data := out, or_execution := Some x\<rparr>"
    using assms(1) by (auto simp: normalize_conditional_result_def update_stage_result_def)
  have "cd_command d = Some MoveCommand \<longrightarrow> cd_stage_id d \<noteq> None"
    using d(1) by (auto simp: parse_conditional_decision_def split: if_splits)
  then show ?thesis
    using settled_control [OF d(2) _ d(3)] d(4) assms(2) by simp
qed

lemma failure_accepted:
  assumes "parse_stage_result j = Inr r"
  shows "is_ok (conditional_failure describe r e)"
proof -
  obtain d where d: "copy_json_object (embed j) = Inr d" "or_extra r = filter (\<lambda>(k, v). \<not> List.member result_keys k) d"
    "\<And>v. or_execution r = Some v \<Longrightarrow> map_of d ''execution'' = Some v"
    using assms by (auto simp: parse_stage_result_def stage_result.make_def opt_field_Inr)
  have tame: "json_height (JObj d) \<le> 32" "json_printable (JObj d)"
    using d(1) unfolding copy_json_object_iff by blast+
  let ?f = "r\<lparr>or_result := FailResult,
       or_data := JObj [(''reason'', JStr (conditional_code e)), (''message'', JStr (describe e))],
       or_error := Some (JObj [(''code'', JStr (conditional_code e)),
                               (''message'', JStr (describe e))])\<rparr>"
  have member: "Suc (json_height v) \<le> 32 \<and> json_printable v" if "(k, v) \<in> set d" for k v
    using that tame unfolding json_height_JObj_le by (auto simp: list_all_iff)
  have "Suc (json_height v) \<le> 32 \<and> json_printable v" if "Some v = or_execution r" for v
    using member [OF map_of_SomeD [OF d(3) [OF that [symmetric]]]] .
  then have "Suc (json_height v) \<le> 32 \<and> json_printable v" if "(k, v) \<in> set (dump_stage_result ?f)" for k v
    using that member d(2)
    by (auto simp: dump_stage_result_def name_in_def result_names_def dest!: map_of_SomeD
        split: option.splits)
  then have "json_height (JObj (dump_stage_result ?f)) \<le> 32" "json_printable (JObj (dump_stage_result ?f))"
    unfolding json_height_JObj_le by (auto simp: list_all_iff)
  then show ?thesis
    by (simp add: conditional_failure_def update_stage_result_def copy_ok del: embed.simps)
qed

text \<open>
  C38. Accepting the successful response of a conditional stage never raises: either the result
  stays a success and carries a decision the runner can apply (a move names a node of this
  DAG), or it becomes a failure with the outcome \<^verbatim>\<open>failed\<close> and the code of the error its decision
  was rejected with, that for missing data or that for an invalid decision.
\<close>

theorem conditional_response_settled:
  assumes "parse_stage_result j = Inr r" and "or_result r = SuccessResult"
    and "sd_returns_data d = Some returns_data"
  shows "\<exists>a. normalize_accepted_response describe t (StageNode d) input r out = Inr a
     \<and> (or_result (ac_result a) = SuccessResult \<and> ac_outcome a = out \<and> decision_settled t (ac_result a)
        \<or> or_result (ac_result a) = FailResult \<and> ac_outcome a = ''failed''
          \<and> (\<exists>e. normalize_conditional_result r input returns_data t = Inl e
                \<and> or_error (ac_result a) = Some (JObj [(''code'', JStr (conditional_code e)),
                    (''message'', JStr (describe e))])))"
proof (cases "normalize_conditional_result r input returns_data t")
  case (Inl e)
  then have "usual e" using raises_normalize [of r input returns_data t] by (simp add: raises_only_def)
  moreover obtain f where f: "conditional_failure describe r e = Inr f"
    using failure_accepted [OF assms(1)] by (auto simp: is_ok_iff)
  moreover have "or_result f = FailResult" "or_error f = Some (JObj [(''code'', JStr (conditional_code e)),
      (''message'', JStr (describe e))])"
    using f by (auto simp: conditional_failure_def update_stage_result_def)
  ultimately show ?thesis
    using Inl assms(2,3) by (simp add: normalize_accepted_response_def)
next
  case (Inr s)
  then show ?thesis
    using normalized_result [OF Inr assms(2)] assms(2,3) by (simp add: normalize_accepted_response_def)
qed

text \<open>A move to the first node of the sample experiment.\<close>

definition sample_move :: stage_result where
  "sample_move = \<lparr>or_result = SuccessResult,
     or_data = JObj [(''command'', JStr ''move''), (''stage_id'', JStr (uuid_str 1)), (''data'', JInt 5)],
     or_error = None, or_execution = None, or_extra = []\<rparr>"

lemma sample_move_parses: "parse_stage_result (JObj (dump_stage_result sample_move)) = Inr sample_move"
proof -
  have "copy_json_object (embed (JObj (dump_stage_result sample_move))) = Inr (dump_stage_result sample_move)"
    by (rule copy_ok) (simp_all add: dump_stage_result_def sample_move_def result_names_def name_in_def)
  then show ?thesis
    by (simp add: parse_stage_result_def del: embed.simps)
      (simp add: dump_stage_result_def sample_move_def result_names_def name_in_def field_def
        opt_field_def literal_value.simps stage_result.make_def result_keys_def
        del: v_ap_Inr field_Inr)
qed

theorem conditional_response_settled_witness:
  "\<exists>a. normalize_accepted_response (\<lambda>e. []) run_template (StageNode run_choice) (JInt 1) sample_move
         ''succeeded'' = Inr a
     \<and> (or_result (ac_result a) = FailResult \<longrightarrow> ac_outcome a = ''failed'')"
proof -
  have "or_result sample_move = SuccessResult" by (simp add: sample_move_def)
  from conditional_response_settled [OF sample_move_parses this, of run_choice True "\<lambda>e. []"
      run_template "JInt 1" "''succeeded''"]
  show ?thesis by auto
qed

end
