(* ===== verification/Dag_Runner.thy ===== *)
theory Dag_Runner
  imports State_Store Conditional_Result
begin

text \<open>
  The DAG scheduler of \<^verbatim>\<open>core/experiments/runner.py\<close>: completing a stage, applying its decision,
  moving the cursor, launching the next stage, finalization, and the control operations that
  may run between its steps.

  The scheduler is a coroutine. Between two \<^verbatim>\<open>await\<close>s it runs undisturbed; at an \<^verbatim>\<open>await\<close> any
  other task may act on the same object. \<open>suspend\<close> models the suspension: it draws the
  outcome of the awaited operation from the environment and lets \<open>sch_others\<close>, the effect of
  all other tasks meanwhile, change the object. What other tasks can do is the step relation
  of \<open>Dag_Actors\<close>. The environment is indexed by the number of suspensions so far.

  The object is that of a runner with a selected state. \<open>rn_log\<close> records the effects outside
  the object in their order; it has no counterpart in the code.
\<close>

section \<open>The runner\<close>

datatype stage_action = AdvanceStage | PauseStage | StopStage

record stage_outcome =
  oc_attempt :: "path stage_attempt"
  oc_result :: "stage_result option"
  oc_action :: stage_action

datatype service_action = ServicesReady | ServicesPause | ServicesStop

datatype 'a task = TaskRunning | TaskFinished 'a | TaskRaised exn

datatype dag_task = NoDagTask | DagRunning | DagDone

datatype step_outcome =
    StepResult "string option" "stage_result option" runner_phase
  | StepFailed exn

record stop_result =
  sr_stopped :: bool
  sr_error :: bool
  sr_audit_only :: bool

record final_snapshot =
  fs_valid :: bool
  fs_error :: "string option"

datatype runner_effect =
    EffSaved runner_state
  | EffSnapshot runner_state
  | EffFinalized runner_phase runner_state
  | EffServicesClosed
  | EffMonitor
  | EffLaunched "string option" int int bool
  | EffRecovered
  | EffStep step_outcome
  | EffFailed exn
  | EffEmergency

record dag_runner =
  rn_state :: runner_state
  rn_pending_advance :: bool
  rn_desired_mode :: runner_mode
  rn_journal_pause :: "string option"
  rn_ready :: bool
  rn_idle :: bool
  rn_wake :: bool
  rn_maintenance :: bool
  rn_service_retrying :: bool
  rn_manual :: bool
  rn_step :: bool
  rn_task :: dag_task
  rn_stage_task :: "stage_outcome task option"
  rn_service_task :: "service_action task option"
  rn_readiness :: "service_action task option"
  rn_last_attempt :: "path stage_attempt option"
  rn_last_response :: "stage_result option"
  rn_last_snapshot :: "final_snapshot option"
  rn_stop_requested :: bool
  rn_termination_confirmed :: bool
  rn_failing :: bool
  rn_log :: "runner_effect list"
  rn_ticks :: nat

record scheduler_env =
  sch_save :: "nat \<Rightarrow> exn option"
  sch_snapshot :: "nat \<Rightarrow> exn option"
  sch_finalize :: "nat \<Rightarrow> (bool \<times> exn) + final_snapshot"
  sch_others :: "nat \<Rightarrow> dag_runner \<Rightarrow> dag_runner"
  sch_uuid :: "nat \<Rightarrow> string"
  sch_owner :: process_identity
  sch_resolve :: "path \<Rightarrow> path"
  sch_try_resolve :: "path \<Rightarrow> path result"
  sch_exists :: "path \<Rightarrow> bool"
  sch_accepted :: "string \<Rightarrow> bool"
  sch_audit :: "nat \<Rightarrow> bool"
  sch_interrupt :: "nat \<Rightarrow> bool result"
  sch_settle :: "nat \<Rightarrow> path stage_attempt \<Rightarrow> path stage_attempt"
  sch_close :: "nat \<Rightarrow> exn option"
  sch_stop_all :: "nat \<Rightarrow> stop_result list result"
  sch_confirmed :: "runner_state \<Rightarrow> bool"
  sch_record :: "nat \<Rightarrow> exn option"
  sch_prepare :: "(dag_runner, service_action) py"

abbreviation on_state :: "(runner_state \<Rightarrow> runner_state) \<Rightarrow> dag_runner \<Rightarrow> dag_runner" where
  "on_state f r \<equiv> r\<lparr>rn_state := f (rn_state r)\<rparr>"

definition log_effect :: "runner_effect \<Rightarrow> dag_runner \<Rightarrow> dag_runner" where
  "log_effect e r = r\<lparr>rn_log := rn_log r @ [e]\<rparr>"

text \<open>An \<^verbatim>\<open>await\<close> of an operation with the given outcome and effect.\<close>

definition suspend :: "scheduler_env \<Rightarrow> (nat \<Rightarrow> exn option) \<Rightarrow> (dag_runner \<Rightarrow> dag_runner)
    \<Rightarrow> (dag_runner, unit) py" where
  "suspend env raised effect = py_read (\<lambda>r. let n = rn_ticks r in
     case raised n of
       Some e \<Rightarrow> py_then (py_modify (\<lambda>r. sch_others env n (r\<lparr>rn_ticks := Suc n\<rparr>))) (py_raise e)
     | None \<Rightarrow> py_modify (\<lambda>r. sch_others env n (effect (r\<lparr>rn_ticks := Suc n\<rparr>))))"

section \<open>Checkpoints\<close>

text \<open>\<^verbatim>\<open>_prepare_state_save\<close>: the checkpoint is read back from its own document.\<close>

definition mark_checkpoint :: "scheduler_env \<Rightarrow> dag_runner \<Rightarrow> dag_runner" where
  "mark_checkpoint env r =
     on_state (\<lambda>s. s\<lparr>st_pending_advance := rn_pending_advance r,
                     st_checkpoint_id := Some (sch_uuid env (rn_ticks r)),
                     st_owner := Some (sch_owner env)\<rparr>) r"

definition prepare_state_save :: "scheduler_env \<Rightarrow> (dag_runner, runner_state) py" where
  "prepare_state_save env =
     py_then (py_modify (mark_checkpoint env))
       (py_read (\<lambda>r. py_lift
          (res_bind (state_to_document (sch_resolve env) (rn_state r))
             (state_from_document (sch_resolve env) (st_directory (rn_state r))))))"

definition save_state :: "scheduler_env \<Rightarrow> (dag_runner, unit) py" where
  "save_state env =
     py_bind (prepare_state_save env)
       (\<lambda>c. suspend env (sch_save env) (log_effect (EffSaved c)))"

text \<open>Settling the future of a pending \<^verbatim>\<open>step\<close>, if there is one.\<close>

definition settle_step :: "(dag_runner \<Rightarrow> step_outcome) \<Rightarrow> dag_runner \<Rightarrow> dag_runner" where
  "settle_step o' r =
     (if rn_step r then log_effect (EffStep (o' r)) (r\<lparr>rn_step := False\<rparr>) else r)"

definition final_step :: "dag_runner \<Rightarrow> step_outcome" where
  "final_step r = StepResult (map_option at_attempt_id (rn_last_attempt r)) (rn_last_response r)
     (st_phase (rn_state r))"

section \<open>Decisions\<close>

fun index_where :: "('a \<Rightarrow> bool) \<Rightarrow> 'a list \<Rightarrow> nat option" where
  "index_where p [] = None"
| "index_where p (x # xs) = (if p x then Some 0 else map_option Suc (index_where p xs))"

text \<open>A Python list subscript, negative indices counting from the end.\<close>

definition py_nth :: "'a list \<Rightarrow> int \<Rightarrow> 'a result" where
  "py_nth xs i =
     (if 0 \<le> i \<and> i < int (length xs) then Inr (xs ! nat i)
      else if - int (length xs) \<le> i \<and> i < 0 then Inr (xs ! nat (int (length xs) + i))
      else Inl IndexError)"

definition decision_command :: "last_decision option \<Rightarrow> dag_command option" where
  "decision_command l = Option.bind l (\<lambda>d. dd_command (ld_decision d))"

definition at_dag_end :: "dag_runner \<Rightarrow> bool" where
  "at_dag_end r =
     (let s = rn_state r;
          conditional_pause = (decision_command (st_last_decision s) = Some PauseCommand)
      in rn_pending_advance r
         \<and> st_stage_position s = int (length (stages (st_template s)))
         \<and> st_cycle_number s = cycles (st_template s)
         \<and> \<not> conditional_pause)"

definition pause_mode :: "dag_runner \<Rightarrow> dag_runner" where
  "pause_mode r = on_state (\<lambda>s. s\<lparr>st_mode := PausedMode\<rparr>) (r\<lparr>rn_desired_mode := PausedMode\<rparr>)"

definition apply_conditional_move :: "last_decision \<Rightarrow> string \<Rightarrow> (dag_runner, unit) py" where
  "apply_conditional_move source target = py_read (\<lambda>r. let s = rn_state r; ns = stages (st_template s) in
     case index_where (\<lambda>n. node_stage_id n = Some target) ns of
       None \<Rightarrow> py_raise StopIteration
     | Some k \<Rightarrow>
         let suffix = some_values (map node_stage_id (drop k ns)) in
         py_modify (\<lambda>r. on_state (\<lambda>s. s\<lparr>
             st_pending_input := Some \<lparr>in_request_id = ld_request_id source,
               in_source_stage = ld_source_stage source,
               in_experiment_id = ld_experiment_id source, in_stage_id = target\<rparr>,
             st_result_ids := pop_all suffix (st_result_ids s),
             st_result_origins := pop_all suffix (st_result_origins s),
             st_retry_counts := pop_all suffix (st_retry_counts s),
             st_stage_position := int k + 1\<rparr>) (r\<lparr>rn_pending_advance := False\<rparr>)))"

definition apply_dag_decision :: "last_decision \<Rightarrow> (dag_runner, unit) py" where
  "apply_dag_decision source =
     py_then (py_modify (on_state (\<lambda>s. s\<lparr>st_last_decision := Some source\<rparr>)))
       (case dd_command (ld_decision source) of
          Some PauseCommand \<Rightarrow>
            py_modify (\<lambda>r. on_state (\<lambda>s. s\<lparr>st_pause_requested := True\<rparr>) (pause_mode r))
        | Some MoveCommand \<Rightarrow>
            (case dd_target (ld_decision source) of
               None \<Rightarrow> py_raise ValueError
             | Some target \<Rightarrow> apply_conditional_move source target)
        | _ \<Rightarrow> py_return ())"

definition apply_pending_dag_decision :: "(dag_runner, unit) py" where
  "apply_pending_dag_decision = py_read (\<lambda>r.
     case st_pending_decision (rn_state r) of
       None \<Rightarrow> py_return ()
     | Some source \<Rightarrow>
         py_then (py_modify (on_state (\<lambda>s. s\<lparr>st_pending_decision := None\<rparr>)))
           (apply_dag_decision source))"

section \<open>Retained artifacts\<close>

text \<open>Every string of a JSON value, keys included.\<close>

fun json_strings :: "json \<Rightarrow> string list" where
  "json_strings (JStr s) = [s]"
| "json_strings (JArr xs) = concat (map json_strings xs)"
| "json_strings (JObj d) = concat (map (\<lambda>(k, v). k # json_strings v) d)"
| "json_strings _ = []"

text \<open>
  The experiment-relative artifact a string names, if it does. \<open>sch_try_resolve\<close> is
  \<^verbatim>\<open>Path.resolve\<close> of an arbitrary application string, which may raise.
\<close>

definition named_artifact :: "scheduler_env \<Rightarrow> path \<Rightarrow> string \<Rightarrow> string option" where
  "named_artifact env base text =
     (let relative = path_of text in
      if path_anchored relative then None
      else case sch_try_resolve env (path_join base relative) of
             Inl e \<Rightarrow> None
           | Inr resolved \<Rightarrow>
               if is_relative_to resolved (path_join base (path_of ''shared_artifacts''))
                  \<and> sch_exists env resolved
               then (case relative_to resolved base of
                       Inr q \<Rightarrow> Some (path_text q) | Inl e \<Rightarrow> None)
               else None)"

definition retain_input_artifacts :: "scheduler_env \<Rightarrow> json \<Rightarrow> runner_state \<Rightarrow> runner_state" where
  "retain_input_artifacts env data s =
     (let base = sch_resolve env (st_directory s);
          named = some_values (map (named_artifact env base) (json_strings data))
      in s\<lparr>st_retained_artifacts := sort (remdups (st_retained_artifacts s @ named))\<rparr>)"

section \<open>Completing a stage\<close>

definition source_decision :: "runner_state \<Rightarrow> stage_outcome \<Rightarrow> dag_decision \<Rightarrow> last_decision result" where
  "source_decision s oc d =
     (case at_result_request (oc_attempt oc) of
        None \<Rightarrow> Inl TypeError
      | Some i \<Rightarrow>
          let source = \<lparr>ld_request_id = i, ld_source_stage = at_stage_id (oc_attempt oc),
                        ld_experiment_id = st_experiment_id s, ld_decision = d\<rparr>
          in if is_uuid (ld_request_id source) \<and> is_uuid (ld_source_stage source)
                \<and> is_text (ld_experiment_id source)
             then Inr source else Inl ValueError)"

definition drop_result :: "string \<Rightarrow> runner_state \<Rightarrow> runner_state" where
  "drop_result stage s =
     s\<lparr>st_last_result := JNull, st_last_result_id := None,
       st_result_ids := AList.delete stage (st_result_ids s),
       st_result_origins := AList.delete stage (st_result_origins s)\<rparr>"

definition keep_result :: "stage_outcome \<Rightarrow> stage_result \<Rightarrow> runner_state \<Rightarrow> runner_state" where
  "keep_result oc r s =
     (let stage = at_stage_id (oc_attempt oc); request = at_result_request (oc_attempt oc)
      in s\<lparr>st_last_result := or_data r, st_last_result_id := request,
           st_result_ids := AList.update stage request (st_result_ids s),
           st_result_origins := AList.update stage (st_experiment_id s) (st_result_origins s)\<rparr>)"

definition begin_outcome :: "stage_outcome \<Rightarrow> dag_runner \<Rightarrow> dag_runner" where
  "begin_outcome oc r =
     (let r = on_state (\<lambda>s. s\<lparr>st_active_attempt := None, st_last_decision := None,
                              st_pending_decision := None\<rparr>)
                (r\<lparr>rn_pending_advance := (oc_action oc = AdvanceStage)\<rparr>)
      in if oc_action oc = PauseStage then pause_mode r else r)"

definition apply_stage_outcome :: "scheduler_env \<Rightarrow> stage_outcome \<Rightarrow> bool \<Rightarrow> (dag_runner, unit) py" where
  "apply_stage_outcome env oc defer_dag =
     py_then (py_modify (begin_outcome oc))
       (case oc_result oc of
          None \<Rightarrow> py_modify (on_state (drop_result (at_stage_id (oc_attempt oc))))
        | Some r \<Rightarrow>
            if or_result r \<noteq> SuccessResult
            then py_modify (on_state (drop_result (at_stage_id (oc_attempt oc))))
            else
              py_then (py_modify (on_state (keep_result oc r)))
                (py_read (\<lambda>rn. let s = rn_state rn in
                   py_bind (py_lift (py_nth (stages (st_template s)) (st_stage_position s - 1)))
                     (\<lambda>node.
                        if \<not> node_conditional node then py_return ()
                        else py_bind (py_lift (res_bind (accepted_decision r) (source_decision s oc)))
                          (\<lambda>source.
                             py_then (py_modify (on_state (retain_input_artifacts env (or_data r))))
                               (if defer_dag
                                then py_modify (on_state (\<lambda>s. s\<lparr>st_pending_decision := Some source\<rparr>))
                                else apply_dag_decision source))))))"

datatype stage_signal = StageUnknown | StageStopped | StageReady

definition pause_unknown_stage :: "scheduler_env \<Rightarrow> stage_outcome \<Rightarrow> (dag_runner, unit) py" where
  "pause_unknown_stage env oc =
     py_then (py_modify (\<lambda>r. on_state (\<lambda>s. s\<lparr>st_pause_requested := True, st_phase := PhaseWaiting\<rparr>)
                              ((pause_mode r)\<lparr>rn_idle := False, rn_pending_advance := False\<rparr>)))
    (py_then (save_state env)
       (if oc_action oc = StopStage then py_raise RuntimeError
        else py_modify (settle_step (\<lambda>r. StepFailed RuntimeError))))"

definition snapshot_due :: "stage_outcome \<Rightarrow> bool \<Rightarrow> bool \<Rightarrow> dag_runner \<Rightarrow> bool" where
  "snapshot_due oc final requested r =
     (let s = rn_state r; mode = snapshot_mode (snapshots (st_template s))
      in requested
         \<or> oc_action oc = AdvanceStage \<and> \<not> final
           \<and> (mode = AfterStage
              \<or> mode = AfterEpoch \<and> rn_pending_advance r
                \<and> st_stage_position s = int (length (stages (st_template s)))))"

definition leave_snapshot :: "dag_runner \<Rightarrow> dag_runner" where
  "leave_snapshot r =
     on_state (\<lambda>s. if st_phase s = PhaseSnapshotting then s\<lparr>st_phase := PhaseWaiting\<rparr> else s)
       (r\<lparr>rn_maintenance := False\<rparr>)"

definition snapshot_stage_boundary ::
    "scheduler_env \<Rightarrow> stage_outcome \<Rightarrow> bool \<Rightarrow> bool \<Rightarrow> (dag_runner, unit) py" where
  "snapshot_stage_boundary env oc final requested = py_read (\<lambda>r.
     if \<not> snapshot_due oc final requested r then py_return ()
     else
       py_then (py_modify (\<lambda>r. on_state (\<lambda>s. s\<lparr>st_phase := PhaseSnapshotting\<rparr>)
                                (r\<lparr>rn_maintenance := True\<rparr>)))
      (py_then (py_finally (suspend env (sch_snapshot env) (\<lambda>r. log_effect (EffSnapshot (rn_state r)) r))
                  leave_snapshot)
         (save_state env)))"

definition finish_stage_step :: "stage_outcome \<Rightarrow> bool \<Rightarrow> dag_runner \<Rightarrow> dag_runner" where
  "finish_stage_step oc final r =
     (if final then r
      else settle_step (\<lambda>r.
        if oc_action oc = AdvanceStage
        then StepResult (Some (at_attempt_id (oc_attempt oc))) (oc_result oc) (st_phase (rn_state r))
        else StepFailed RuntimeError) r)"

section \<open>Finalization\<close>

text \<open>
  An \<^verbatim>\<open>await\<close> of an operation that returns a value or raises.
\<close>

definition await_result :: "scheduler_env \<Rightarrow> (nat \<Rightarrow> 'a result) \<Rightarrow> (nat \<Rightarrow> dag_runner \<Rightarrow> dag_runner)
    \<Rightarrow> (dag_runner, 'a) py" where
  "await_result env outcome effect = py_read (\<lambda>r. let n = rn_ticks r in
     py_then (py_modify (\<lambda>r. sch_others env n (effect n (r\<lparr>rn_ticks := Suc n\<rparr>))))
       (py_lift (outcome n)))"

text \<open>
  \<^verbatim>\<open>snapshots.finalize\<close> sets the terminal phase before it publishes the snapshot, so a failed
  publication leaves it set.
\<close>

definition finalize_effect :: "scheduler_env \<Rightarrow> runner_phase \<Rightarrow> nat \<Rightarrow> dag_runner \<Rightarrow> dag_runner" where
  "finalize_effect env p n r =
     (case sch_finalize env n of
        Inl (shut, e) \<Rightarrow> (if shut then on_state (\<lambda>s. s\<lparr>st_phase := p\<rparr>) r else r)
      | Inr snapshot \<Rightarrow> log_effect (EffFinalized p (rn_state r)) (on_state (\<lambda>s. s\<lparr>st_phase := p\<rparr>) r))"

definition finalize_snapshot :: "scheduler_env \<Rightarrow> runner_phase \<Rightarrow> (dag_runner, final_snapshot) py" where
  "finalize_snapshot env p = py_read (\<lambda>r.
     if st_active_attempt (rn_state r) \<noteq> None then py_raise RuntimeError
     else await_result env (\<lambda>n. case sch_finalize env n of Inl (shut, e) \<Rightarrow> Inl e | Inr f \<Rightarrow> Inr f)
            (finalize_effect env p))"

section \<open>Failing and stopping\<close>

text \<open>
  \<^verbatim>\<open>_complete_failure\<close> and \<^verbatim>\<open>_stop_failed_participants\<close>. A second failure joins the cleanup of
  the first one. Interrupting a stage settles its attempt (\<open>sch_settle\<close>).
\<close>

definition interrupt_stage :: "scheduler_env \<Rightarrow> (dag_runner, bool) py" where
  "interrupt_stage env = await_result env (sch_interrupt env)
     (\<lambda>n. on_state (\<lambda>s. s\<lparr>st_active_attempt := map_option (sch_settle env n) (st_active_attempt s)\<rparr>))"

definition close_services :: "scheduler_env \<Rightarrow> (dag_runner, unit) py" where
  "close_services env = suspend env (\<lambda>n. None) (log_effect EffServicesClosed)"

definition set_confirmed :: "bool \<Rightarrow> dag_runner \<Rightarrow> dag_runner" where
  "set_confirmed b r = r\<lparr>rn_termination_confirmed := b\<rparr>"

definition service_attempt :: "runner_state \<Rightarrow> bool" where
  "service_attempt s = (case st_active_attempt s of None \<Rightarrow> False | Some a \<Rightarrow> at_service_id a \<noteq> None)"

definition stop_failed_participants :: "scheduler_env \<Rightarrow> (dag_runner, unit) py" where
  "stop_failed_participants env =
     py_then (py_catch
        (py_bind (interrupt_stage env) (\<lambda>b. py_modify (set_confirmed b)))
        (\<lambda>e. py_modify (set_confirmed False)))
    (py_then (py_catch
        (py_bind (await_result env (sch_stop_all env) (\<lambda>n. id)) (\<lambda>results.
           py_modify (\<lambda>r. set_confirmed
             (list_all sr_stopped results
              \<and> (rn_termination_confirmed r
                 \<or> service_attempt (rn_state r) \<and> sch_confirmed env (rn_state r))) r)))
        (\<lambda>e. py_modify (set_confirmed False)))
     (close_services env))"

definition complete_failure :: "scheduler_env \<Rightarrow> exn \<Rightarrow> (dag_runner, unit) py" where
  "complete_failure env e =
     py_then (py_modify (\<lambda>r. log_effect (EffFailed e) (r\<lparr>rn_stop_requested := True\<rparr>)))
    (py_then (suspend env (\<lambda>n. None) (\<lambda>r. r\<lparr>rn_stage_task := None\<rparr>))
    (py_then (stop_failed_participants env)
    (py_then (py_modify (on_state (\<lambda>s. s\<lparr>st_phase := PhaseFailed\<rparr>)))
    (py_then (py_catch (py_then (suspend env (sch_record env) id) (save_state env))
                (\<lambda>e. py_modify (log_effect EffEmergency)))
       (py_modify (settle_step (\<lambda>r. StepFailed e)))))))"

definition fail_runner :: "scheduler_env \<Rightarrow> exn \<Rightarrow> (dag_runner, unit) py" where
  "fail_runner env e = py_read (\<lambda>r.
     if rn_failing r then suspend env (\<lambda>n. None) id
     else py_then (py_modify (\<lambda>r. r\<lparr>rn_failing := True\<rparr>)) (complete_failure env e))"

text \<open>
  \<^verbatim>\<open>_stop\<close>. Its local variables \<^verbatim>\<open>stopped\<close> and \<^verbatim>\<open>failure\<close> are passed between its parts; an
  unconfirmed stage is told from other failures as its message is compared.
\<close>

datatype stop_failure = UnconfirmedStage | StopFailure exn

definition stop_stage :: "scheduler_env \<Rightarrow> bool \<Rightarrow> (dag_runner, bool \<times> stop_failure option) py" where
  "stop_stage env audit =
     py_catch
       (py_bind (interrupt_stage env) (\<lambda>stopped.
          if \<not> stopped then py_return (False, Some UnconfirmedStage)
          else py_then (py_catch (suspend env (sch_close env) id)
                          (\<lambda>e. if logging_error e \<and> \<not> audit then py_return () else py_raise e))
                 (py_return (True, None))))
       (\<lambda>e. py_return (False, Some (StopFailure e)))"

definition retire_attempt :: "dag_runner \<Rightarrow> dag_runner" where
  "retire_attempt r =
     on_state (\<lambda>s. s\<lparr>st_active_attempt := None\<rparr>)
       (case st_active_attempt (rn_state r) of None \<Rightarrow> r | Some a \<Rightarrow> r\<lparr>rn_last_attempt := Some a\<rparr>)"

definition all_stopped :: "dag_runner \<Rightarrow> bool" where
  "all_stopped r = list_all si_stopped (dict_values (st_services (rn_state r)))"

definition finalizable :: "dag_runner \<Rightarrow> bool" where
  "finalizable r =
     (st_pending_rebuild (rn_state r) = None
      \<and> \<not> List.member [PhaseCompleted, PhaseFailed, PhaseStopped, PhaseRestoring] (st_phase (rn_state r)))"

definition stop_services :: "scheduler_env \<Rightarrow> bool \<Rightarrow> bool \<Rightarrow> bool \<times> stop_failure option
    \<Rightarrow> (dag_runner, bool \<times> stop_failure option) py" where
  "stop_services env finalize audit = (\<lambda>(stopped, failure).
     py_catch
       (py_read (\<lambda>r.
          if stopped \<and> finalize \<and> audit \<and> finalizable r
          then py_then (py_modify (\<lambda>r. on_state (\<lambda>s. s\<lparr>st_pending_advance := rn_pending_advance r\<rparr>) r))
              (py_bind (finalize_snapshot env PhaseStopped) (\<lambda>snapshot.
                 py_then (py_modify (\<lambda>r. r\<lparr>rn_last_snapshot := Some snapshot\<rparr>))
                   (py_read (\<lambda>r. py_return (all_stopped r, failure)))))
          else py_bind (await_result env (sch_stop_all env) (\<lambda>n. id)) (\<lambda>results.
                 py_return (stopped \<and> list_all sr_stopped results,
                   if list_ex (\<lambda>x. \<not> sr_stopped x \<or> sr_error x \<and> (audit \<or> \<not> sr_audit_only x)) results
                   then Some (case failure of None \<Rightarrow> StopFailure RuntimeError | Some f \<Rightarrow> f)
                   else failure))))
       (\<lambda>e. py_read (\<lambda>r. py_return (stopped \<and> all_stopped r,
          Some (case failure of None \<Rightarrow> StopFailure e | Some f \<Rightarrow> f)))))"

definition reconsider_stage :: "scheduler_env \<Rightarrow> bool \<times> stop_failure option
    \<Rightarrow> (dag_runner, bool \<times> stop_failure option) py" where
  "reconsider_stage env = (\<lambda>(stopped, failure). py_read (\<lambda>r. py_return
     (if \<not> stopped \<and> service_attempt (rn_state r) \<and> all_stopped r \<and> sch_confirmed env (rn_state r)
      then (True, if failure = Some UnconfirmedStage then None else failure)
      else (stopped, failure))))"

definition stopped_phase :: "runner_state \<Rightarrow> runner_phase" where
  "stopped_phase s =
     (if st_phase s = PhaseRestoring \<or> st_pending_rebuild s \<noteq> None then PhaseFailed
      else if st_phase s = PhaseCompleted \<or> st_phase s = PhaseFailed then st_phase s
      else PhaseStopped)"

text \<open>Without a journal the state file is written directly, on the event loop itself.\<close>

definition write_state :: "scheduler_env \<Rightarrow> (dag_runner, unit) py" where
  "write_state env = py_read (\<lambda>r.
     case sch_save env (rn_ticks r) of
       Some e \<Rightarrow> py_raise e
     | None \<Rightarrow> py_modify (log_effect (EffSaved (rn_state r))))"

definition settle_stop :: "scheduler_env \<Rightarrow> bool \<Rightarrow> bool \<times> stop_failure option \<Rightarrow> (dag_runner, unit) py" where
  "settle_stop env audit = (\<lambda>(stopped, failure).
     py_then (py_modify (set_confirmed stopped))
    (py_then (close_services env)
       (if failure \<noteq> None then py_then (fail_runner env RuntimeError) (py_raise RuntimeError)
        else
          py_then (py_modify (on_state (\<lambda>s. s\<lparr>st_phase := stopped_phase s\<rparr>)))
         (py_then (py_modify retire_attempt)
            (if audit then save_state env else write_state env)))))"

definition stop_runner :: "scheduler_env \<Rightarrow> bool \<Rightarrow> (dag_runner, unit) py" where
  "stop_runner env finalize =
     py_then (py_modify (\<lambda>r. r\<lparr>rn_stop_requested := True\<rparr>))
    (py_then (suspend env (\<lambda>n. None) id)
    (py_bind (await_result env (\<lambda>n. Inr (sch_audit env n)) (\<lambda>n. id)) (\<lambda>audit.
     py_bind (stop_stage env audit) (\<lambda>outcome.
       py_then (py_modify (\<lambda>r. if fst outcome \<and> st_active_attempt (rn_state r) \<noteq> None
                               then (retire_attempt r)\<lparr>rn_pending_advance := False\<rparr> else r))
      (py_bind (stop_services env finalize audit outcome) (\<lambda>outcome.
       py_bind (reconsider_stage env outcome) (\<lambda>outcome.
       py_then (settle_stop env audit outcome)
         (py_modify (\<lambda>r. (settle_step (\<lambda>r. StepFailed RuntimeError) r)\<lparr>rn_idle := True\<rparr>)))))))))"

section \<open>Conditional stop\<close>

definition retire_requests :: "(string \<Rightarrow> bool) \<Rightarrow> 'p service_instance \<Rightarrow> 'p service_instance" where
  "retire_requests accepted i =
     i\<lparr>si_pending := filter (\<lambda>q. \<not> accepted (rq_id q)) (si_pending i),
       si_active := (case si_active i of
                       None \<Rightarrow> None
                     | Some q \<Rightarrow> if accepted (rq_id q) then None else Some q)\<rparr>"

definition retire_accepted_service_requests :: "scheduler_env \<Rightarrow> dag_runner \<Rightarrow> dag_runner" where
  "retire_accepted_service_requests env =
     on_state (\<lambda>s. s\<lparr>st_services := map (\<lambda>(k, i). (k, retire_requests (sch_accepted env) i))
                                       (st_services s)\<rparr>)"

text \<open>The future is taken first, so the shutdown cannot settle it.\<close>

definition stop_from_stage :: "scheduler_env \<Rightarrow> bool \<Rightarrow> (dag_runner, unit) py" where
  "stop_from_stage env recovering = py_read (\<lambda>r0. let waiting = rn_step r0 in
     py_then (py_modify (\<lambda>r. r\<lparr>rn_step := False\<rparr>))
    (py_then
       (py_catch
          (py_then
             (py_when recovering
                (py_then (py_modify (retire_accepted_service_requests env)) (save_state env)))
             (stop_runner env (\<not> recovering)))
          (\<lambda>e. py_then (py_when waiting (py_modify (log_effect (EffStep (StepFailed e)))))
                 (py_raise e)))
       (py_when waiting (py_modify (\<lambda>r. log_effect (EffStep (final_step r)) r)))))"

section \<open>The stage boundary\<close>

definition requested_snapshot :: "runner_state \<Rightarrow> dag_node \<Rightarrow> stage_outcome \<Rightarrow> bool" where
  "requested_snapshot s d oc =
     (snapshot_mode (snapshots (st_template s)) = AfterEpoch
      \<and> node_snapshot_after d
      \<and> at_outcome (oc_attempt oc) = Some ''succeeded''
      \<and> (case oc_result oc of None \<Rightarrow> False | Some r \<Rightarrow> or_result r = SuccessResult))"

definition complete_stage_task :: "scheduler_env \<Rightarrow> stage_outcome \<Rightarrow> (dag_runner, stage_signal) py" where
  "complete_stage_task env oc =
     py_then (py_modify (\<lambda>r. r\<lparr>rn_stage_task := None, rn_last_attempt := Some (oc_attempt oc),
                               rn_last_response := oc_result oc\<rparr>))
       (if at_outcome (oc_attempt oc) = Some ''unknown''
        then py_then (pause_unknown_stage env oc) (py_return StageUnknown)
        else if oc_action oc = StopStage
        then py_then (py_modify (on_state (drop_result (at_stage_id (oc_attempt oc)))))
               (py_raise RuntimeError)
        else py_read (\<lambda>rn.
          case find (\<lambda>n. node_stage_id n = Some (at_stage_id (oc_attempt oc)))
                 (stages (st_template (rn_state rn))) of
            None \<Rightarrow> py_raise StopIteration
          | Some d \<Rightarrow>
              let requested = requested_snapshot (rn_state rn) d oc in
              py_then (apply_stage_outcome env oc requested)
             (py_then (py_modify (on_state (\<lambda>s. s\<lparr>st_phase := PhaseWaiting\<rparr>)))
             (py_then (save_state env)
             (py_then
                (py_when requested
                   (py_then (snapshot_stage_boundary env oc False True)
                   (py_then apply_pending_dag_decision (save_state env))))
                (py_read (\<lambda>rn.
                   let final = at_dag_end rn in
                   if decision_command (st_last_decision (rn_state rn)) = Some StopCommand
                   then py_then (stop_from_stage env False) (py_return StageStopped)
                   else
                     py_then (py_when (\<not> requested) (snapshot_stage_boundary env oc final False))
                    (py_then (py_modify (\<lambda>r. finish_stage_step oc final (r\<lparr>rn_idle := True\<rparr>)))
                    (py_then (py_modify (\<lambda>r. if st_mode (rn_state r) = RunningMode \<or> final
                                             then r\<lparr>rn_wake := True\<rparr> else r))
                       (py_return StageReady))))))))))"

section \<open>Services, readiness and completion\<close>

definition pause_for_services :: "dag_runner \<Rightarrow> dag_runner" where
  "pause_for_services r = on_state (\<lambda>s. s\<lparr>st_pause_requested := True\<rparr>) (pause_mode r)"

definition apply_supervision_result :: "scheduler_env \<Rightarrow> service_action \<Rightarrow> (dag_runner, unit) py" where
  "apply_supervision_result env action =
     (if action = ServicesStop then py_raise RuntimeError
      else
        py_then (py_modify (\<lambda>r. let r = pause_for_services r in
                   if rn_stage_task r = None then on_state (\<lambda>s. s\<lparr>st_phase := PhaseWaiting\<rparr>) r else r))
       (py_then (save_state env)
          (py_modify (\<lambda>r. log_effect EffMonitor
             ((settle_step (\<lambda>r. StepFailed RuntimeError) r)\<lparr>rn_service_task := Some TaskRunning\<rparr>)))))"

definition apply_readiness_result :: "scheduler_env \<Rightarrow> service_action \<Rightarrow> (dag_runner, bool) py" where
  "apply_readiness_result env action =
     (case action of
        ServicesStop \<Rightarrow> py_raise RuntimeError
      | ServicesPause \<Rightarrow>
          py_then (py_modify (\<lambda>r. on_state (\<lambda>s. s\<lparr>st_phase := PhaseWaiting\<rparr>) (pause_for_services r)))
         (py_then (save_state env)
         (py_then (py_modify (settle_step (\<lambda>r. StepFailed RuntimeError)))
            (py_return False)))
      | ServicesReady \<Rightarrow> py_return True)"

definition complete_dag :: "scheduler_env \<Rightarrow> (dag_runner, unit) py" where
  "complete_dag env =
     py_then (py_modify (\<lambda>r. on_state (\<lambda>s. s\<lparr>st_pending_advance := rn_pending_advance r\<rparr>)
                               (r\<lparr>rn_maintenance := True\<rparr>)))
    (py_then (py_finally
                (py_bind (finalize_snapshot env PhaseCompleted) (\<lambda>snapshot.
                   py_then (py_modify (\<lambda>r. r\<lparr>rn_last_snapshot := Some snapshot\<rparr>))
                     (if fs_valid snapshot then py_return () else py_raise RuntimeError)))
                (\<lambda>r. r\<lparr>rn_maintenance := False\<rparr>))
    (py_then (py_modify (\<lambda>r. set_confirmed (all_stopped r) r))
    (py_then (close_services env)
    (py_then (py_modify (on_state (\<lambda>s. s\<lparr>st_phase := PhaseCompleted\<rparr>)))
    (py_then (save_state env)
       (py_modify (settle_step final_step)))))))"

section \<open>Launching\<close>

definition advance_cursor :: "runner_state \<Rightarrow> runner_state" where
  "advance_cursor s =
     (let s = s\<lparr>st_pending_input := None, st_stage_position := st_stage_position s + 1\<rparr>
      in if st_stage_position s > int (length (stages (st_template s)))
         then s\<lparr>st_cycle_number := st_cycle_number s + 1, st_stage_position := 1,
                st_result_ids := [], st_result_origins := [], st_attempt_numbers := [],
                st_last_result := JNull, st_last_result_id := None,
                st_services := map (\<lambda>(k, i). (k, i\<lparr>si_restart_count := 0\<rparr>)) (st_services s)\<rparr>
         else s)"

definition launch_next_stage :: "scheduler_env \<Rightarrow> (dag_runner, unit) py" where
  "launch_next_stage env =
     py_then (py_modify (\<lambda>r. r\<lparr>rn_idle := False\<rparr>))
    (py_then (py_modify (\<lambda>r. if rn_pending_advance r
                             then on_state advance_cursor (r\<lparr>rn_pending_advance := False\<rparr>) else r))
    (py_then (py_modify (on_state (\<lambda>s. s\<lparr>st_last_decision := None, st_pause_requested := False,
                                         st_phase := PhaseStageRunning\<rparr>)))
    (py_then (save_state env)
       (py_modify (\<lambda>r. log_effect (EffLaunched (cursor_stage (rn_state r)) (st_cycle_number (rn_state r))
                                     (st_stage_position (rn_state r)) (rn_manual r))
          (r\<lparr>rn_stage_task := Some TaskRunning, rn_manual := False\<rparr>))))))"

section \<open>Journal availability\<close>

record journal_status =
  js_history_available :: bool
  js_state :: string

definition journal_reason :: "journal_status \<Rightarrow> string option" where
  "journal_reason status =
     (if \<not> js_history_available status then Some ''journal_history_unavailable''
      else if List.member [''starting'', ''restarting'', ''storage_unavailable''] (js_state status)
      then Some (''journal_'' @ js_state status) else None)"

text \<open>The status is \<open>None\<close> when no supervised journal is open.\<close>

definition update_journal_pause :: "journal_status option \<Rightarrow> dag_runner \<Rightarrow> dag_runner" where
  "update_journal_pause status r =
     (case status of
        None \<Rightarrow> r
      | Some st \<Rightarrow>
          (case journal_reason st of
             Some reason \<Rightarrow>
               on_state (\<lambda>s. let s = s\<lparr>st_mode := PausedMode\<rparr> in
                  if rn_ready r \<and> st_active_attempt s = None \<and> st_phase s = PhaseStarting
                  then s\<lparr>st_phase := PhaseWaiting\<rparr> else s) (r\<lparr>rn_journal_pause := Some reason\<rparr>)
           | None \<Rightarrow>
               if rn_journal_pause r \<noteq> None \<and> js_state st = ''ready''
               then on_state (\<lambda>s. s\<lparr>st_mode := rn_desired_mode r\<rparr>)
                      (r\<lparr>rn_journal_pause := None, rn_wake := True\<rparr>)
               else r))"

section \<open>Preparation\<close>

text \<open>
  \<^verbatim>\<open>_prepare_dag_state\<close> for a selected state; \<open>sch_prepare\<close> is the preparation proper (assembly,
  recovery of services or restoration), \<open>status\<close> what the journal reports at its end.
\<close>

definition prepared_phase :: "runner_state \<Rightarrow> runner_phase" where
  "prepared_phase s =
     (if st_active_attempt s \<noteq> None then PhaseStageRunning
      else if st_mode s = PausedMode then PhaseWaiting else PhaseStarting)"

definition choose_mode :: "service_action \<Rightarrow> dag_runner \<Rightarrow> dag_runner" where
  "choose_mode action r =
     (let r = (if action = ServicesPause then r\<lparr>rn_desired_mode := PausedMode\<rparr> else r)
      in on_state (\<lambda>s. let s = s\<lparr>st_mode := rn_desired_mode r\<rparr>;
             s = (if st_mode s = RunningMode
                     \<and> decision_command (st_last_decision s) = Some PauseCommand
                  then s\<lparr>st_last_decision := None\<rparr> else s)
           in s\<lparr>st_phase := prepared_phase s\<rparr>) r)"

definition prepare_dag_state :: "scheduler_env \<Rightarrow> journal_status option \<Rightarrow> (dag_runner, bool) py" where
  "prepare_dag_state env status = py_read (\<lambda>r.
     if decision_command (st_last_decision (rn_state r)) = Some StopCommand
     then py_then (stop_from_stage env True) (py_return False)
     else py_bind (sch_prepare env) (\<lambda>action.
       if action = ServicesStop then py_raise RuntimeError
       else py_read (\<lambda>r. let pending = (st_pending_decision (rn_state r) \<noteq> None) in
         py_then (py_when pending (py_then apply_pending_dag_decision (save_state env)))
           (py_read (\<lambda>r.
              if pending \<and> decision_command (st_last_decision (rn_state r)) = Some StopCommand
              then py_then (stop_from_stage env False) (py_return False)
              else
                py_then (py_modify (choose_mode action))
               (py_then (save_state env)
               (py_then (py_modify (\<lambda>r. (update_journal_pause status r)\<lparr>rn_ready := True\<rparr>))
               (py_then (py_modify (\<lambda>r. if st_active_attempt (rn_state r) \<noteq> None
                    then log_effect EffRecovered (r\<lparr>rn_idle := False, rn_stage_task := Some TaskRunning\<rparr>)
                    else r\<lparr>rn_idle := True\<rparr>))
                  (py_return True)))))))))"

section \<open>One turn of the scheduler\<close>

datatype loop_signal = LoopContinue | LoopExit

text \<open>What the \<^verbatim>\<open>finally\<close> block of the loop leaves behind.\<close>

definition leave_loop :: "dag_runner \<Rightarrow> dag_runner" where
  "leave_loop r = r\<lparr>rn_task := DagDone, rn_stage_task := None, rn_service_task := None,
     rn_readiness := None, rn_ready := True, rn_idle := True\<rparr>"

text \<open>
  One iteration of the loop of \<^verbatim>\<open>_advance_dag\<close>, after \<^verbatim>\<open>asyncio.wait\<close> returned. An exception
  leaves the loop.
\<close>

definition run_readiness :: "dag_runner \<Rightarrow> dag_runner" where
  "run_readiness r =
     (if rn_stage_task r = None \<and> rn_readiness r = None
         \<and> (st_mode (rn_state r) = RunningMode \<or> rn_step r \<or> at_dag_end r)
      then r\<lparr>rn_wake := False, rn_readiness := Some TaskRunning\<rparr> else r\<lparr>rn_wake := False\<rparr>)"

definition advance_ready :: "scheduler_env \<Rightarrow> service_action \<Rightarrow> (dag_runner, loop_signal) py" where
  "advance_ready env action =
     py_then (py_modify (\<lambda>r. r\<lparr>rn_readiness := None\<rparr>))
    (py_bind (apply_readiness_result env action) (\<lambda>proceed.
       if \<not> proceed then py_return LoopContinue
       else py_read (\<lambda>r.
         if rn_service_retrying r \<or> rn_maintenance r then py_return LoopContinue
         else if at_dag_end r then py_then (complete_dag env) (py_return LoopExit)
         else if st_mode (rn_state r) = PausedMode \<and> \<not> rn_step r then py_return LoopContinue
         else py_then (launch_next_stage env) (py_return LoopContinue))))"

definition advance_once :: "scheduler_env \<Rightarrow> (dag_runner, loop_signal) py" where
  "advance_once env = py_read (\<lambda>r.
     if rn_stop_requested r then py_return LoopExit
     else if rn_journal_pause r \<noteq> None then py_return LoopContinue
     else
       py_then (case rn_service_task r of
                  Some (TaskFinished action) \<Rightarrow> apply_supervision_result env action
                | Some (TaskRaised e) \<Rightarrow> py_raise e
                | _ \<Rightarrow> py_return ())
      (py_read (\<lambda>r. py_bind
         (case rn_stage_task r of
            Some (TaskFinished oc) \<Rightarrow> complete_stage_task env oc
          | Some (TaskRaised e) \<Rightarrow> py_raise e
          | _ \<Rightarrow> py_return StageReady)
         (\<lambda>signal. case signal of
            StageUnknown \<Rightarrow> py_return LoopContinue
          | StageStopped \<Rightarrow> py_return LoopExit
          | StageReady \<Rightarrow>
              py_then (py_modify (\<lambda>r. if rn_wake r then run_readiness r else r))
                (py_read (\<lambda>r. case rn_readiness r of
                     Some (TaskFinished action) \<Rightarrow> advance_ready env action
                   | Some (TaskRaised e) \<Rightarrow> py_raise e
                   | _ \<Rightarrow> py_return LoopContinue))))))"

end
