(* ===== verification/Dag_Actors.thy ===== *)
theory Dag_Actors
  imports Dag_Runner
begin

text \<open>
  The control operations of \<^verbatim>\<open>ExperimentRunner\<close> (\<^verbatim>\<open>pause\<close>, \<^verbatim>\<open>resume\<close>, \<^verbatim>\<open>step\<close>, \<^verbatim>\<open>rerun\<close>,
  \<^verbatim>\<open>move\<close>, \<^verbatim>\<open>reset_retries\<close>), and \<open>actor_step\<close>: everything that can happen to the object
  between two steps of the scheduler.

  Each operation is split where it suspends. The part before its first suspension checks the
  guard and changes the object; \<^verbatim>\<open>pause\<close> has a second part that waits for an idle runner.
  (\<^verbatim>\<open>step\<close> saves the checkpoint between clearing a conditional pause and arming its future;
  here the two happen together and the save comes before.)
\<close>

section \<open>Guards\<close>

definition terminal_phase :: "runner_phase \<Rightarrow> bool" where
  "terminal_phase p = (p = PhaseStopped \<or> p = PhaseCompleted \<or> p = PhaseFailed)"

definition require_active :: "dag_runner \<Rightarrow> unit result" where
  "require_active r =
     (if st_pending_rebuild (rn_state r) \<noteq> None then Inl RuntimeError
      else if terminal_phase (st_phase (rn_state r)) then Inl RuntimeError
      else Inr ())"

definition require_idle_service_control :: "dag_runner \<Rightarrow> unit result" where
  "require_idle_service_control r =
     (let s = rn_state r in
      if rn_maintenance r \<or> rn_service_retrying r \<or> rn_stop_requested r
         \<or> rn_task r \<noteq> DagRunning \<or> st_mode s \<noteq> PausedMode \<or> st_phase s \<noteq> PhaseWaiting
         \<or> \<not> rn_idle r \<or> st_active_attempt s \<noteq> None \<or> rn_step r
      then Inl RuntimeError else Inr ())"

text \<open>A declared service without an instance, and instances that keep the DAG from running.\<close>

definition missing_service :: "runner_state \<Rightarrow> bool" where
  "missing_service s =
     list_ex (\<lambda>d. case sv_service_id d of
                    None \<Rightarrow> True | Some i \<Rightarrow> \<not> has_key (st_services s) i)
       (services (st_template s))"

definition manually_stopped :: "runner_state \<Rightarrow> bool" where
  "manually_stopped s = list_ex si_manually_stopped (dict_values (st_services s))"

definition blocked_service :: "runner_state \<Rightarrow> bool" where
  "blocked_service s =
     list_ex (\<lambda>i. si_blocked i \<noteq> None \<or> si_manually_stopped i) (dict_values (st_services s))"

definition clear_conditional_pause :: "runner_state \<Rightarrow> runner_state" where
  "clear_conditional_pause s =
     (if decision_command (st_last_decision s) = Some PauseCommand
      then s\<lparr>st_last_decision := None\<rparr> else s)"

section \<open>Pause and resume\<close>

definition request_pause :: "(dag_runner, unit) py" where
  "request_pause = py_read (\<lambda>r.
     if rn_task r \<noteq> DagRunning then py_raise RuntimeError
     else py_modify (\<lambda>r. on_state (\<lambda>s. s\<lparr>st_pause_requested := True\<rparr>) (pause_mode r)))"

definition settle_pause :: "(dag_runner, unit) py" where
  "settle_pause = py_read (\<lambda>r.
     py_bind (py_lift (require_active r)) (\<lambda>_.
       py_modify (on_state (\<lambda>s. let s = s\<lparr>st_mode := PausedMode\<rparr> in
         if st_phase s = PhaseStarting then s\<lparr>st_phase := PhaseWaiting\<rparr> else s))))"

text \<open>
  \<^verbatim>\<open>pause\<close>. Waiting for the events is a suspension at whose end both are set.
\<close>

definition pause :: "scheduler_env \<Rightarrow> (dag_runner, unit) py" where
  "pause env =
     py_then request_pause
    (py_then (save_state env)
    (py_then (suspend env (\<lambda>n. None) id)
    (py_then settle_pause (save_state env))))"

definition resume_now :: "journal_status option \<Rightarrow> (dag_runner, unit) py" where
  "resume_now status = py_read (\<lambda>r.
     if rn_task r = NoDagTask then py_raise RuntimeError
     else py_bind (py_lift (require_active r)) (\<lambda>_.
       py_then (py_modify (update_journal_pause status))
         (py_read (\<lambda>r. let s = rn_state r in
            if rn_journal_pause r \<noteq> None then py_raise RuntimeError
            else if missing_service s then py_raise RuntimeError
            else if rn_maintenance r \<or> st_active_attempt s \<noteq> None \<and> rn_stage_task r = None
            then py_raise RuntimeError
            else if blocked_service s \<or> rn_service_retrying r then py_raise RuntimeError
            else py_modify (\<lambda>r. on_state (\<lambda>s. clear_conditional_pause
                     (s\<lparr>st_mode := RunningMode, st_pause_requested := False\<rparr>))
                   (r\<lparr>rn_desired_mode := RunningMode\<rparr>))))))"

definition resume :: "scheduler_env \<Rightarrow> journal_status option \<Rightarrow> (dag_runner, unit) py" where
  "resume env status =
     py_then (resume_now status)
    (py_then (save_state env) (py_modify (\<lambda>r. r\<lparr>rn_wake := True\<rparr>)))"

section \<open>Stepping and rerunning\<close>

definition step_guard :: "dag_runner \<Rightarrow> unit result" where
  "step_guard r =
     (let s = rn_state r in
      if rn_maintenance r then Inl RuntimeError
      else if rn_task r = NoDagTask then Inl RuntimeError
      else res_bind (require_active r) (\<lambda>_.
        if st_mode s \<noteq> PausedMode \<or> \<not> rn_idle r \<or> rn_step r \<or> rn_service_retrying r
        then Inl RuntimeError
        else if manually_stopped s then Inl RuntimeError
        else if missing_service s then Inl RuntimeError
        else Inr ()))"

definition arm_step :: "dag_runner \<Rightarrow> dag_runner" where
  "arm_step r = on_state clear_conditional_pause (r\<lparr>rn_step := True, rn_wake := True\<rparr>)"

definition step_now :: "(dag_runner, unit) py" where
  "step_now = py_read (\<lambda>r. py_bind (py_lift (step_guard r)) (\<lambda>_. py_modify arm_step))"

definition rerun_stage :: "int \<Rightarrow> (dag_runner, unit) py" where
  "rerun_stage position = py_read (\<lambda>r.
     if rn_maintenance r then py_raise RuntimeError
     else py_bind (py_lift (require_active r)) (\<lambda>_.
       if position \<noteq> st_stage_position (rn_state r) \<or> st_mode (rn_state r) \<noteq> PausedMode
          \<or> \<not> rn_idle r
       then py_raise RuntimeError
       else py_then (py_modify (\<lambda>r. r\<lparr>rn_pending_advance := False, rn_manual := True\<rparr>)) step_now))"

section \<open>Moving the cursor\<close>

definition move_cursor :: "int \<Rightarrow> (dag_runner, unit) py" where
  "move_cursor position = py_read (\<lambda>r.
     if rn_maintenance r then py_raise RuntimeError
     else py_bind (py_lift (require_active r)) (\<lambda>_.
       if st_mode (rn_state r) \<noteq> PausedMode \<or> \<not> rn_idle r then py_raise RuntimeError
       else if \<not> (1 \<le> position \<and> position \<le> int (length (stages (st_template (rn_state r)))))
       then py_raise ValueError
       else py_modify (\<lambda>r. on_state (\<lambda>s.
              let s = s\<lparr>st_stage_position := position, st_pending_input := None,
                        st_last_decision := None, st_pending_decision := None\<rparr>
              in if \<not> List.member (dict_values (st_result_ids s)) (st_last_result_id s)
                 then s\<lparr>st_last_result := JNull, st_last_result_id := None\<rparr> else s)
            (r\<lparr>rn_pending_advance := False\<rparr>))))"

definition move :: "scheduler_env \<Rightarrow> int \<Rightarrow> (dag_runner, unit) py" where
  "move env position = py_then (move_cursor position) (save_state env)"

section \<open>Retry counters\<close>

datatype module_role = StageModule | ServiceModule

record reset_count =
  rc_identifier :: "string option"
  rc_previous :: nat

definition reset_retry_count :: "module_role \<Rightarrow> int \<Rightarrow> (dag_runner, reset_count) py" where
  "reset_retry_count kind position = py_read (\<lambda>r.
     if rn_maintenance r then py_raise RuntimeError
     else py_bind (py_lift (require_active r)) (\<lambda>_. let s = rn_state r in
       if st_mode s \<noteq> PausedMode then py_raise RuntimeError
       else case kind of
         ServiceModule \<Rightarrow>
           if rn_service_retrying r then py_raise RuntimeError
           else if \<not> (1 \<le> position \<and> position \<le> int (length (services (st_template s))))
           then py_raise ValueError
           else (let i = sv_service_id (services (st_template s) ! nat (position - 1)) in
             case Option.bind i (map_of (st_services s)) of
               None \<Rightarrow> py_raise ValueError
             | Some v \<Rightarrow>
                 py_then (py_modify (on_state (\<lambda>s. s\<lparr>st_services :=
                     AList.update (the i) (v\<lparr>si_restart_count := 0\<rparr>) (st_services s)\<rparr>)))
                   (py_return \<lparr>rc_identifier = i, rc_previous = si_restart_count v\<rparr>))
       | StageModule \<Rightarrow>
           if \<not> (1 \<le> position \<and> position \<le> int (length (stages (st_template s))))
           then py_raise ValueError
           else (case node_stage_id (stages (st_template s) ! nat (position - 1)) of
             None \<Rightarrow> py_raise ValueError
           | Some i \<Rightarrow>
               py_then (py_modify (on_state (\<lambda>s. s\<lparr>st_retry_counts :=
                   AList.update i 0 (st_retry_counts s)\<rparr>)))
                 (py_return \<lparr>rc_identifier = Some i, rc_previous = dict_get (st_retry_counts s) i 0\<rparr>))))"

definition reset_retries ::
    "scheduler_env \<Rightarrow> module_role \<Rightarrow> int \<Rightarrow> (dag_runner, reset_count) py" where
  "reset_retries env kind position =
     py_bind (reset_retry_count kind position) (\<lambda>c. py_then (save_state env) (py_return c))"

section \<open>The other tasks\<close>

text \<open>
  What the stage task may do to the state while it runs: replace its attempt, which belongs to
  the stage at the cursor, count attempts and retries, allocate request IDs, act on services,
  and, for a manual run, drop the current result of its stage.
\<close>

inductive stage_progress :: "runner_state \<Rightarrow> runner_state \<Rightarrow> bool" where
  Work: "(\<And>b. a = Some b \<Longrightarrow> cursor_stage s = Some (at_stage_id b)) \<Longrightarrow>
     stage_progress s (s\<lparr>st_active_attempt := a, st_retry_counts := rc, st_attempt_numbers := an,
       st_used_request_ids := ids, st_recovery_count := n, st_services := sv\<rparr>)"
| Manual: "cursor_stage s = Some i \<Longrightarrow> stage_progress s (drop_result i s)"

text \<open>
  The outcome of a stage task belongs to the stage at the cursor; a successful result of a
  conditional stage carries a decision for this DAG, as \<^verbatim>\<open>_accept\<close> normalized it.
\<close>

definition outcome_fits :: "runner_state \<Rightarrow> stage_outcome \<Rightarrow> bool" where
  "outcome_fits s oc \<longleftrightarrow>
     cursor_stage s = Some (at_stage_id (oc_attempt oc))
     \<and> (\<forall>r n. oc_result oc = Some r \<longrightarrow> or_result r = SuccessResult \<longrightarrow> cursor_node s = Some n
          \<longrightarrow> node_conditional n
          \<longrightarrow> (\<exists>d. accepted_decision r = Inr d \<and> dag_decision_ok d
               \<and> (dd_command d = Some MoveCommand \<longrightarrow> known_stage s (dd_target d))))"

inductive actor_step :: "dag_runner \<Rightarrow> dag_runner \<Rightarrow> bool" where
  Pause: "request_pause r = (x, r') \<Longrightarrow> actor_step r r'"
| PauseSettled: "rn_ready r \<Longrightarrow> rn_idle r \<Longrightarrow> settle_pause r = (x, r') \<Longrightarrow> actor_step r r'"
| Resume: "rn_ready r \<Longrightarrow> resume_now status r = (x, r') \<Longrightarrow> actor_step r r'"
| Wake: "actor_step r (r\<lparr>rn_wake := True\<rparr>)"
| Step: "rn_ready r \<Longrightarrow> step_now r = (x, r') \<Longrightarrow> actor_step r r'"
| StepCancelled: "actor_step r (r\<lparr>rn_step := False\<rparr>)"
| Rerun: "rn_ready r \<Longrightarrow> rerun_stage p r = (x, r') \<Longrightarrow> actor_step r r'"
| Move: "move_cursor p r = (x, r') \<Longrightarrow> actor_step r r'"
| Reset: "reset_retry_count kind p r = (y, r') \<Longrightarrow> actor_step r r'"
| Journal: "actor_step r (update_journal_pause status r)"
| Stage: "rn_stage_task r = Some TaskRunning \<Longrightarrow> stage_progress (rn_state r) s \<Longrightarrow>
     actor_step r (r\<lparr>rn_state := s\<rparr>)"
| StageDone: "rn_stage_task r = Some TaskRunning \<Longrightarrow> outcome_fits (rn_state r) oc \<Longrightarrow>
     actor_step r (r\<lparr>rn_stage_task := Some (TaskFinished oc)\<rparr>)"
| StageRaised: "rn_stage_task r = Some TaskRunning \<Longrightarrow>
     actor_step r (r\<lparr>rn_stage_task := Some (TaskRaised e)\<rparr>)"
| Services: "actor_step r (on_state (\<lambda>s. s\<lparr>st_services := sv, st_used_request_ids := ids,
     st_stable_snapshot := snap\<rparr>) (r\<lparr>rn_service_task := t, rn_service_retrying := b\<rparr>))"
| ReadinessDone: "rn_readiness r = Some TaskRunning \<Longrightarrow> actor_step r (r\<lparr>rn_readiness := Some t\<rparr>)"
| StopRequested: "actor_step r (r\<lparr>rn_stop_requested := True\<rparr>)"
| Checkpoint: "set l \<subseteq> range EffSaved \<Longrightarrow> actor_step r (r\<lparr>rn_ticks := n, rn_log := rn_log r @ l,
     rn_state := (rn_state r)\<lparr>st_pending_advance := rn_pending_advance r, st_checkpoint_id := c,
       st_owner := p\<rparr>\<rparr>)"

definition considerate :: "scheduler_env \<Rightarrow> bool" where
  "considerate env \<longleftrightarrow> (\<forall>n r. actor_step\<^sup>*\<^sup>* r (sch_others env n r))"

section \<open>Stopping\<close>

text \<open>
  \<^verbatim>\<open>stop\<close> called by another task: the scheduler is cancelled, so its \<^verbatim>\<open>finally\<close> block runs, before
  the shutdown proper.
\<close>

definition stop_now :: "scheduler_env \<Rightarrow> (dag_runner, unit) py" where
  "stop_now env = py_then (py_modify leave_loop) (stop_runner env True)"

text \<open>
  The system: the scheduler's turns interleaved with the other tasks. A turn that leaves the
  loop or raises ends the scheduler.
\<close>

inductive runner_step :: "scheduler_env \<Rightarrow> dag_runner \<Rightarrow> dag_runner \<Rightarrow> bool" for env where
  Actor: "actor_step r r' \<Longrightarrow> runner_step env r r'"
| Turn: "rn_task r = DagRunning \<Longrightarrow> advance_once env r = (Inr LoopContinue, r') \<Longrightarrow>
     runner_step env r r'"
| Finish: "rn_task r = DagRunning \<Longrightarrow> advance_once env r = (Inr LoopExit, r') \<Longrightarrow>
     runner_step env r (leave_loop r')"
| Fail: "rn_task r = DagRunning \<Longrightarrow> advance_once env r = (Inl e, r') \<Longrightarrow>
     fail_runner env e r' = (x, r'') \<Longrightarrow> runner_step env r (leave_loop r'')"
| Stop: "stop_now env r = (x, r') \<Longrightarrow> runner_step env r r'"

end
