(* ===== verification/Dag_Invariants.thy ===== *)
theory Dag_Invariants
  imports Dag_Actors
begin

text \<open>
  The invariant of the scheduler. \<open>runner_inv\<close> holds whenever a task of the runner suspends, so
  at every checkpoint; \<open>settled_loop\<close> holds in addition between two turns of the scheduler.
  Every control operation and every handler keeps the invariant, whatever the other tasks
  (\<open>considerate\<close>) do meanwhile.
\<close>

section \<open>The invariant\<close>

definition dag_ok :: "('p, 'ids, 'z) checkpoint_scheme \<Rightarrow> bool" where
  "dag_ok s \<longleftrightarrow> stages (st_template s) \<noteq> [] \<and> distinct (map node_stage_id (stages (st_template s)))
     \<and> 1 \<le> st_stage_position s \<and> st_stage_position s \<le> int (length (stages (st_template s)))
     \<and> 1 \<le> st_cycle_number s \<and> st_cycle_number s \<le> cycles (st_template s)
     \<and> validate_transitions s
     \<and> (\<forall>k. has_key (st_result_origins s) k \<longrightarrow> has_key (st_result_ids s) k)"

definition pausing :: "dag_runner \<Rightarrow> bool" where
  "pausing r \<longleftrightarrow> decision_command (st_last_decision (rn_state r)) = Some PauseCommand"

definition runner_inv :: "dag_runner \<Rightarrow> bool" where
  "runner_inv r \<longleftrightarrow> dag_ok (rn_state r)
     \<and> (pausing r \<longrightarrow> st_mode (rn_state r) = PausedMode \<and> rn_desired_mode r = PausedMode)
     \<and> (rn_stage_task r \<noteq> None \<longrightarrow> \<not> rn_idle r \<and> st_pending_decision (rn_state r) = None)
     \<and> (\<forall>oc. rn_stage_task r = Some (TaskFinished oc) \<longrightarrow> outcome_fits (rn_state r) oc)"

definition settled_loop :: "dag_runner \<Rightarrow> bool" where
  "settled_loop r \<longleftrightarrow> st_pending_decision (rn_state r) = None \<and> (pausing r \<longrightarrow> \<not> rn_step r)
     \<and> (rn_readiness r \<noteq> None \<longrightarrow> rn_stage_task r = None)"

lemma dag_ok_cong:
  assumes "dag_ok s" "st_template t = st_template s" "st_stage_position t = st_stage_position s"
    "st_cycle_number t = st_cycle_number s" "validate_transitions t"
    "\<And>k. has_key (st_result_origins t) k \<Longrightarrow> has_key (st_result_ids t) k"
  shows "dag_ok t"
  using assms unfolding dag_ok_def by simp

lemma cursor_simps [simp]:
  "cursor_node (s\<lparr>st_mode := m\<rparr>) = cursor_node s"
  "cursor_node (s\<lparr>st_active_attempt := a\<rparr>) = cursor_node s"
  by (simp_all add: cursor_node_def)

text \<open>Two states that agree on what the transitions are checked against.\<close>

definition same_dag :: "('p, 'i, 'z) checkpoint_scheme \<Rightarrow> ('p, 'i, 'z) checkpoint_scheme \<Rightarrow> bool" where
  "same_dag s t \<longleftrightarrow> st_template t = st_template s \<and> st_stage_position t = st_stage_position s
     \<and> st_cycle_number t = st_cycle_number s \<and> st_last_decision t = st_last_decision s
     \<and> st_pending_decision t = st_pending_decision s \<and> st_pending_input t = st_pending_input s
     \<and> st_result_ids t = st_result_ids s \<and> st_result_origins t = st_result_origins s
     \<and> st_last_result_id t = st_last_result_id s"

lemma same_dag_refl [simp]: "same_dag s s"
  by (simp add: same_dag_def)

lemma same_dag_cursor: "same_dag s t \<Longrightarrow> cursor_node t = cursor_node s \<and> cursor_stage t = cursor_stage s"
  by (simp add: same_dag_def cursor_node_def cursor_stage_def)

lemma same_dag_known: "same_dag s t \<Longrightarrow> known_stage t = known_stage s"
  by (simp add: same_dag_def known_stage_def fun_eq_iff)

lemma same_dag_transitions:
  assumes "same_dag s t" "validate_transitions s"
    "st_pending_decision s \<noteq> None \<Longrightarrow> st_active_attempt t = None"
  shows "validate_transitions t"
  using assms same_dag_cursor [OF assms(1)] same_dag_known [OF assms(1)]
  by (cases "st_pending_decision s") (auto simp: validate_transitions_def same_dag_def)

lemma same_dag_ok:
  "same_dag s t \<Longrightarrow> dag_ok s \<Longrightarrow> (st_pending_decision s \<noteq> None \<Longrightarrow> st_active_attempt t = None) \<Longrightarrow> dag_ok t"
  using same_dag_transitions [of s t] unfolding dag_ok_def by (auto simp: same_dag_def)

lemma same_dag_fits: "same_dag s t \<Longrightarrow> outcome_fits t oc = outcome_fits s oc"
  using same_dag_cursor [of s t] same_dag_known [of s t] by (auto simp: outcome_fits_def)

lemma pending_inactive: "dag_ok s \<Longrightarrow> st_pending_decision s \<noteq> None \<Longrightarrow> st_active_attempt s = None"
  by (auto simp: dag_ok_def validate_transitions_def)

text \<open>Changes of the object that do not concern the DAG.\<close>

lemma runner_inv_same:
  assumes "runner_inv r" "same_dag (rn_state r) (rn_state r')"
    "st_active_attempt (rn_state r) = None \<Longrightarrow> st_active_attempt (rn_state r') = None"
    "pausing r \<Longrightarrow> st_mode (rn_state r') = PausedMode \<and> rn_desired_mode r' = PausedMode"
    "rn_stage_task r' = rn_stage_task r" "rn_idle r' = rn_idle r"
  shows "runner_inv r'"
proof -
  have ok: "dag_ok (rn_state r)" using assms(1) by (simp add: runner_inv_def)
  have "dag_ok (rn_state r')"
    by (rule same_dag_ok [OF assms(2) ok assms(3) [OF pending_inactive [OF ok]]])
  moreover have "pausing r' = pausing r" "st_pending_decision (rn_state r') = st_pending_decision (rn_state r)"
    using assms(2) by (auto simp: pausing_def same_dag_def)
  ultimately show ?thesis
    using assms same_dag_fits [OF assms(2)] unfolding runner_inv_def by auto
qed

section \<open>The other tasks keep it\<close>

lemma same_result_cases:
  "py_bind (py_lift r) f s = (case r of Inl e \<Rightarrow> (Inl e, s) | Inr x \<Rightarrow> f x s)"
  by (simp add: py_bind_def split: sum.splits)

lemmas run_actor = same_result_cases py_then_run py_bind_run Let_def

lemma inv_pausing:
  "runner_inv r \<Longrightarrow> pausing r \<Longrightarrow> st_mode (rn_state r) = PausedMode \<and> rn_desired_mode r = PausedMode"
  by (simp add: runner_inv_def)

lemma request_pause_inv: "runner_inv r \<Longrightarrow> runner_inv (snd (request_pause r))"
  by (rule runner_inv_same [of r])
    (auto simp: request_pause_def pause_mode_def same_dag_def inv_pausing)

lemma settle_pause_inv: "runner_inv r \<Longrightarrow> runner_inv (snd (settle_pause r))"
  by (rule runner_inv_same [of r])
    (auto simp: settle_pause_def run_actor same_dag_def inv_pausing split: sum.splits)

lemma journal_inv: "runner_inv r \<Longrightarrow> runner_inv (update_journal_pause status r)"
  by (rule runner_inv_same [of r])
    (auto simp: update_journal_pause_def same_dag_def inv_pausing Let_def split: option.splits)

lemma clear_pause_inv:
  assumes "runner_inv r"
  shows "runner_inv (on_state clear_conditional_pause r)"
proof (cases "pausing r")
  case True
  then have "st_pending_decision (rn_state r) = None"
    using assms
    by (auto simp: runner_inv_def dag_ok_def validate_transitions_def pausing_def decision_command_def
        optional_def split: option.splits)
  then show ?thesis
    using assms True
    by (auto simp: runner_inv_def clear_conditional_pause_def pausing_def decision_command_def dag_ok_def
        validate_transitions_def optional_def cursor_stage_def cursor_node_def known_stage_def
        outcome_fits_def split: option.splits)
next
  case False
  then show ?thesis
    using assms by (auto simp: clear_conditional_pause_def pausing_def)
qed

lemma clear_not_pausing: "\<not> pausing (on_state clear_conditional_pause r)"
  by (simp add: pausing_def clear_conditional_pause_def decision_command_def)

lemma resume_inv: "runner_inv r \<Longrightarrow> runner_inv (snd (resume_now status r))"
proof -
  assume inv: "runner_inv r"
  let ?u = "update_journal_pause status r"
  let ?c = "on_state clear_conditional_pause ?u"
  have u: "runner_inv ?u" by (rule journal_inv [OF inv])
  have c: "runner_inv ?c" by (rule clear_pause_inv [OF u])
  have "runner_inv (on_state (\<lambda>s. clear_conditional_pause
      (s\<lparr>st_mode := RunningMode, st_pause_requested := False\<rparr>)) (?u\<lparr>rn_desired_mode := RunningMode\<rparr>))"
    by (rule runner_inv_same [OF c])
      (simp_all only: clear_not_pausing, auto simp: same_dag_def clear_conditional_pause_def split: if_splits)
  then show ?thesis
    using inv u by (auto simp: resume_now_def run_actor split: sum.splits)
qed

lemma arm_inv: "runner_inv r \<Longrightarrow> runner_inv (arm_step r)"
  by (rule runner_inv_same [OF clear_pause_inv [of r]])
    (auto simp: arm_step_def clear_not_pausing)

lemma step_inv: "runner_inv r \<Longrightarrow> runner_inv (snd (step_now r))"
  by (auto simp: step_now_def run_actor arm_inv split: sum.splits)

lemma rerun_inv: "runner_inv r \<Longrightarrow> runner_inv (snd (rerun_stage p r))"
proof -
  assume inv: "runner_inv r"
  have "runner_inv (r\<lparr>rn_pending_advance := False, rn_manual := True\<rparr>)"
    by (rule runner_inv_same [OF inv]) (auto simp: inv_pausing [OF inv])
  from step_inv [OF this] inv show ?thesis
    by (auto simp: rerun_stage_def run_actor step_now_def split: sum.splits)
qed

lemma move_inv: "runner_inv r \<Longrightarrow> runner_inv (snd (move_cursor p r))"
  by (auto simp: move_cursor_def run_actor runner_inv_def dag_ok_def validate_transitions_def
      pausing_def decision_command_def split: sum.splits)

lemma reset_inv: "runner_inv r \<Longrightarrow> runner_inv (snd (reset_retry_count kind p r))"
  by (rule runner_inv_same [of r])
    (auto simp: reset_retry_count_def run_actor same_dag_def inv_pausing
      split: sum.splits option.splits module_role.splits)

lemma stage_progress_same:
  "stage_progress s t \<Longrightarrow> st_pending_decision s = None \<Longrightarrow> dag_ok s \<Longrightarrow>
     dag_ok t \<and> (\<forall>oc. outcome_fits t oc = outcome_fits s oc) \<and> st_pending_decision t = None
     \<and> st_last_decision t = st_last_decision s \<and> st_mode t = st_mode s
     \<and> st_template t = st_template s"
proof (elim stage_progress.cases)
  fix s' a rc an ids n sv
  assume eq: "s = s'" "t = s'\<lparr>st_active_attempt := a, st_retry_counts := rc, st_attempt_numbers := an,
       st_used_request_ids := ids, st_recovery_count := n, st_services := sv\<rparr>"
    and ok: "st_pending_decision s = None" "dag_ok s"
  have "same_dag s t" by (simp add: same_dag_def eq)
  from same_dag_ok [OF this] same_dag_fits [OF this] ok eq show ?thesis by simp
next
  fix s' i
  assume eq: "s = s'" "t = drop_result i s'" and ok: "st_pending_decision s = None" "dag_ok s"
  have "outcome_fits t oc = outcome_fits s oc" for oc
    by (simp add: eq outcome_fits_def drop_result_def cursor_stage_def cursor_node_def known_stage_def)
  then show ?thesis
    using ok by (auto simp: eq drop_result_def dag_ok_def validate_transitions_def cursor_stage_def
        cursor_node_def known_stage_def)
qed

text \<open>What the other tasks leave alone, whatever they do.\<close>

definition undisturbed :: "dag_runner \<Rightarrow> dag_runner \<Rightarrow> bool" where
  "undisturbed r r' \<longleftrightarrow> rn_idle r' = rn_idle r \<and> st_template (rn_state r') = st_template (rn_state r)
     \<and> (rn_stage_task r = None \<longrightarrow> rn_stage_task r' = None)
     \<and> (rn_readiness r = None \<longrightarrow> rn_readiness r' = None)
     \<and> (st_pending_decision (rn_state r) = None \<longrightarrow> st_pending_decision (rn_state r') = None)
     \<and> (settled_loop r \<longrightarrow> settled_loop r') \<and> rn_task r' = rn_task r
     \<and> (\<not> rn_ready r \<and> \<not> rn_step r \<longrightarrow> \<not> rn_ready r' \<and> \<not> rn_step r')"

lemma undisturbed_refl: "undisturbed r r"
  by (simp add: undisturbed_def)

lemma undisturbed_trans: "undisturbed r s \<Longrightarrow> undisturbed s t \<Longrightarrow> undisturbed r t"
  by (simp add: undisturbed_def)

lemmas undisturbed_simps = undisturbed_def settled_loop_def pausing_def

lemma clear_undisturbed: "undisturbed r (on_state clear_conditional_pause r)"
  by (simp add: undisturbed_simps clear_conditional_pause_def decision_command_def)

lemma pause_undisturbed:
  "undisturbed r (snd (request_pause r))" "undisturbed r (snd (settle_pause r))"
  by (auto simp: request_pause_def settle_pause_def pause_mode_def undisturbed_simps run_actor
      split: sum.splits)

lemma journal_undisturbed: "undisturbed r (update_journal_pause status r)"
  by (auto simp: update_journal_pause_def undisturbed_simps Let_def split: option.splits)

lemma resume_undisturbed: "undisturbed r (snd (resume_now status r))"
proof -
  let ?u = "update_journal_pause status r"
  have "undisturbed ?u (on_state (\<lambda>s. clear_conditional_pause
      (s\<lparr>st_mode := RunningMode, st_pause_requested := False\<rparr>)) (?u\<lparr>rn_desired_mode := RunningMode\<rparr>))"
    by (simp add: undisturbed_simps clear_conditional_pause_def decision_command_def)
  from undisturbed_trans [OF journal_undisturbed this] show ?thesis
    using journal_undisturbed [of r status] undisturbed_refl [of r]
    by (auto simp: resume_now_def run_actor split: sum.splits)
qed

lemma arm_undisturbed: "rn_ready r \<Longrightarrow> undisturbed r (arm_step r)"
  by (simp add: arm_step_def undisturbed_simps clear_conditional_pause_def decision_command_def)

lemma step_undisturbed: "rn_ready r \<Longrightarrow> undisturbed r (snd (step_now r))"
  by (auto simp: step_now_def run_actor arm_undisturbed undisturbed_refl split: sum.splits)

lemma rerun_undisturbed: "rn_ready r \<Longrightarrow> undisturbed r (snd (rerun_stage p r))"
proof -
  assume ready: "rn_ready r"
  let ?m = "r\<lparr>rn_pending_advance := False, rn_manual := True\<rparr>"
  have "undisturbed r ?m" by (simp add: undisturbed_simps)
  from undisturbed_trans [OF this step_undisturbed] ready show ?thesis
    by (auto simp: rerun_stage_def run_actor undisturbed_refl split: sum.splits)
qed

lemma move_undisturbed: "undisturbed r (snd (move_cursor p r))"
  by (auto simp: move_cursor_def run_actor undisturbed_simps decision_command_def split: sum.splits)

lemma reset_undisturbed: "undisturbed r (snd (reset_retry_count kind p r))"
  by (auto simp: reset_retry_count_def run_actor undisturbed_simps
      split: sum.splits option.splits module_role.splits)

lemma actor_step_keeps:
  assumes "actor_step r r'" "runner_inv r"
  shows "runner_inv r' \<and> undisturbed r r'"
  using assms(1)
proof cases
  case (Pause x)
  then show ?thesis using request_pause_inv [OF assms(2)] pause_undisturbed(1) [of r] by simp
next
  case (PauseSettled x)
  then show ?thesis using settle_pause_inv [OF assms(2)] pause_undisturbed(2) [of r] by simp
next
  case (Resume status x)
  then show ?thesis using resume_inv [OF assms(2), of status] resume_undisturbed [of r status] by simp
next
  case (Step x)
  then show ?thesis using step_inv [OF assms(2)] step_undisturbed [of r] by simp
next
  case (Rerun p x)
  then show ?thesis using rerun_inv [OF assms(2), of p] rerun_undisturbed [of r p] by simp
next
  case (Move p x)
  then show ?thesis using move_inv [OF assms(2), of p] move_undisturbed [of r p] by simp
next
  case (Reset kind p y)
  then show ?thesis using reset_inv [OF assms(2), of kind p] reset_undisturbed [of r kind p] by simp
next
  case (Journal status)
  then show ?thesis using journal_inv [OF assms(2), of status] journal_undisturbed by simp
next
  case (Stage s)
  have "st_pending_decision (rn_state r) = None" "dag_ok (rn_state r)"
    using assms(2) Stage by (auto simp: runner_inv_def)
  from stage_progress_same [OF Stage(3) this] show ?thesis
    using assms(2) Stage by (auto simp: runner_inv_def undisturbed_simps)
next
  case (StageDone oc)
  then show ?thesis using assms(2) by (auto simp: runner_inv_def pausing_def undisturbed_simps)
next
  case (StageRaised e)
  then show ?thesis using assms(2) by (auto simp: runner_inv_def pausing_def undisturbed_simps)
next
  case (Services sv ids snap t b)
  then have "runner_inv r'"
    by (intro runner_inv_same [OF assms(2)]) (auto simp: same_dag_def inv_pausing [OF assms(2)])
  then show ?thesis using Services by (simp add: undisturbed_simps)
next
  case (Checkpoint n l c p)
  then have "runner_inv r'"
    by (intro runner_inv_same [OF assms(2)]) (auto simp: same_dag_def inv_pausing [OF assms(2)])
  then show ?thesis using Checkpoint by (simp add: undisturbed_simps)
qed (use assms(2) in \<open>auto simp: runner_inv_def undisturbed_simps\<close>)

lemma actors_keep:
  "actor_step\<^sup>*\<^sup>* r r' \<Longrightarrow> runner_inv r \<Longrightarrow> runner_inv r' \<and> undisturbed r r'"
proof (induction rule: rtranclp_induct)
  case (step s t)
  then show ?case using actor_step_keeps [of s t] undisturbed_trans [of r s t] by blast
qed (simp add: undisturbed_refl)

section \<open>Suspensions\<close>

text \<open>Predicates that include the invariant and that no other task can falsify.\<close>

definition stable :: "(dag_runner \<Rightarrow> bool) \<Rightarrow> bool" where
  "stable P \<longleftrightarrow> (\<forall>r. P r \<longrightarrow> runner_inv r)
     \<and> (\<forall>r r'. P r \<longrightarrow> runner_inv r' \<longrightarrow> undisturbed r r' \<longrightarrow> P r')"

lemma stableD: "stable P \<Longrightarrow> P r \<Longrightarrow> runner_inv r' \<Longrightarrow> undisturbed r r' \<Longrightarrow> P r'"
  unfolding stable_def by blast

lemma stable_inv: "stable P \<Longrightarrow> P r \<Longrightarrow> runner_inv r"
  unfolding stable_def by blast

definition harmless :: "(dag_runner \<Rightarrow> dag_runner) \<Rightarrow> bool" where
  "harmless f \<longleftrightarrow> (\<forall>r. runner_inv r \<longrightarrow> runner_inv (f r) \<and> undisturbed r (f r))"

lemma stable_harmless: "stable P \<Longrightarrow> harmless f \<Longrightarrow> P r \<Longrightarrow> P (f r)"
  unfolding harmless_def by (blast intro: stableD stable_inv)

lemma harmless_comp: "harmless f \<Longrightarrow> harmless g \<Longrightarrow> harmless (\<lambda>r. g (f r))"
  unfolding harmless_def using undisturbed_trans by blast

lemma harmless_tick: "harmless (\<lambda>r. r\<lparr>rn_ticks := h r\<rparr>)"
  by (auto simp: harmless_def runner_inv_def undisturbed_simps)

lemma harmless_log: "harmless (log_effect e)"
  by (auto simp: harmless_def log_effect_def runner_inv_def undisturbed_simps)

lemma harmless_log_of: "harmless (\<lambda>r. log_effect (e r) r)"
  by (auto simp: harmless_def log_effect_def runner_inv_def undisturbed_simps)

lemma harmless_others: "considerate env \<Longrightarrow> harmless (sch_others env n)"
  unfolding considerate_def harmless_def using actors_keep by blast

lemma harmless_settle: "harmless (settle_step o')"
  by (auto simp: harmless_def settle_step_def log_effect_def runner_inv_def undisturbed_simps)

lemma harmless_mark: "harmless (mark_checkpoint env)"
  unfolding harmless_def mark_checkpoint_def
proof (intro allI impI conjI)
  fix r
  assume inv: "runner_inv r"
  show "runner_inv (on_state (\<lambda>s. s\<lparr>st_pending_advance := rn_pending_advance r,
      st_checkpoint_id := Some (sch_uuid env (rn_ticks r)), st_owner := Some (sch_owner env)\<rparr>) r)"
    by (rule runner_inv_same [OF inv]) (auto simp: same_dag_def inv_pausing [OF inv])
qed (simp add: undisturbed_simps)

lemma holds_modify_stable:
  "stable P \<Longrightarrow> harmless f \<Longrightarrow> holds P (py_modify f) (\<lambda>x. P) E"
  by (rule holds_modify, rule stable_harmless [where P = P and f = f])

lemma holds_suspend:
  assumes "stable P" "considerate env" "harmless f"
  shows "holds P (suspend env raised f) (\<lambda>x. P) P"
proof -
  have 1: "P (sch_others env n (r\<lparr>rn_ticks := m\<rparr>))" if "P r" for n m r
    by (rule stable_harmless [OF assms(1) harmless_comp [OF harmless_tick harmless_others [OF assms(2)]] that])
  have 2: "P (sch_others env n (f (r\<lparr>rn_ticks := m\<rparr>)))" if "P r" for n m r
    by (rule stable_harmless [OF assms(1) harmless_comp [OF harmless_comp [OF harmless_tick assms(3)]
          harmless_others [OF assms(2)]] that])
  show ?thesis
    unfolding suspend_def Let_def
    by (intro holds_read)
      (auto intro!: holds_then [where R = P] holds_modify holds_raise 1 2 split: option.splits)
qed

lemma holds_save:
  assumes "stable P" "considerate env"
  shows "holds P (save_state env) (\<lambda>x. P) P"
  unfolding save_state_def prepare_state_save_def
  by (rule holds_bind [where R = "\<lambda>x. P"])
    (auto intro!: holds_then [OF holds_modify_stable] holds_read holds_lift holds_suspend
      assms harmless_mark harmless_log)

section \<open>Harmless changes\<close>

lemma harmlessI:
  assumes "\<And>r. same_dag (rn_state r) (rn_state (f r))
     \<and> (st_active_attempt (rn_state r) = None \<longrightarrow> st_active_attempt (rn_state (f r)) = None)
     \<and> (st_mode (rn_state (f r)) = st_mode (rn_state r) \<or> st_mode (rn_state (f r)) = PausedMode)
     \<and> (rn_desired_mode (f r) = rn_desired_mode r \<or> rn_desired_mode (f r) = PausedMode)
     \<and> rn_stage_task (f r) = rn_stage_task r \<and> rn_idle (f r) = rn_idle r \<and> rn_readiness (f r) = rn_readiness r
     \<and> rn_ready (f r) = rn_ready r
     \<and> (rn_step (f r) \<longrightarrow> rn_step r) \<and> rn_task (f r) = rn_task r"
  shows "harmless f"
  unfolding harmless_def
proof (intro allI impI conjI)
  fix r
  assume inv: "runner_inv r"
  show "runner_inv (f r)"
    by (rule runner_inv_same [OF inv]) (use assms [of r] inv_pausing [OF inv] in auto)
  show "undisturbed r (f r)"
    using assms [of r] by (auto simp: undisturbed_simps same_dag_def)
qed

lemma holds_save_weak:
  "stable P \<Longrightarrow> considerate env \<Longrightarrow> (\<And>t. P t \<Longrightarrow> E t) \<Longrightarrow> holds P (save_state env) (\<lambda>x. P) E"
  by (rule holds_weaken [OF holds_save [of P env]])

lemma harmless_cond: "harmless f \<Longrightarrow> harmless (\<lambda>r. if p r then f r else r)"
  unfolding harmless_def using undisturbed_refl by auto

lemma harmless_phase: "harmless (on_state (\<lambda>s. s\<lparr>st_phase := p s\<rparr>))"
  by (rule harmlessI) (simp add: same_dag_def)

lemma harmless_leave: "harmless leave_snapshot"
  by (rule harmlessI) (simp add: leave_snapshot_def same_dag_def)

lemma harmless_pause_for_services: "harmless pause_for_services"
  by (rule harmlessI) (simp add: pause_for_services_def pause_mode_def same_dag_def)

end
