(* ===== verification/Dag_Stop.thy ===== *)
theory Dag_Stop
  imports Dag_Invariants
begin

text \<open>
  Finalization, failure and shutdown keep the invariant; a shutdown that returns leaves an ended
  runner, and no operation revives it.
\<close>

section \<open>Awaited results\<close>

lemma holds_conj:
  "holds P m Q E \<Longrightarrow> holds P m Q' E' \<Longrightarrow> holds P m (\<lambda>x s. Q x s \<and> Q' x s) (\<lambda>s. E s \<and> E' s)"
  unfolding holds_def by blast

lemma holds_await:
  assumes P: "stable P" and env: "considerate env" and f: "\<And>n. harmless (effect n)"
  shows "holds P (await_result env outcome effect) (\<lambda>x. P) P"
proof -
  have step: "harmless (\<lambda>r. sch_others env n (effect n (r\<lparr>rn_ticks := m r\<rparr>)))" for n m
    by (rule harmless_comp [OF harmless_comp [OF harmless_tick f] harmless_others [OF env]])
  have "holds P (py_then (py_modify (\<lambda>r. sch_others env n (effect n (r\<lparr>rn_ticks := Suc n\<rparr>))))
      (py_lift (outcome n))) (\<lambda>x. P) P" for n
    by (rule holds_then [OF holds_modify_stable [OF P step] holds_lift])
  then show ?thesis
    unfolding await_result_def Let_def by (intro holds_read) (blast intro: holds_weaken)
qed

lemma harmless_id: "harmless id" "harmless (\<lambda>r. r)"
  by (simp_all add: harmless_def undisturbed_refl)

lemma harmless_confirmed: "harmless (set_confirmed b)" "harmless (\<lambda>r. set_confirmed (c r) r)"
  by (rule harmlessI, simp add: set_confirmed_def)+

lemma harmless_pending: "harmless (\<lambda>r. on_state (\<lambda>s. s\<lparr>st_pending_advance := rn_pending_advance r\<rparr>) r)"
  by (rule harmlessI) (simp add: same_dag_def)

lemma harmless_snapshot: "harmless (\<lambda>r. r\<lparr>rn_last_snapshot := s\<rparr>)"
  by (rule harmlessI) simp

lemma harmless_interrupt:
  "harmless (on_state (\<lambda>s. s\<lparr>st_active_attempt := map_option f (st_active_attempt s)\<rparr>))"
  by (rule harmlessI) (simp add: same_dag_def)

lemma harmless_retire: "harmless retire_attempt"
  by (rule harmlessI) (simp add: retire_attempt_def same_dag_def split: option.split)

lemma harmless_finalize: "harmless (finalize_effect env p n)"
  by (rule harmlessI) (auto simp: finalize_effect_def log_effect_def same_dag_def split: sum.split prod.split)

lemma finalize_holds:
  "stable P \<Longrightarrow> considerate env \<Longrightarrow> holds P (finalize_snapshot env p) (\<lambda>x. P) P"
  unfolding finalize_snapshot_def
  by (intro holds_read holds_if holds_raise holds_weaken [OF holds_await [OF _ _ harmless_finalize]]) auto

lemma interrupt_holds:
  "stable P \<Longrightarrow> considerate env \<Longrightarrow> holds P (interrupt_stage env) (\<lambda>x. P) P"
  unfolding interrupt_stage_def by (rule holds_await [OF _ _ harmless_interrupt])

lemma close_services_holds:
  "stable P \<Longrightarrow> considerate env \<Longrightarrow> holds P (close_services env) (\<lambda>x. P) P"
  unfolding close_services_def by (rule holds_suspend [OF _ _ harmless_log])

section \<open>Failure\<close>

lemma failed_participants_holds:
  assumes P: "stable P" and env: "considerate env"
  shows "holds P (stop_failed_participants env) (\<lambda>x. P) P"
proof -
  note unconfirmed = holds_modify_stable [OF P harmless_confirmed(1)]
  note results = holds_modify_stable [OF P harmless_confirmed(2)]
  show ?thesis
    unfolding stop_failed_participants_def
    by (rule holds_then [OF holds_catch [OF holds_bind [OF interrupt_holds [OF P env] unconfirmed] unconfirmed]
          holds_then [OF holds_catch [OF holds_bind [OF holds_await [OF P env harmless_id(1)] results] unconfirmed]
            close_services_holds [OF P env]]])
qed

lemma complete_failure_holds:
  assumes P: "stable P" and env: "considerate env"
  shows "holds P (complete_failure env e) (\<lambda>x. P) P"
proof -
  have request: "harmless (\<lambda>r. log_effect (EffFailed e) (r\<lparr>rn_stop_requested := True\<rparr>))"
    by (rule harmlessI) (simp add: log_effect_def)
  have cancel: "harmless (\<lambda>r. r\<lparr>rn_stage_task := None\<rparr>)"
    by (auto simp: harmless_def runner_inv_def pausing_def undisturbed_simps)
  show ?thesis
    unfolding complete_failure_def
    by (rule holds_then [OF holds_modify_stable [OF P request]
          holds_then [OF holds_suspend [OF P env cancel]
          holds_then [OF failed_participants_holds [OF P env]
          holds_then [OF holds_modify_stable [OF P harmless_phase]
          holds_then [OF holds_catch [OF holds_then [OF holds_suspend [OF P env harmless_id(1)]
              holds_save [OF P env]] holds_modify_stable [OF P harmless_log]]
            holds_modify_stable [OF P harmless_settle]]]]]])
qed

lemma fail_runner_holds:
  assumes P: "stable P" and env: "considerate env"
  shows "holds P (fail_runner env e) (\<lambda>x. P) P"
proof -
  have claim: "harmless (\<lambda>r. r\<lparr>rn_failing := True\<rparr>)" by (rule harmlessI) simp
  note join = holds_suspend [OF P env harmless_id(1)]
  note first = holds_then [OF holds_modify_stable [OF P claim] complete_failure_holds [OF P env]]
  show ?thesis
    unfolding fail_runner_def
    by (intro holds_read holds_if holds_weaken [OF join] holds_weaken [OF first]) auto
qed

section \<open>Shutdown\<close>

lemma stop_stage_holds:
  assumes P: "stable P" and env: "considerate env"
  shows "holds P (stop_stage env audit) (\<lambda>x. P) P"
proof -
  have close: "holds P (py_catch (suspend env (sch_close env) id)
      (\<lambda>e. if logging_error e \<and> \<not> audit then py_return () else py_raise e)) (\<lambda>x. P) P"
    by (rule holds_catch [OF holds_suspend [OF P env harmless_id(1)]])
      (intro holds_if holds_return holds_raise)
  have rest: "holds P (if \<not> stopped then py_return (False, Some UnconfirmedStage)
          else py_then (py_catch (suspend env (sch_close env) id)
                          (\<lambda>e. if logging_error e \<and> \<not> audit then py_return () else py_raise e))
                 (py_return (True, None))) (\<lambda>x. P) P" for stopped
    by (rule holds_if, rule holds_return, assumption, rule holds_then [OF close holds_return])
  show ?thesis
    unfolding stop_stage_def
    by (rule holds_catch [OF holds_bind [OF interrupt_holds [OF P env] rest] holds_return])
qed

lemma stop_services_holds:
  assumes P: "stable P" and env: "considerate env"
  shows "holds P (stop_services env finalize audit outcome) (\<lambda>x. P) P"
proof (cases outcome)
  case (Pair stopped failure)
  have snapshot: "holds P (py_then (py_modify (\<lambda>r. on_state (\<lambda>s. s\<lparr>st_pending_advance := rn_pending_advance r\<rparr>) r))
              (py_bind (finalize_snapshot env PhaseStopped) (\<lambda>snapshot.
                 py_then (py_modify (\<lambda>r. r\<lparr>rn_last_snapshot := Some snapshot\<rparr>))
                   (py_read (\<lambda>r. py_return (all_stopped r, failure)))))) (\<lambda>x. P) P"
    by (rule holds_then [OF holds_modify_stable [OF P harmless_pending]
          holds_bind [OF finalize_holds [OF P env] holds_then [OF holds_modify_stable [OF P harmless_snapshot]
            holds_read [OF holds_return]]]]) blast
  have services: "holds P (py_bind (await_result env (sch_stop_all env) (\<lambda>n. id)) (\<lambda>results. py_return (g results)))
      (\<lambda>x. P) P" for g :: "stop_result list \<Rightarrow> bool \<times> stop_failure option"
    by (rule holds_bind [OF holds_await [OF P env harmless_id(1)] holds_return])
  have report: "holds P (py_read (\<lambda>r. py_return (g r))) (\<lambda>x. P) P" for g :: "dag_runner \<Rightarrow> bool \<times> stop_failure option"
    by (rule holds_read [OF holds_return]) blast
  show ?thesis
    unfolding stop_services_def Pair prod.case
    by (rule holds_catch [OF _ report], rule holds_read, rule holds_if,
        rule holds_weaken [OF snapshot], blast, assumption, assumption,
        rule holds_weaken [OF services], blast, assumption, assumption)
qed

lemma reconsider_holds: "holds P (reconsider_stage env outcome) (\<lambda>x. P) E"
  unfolding reconsider_stage_def
  by (cases outcome) (auto intro!: holds_read holds_return)

lemma write_state_holds: "stable P \<Longrightarrow> holds P (write_state env) (\<lambda>x. P) P"
proof -
  assume P: "stable P"
  have log: "P r \<Longrightarrow> P (log_effect (EffSaved (rn_state r)) r)" for r
    by (rule stable_harmless [OF P harmless_log])
  show ?thesis
    unfolding write_state_def
    by (rule holds_read) (auto intro!: holds_raise holds_modify log split: option.split)
qed

text \<open>What cannot change any more once the runner has ended.\<close>

definition ended :: "dag_runner \<Rightarrow> bool" where
  "ended r \<longleftrightarrow> terminal_phase (st_phase (rn_state r)) \<and> st_active_attempt (rn_state r) = None
     \<and> rn_stage_task r = None"

lemma ended_guards:
  "terminal_phase (st_phase (rn_state r)) \<Longrightarrow> require_active r = Inl RuntimeError"
  by (simp add: require_active_def)

lemma ended_actor:
  assumes "actor_step r r'" "ended r"
  shows "ended r'"
proof -
  have phase: "terminal_phase (st_phase (rn_state r))" and idle: "rn_stage_task r = None"
    and attempt: "st_active_attempt (rn_state r) = None"
    using assms(2) by (auto simp: ended_def)
  have journal: "ended (update_journal_pause status r)" for status
    using assms(2) by (auto simp: update_journal_pause_def ended_def terminal_phase_def Let_def split: option.split)
  note guards = ended_guards [OF phase]
  from assms(1) show ?thesis
  proof cases
    case (Step x)
    then show ?thesis
      using assms(2) guards by (auto simp: step_now_def run_actor step_guard_def split: if_splits)
  next
    case (Rerun p x)
    then show ?thesis using assms(2) guards by (auto simp: rerun_stage_def run_actor split: if_splits)
  next
    case (Move p x)
    then show ?thesis using assms(2) guards by (auto simp: move_cursor_def run_actor split: if_splits)
  next
    case (Reset kind p y)
    then show ?thesis using assms(2) guards by (auto simp: reset_retry_count_def run_actor split: if_splits)
  next
    case (Resume status x)
    then show ?thesis using assms(2) guards by (auto simp: resume_now_def run_actor split: if_splits)
  next
    case (PauseSettled x)
    then show ?thesis using assms(2) guards by (auto simp: settle_pause_def run_actor)
  next
    case (Journal status)
    then show ?thesis using journal by simp
  qed (use assms(2) phase idle attempt in
      \<open>auto simp: ended_def request_pause_def pause_mode_def run_actor split: if_splits\<close>)
qed

lemma ended_others: "considerate env \<Longrightarrow> ended r \<Longrightarrow> ended (sch_others env n r)"
proof -
  assume "considerate env" and e: "ended r"
  then have "actor_step\<^sup>*\<^sup>* r (sch_others env n r)" by (simp add: considerate_def)
  then show ?thesis by (induction rule: rtranclp_induct) (use e ended_actor in blast)+
qed

lemma ended_simps [simp]:
  "ended (r\<lparr>rn_ticks := n\<rparr>) = ended r" "ended (log_effect e r) = ended r"
  "ended (mark_checkpoint env r) = ended r"
  by (simp_all add: ended_def log_effect_def mark_checkpoint_def)

abbreviation anywhere :: "dag_runner \<Rightarrow> bool" where
  "anywhere r \<equiv> True"

lemma holds_anywhere: "holds P m (\<lambda>x. anywhere) anywhere"
  by (simp add: holds_def)

lemma ended_suspend:
  assumes "considerate env" "\<And>r. ended r \<Longrightarrow> ended (f r)"
  shows "holds ended (suspend env raised f) (\<lambda>x. ended) anywhere"
proof -
  have "holds (\<lambda>s. ended s \<and> s = r) (case raised (rn_ticks r) of
       Some e \<Rightarrow> py_then (py_modify (\<lambda>q. sch_others env (rn_ticks r) (q\<lparr>rn_ticks := Suc (rn_ticks r)\<rparr>)))
         (py_raise e)
     | None \<Rightarrow> py_modify (\<lambda>q. sch_others env (rn_ticks r) (f (q\<lparr>rn_ticks := Suc (rn_ticks r)\<rparr>))))
     (\<lambda>x. ended) anywhere" for r
    by (cases "raised (rn_ticks r)")
      (auto intro!: holds_modify holds_then [OF holds_anywhere] holds_raise ended_others [OF assms(1)] assms(2))
  then show ?thesis unfolding suspend_def Let_def by (rule holds_read)
qed

lemma ended_save: "considerate env \<Longrightarrow> holds ended (save_state env) (\<lambda>x. ended) anywhere"
  unfolding save_state_def prepare_state_save_def
  by (rule holds_bind [where R = "\<lambda>x. ended"], rule holds_then [where R = ended])
    (auto intro!: holds_modify holds_read holds_lift ended_suspend)

lemma ended_write: "holds ended (write_state env) (\<lambda>x. ended) anywhere"
  unfolding write_state_def
  by (rule holds_read) (auto intro!: holds_raise holds_modify split: option.split)

lemma retire_ended:
  "rn_stage_task r = None \<Longrightarrow>
     ended (retire_attempt (on_state (\<lambda>s. s\<lparr>st_phase := stopped_phase s\<rparr>) r))"
  by (auto simp: ended_def retire_attempt_def stopped_phase_def terminal_phase_def split: option.split)

text \<open>Shutdown is called when no stage task runs.\<close>

definition halted :: "dag_task \<Rightarrow> dag_runner \<Rightarrow> bool" where
  "halted t r \<longleftrightarrow> runner_inv r \<and> rn_stage_task r = None \<and> rn_task r = t"

lemma stable_halted: "stable (halted t)"
  by (auto simp: stable_def halted_def undisturbed_def)

lemma settle_stop_holds:
  assumes env: "considerate env"
  shows "holds (halted t) (settle_stop env audit outcome) (\<lambda>x r. halted t r \<and> ended r) (halted t)"
proof (cases outcome)
  case (Pair stopped failure)
  note P = stable_halted
  let ?U = "\<lambda>r. halted t r \<and> rn_stage_task r = None"
  have failing: "holds (halted t) (py_then (fail_runner env RuntimeError) (py_raise RuntimeError))
      (\<lambda>x r. halted t r \<and> ended r) (halted t)"
    by (rule holds_then [OF fail_runner_holds [OF P env] holds_raise])
  have save: "holds (halted t) (if audit then save_state env else write_state env) (\<lambda>x. halted t) (halted t)"
    by (rule holds_if [OF holds_save [OF P env] write_state_holds [OF P]])
  have last: "holds ended (if audit then save_state env else write_state env) (\<lambda>x. ended) anywhere"
    by (rule holds_if [OF ended_save [OF env] ended_write])
  have both: "holds (\<lambda>r. halted t r \<and> ended r) (if audit then save_state env else write_state env)
      (\<lambda>x r. halted t r \<and> ended r) (halted t)"
    by (rule holds_weaken [OF holds_conj [where P = "\<lambda>r. halted t r \<and> ended r",
          OF holds_weaken [OF save] holds_weaken [OF last]]]) blast+
  have keep: "halted t (retire_attempt (on_state (\<lambda>s. s\<lparr>st_phase := stopped_phase s\<rparr>) r))" if "halted t r" for r
    by (rule stable_harmless [OF P harmless_comp [OF harmless_phase harmless_retire] that])
  have settle: "holds (halted t)
      (py_then (py_modify (on_state (\<lambda>s. s\<lparr>st_phase := stopped_phase s\<rparr>)))
         (py_then (py_modify retire_attempt) (if audit then save_state env else write_state env)))
      (\<lambda>x r. halted t r \<and> ended r) (halted t)"
    by (rule holds_then [where R = "\<lambda>r. halted t (retire_attempt r) \<and> ended (retire_attempt r)"],
        rule holds_modify, use keep retire_ended in \<open>simp add: halted_def\<close>,
        rule holds_then [OF holds_modify both])
  show ?thesis
    unfolding settle_stop_def Pair prod.case
    by (rule holds_then [OF holds_modify_stable [OF P harmless_confirmed(1)]
          holds_then [OF close_services_holds [OF P env] holds_if [OF failing settle]]])
qed

lemma stop_runner_ends:
  assumes env: "considerate env"
  shows "holds (halted t) (stop_runner env finalize) (\<lambda>x r. halted t r \<and> ended r \<and> \<not> rn_step r \<and> rn_idle r) (halted t)"
proof -
  note P = stable_halted
  have request: "harmless (\<lambda>r. r\<lparr>rn_stop_requested := True\<rparr>)" by (rule harmlessI) simp
  have advance: "harmless (\<lambda>r. r\<lparr>rn_pending_advance := False\<rparr>)" by (rule harmlessI) simp
  have retire: "harmless (\<lambda>r. if p r then (retire_attempt r)\<lparr>rn_pending_advance := False\<rparr> else r)" for p
    by (rule harmless_cond [OF harmless_comp [OF harmless_retire advance]])
  have finish: "halted t (r'\<lparr>rn_idle := True\<rparr>) \<and> ended (r'\<lparr>rn_idle := True\<rparr>) \<and> \<not> rn_step (r'\<lparr>rn_idle := True\<rparr>)
      \<and> rn_idle (r'\<lparr>rn_idle := True\<rparr>)"
    if "halted t r \<and> ended r" "r' = settle_step f r" for r r' f
    using that
    by (auto simp: settle_step_def log_effect_def halted_def ended_def runner_inv_def pausing_def)
  show ?thesis
    unfolding stop_runner_def
    by (rule holds_then [OF holds_modify_stable [OF P request]
          holds_then [OF holds_suspend [OF P env harmless_id(1)]
          holds_bind [OF holds_await [OF P env harmless_id(1)]
          holds_bind [OF stop_stage_holds [OF P env]
          holds_then [OF holds_modify_stable [OF P retire]
          holds_bind [OF stop_services_holds [OF P env]
          holds_bind [OF reconsider_holds
          holds_then [OF settle_stop_holds [OF env] holds_modify]]]]]]]]) (rule finish, auto)
qed

lemma stop_runner_holds:
  "considerate env \<Longrightarrow> holds (halted t) (stop_runner env finalize) (\<lambda>x. halted t) (halted t)"
  by (rule holds_weaken [OF stop_runner_ends]) auto

lemma leave_loop_inv: "runner_inv r \<Longrightarrow> runner_inv (leave_loop r) \<and> rn_task (leave_loop r) = DagDone"
  by (auto simp: leave_loop_def runner_inv_def pausing_def)

lemma stop_now_holds:
  assumes env: "considerate env"
  shows "holds runner_inv (stop_now env)
     (\<lambda>x r. halted DagDone r \<and> ended r \<and> \<not> rn_step r \<and> rn_idle r) (halted DagDone)"
  unfolding stop_now_def
  by (rule holds_then [where R = "halted DagDone"], rule holds_modify,
      use leave_loop_inv in \<open>simp add: halted_def leave_loop_def\<close>, rule stop_runner_ends [OF env])

lemma stop_now_halts:
  "considerate env \<Longrightarrow> runner_inv r \<Longrightarrow> stop_now env r = (x, r') \<Longrightarrow> halted DagDone r'"
  using holdsD [OF stop_now_holds] holds_raisedD [OF stop_now_holds] by (cases x) blast+

end
