(* ===== verification/Dag_Handlers.thy ===== *)
theory Dag_Handlers
  imports Dag_Stop
begin

text \<open>Triples of the scheduler's handlers over the invariant of \<open>Dag_Invariants\<close>.\<close>

section \<open>Decisions\<close>

text \<open>At a stage boundary the scheduler owns the state: no stage task, and the runner not idle.\<close>

definition at_boundary :: "dag_runner \<Rightarrow> bool" where
  "at_boundary r \<longleftrightarrow> runner_inv r \<and> \<not> rn_idle r \<and> rn_stage_task r = None"

lemma stable_boundary: "stable at_boundary"
  by (auto simp: stable_def at_boundary_def undisturbed_def)

lemma stable_settled: "stable (\<lambda>r. runner_inv r \<and> settled_loop r)"
  by (auto simp: stable_def undisturbed_def)

lemma stable_runner_inv: "stable runner_inv"
  by (auto simp: stable_def)

lemma stable_no_pending: "stable (\<lambda>r. at_boundary r \<and> (b \<longrightarrow> st_pending_decision (rn_state r) = None))"
  by (auto simp: stable_def at_boundary_def undisturbed_def)

lemma boundary_inv: "at_boundary r \<Longrightarrow> runner_inv r"
  by (simp add: at_boundary_def)

lemma index_where_Some:
  "index_where p xs = Some k \<Longrightarrow> k < length xs \<and> p (xs ! k)"
  by (induction xs arbitrary: k) (auto split: if_splits)

lemma known_stage_iff: "known_stage s i \<longleftrightarrow> i \<in> node_stage_id ` set (stages (st_template s))"
  by (auto simp: known_stage_def)

lemma index_where_known:
  "known_stage s (Some i) \<longleftrightarrow> index_where (\<lambda>n. node_stage_id n = Some i) (stages (st_template s)) \<noteq> None"
proof -
  have "Some i \<in> node_stage_id ` set xs \<longleftrightarrow> index_where (\<lambda>n. node_stage_id n = Some i) xs \<noteq> None" for xs
    by (induction xs) auto
  then show ?thesis by (simp add: known_stage_iff)
qed

lemma cursor_stage_at:
  "0 \<le> k \<Longrightarrow> k < length (stages (st_template s)) \<Longrightarrow>
     cursor_stage (s\<lparr>st_stage_position := int k + 1\<rparr>) = node_stage_id (stages (st_template s) ! k)"
  by (simp add: cursor_stage_def cursor_node_def Let_def)

text \<open>A decision that may be applied: its source is a stage of the DAG, and so is its target.\<close>

definition applicable :: "('p, 'i, 'z) checkpoint_scheme \<Rightarrow> last_decision \<Rightarrow> bool" where
  "applicable s l \<longleftrightarrow> known_stage s (Some (ld_source_stage l))
     \<and> (dd_command (ld_decision l) = Some MoveCommand \<longrightarrow> known_stage s (dd_target (ld_decision l)))"

text \<open>The invariant of a boundary except for what the last decision implies about the mode.\<close>

definition undecided :: "dag_runner \<Rightarrow> bool" where
  "undecided r \<longleftrightarrow> dag_ok (rn_state r) \<and> \<not> rn_idle r \<and> rn_stage_task r = None
     \<and> st_pending_decision (rn_state r) = None"

lemma dag_ok_decided:
  assumes "dag_ok s" "st_pending_decision s = None" "applicable s l"
  shows "dag_ok (s\<lparr>st_last_decision := Some l\<rparr>)"
  using assms
  by (auto simp: dag_ok_def validate_transitions_def applicable_def cursor_stage_def cursor_node_def
      known_stage_def Let_def)

lemma has_key_pop_all [simp]: "has_key (pop_all ks d) k \<longleftrightarrow> k \<notin> set ks \<and> has_key d k"
  by (simp add: has_key_def map_of_pop_all)

lemma conditional_move_ok:
  assumes "dag_ok s" "st_pending_decision s = None" "applicable s l" "st_last_decision s = Some l"
    and k: "index_where (\<lambda>n. node_stage_id n = Some target) (stages (st_template s)) = Some k"
  shows "dag_ok (s\<lparr>st_pending_input := Some \<lparr>in_request_id = ld_request_id l,
             in_source_stage = ld_source_stage l, in_experiment_id = ld_experiment_id l,
             in_stage_id = target\<rparr>,
           st_result_ids := pop_all suffix (st_result_ids s),
           st_result_origins := pop_all suffix (st_result_origins s),
           st_retry_counts := pop_all suffix (st_retry_counts s),
           st_stage_position := int k + 1\<rparr>)"
proof -
  have at: "k < length (stages (st_template s))" "node_stage_id (stages (st_template s) ! k) = Some target"
    using index_where_Some [OF k] by auto
  let ?t = "s\<lparr>st_pending_input := Some \<lparr>in_request_id = ld_request_id l,
             in_source_stage = ld_source_stage l, in_experiment_id = ld_experiment_id l,
             in_stage_id = target\<rparr>,
           st_result_ids := pop_all suffix (st_result_ids s),
           st_result_origins := pop_all suffix (st_result_origins s),
           st_retry_counts := pop_all suffix (st_retry_counts s),
           st_stage_position := int k + 1\<rparr>"
  have "known_stage s (Some target)" unfolding known_stage_iff by (metis at image_eqI nth_mem)
  moreover have cursor: "cursor_stage ?t = Some target"
    using at by (simp add: cursor_stage_def cursor_node_def Let_def)
  moreover have known: "known_stage ?t = known_stage s"
    by (simp add: known_stage_def fun_eq_iff)
  ultimately have "validate_transitions ?t"
    using assms(1-4) unfolding validate_transitions_def cursor known
    by (simp add: dag_ok_def validate_transitions_def applicable_def)
  then show ?thesis
    using assms(1) at by (simp add: dag_ok_def)
qed

lemma apply_dag_decision_holds:
  "holds (\<lambda>r. undecided r \<and> applicable (rn_state r) l) (apply_dag_decision l)
     (\<lambda>x r. at_boundary r \<and> st_pending_decision (rn_state r) = None)
     (\<lambda>r. at_boundary r \<and> st_pending_decision (rn_state r) = None)"
proof -
  let ?Q = "\<lambda>r. at_boundary r \<and> st_pending_decision (rn_state r) = None"
  have decided: "undecided r \<and> applicable (rn_state r) l \<Longrightarrow>
      undecided (on_state (\<lambda>s. s\<lparr>st_last_decision := Some l\<rparr>) r)" for r
    using dag_ok_decided [of "rn_state r" l] by (simp add: undecided_def)
  define D where "D r \<longleftrightarrow> undecided r \<and> applicable (rn_state r) l \<and> st_last_decision (rn_state r) = Some l" for r
  have D: "holds (\<lambda>r. undecided r \<and> applicable (rn_state r) l)
      (py_modify (on_state (\<lambda>s. s\<lparr>st_last_decision := Some l\<rparr>))) (\<lambda>x. D) E" for E
    using decided by (auto intro!: holds_modify simp: D_def applicable_def known_stage_def)
  have plain: "?Q r" if "D r" "dd_command (ld_decision l) \<noteq> Some PauseCommand" for r
    using that by (auto simp: D_def undecided_def at_boundary_def runner_inv_def pausing_def decision_command_def)
  have move: "holds D (apply_conditional_move l target) (\<lambda>x. ?Q) ?Q"
    if command: "dd_command (ld_decision l) \<noteq> Some PauseCommand" for target
    unfolding apply_conditional_move_def Let_def
  proof (rule holds_read)
    fix r
    show "holds (\<lambda>s. D s \<and> s = r)
        (case index_where (\<lambda>n. node_stage_id n = Some target) (stages (st_template (rn_state r))) of
           None \<Rightarrow> py_raise StopIteration
         | Some k \<Rightarrow> py_modify (\<lambda>r'. on_state (\<lambda>s. s\<lparr>
             st_pending_input := Some \<lparr>in_request_id = ld_request_id l,
               in_source_stage = ld_source_stage l, in_experiment_id = ld_experiment_id l, in_stage_id = target\<rparr>,
             st_result_ids := pop_all (some_values (map node_stage_id (drop k (stages (st_template (rn_state r)))))) (st_result_ids s),
             st_result_origins := pop_all (some_values (map node_stage_id (drop k (stages (st_template (rn_state r)))))) (st_result_origins s),
             st_retry_counts := pop_all (some_values (map node_stage_id (drop k (stages (st_template (rn_state r)))))) (st_retry_counts s),
             st_stage_position := int k + 1\<rparr>) (r'\<lparr>rn_pending_advance := False\<rparr>))) (\<lambda>x. ?Q) ?Q"
    proof (cases "index_where (\<lambda>n. node_stage_id n = Some target) (stages (st_template (rn_state r)))")
      case None
      then show ?thesis using plain command by (auto intro!: holds_raise)
    next
      case (Some k)
      have "?Q (on_state (\<lambda>s. s\<lparr>
             st_pending_input := Some \<lparr>in_request_id = ld_request_id l,
               in_source_stage = ld_source_stage l, in_experiment_id = ld_experiment_id l, in_stage_id = target\<rparr>,
             st_result_ids := pop_all suffix (st_result_ids s),
             st_result_origins := pop_all suffix (st_result_origins s),
             st_retry_counts := pop_all suffix (st_retry_counts s),
             st_stage_position := int k + 1\<rparr>) (r\<lparr>rn_pending_advance := False\<rparr>))" if "D r" for suffix
        using conditional_move_ok [of "rn_state r" l target k suffix] that Some command
        by (simp add: D_def undecided_def at_boundary_def runner_inv_def pausing_def decision_command_def)
      then show ?thesis by (auto simp: Some intro!: holds_modify)
    qed
  qed
  have pause: "?Q (on_state (\<lambda>s. s\<lparr>st_pause_requested := True\<rparr>) (pause_mode r))" if "D r" for r
  proof -
    have "dag_ok ((rn_state r)\<lparr>st_mode := PausedMode, st_pause_requested := True\<rparr>)"
      by (rule same_dag_ok [of "rn_state r"]) (use that in \<open>auto simp: D_def undecided_def same_dag_def\<close>)
    then show ?thesis
      using that by (simp add: D_def undecided_def at_boundary_def runner_inv_def pause_mode_def)
  qed
  show ?thesis
    unfolding apply_dag_decision_def
  proof (rule holds_then [OF D])
    show "holds D (case dd_command (ld_decision l) of
        Some PauseCommand \<Rightarrow> py_modify (\<lambda>r. on_state (\<lambda>s. s\<lparr>st_pause_requested := True\<rparr>) (pause_mode r))
      | Some MoveCommand \<Rightarrow> (case dd_target (ld_decision l) of
             None \<Rightarrow> py_raise ValueError | Some target \<Rightarrow> apply_conditional_move l target)
      | _ \<Rightarrow> py_return ()) (\<lambda>x. ?Q) ?Q"
      using plain pause move
      by (auto intro!: holds_rules split: option.splits dag_command.splits)
  qed
qed

lemma apply_pending_holds:
  "holds at_boundary apply_pending_dag_decision
     (\<lambda>x r. at_boundary r \<and> st_pending_decision (rn_state r) = None) at_boundary"
  unfolding apply_pending_dag_decision_def
proof (rule holds_read)
  fix r
  let ?Q = "\<lambda>x r. at_boundary r \<and> st_pending_decision (rn_state r) = None"
  show "holds (\<lambda>s. at_boundary s \<and> s = r) (case st_pending_decision (rn_state r) of
       None \<Rightarrow> py_return ()
     | Some source \<Rightarrow> py_then (py_modify (on_state (\<lambda>s. s\<lparr>st_pending_decision := None\<rparr>)))
           (apply_dag_decision source)) ?Q at_boundary"
  proof (cases "st_pending_decision (rn_state r)")
    case None
    then show ?thesis by (auto intro!: holds_return)
  next
    case (Some l)
    have "undecided (on_state (\<lambda>s. s\<lparr>st_pending_decision := None\<rparr>) r)
        \<and> applicable (rn_state (on_state (\<lambda>s. s\<lparr>st_pending_decision := None\<rparr>) r)) l" if "at_boundary r"
      using that Some
      by (auto simp: at_boundary_def runner_inv_def undecided_def applicable_def dag_ok_def
          validate_transitions_def known_stage_def cursor_stage_def cursor_node_def)
    then show ?thesis
      unfolding Some option.case
      by (intro holds_then [OF holds_modify holds_weaken [OF apply_dag_decision_holds]]) auto
  qed
qed

section \<open>Accepting an outcome\<close>

definition boundary_of :: "stage_outcome \<Rightarrow> dag_runner \<Rightarrow> bool" where
  "boundary_of oc r \<longleftrightarrow> runner_inv r \<and> \<not> rn_idle r \<and> rn_stage_task r = None
     \<and> st_pending_decision (rn_state r) = None \<and> outcome_fits (rn_state r) oc"

text \<open>After \<open>begin_outcome\<close>: no decision is recorded and no attempt is active.\<close>

definition begun :: "stage_outcome \<Rightarrow> dag_runner \<Rightarrow> bool" where
  "begun oc r \<longleftrightarrow> undecided r \<and> st_last_decision (rn_state r) = None
     \<and> st_active_attempt (rn_state r) = None \<and> outcome_fits (rn_state r) oc"

lemma outcome_fits_same:
  "cursor_node t = cursor_node s \<Longrightarrow> known_stage t = known_stage s \<Longrightarrow> outcome_fits t oc = outcome_fits s oc"
  by (simp add: outcome_fits_def cursor_stage_def)

lemma begin_outcome_begun: "boundary_of oc r \<Longrightarrow> begun oc (begin_outcome oc r)"
proof -
  assume b: "boundary_of oc r"
  have "dag_ok ((rn_state r)\<lparr>st_active_attempt := None, st_last_decision := None, st_pending_decision := None,
      st_mode := m\<rparr>)" for m
    using b by (auto simp: boundary_of_def runner_inv_def dag_ok_def validate_transitions_def known_stage_def
        cursor_stage_def cursor_node_def)
  moreover have "outcome_fits ((rn_state r)\<lparr>st_active_attempt := None, st_last_decision := None,
      st_pending_decision := None, st_mode := m\<rparr>) oc" for m
    using b by (subst outcome_fits_same [of _ "rn_state r"])
      (simp_all add: boundary_of_def cursor_node_def known_stage_def fun_eq_iff)
  ultimately have "begun oc (on_state (\<lambda>s. s\<lparr>st_active_attempt := None, st_last_decision := None,
      st_pending_decision := None, st_mode := m s\<rparr>) (r\<lparr>rn_pending_advance := a, rn_desired_mode := d\<rparr>))" for m a d
    using b by (simp add: begun_def undecided_def boundary_of_def)
  from this [of "\<lambda>s. PausedMode" PausedMode False]
    this [of st_mode "rn_desired_mode r" "oc_action oc = AdvanceStage"]
  show ?thesis by (simp add: begin_outcome_def Let_def pause_mode_def)
qed

lemma begun_boundary: "begun oc r \<Longrightarrow> at_boundary r \<and> st_pending_decision (rn_state r) = None"
  by (auto simp: begun_def undecided_def at_boundary_def runner_inv_def pausing_def decision_command_def)

lemma drop_result_begun: "begun oc r \<Longrightarrow> begun oc (on_state (drop_result i) r)"
  by (auto simp: begun_def undecided_def drop_result_def dag_ok_def validate_transitions_def
      outcome_fits_def known_stage_def cursor_stage_def cursor_node_def)

definition kept :: "stage_outcome \<Rightarrow> dag_runner \<Rightarrow> bool" where
  "kept oc r \<longleftrightarrow> begun oc r
     \<and> st_last_result_id (rn_state r) = at_result_request (oc_attempt oc)
     \<and> map_of (st_result_ids (rn_state r)) (at_stage_id (oc_attempt oc))
         = Some (at_result_request (oc_attempt oc))"

lemma keep_result_kept: "begun oc r \<Longrightarrow> kept oc (on_state (keep_result oc res) r)"
  by (auto simp: kept_def begun_def undecided_def keep_result_def Let_def dag_ok_def
      validate_transitions_def outcome_fits_def known_stage_def cursor_stage_def cursor_node_def)

lemma retain_kept: "kept oc r \<Longrightarrow> kept oc (on_state (retain_input_artifacts env j) r)"
  by (auto simp: kept_def begun_def undecided_def retain_input_artifacts_def Let_def dag_ok_def
      validate_transitions_def outcome_fits_def known_stage_def cursor_stage_def cursor_node_def)

lemma known_stage_retain: "known_stage (retain_input_artifacts env j s) = known_stage s"
  by (simp add: known_stage_def retain_input_artifacts_def Let_def fun_eq_iff)

lemma source_applicable:
  assumes "kept oc r" "oc_result oc = Some res" "or_result res = SuccessResult"
    and "cursor_node (rn_state r) = Some n" "node_conditional n"
    and "res_bind (accepted_decision res) (source_decision s oc) = Inr l"
  shows "applicable (rn_state r) l \<and> ld_source_stage l = at_stage_id (oc_attempt oc)
     \<and> at_result_request (oc_attempt oc) = Some (ld_request_id l)"
proof -
  have fits: "outcome_fits (rn_state r) oc" using assms(1) by (simp add: kept_def begun_def)
  obtain d where d: "accepted_decision res = Inr d" "source_decision s oc d = Inr l"
    using assms(6) by auto
  have l: "ld_source_stage l = at_stage_id (oc_attempt oc)" "ld_decision l = d"
    "at_result_request (oc_attempt oc) = Some (ld_request_id l)"
    using d(2) by (auto simp: source_decision_def Let_def split: option.splits if_splits)
  have cursor: "cursor_stage (rn_state r) = Some (at_stage_id (oc_attempt oc))"
    using fits by (simp add: outcome_fits_def)
  have "n \<in> set (stages (st_template (rn_state r)))"
    using assms(4) by (auto simp: cursor_node_def Let_def split: if_splits)
  then have "known_stage (rn_state r) (Some (at_stage_id (oc_attempt oc)))"
    using cursor assms(4) unfolding known_stage_iff cursor_stage_def by (auto intro: rev_image_eqI)
  moreover have "dd_command d = Some MoveCommand \<longrightarrow> known_stage (rn_state r) (dd_target d)"
    using fits assms(2-5) d(1) by (auto simp: outcome_fits_def)
  ultimately show ?thesis using l by (simp add: applicable_def)
qed

lemma defer_boundary:
  assumes "kept oc r" "applicable (rn_state r) l" "ld_source_stage l = at_stage_id (oc_attempt oc)"
    and "at_result_request (oc_attempt oc) = Some (ld_request_id l)"
  shows "at_boundary (on_state (\<lambda>s. s\<lparr>st_pending_decision := Some l\<rparr>) r)"
  using assms
  by (auto simp: kept_def begun_def undecided_def at_boundary_def runner_inv_def pausing_def
      decision_command_def dag_ok_def validate_transitions_def applicable_def outcome_fits_def
      known_stage_def cursor_stage_def cursor_node_def)

lemma py_nth_cursor:
  "dag_ok s \<Longrightarrow> py_nth (stages (st_template s)) (st_stage_position s - 1) = Inr n \<Longrightarrow> cursor_node s = Some n"
  by (auto simp: dag_ok_def py_nth_def cursor_node_def Let_def split: if_splits)

lemma apply_stage_outcome_holds:
  "holds (boundary_of oc) (apply_stage_outcome env oc defer_dag)
     (\<lambda>x r. at_boundary r \<and> (\<not> defer_dag \<longrightarrow> st_pending_decision (rn_state r) = None)) at_boundary"
  (is "holds _ _ ?Q _")
  unfolding apply_stage_outcome_def
proof (rule holds_then [where R = "begun oc"])
  show "holds (boundary_of oc) (py_modify (begin_outcome oc)) (\<lambda>x. begun oc) at_boundary"
    by (rule holds_modify) (rule begin_outcome_begun)
  have drop: "holds (begun oc) (py_modify (on_state (drop_result i))) ?Q at_boundary" for i
    using begun_boundary [OF drop_result_begun] by (intro holds_modify) blast
  have decide: "holds (\<lambda>s. kept oc s \<and> s = r)
      (py_bind (py_lift (py_nth (stages (st_template (rn_state r))) (st_stage_position (rn_state r) - 1)))
         (\<lambda>node. if \<not> node_conditional node then py_return ()
            else py_bind (py_lift (res_bind (accepted_decision res) (source_decision (rn_state r) oc)))
              (\<lambda>source. py_then (py_modify (on_state (retain_input_artifacts env (or_data res))))
                 (if defer_dag then py_modify (on_state (\<lambda>s. s\<lparr>st_pending_decision := Some source\<rparr>))
                  else apply_dag_decision source)))) ?Q at_boundary"
    if res: "oc_result oc = Some res" "or_result res = SuccessResult" for r res
  proof (rule holds_bind [where R = "\<lambda>n s. kept oc s \<and> s = r \<and> cursor_node (rn_state s) = Some n"])
    show "holds (\<lambda>s. kept oc s \<and> s = r)
        (py_lift (py_nth (stages (st_template (rn_state r))) (st_stage_position (rn_state r) - 1)))
        (\<lambda>n s. kept oc s \<and> s = r \<and> cursor_node (rn_state s) = Some n) at_boundary"
      using begun_boundary
      by (intro holds_lift) (auto simp: kept_def begun_def undecided_def dest: py_nth_cursor)
    fix n
    let ?R = "\<lambda>s. kept oc s \<and> s = r \<and> cursor_node (rn_state s) = Some n"
    show "holds ?R (if \<not> node_conditional n then py_return ()
            else py_bind (py_lift (res_bind (accepted_decision res) (source_decision (rn_state r) oc)))
              (\<lambda>source. py_then (py_modify (on_state (retain_input_artifacts env (or_data res))))
                 (if defer_dag then py_modify (on_state (\<lambda>s. s\<lparr>st_pending_decision := Some source\<rparr>))
                  else apply_dag_decision source))) ?Q at_boundary"
    proof (rule holds_if)
      show "holds ?R (py_return ()) ?Q at_boundary"
        using begun_boundary by (intro holds_return) (auto simp: kept_def)
    next
      assume n: "\<not> \<not> node_conditional n"
      define A where "A l s \<longleftrightarrow> kept oc s \<and> applicable (rn_state s) l
          \<and> ld_source_stage l = at_stage_id (oc_attempt oc)
          \<and> at_result_request (oc_attempt oc) = Some (ld_request_id l)" for l s
      show "holds ?R (py_bind (py_lift (res_bind (accepted_decision res) (source_decision (rn_state r) oc)))
              (\<lambda>source. py_then (py_modify (on_state (retain_input_artifacts env (or_data res))))
                 (if defer_dag then py_modify (on_state (\<lambda>s. s\<lparr>st_pending_decision := Some source\<rparr>))
                  else apply_dag_decision source))) ?Q at_boundary"
      proof (rule holds_bind [where R = A])
        show "holds ?R (py_lift (res_bind (accepted_decision res) (source_decision (rn_state r) oc))) A at_boundary"
        proof (rule holds_lift)
          fix s l
          assume s: "?R s" and l: "res_bind (accepted_decision res) (source_decision (rn_state r) oc) = Inr l"
          show "A l s"
            using source_applicable [OF _ res _ _ l, of s n] s n unfolding A_def by blast
        next
          fix s assume "?R s"
          then show "at_boundary s" using begun_boundary by (auto simp: kept_def)
        qed
        fix l
        show "holds (A l) (py_then (py_modify (on_state (retain_input_artifacts env (or_data res))))
                 (if defer_dag then py_modify (on_state (\<lambda>s. s\<lparr>st_pending_decision := Some l\<rparr>))
                  else apply_dag_decision l)) ?Q at_boundary"
        proof (rule holds_then [where R = "A l"])
          show "holds (A l) (py_modify (on_state (retain_input_artifacts env (or_data res)))) (\<lambda>x. A l) at_boundary"
            by (rule holds_modify)
              (auto simp: A_def retain_kept applicable_def known_stage_retain)
          have "undecided s \<and> applicable (rn_state s) l" if "A l s" for s
            using that by (auto simp: A_def kept_def begun_def)
          then show "holds (A l) (if defer_dag then py_modify (on_state (\<lambda>s. s\<lparr>st_pending_decision := Some l\<rparr>))
                  else apply_dag_decision l) ?Q at_boundary"
            using defer_boundary
            by (intro holds_if holds_modify holds_weaken [OF apply_dag_decision_holds]) (auto simp: A_def)
        qed
      qed
    qed
  qed
  show "holds (begun oc)
      (case oc_result oc of
          None \<Rightarrow> py_modify (on_state (drop_result (at_stage_id (oc_attempt oc))))
        | Some r \<Rightarrow>
            if or_result r \<noteq> SuccessResult
            then py_modify (on_state (drop_result (at_stage_id (oc_attempt oc))))
            else
              py_then (py_modify (on_state (keep_result oc r)))
                (py_read (\<lambda>rn. let s = rn_state rn in
                   py_bind (py_lift (py_nth (stages (st_template s)) (st_stage_position s - 1)))
                     (\<lambda>node.
                        if \<not> node_conditional node then py_return ()
                        else py_bind (py_lift (res_bind (accepted_decision r) (source_decision s oc)))
                          (\<lambda>source.
                             py_then (py_modify (on_state (retain_input_artifacts env (or_data r))))
                               (if defer_dag
                                then py_modify (on_state (\<lambda>s. s\<lparr>st_pending_decision := Some source\<rparr>))
                                else apply_dag_decision source)))))) ?Q at_boundary"
    using drop decide
    by (auto simp: Let_def split: option.split
        intro!: holds_if holds_then [where R = "kept oc"] holds_modify keep_result_kept holds_read)
qed

section \<open>Handlers that only suspend and observe\<close>

lemma stable_free: "stable (\<lambda>r. at_boundary r \<and> st_pending_decision (rn_state r) = None)"
  using stable_no_pending [of True] by simp

lemma snapshot_boundary_holds:
  assumes "stable P" "considerate env"
  shows "holds P (snapshot_stage_boundary env oc final requested) (\<lambda>x. P) P"
proof -
  have enter: "harmless (\<lambda>r. on_state (\<lambda>s. s\<lparr>st_phase := PhaseSnapshotting\<rparr>) (r\<lparr>rn_maintenance := True\<rparr>))"
    by (rule harmlessI) (simp add: same_dag_def)
  have create: "holds P (py_finally (suspend env (sch_snapshot env) (\<lambda>r. log_effect (EffSnapshot (rn_state r)) r))
      leave_snapshot) (\<lambda>x. P) P"
    using stable_harmless [OF assms(1) harmless_leave]
    by (intro holds_finally holds_weaken [OF holds_suspend [OF assms harmless_log_of]]) blast+
  have due: "holds (\<lambda>s. P s \<and> s = r)
      (py_then (py_modify (\<lambda>r. on_state (\<lambda>s. s\<lparr>st_phase := PhaseSnapshotting\<rparr>) (r\<lparr>rn_maintenance := True\<rparr>)))
         (py_then (py_finally (suspend env (sch_snapshot env) (\<lambda>r. log_effect (EffSnapshot (rn_state r)) r))
            leave_snapshot) (save_state env))) (\<lambda>x. P) P" for r
    using stable_harmless [OF assms(1) enter]
    by (intro holds_then [where R = P] holds_modify create holds_save [OF assms]) blast
  show ?thesis
    unfolding snapshot_stage_boundary_def
    by (rule holds_read, rule holds_if, rule holds_return, simp, rule due)
qed

lemma pause_unknown_holds:
  assumes "considerate env"
  shows "holds (boundary_of oc) (pause_unknown_stage env oc)
     (\<lambda>x r. runner_inv r \<and> settled_loop r) runner_inv"
proof -
  let ?P = "\<lambda>r. at_boundary r \<and> st_pending_decision (rn_state r) = None"
  let ?f = "\<lambda>r. on_state (\<lambda>s. s\<lparr>st_pause_requested := True, st_phase := PhaseWaiting\<rparr>)
                              ((pause_mode r)\<lparr>rn_idle := False, rn_pending_advance := False\<rparr>)"
  have enter: "?P (?f r)" if b: "boundary_of oc r" for r
  proof -
    have inv: "runner_inv r" "rn_idle r = False" using b by (auto simp: boundary_of_def)
    have "runner_inv (?f r)"
      by (rule runner_inv_same [OF inv(1)]) (auto simp: pause_mode_def same_dag_def inv)
    then show ?thesis using b by (simp add: boundary_of_def at_boundary_def pause_mode_def)
  qed
  have settle: "holds ?P (py_modify (settle_step (\<lambda>r. StepFailed RuntimeError)))
      (\<lambda>x r. runner_inv r \<and> settled_loop r) runner_inv"
    using harmless_settle [of "\<lambda>r. StepFailed RuntimeError"]
    by (intro holds_modify) (auto simp: harmless_def at_boundary_def settle_step_def settled_loop_def
        log_effect_def undisturbed_def)
  have save: "holds ?P (save_state env) (\<lambda>x. ?P) runner_inv"
    by (rule holds_save_weak [OF stable_free assms]) (simp add: at_boundary_def)
  show ?thesis
    unfolding pause_unknown_stage_def
    by (rule holds_then [where R = ?P], rule holds_modify, rule enter, assumption,
        rule holds_then [OF save], rule holds_if, rule holds_raise, simp add: at_boundary_def,
        rule settle)
qed

section \<open>Completing a stage\<close>

text \<open>What holds when a completed stage has been dealt with.\<close>

definition completed :: "stage_signal \<Rightarrow> dag_runner \<Rightarrow> bool" where
  "completed signal r \<longleftrightarrow> runner_inv r \<and> (signal \<noteq> StageStopped \<longrightarrow> settled_loop r)"

lemma retire_same: "harmless (retire_accepted_service_requests env)"
  by (rule harmlessI) (simp add: retire_accepted_service_requests_def same_dag_def)

lemma stop_from_stage_holds:
  assumes env: "considerate env"
  shows "holds (halted t) (stop_from_stage env recovering) (\<lambda>x. halted t) (halted t)"
proof -
  note inv = stable_halted
  have take: "harmless (\<lambda>r. r\<lparr>rn_step := False\<rparr>)" by (rule harmlessI) simp
  note stop = stop_runner_holds [OF env]
  have body: "holds (halted t) (py_then
             (py_when recovering
                (py_then (py_modify (retire_accepted_service_requests env)) (save_state env)))
             (stop_runner env (\<not> recovering))) (\<lambda>x. halted t) (halted t)"
    by (intro holds_then [where R = "halted t"] holds_when holds_modify_stable [OF inv retire_same]
        holds_save [OF inv env] stop)
  have handler: "holds (halted t) (py_then (py_when b (py_modify (log_effect e'))) (py_raise e))
      (\<lambda>x. halted t) (halted t)" for b e e'
    by (intro holds_then [where R = "halted t"] holds_when holds_modify_stable [OF inv harmless_log]
        holds_raise)
  have report: "holds (halted t) (py_when b (py_modify (\<lambda>r. log_effect (EffStep (final_step r)) r)))
      (\<lambda>x. halted t) (halted t)" for b
    by (intro holds_when holds_modify_stable [OF inv harmless_log_of])
  have rest: "holds (halted t) (py_then (py_modify (\<lambda>r. r\<lparr>rn_step := False\<rparr>))
    (py_then
       (py_catch
          (py_then
             (py_when recovering
                (py_then (py_modify (retire_accepted_service_requests env)) (save_state env)))
             (stop_runner env (\<not> recovering)))
          (\<lambda>e. py_then (py_when b (py_modify (log_effect (EffStep (StepFailed e)))))
                 (py_raise e)))
       (py_when b (py_modify (\<lambda>r. log_effect (EffStep (final_step r)) r))))) (\<lambda>x. halted t) (halted t)" for b
    by (rule holds_then [OF holds_modify_stable [OF inv take]],
        rule holds_then [OF holds_catch [OF body handler] report])
  show ?thesis
    unfolding stop_from_stage_def Let_def
    by (rule holds_read, rule holds_weaken [OF rest]) simp_all
qed

lemma finish_settled:
  assumes "at_boundary r" "st_pending_decision (rn_state r) = None"
    and "final \<longrightarrow> \<not> pausing r"
  shows "runner_inv (finish_stage_step oc final (r\<lparr>rn_idle := True\<rparr>))
     \<and> settled_loop (finish_stage_step oc final (r\<lparr>rn_idle := True\<rparr>))
     \<and> rn_stage_task (finish_stage_step oc final (r\<lparr>rn_idle := True\<rparr>)) = None"
  using assms
  by (auto simp: finish_stage_step_def settle_step_def log_effect_def at_boundary_def runner_inv_def
      settled_loop_def pausing_def)

text \<open>The part of \<open>complete_stage_task\<close> after the outcome was applied and saved.\<close>

lemma settle_boundary_holds:
  assumes env: "considerate env"
  shows "holds (\<lambda>r. at_boundary r \<and> st_pending_decision (rn_state r) = None)
    (py_read (\<lambda>rn.
       let final = at_dag_end rn in
       if decision_command (st_last_decision (rn_state rn)) = Some StopCommand
       then py_then (stop_from_stage env False) (py_return StageStopped)
       else
         py_then (py_when (\<not> requested) (snapshot_stage_boundary env oc final False))
        (py_then (py_modify (\<lambda>r. finish_stage_step oc final (r\<lparr>rn_idle := True\<rparr>)))
        (py_then (py_modify (\<lambda>r. if st_mode (rn_state r) = RunningMode \<or> final
                                 then r\<lparr>rn_wake := True\<rparr> else r))
           (py_return StageReady))))) completed runner_inv"
  unfolding Let_def
proof (rule holds_read, rule holds_if)
  fix rn
  let ?P = "\<lambda>r. at_boundary r \<and> st_pending_decision (rn_state r) = None"
  show "holds (\<lambda>s. ?P s \<and> s = rn) (py_then (stop_from_stage env False) (py_return StageStopped))
      completed runner_inv"
    by (rule holds_then [where R = "halted (rn_task rn)"], rule holds_weaken [OF stop_from_stage_holds [OF env]])
      (auto simp: at_boundary_def halted_def completed_def intro!: holds_return)
  let ?final = "at_dag_end rn"
  let ?F = "\<lambda>r. ?P r \<and> (?final \<longrightarrow> \<not> pausing r)"
  have final: "?final \<longrightarrow> \<not> pausing rn"
    by (auto simp: at_dag_end_def Let_def pausing_def)
  have snapshot: "holds (\<lambda>s. ?P s \<and> s = rn)
      (py_when (\<not> requested) (snapshot_stage_boundary env oc ?final False)) (\<lambda>x. ?F) runner_inv"
  proof (cases ?final)
    case True
    then have "snapshot_stage_boundary env oc ?final False = py_return ()"
      by (simp add: snapshot_stage_boundary_def snapshot_due_def py_read_def fun_eq_iff)
    then show ?thesis
      using final True by (auto intro!: holds_when holds_return)
  next
    case False
    show ?thesis
      by (rule holds_when, rule holds_weaken [OF snapshot_boundary_holds [OF stable_free env]])
        (use False in \<open>auto simp: at_boundary_def\<close>)
  qed
  have finish: "holds ?F (py_modify (\<lambda>r. finish_stage_step oc ?final (r\<lparr>rn_idle := True\<rparr>)))
      (\<lambda>x r. runner_inv r \<and> settled_loop r) runner_inv"
    using finish_settled by (intro holds_modify) blast
  have wake: "holds (\<lambda>r. runner_inv r \<and> settled_loop r)
      (py_modify (\<lambda>r. if st_mode (rn_state r) = RunningMode \<or> ?final then r\<lparr>rn_wake := True\<rparr> else r))
      (\<lambda>x r. runner_inv r \<and> settled_loop r) runner_inv"
    by (rule holds_modify_stable [OF stable_settled], rule harmlessI) simp
  show "holds (\<lambda>s. ?P s \<and> s = rn)
      (py_then (py_when (\<not> requested) (snapshot_stage_boundary env oc ?final False))
        (py_then (py_modify (\<lambda>r. finish_stage_step oc ?final (r\<lparr>rn_idle := True\<rparr>)))
        (py_then (py_modify (\<lambda>r. if st_mode (rn_state r) = RunningMode \<or> ?final
                                 then r\<lparr>rn_wake := True\<rparr> else r))
           (py_return StageReady)))) completed runner_inv"
    by (rule holds_then [OF snapshot holds_then [OF finish holds_then [OF wake holds_return]]])
      (simp add: completed_def)
qed

lemma complete_stage_holds:
  assumes env: "considerate env"
  shows "holds (\<lambda>r. runner_inv r \<and> settled_loop r \<and> rn_stage_task r = Some (TaskFinished oc))
     (complete_stage_task env oc) completed runner_inv"
proof -
  let ?P = "\<lambda>r. at_boundary r \<and> st_pending_decision (rn_state r) = None"
  let ?start = "\<lambda>r. r\<lparr>rn_stage_task := None, rn_last_attempt := Some (oc_attempt oc),
                               rn_last_response := oc_result oc\<rparr>"
  have start: "boundary_of oc (?start r)"
    if "runner_inv r \<and> settled_loop r \<and> rn_stage_task r = Some (TaskFinished oc)" for r
    using that by (auto simp: boundary_of_def runner_inv_def pausing_def)
  have unknown: "holds (boundary_of oc) (py_then (pause_unknown_stage env oc) (py_return StageUnknown))
      completed runner_inv"
    by (rule holds_then [OF pause_unknown_holds [OF env] holds_return]) (simp add: completed_def)
  have failing: "holds (boundary_of oc) (py_then (py_modify (on_state (drop_result (at_stage_id (oc_attempt oc)))))
      (py_raise RuntimeError)) completed runner_inv"
  proof (rule holds_then [where R = runner_inv])
    show "holds (boundary_of oc) (py_modify (on_state (drop_result (at_stage_id (oc_attempt oc)))))
        (\<lambda>x. runner_inv) runner_inv"
      by (rule holds_modify)
        (auto simp: boundary_of_def runner_inv_def drop_result_def dag_ok_def validate_transitions_def
          pausing_def known_stage_def cursor_stage_def cursor_node_def)
  qed (auto intro!: holds_raise)
  have phase: "holds P (py_modify (on_state (\<lambda>s. s\<lparr>st_phase := PhaseWaiting\<rparr>))) (\<lambda>x. P) E"
    if "stable P" for P E
    by (rule holds_modify_stable [OF that harmless_phase])
  have requested: "holds (\<lambda>r. at_boundary r \<and> (\<not> requested \<longrightarrow> st_pending_decision (rn_state r) = None))
      (py_when requested
         (py_then (snapshot_stage_boundary env oc False True)
         (py_then apply_pending_dag_decision (save_state env)))) (\<lambda>x. ?P) runner_inv" for requested
  proof (rule holds_when)
    have "holds at_boundary (py_then (snapshot_stage_boundary env oc False True)
         (py_then apply_pending_dag_decision (save_state env))) (\<lambda>x. ?P) runner_inv"
      by (rule holds_then [OF holds_weaken [OF snapshot_boundary_holds [OF stable_boundary env]]
            holds_then [OF holds_weaken [OF apply_pending_holds] holds_save_weak [OF stable_free env]]])
        (auto simp: at_boundary_def)
    then show "holds (\<lambda>r. at_boundary r \<and> (\<not> requested \<longrightarrow> st_pending_decision (rn_state r) = None))
        (py_then (snapshot_stage_boundary env oc False True)
         (py_then apply_pending_dag_decision (save_state env))) (\<lambda>x. ?P) runner_inv"
      by (rule holds_weaken) auto
  qed simp
  have save: "holds (\<lambda>r. at_boundary r \<and> (\<not> requested \<longrightarrow> st_pending_decision (rn_state r) = None))
      (save_state env)
      (\<lambda>x r. at_boundary r \<and> (\<not> requested \<longrightarrow> st_pending_decision (rn_state r) = None)) runner_inv" for requested
    by (rule holds_save_weak [OF stable_no_pending env]) (simp add: at_boundary_def)
  have applied: "holds (boundary_of oc) (apply_stage_outcome env oc requested)
      (\<lambda>x r. at_boundary r \<and> (\<not> requested \<longrightarrow> st_pending_decision (rn_state r) = None)) runner_inv" for requested
    by (rule holds_weaken [OF apply_stage_outcome_holds]) (auto simp: at_boundary_def)
  show ?thesis
    unfolding complete_stage_task_def Let_def
  proof (rule holds_then [where R = "boundary_of oc"], rule holds_modify, rule start, assumption,
      rule holds_if, rule unknown, rule holds_if, rule failing, rule holds_read)
    fix rn
    show "holds (\<lambda>s. boundary_of oc s \<and> s = rn)
      (case find (\<lambda>n. node_stage_id n = Some (at_stage_id (oc_attempt oc))) (stages (st_template (rn_state rn))) of
         None \<Rightarrow> py_raise StopIteration
       | Some d \<Rightarrow>
         py_then (apply_stage_outcome env oc (requested_snapshot (rn_state rn) d oc))
        (py_then (py_modify (on_state (\<lambda>s. s\<lparr>st_phase := PhaseWaiting\<rparr>)))
        (py_then (save_state env)
        (py_then (py_when (requested_snapshot (rn_state rn) d oc)
                   (py_then (snapshot_stage_boundary env oc False True)
                   (py_then apply_pending_dag_decision (save_state env))))
           (py_read (\<lambda>rn'.
              if decision_command (st_last_decision (rn_state rn')) = Some StopCommand
              then py_then (stop_from_stage env False) (py_return StageStopped)
              else
                py_then (py_when (\<not> requested_snapshot (rn_state rn) d oc)
                   (snapshot_stage_boundary env oc (at_dag_end rn') False))
               (py_then (py_modify (\<lambda>r. finish_stage_step oc (at_dag_end rn') (r\<lparr>rn_idle := True\<rparr>)))
               (py_then (py_modify (\<lambda>r. if st_mode (rn_state r) = RunningMode \<or> at_dag_end rn'
                                        then r\<lparr>rn_wake := True\<rparr> else r))
                  (py_return StageReady))))))))) completed runner_inv"
      (is "holds _ (case ?find of None \<Rightarrow> _ | Some d \<Rightarrow> ?run d) _ _")
    proof (cases ?find)
      case None
      then show ?thesis by (auto simp: boundary_of_def intro!: holds_raise)
    next
      case (Some d)
      have "holds (boundary_of oc) (?run d) completed runner_inv"
        by (rule holds_then [OF applied holds_then [OF phase [OF stable_no_pending] holds_then [OF save
              holds_then [OF requested settle_boundary_holds [OF env, unfolded Let_def]]]]])
      then show ?thesis using Some by (auto intro: holds_weaken)
    qed
  qed
qed

end
