(* ===== verification/Dag_Loop.thy ===== *)
theory Dag_Loop
  imports Dag_Handlers
begin

text \<open>
  Triples of service supervision, readiness, finalization and launching, of one turn of the
  scheduler, and the invariant of every execution.
\<close>

section \<open>Services\<close>

lemma supervision_holds:
  assumes "stable P" "considerate env"
  shows "holds P (apply_supervision_result env action) (\<lambda>x. P) P"
proof -
  have pause: "harmless (\<lambda>r. let r = pause_for_services r in
      if rn_stage_task r = None then on_state (\<lambda>s. s\<lparr>st_phase := PhaseWaiting\<rparr>) r else r)"
    unfolding Let_def
    by (rule harmless_comp [OF harmless_pause_for_services harmless_cond [OF harmless_phase]])
  have monitor: "harmless (\<lambda>r. r\<lparr>rn_service_task := t\<rparr>)" for t
    by (rule harmlessI) simp
  have rest: "harmless (\<lambda>r. log_effect EffMonitor
      ((settle_step (\<lambda>r. StepFailed RuntimeError) r)\<lparr>rn_service_task := Some TaskRunning\<rparr>))"
    by (rule harmless_comp [OF harmless_comp [OF harmless_settle monitor] harmless_log])
  show ?thesis
    unfolding apply_supervision_result_def
    by (rule holds_if, rule holds_raise, assumption,
        rule holds_then [OF holds_modify_stable [OF assms(1) pause]
          holds_then [OF holds_save [OF assms] holds_modify_stable [OF assms(1) rest]]])
qed

lemma readiness_holds:
  assumes "stable P" "considerate env"
  shows "holds P (apply_readiness_result env action) (\<lambda>x. P) P"
proof -
  have pause: "harmless (\<lambda>r. on_state (\<lambda>s. s\<lparr>st_phase := PhaseWaiting\<rparr>) (pause_for_services r))"
    by (rule harmless_comp [OF harmless_pause_for_services harmless_phase])
  have "holds P (py_then (py_modify (\<lambda>r. on_state (\<lambda>s. s\<lparr>st_phase := PhaseWaiting\<rparr>) (pause_for_services r)))
         (py_then (save_state env)
         (py_then (py_modify (settle_step (\<lambda>r. StepFailed RuntimeError)))
            (py_return False)))) (\<lambda>x. P) P"
    by (rule holds_then [OF holds_modify_stable [OF assms(1) pause] holds_then [OF holds_save [OF assms]
          holds_then [OF holds_modify_stable [OF assms(1) harmless_settle] holds_return]]])
  then show ?thesis
    unfolding apply_readiness_result_def
    by (auto split: service_action.split intro: holds_raise holds_return)
qed

section \<open>Completion\<close>

lemma complete_dag_holds:
  assumes env: "considerate env" and P: "stable P"
  shows "holds P (complete_dag env) (\<lambda>x. P) P"
proof -
  have enter: "harmless (\<lambda>r. on_state (\<lambda>s. s\<lparr>st_pending_advance := rn_pending_advance r\<rparr>)
      (r\<lparr>rn_maintenance := True\<rparr>))"
    by (rule harmlessI) (simp add: same_dag_def)
  have leave: "harmless (\<lambda>r. r\<lparr>rn_maintenance := False\<rparr>)" by (rule harmlessI) simp
  have check: "holds P (py_then (py_modify (\<lambda>r. r\<lparr>rn_last_snapshot := Some snapshot\<rparr>))
      (if fs_valid snapshot then py_return () else py_raise RuntimeError)) (\<lambda>x. P) P" for snapshot
    by (rule holds_then [OF holds_modify_stable [OF P harmless_snapshot] holds_if [OF holds_return holds_raise]])
  have final: "holds P (py_finally
      (py_bind (finalize_snapshot env PhaseCompleted) (\<lambda>snapshot.
         py_then (py_modify (\<lambda>r. r\<lparr>rn_last_snapshot := Some snapshot\<rparr>))
           (if fs_valid snapshot then py_return () else py_raise RuntimeError)))
      (\<lambda>r. r\<lparr>rn_maintenance := False\<rparr>)) (\<lambda>x. P) P"
    using stable_harmless [OF P leave]
    by (intro holds_finally holds_weaken [OF holds_bind [OF finalize_holds [OF P env] check]]) blast+
  show ?thesis
    unfolding complete_dag_def
    by (rule holds_then [OF holds_modify_stable [OF P enter] holds_then [OF final
          holds_then [OF holds_modify_stable [OF P harmless_confirmed(2)]
          holds_then [OF close_services_holds [OF P env]
          holds_then [OF holds_modify_stable [OF P harmless_phase]
          holds_then [OF holds_save [OF P env] holds_modify_stable [OF P harmless_settle]]]]]]])
qed

section \<open>Launching\<close>

text \<open>When the scheduler decides to launch: the DAG is not at its end and no pause is pending.\<close>

definition launchable :: "dag_runner \<Rightarrow> bool" where
  "launchable r \<longleftrightarrow> runner_inv r \<and> settled_loop r \<and> rn_stage_task r = None \<and> rn_readiness r = None
     \<and> \<not> pausing r \<and> \<not> at_dag_end r"

definition launching :: "dag_runner \<Rightarrow> bool" where
  "launching r \<longleftrightarrow> at_boundary r \<and> settled_loop r \<and> rn_readiness r = None"

lemma stable_launching: "stable launching"
  by (auto simp: stable_def launching_def at_boundary_def undisturbed_def)

text \<open>
  The cursor moves on only in front of the last cycle's end, so it stays inside the DAG and
  the cycles.
\<close>

lemma advance_cursor_ok:
  assumes "dag_ok s" "st_pending_decision s = None"
    "\<not> (st_stage_position s = int (length (stages (st_template s))) \<and> st_cycle_number s = cycles (st_template s))"
  shows "dag_ok (advance_cursor s)" "st_pending_decision (advance_cursor s) = None"
    "st_template (advance_cursor s) = st_template s" "st_last_decision (advance_cursor s) = st_last_decision s"
    "st_mode (advance_cursor s) = st_mode s"
  using assms
  by (auto simp: advance_cursor_def Let_def dag_ok_def validate_transitions_def known_stage_def has_key_def
      Suc_leI intro: order.not_eq_order_implies_strict)

lemma clear_decision_ok:
  "dag_ok s \<Longrightarrow> st_pending_decision s = None \<Longrightarrow>
     dag_ok (s\<lparr>st_last_decision := None, st_pause_requested := b, st_phase := p\<rparr>)"
  by (auto simp: dag_ok_def validate_transitions_def known_stage_def cursor_stage_def cursor_node_def)

lemma launch_state:
  assumes "launchable r"
  defines "a \<equiv> (let q = r\<lparr>rn_idle := False\<rparr> in
      if rn_pending_advance q then on_state advance_cursor (q\<lparr>rn_pending_advance := False\<rparr>) else q)"
  shows "launching (on_state (\<lambda>s. s\<lparr>st_last_decision := None, st_pause_requested := False,
      st_phase := PhaseStageRunning\<rparr>) a)"
proof -
  have r: "dag_ok (rn_state r)" "st_pending_decision (rn_state r) = None" "rn_stage_task r = None"
    "rn_readiness r = None"
    using assms(1) by (auto simp: launchable_def runner_inv_def settled_loop_def)
  have last: "\<not> (st_stage_position (rn_state r) = int (length (stages (st_template (rn_state r))))
      \<and> st_cycle_number (rn_state r) = cycles (st_template (rn_state r)))" if "rn_pending_advance r"
    using assms(1) that by (auto simp: launchable_def at_dag_end_def pausing_def Let_def)
  have a: "dag_ok (rn_state a)" "st_pending_decision (rn_state a) = None"
    using r advance_cursor_ok [OF r(1,2) last] by (auto simp: a_def Let_def)
  have b: "rn_stage_task a = None" "rn_readiness a = None" "\<not> rn_idle a"
    using r by (auto simp: a_def Let_def)
  show ?thesis
    using clear_decision_ok [OF a, where b = False and p = PhaseStageRunning] a b
    by (simp add: launching_def at_boundary_def runner_inv_def settled_loop_def pausing_def decision_command_def)
qed

lemma launch_holds:
  assumes "considerate env"
  shows "holds launchable (launch_next_stage env) (\<lambda>x r. runner_inv r \<and> settled_loop r) runner_inv"
proof -
  define step1 where "step1 = (\<lambda>r::dag_runner. r\<lparr>rn_idle := False\<rparr>)"
  define step2 where "step2 = (\<lambda>r. if rn_pending_advance r
      then on_state advance_cursor (r\<lparr>rn_pending_advance := False\<rparr>) else r)"
  define step3 where "step3 = on_state (\<lambda>s. s\<lparr>st_last_decision := None, st_pause_requested := False,
      st_phase := PhaseStageRunning\<rparr>)"
  have start: "launching (step3 (step2 (step1 r)))" if "launchable r" for r
    using launch_state [OF that] by (simp add: step1_def step2_def step3_def Let_def)
  have done_: "runner_inv t \<and> settled_loop t"
    if "launching r" "t = log_effect e (r\<lparr>rn_stage_task := Some TaskRunning, rn_manual := False\<rparr>)" for r t e
    using that
    by (simp add: launching_def at_boundary_def runner_inv_def settled_loop_def pausing_def log_effect_def)
  have save: "holds launching (save_state env) (\<lambda>x. launching) runner_inv"
    by (rule holds_save_weak [OF stable_launching assms]) (simp add: launching_def at_boundary_def)
  show ?thesis
    unfolding launch_next_stage_def
      step1_def [symmetric] step2_def [symmetric] step3_def [symmetric]
    by (rule holds_then [where R = "\<lambda>r. launching (step3 (step2 r))"], rule holds_modify, rule start, assumption,
        rule holds_then [where R = "\<lambda>r. launching (step3 r)"], rule holds_modify, assumption,
        rule holds_then [where R = launching], rule holds_modify, assumption,
        rule holds_then [OF save], rule holds_modify, rule done_, assumption, rule refl)
qed

section \<open>One turn\<close>

abbreviation looping :: "dag_runner \<Rightarrow> bool" where
  "looping r \<equiv> runner_inv r \<and> settled_loop r"

definition turned :: "loop_signal \<Rightarrow> dag_runner \<Rightarrow> bool" where
  "turned signal r \<longleftrightarrow> runner_inv r \<and> (signal = LoopContinue \<longrightarrow> settled_loop r)"

lemma turnedI: "looping r \<Longrightarrow> turned signal r"
  by (simp add: turned_def)

definition between_stages :: "dag_runner \<Rightarrow> bool" where
  "between_stages r \<longleftrightarrow> looping r \<and> rn_stage_task r = None \<and> rn_readiness r = None"

lemma stable_between: "stable between_stages"
  by (auto simp: stable_def between_stages_def undisturbed_def)

lemma between_looping: "between_stages r \<Longrightarrow> looping r"
  by (simp add: between_stages_def)

lemma advance_ready_holds:
  assumes "considerate env"
  shows "holds (\<lambda>r. looping r \<and> rn_readiness r \<noteq> None) (advance_ready env action) turned runner_inv"
proof -
  have reset: "between_stages (r\<lparr>rn_readiness := None\<rparr>)" if "looping r \<and> rn_readiness r \<noteq> None" for r
    using that by (auto simp: between_stages_def runner_inv_def settled_loop_def pausing_def)
  have applied: "holds between_stages (apply_readiness_result env action) (\<lambda>x. between_stages) runner_inv"
    by (rule holds_weaken [OF readiness_holds [OF stable_between assms]]) (auto simp: between_stages_def)
  have finish: "holds between_stages (py_then (complete_dag env) (py_return LoopExit)) turned runner_inv"
    by (rule holds_then [OF holds_weaken [OF complete_dag_holds [OF assms stable_between]]
          holds_return [where P = between_stages]])
      (auto simp: between_stages_def turned_def)
  have launch: "holds launchable (py_then (launch_next_stage env) (py_return LoopContinue)) turned runner_inv"
    by (rule holds_then [OF launch_holds [OF assms] holds_return]) (simp add: turned_def)
  have launchable: "launchable r"
    if "between_stages r" "\<not> at_dag_end r" "\<not> (st_mode (rn_state r) = PausedMode \<and> \<not> rn_step r)" for r
    using that by (auto simp: launchable_def between_stages_def settled_loop_def runner_inv_def)
  show ?thesis
    unfolding advance_ready_def
  proof (rule holds_then, rule holds_modify, rule reset, assumption,
      rule holds_bind [OF applied], rule holds_if)
    show "holds between_stages (py_return LoopContinue) turned runner_inv"
      by (rule holds_return) (simp add: between_stages_def turned_def)
    show "holds between_stages (py_read (\<lambda>r.
         if rn_service_retrying r \<or> rn_maintenance r then py_return LoopContinue
         else if at_dag_end r then py_then (complete_dag env) (py_return LoopExit)
         else if st_mode (rn_state r) = PausedMode \<and> \<not> rn_step r then py_return LoopContinue
         else py_then (launch_next_stage env) (py_return LoopContinue))) turned runner_inv"
      by (rule holds_read, rule holds_if, rule holds_return, simp add: between_stages_def turned_def,
          rule holds_if, rule holds_weaken [OF finish], simp_all,
          rule conjI, rule impI, rule holds_return, simp add: between_stages_def turned_def,
          rule impI, rule holds_weaken [OF launch]) (use launchable in blast)+
  qed
qed

lemma run_readiness_looping: "looping r \<Longrightarrow> looping (run_readiness r)"
  by (auto simp: run_readiness_def runner_inv_def settled_loop_def pausing_def)

lemma supervise_looping:
  assumes "considerate env"
  shows "holds looping (case t of
      Some (TaskFinished action) \<Rightarrow> apply_supervision_result env action
    | Some (TaskRaised e) \<Rightarrow> py_raise e
    | _ \<Rightarrow> py_return ()) (\<lambda>x. looping) runner_inv"
proof -
  have "holds looping (apply_supervision_result env action) (\<lambda>x. looping) runner_inv" for action
    by (rule holds_weaken [OF supervision_holds [OF stable_settled assms]]) auto
  then show ?thesis
    by (auto split: option.split task.split intro: holds_raise holds_return)
qed

lemma readiness_looping:
  assumes "considerate env"
  shows "holds looping (py_then (py_modify (\<lambda>r. if rn_wake r then run_readiness r else r))
                (py_read (\<lambda>r. case rn_readiness r of
                     Some (TaskFinished action) \<Rightarrow> advance_ready env action
                   | Some (TaskRaised e) \<Rightarrow> py_raise e
                   | _ \<Rightarrow> py_return LoopContinue))) turned runner_inv"
proof (rule holds_then [where R = looping], rule holds_modify)
  show "looping (if rn_wake r then run_readiness r else r)" if "looping r" for r
    using that run_readiness_looping by simp
  show "holds looping (py_read (\<lambda>r. case rn_readiness r of
                     Some (TaskFinished action) \<Rightarrow> advance_ready env action
                   | Some (TaskRaised e) \<Rightarrow> py_raise e
                   | _ \<Rightarrow> py_return LoopContinue)) turned runner_inv"
  proof (rule holds_read)
    fix r
    have ready: "holds (\<lambda>s. looping s \<and> s = r) (advance_ready env action) turned runner_inv"
      if "rn_readiness r = Some (TaskFinished action)" for action
      by (rule holds_weaken [OF advance_ready_holds [OF assms]]) (use that in auto)
    show "holds (\<lambda>s. looping s \<and> s = r) (case rn_readiness r of
                     Some (TaskFinished action) \<Rightarrow> advance_ready env action
                   | Some (TaskRaised e) \<Rightarrow> py_raise e
                   | _ \<Rightarrow> py_return LoopContinue) turned runner_inv"
      using ready by (auto split: option.split task.split intro: holds_raise holds_return simp: turned_def)
  qed
qed

lemma advance_once_holds:
  assumes env: "considerate env"
  shows "holds looping (advance_once env) turned runner_inv"
proof -
  have stage: "holds (\<lambda>s. looping s \<and> s = r)
      (case rn_stage_task r of
            Some (TaskFinished oc) \<Rightarrow> complete_stage_task env oc
          | Some (TaskRaised e) \<Rightarrow> py_raise e
          | _ \<Rightarrow> py_return StageReady) completed runner_inv" for r
  proof -
    have "holds (\<lambda>s. looping s \<and> s = r) (complete_stage_task env oc) completed runner_inv"
      if "rn_stage_task r = Some (TaskFinished oc)" for oc
      by (rule holds_weaken [OF complete_stage_holds [OF env]]) (use that in auto)
    then show ?thesis
      by (auto split: option.split task.split intro: holds_raise holds_return simp: completed_def)
  qed
  have signal: "holds (completed signal) (case signal of
            StageUnknown \<Rightarrow> py_return LoopContinue
          | StageStopped \<Rightarrow> py_return LoopExit
          | StageReady \<Rightarrow>
              py_then (py_modify (\<lambda>r. if rn_wake r then run_readiness r else r))
                (py_read (\<lambda>r. case rn_readiness r of
                     Some (TaskFinished action) \<Rightarrow> advance_ready env action
                   | Some (TaskRaised e) \<Rightarrow> py_raise e
                   | _ \<Rightarrow> py_return LoopContinue))) turned runner_inv" for signal
    by (cases signal)
      (auto intro!: holds_return holds_weaken [OF readiness_looping [OF env]] simp: completed_def turned_def)
  show ?thesis
    unfolding advance_once_def
  proof (rule holds_read, rule holds_if, rule holds_return, simp add: turned_def,
      rule holds_if, rule holds_return, simp add: turned_def)
    fix r
    show "holds (\<lambda>s. looping s \<and> s = r)
       (py_then (case rn_service_task r of
                  Some (TaskFinished action) \<Rightarrow> apply_supervision_result env action
                | Some (TaskRaised e) \<Rightarrow> py_raise e
                | _ \<Rightarrow> py_return ())
      (py_read (\<lambda>r. py_bind
         (case rn_stage_task r of
            Some (TaskFinished oc) \<Rightarrow> complete_stage_task env oc
          | Some (TaskRaised e) \<Rightarrow> py_raise e
          | _ \<Rightarrow> py_return StageReady)
         (\<lambda>signal. case signal of
            StageUnknown \<Rightarrow> py_return LoopContinue
          | StageStopped \<Rightarrow> py_return LoopExit
          | StageReady \<Rightarrow>
              py_then (py_modify (\<lambda>r. if rn_wake r then run_readiness r else r))
                (py_read (\<lambda>r. case rn_readiness r of
                     Some (TaskFinished action) \<Rightarrow> advance_ready env action
                   | Some (TaskRaised e) \<Rightarrow> py_raise e
                   | _ \<Rightarrow> py_return LoopContinue)))))) turned runner_inv"
      by (rule holds_then [where R = looping], rule holds_weaken [OF supervise_looping [OF env]], blast,
          assumption, assumption, rule holds_read, rule holds_bind [OF stage signal])
  qed
qed

section \<open>Preparation\<close>

text \<open>
  What the selected state of a starting runner must satisfy. Its mode is not yet the desired
  one, so \<open>runner_inv\<close> need not hold; preparation establishes it.
\<close>

definition starting :: "dag_runner \<Rightarrow> bool" where
  "starting r \<longleftrightarrow> dag_ok (rn_state r) \<and> \<not> rn_idle r \<and> rn_stage_task r = None
     \<and> rn_readiness r = None \<and> \<not> rn_step r \<and> \<not> rn_ready r"

definition prepares_safely :: "scheduler_env \<Rightarrow> bool" where
  "prepares_safely env \<longleftrightarrow> keeps starting (sch_prepare env)"

definition started :: "dag_runner \<Rightarrow> bool" where
  "started r \<longleftrightarrow> at_boundary r \<and> rn_readiness r = None \<and> \<not> rn_step r \<and> \<not> rn_ready r"

lemma stable_started: "stable started"
  by (auto simp: stable_def started_def at_boundary_def undisturbed_def)

lemma stable_started_free: "stable (\<lambda>r. started r \<and> st_pending_decision (rn_state r) = None)"
  by (auto simp: stable_def started_def at_boundary_def undisturbed_def)

lemma starting_started:
  "starting r \<Longrightarrow> \<not> pausing r \<Longrightarrow> started r"
  by (auto simp: starting_def started_def at_boundary_def runner_inv_def)

lemma pending_not_pausing:
  "dag_ok (rn_state r) \<Longrightarrow> st_pending_decision (rn_state r) \<noteq> None \<Longrightarrow> \<not> pausing r"
  by (auto simp: dag_ok_def validate_transitions_def pausing_def decision_command_def)

lemma choose_mode_shape:
  "\<exists>m l p. choose_mode action r = r\<lparr>rn_desired_mode := m,
       rn_state := (rn_state r)\<lparr>st_mode := m, st_last_decision := l, st_phase := p\<rparr>\<rparr>
     \<and> (l = None \<or> l = st_last_decision (rn_state r))
     \<and> (decision_command l = Some PauseCommand \<longrightarrow> m = PausedMode)"
proof -
  let ?m = "if action = ServicesPause then PausedMode else rn_desired_mode r"
  let ?l = "if ?m = RunningMode \<and> decision_command (st_last_decision (rn_state r)) = Some PauseCommand
    then None else st_last_decision (rn_state r)"
  let ?p = "prepared_phase ((rn_state r)\<lparr>st_mode := ?m, st_last_decision := ?l\<rparr>)"
  have "choose_mode action r = r\<lparr>rn_desired_mode := ?m,
       rn_state := (rn_state r)\<lparr>st_mode := ?m, st_last_decision := ?l, st_phase := ?p\<rparr>\<rparr>"
    by (simp add: choose_mode_def Let_def)
  moreover have "decision_command ?l = Some PauseCommand \<longrightarrow> ?m = PausedMode"
    by (cases ?m) (simp_all add: decision_command_def)
  ultimately show ?thesis by (intro exI [of _ ?m] exI [of _ ?l] exI [of _ ?p]) simp
qed

lemma forget_decision_ok:
  "dag_ok s \<Longrightarrow> st_pending_decision s = None \<Longrightarrow> l = None \<or> l = st_last_decision s \<Longrightarrow>
     dag_ok (s\<lparr>st_mode := m, st_last_decision := l, st_phase := p\<rparr>)"
  by (auto simp: dag_ok_def validate_transitions_def known_stage_def cursor_stage_def cursor_node_def)

lemma choose_mode_started:
  assumes "starting r" "st_pending_decision (rn_state r) = None"
  shows "started (choose_mode action r) \<and> st_pending_decision (rn_state (choose_mode action r)) = None"
proof -
  obtain m l p where q: "choose_mode action r = r\<lparr>rn_desired_mode := m,
       rn_state := (rn_state r)\<lparr>st_mode := m, st_last_decision := l, st_phase := p\<rparr>\<rparr>"
    and l: "l = None \<or> l = st_last_decision (rn_state r)" "decision_command l = Some PauseCommand \<longrightarrow> m = PausedMode"
    using choose_mode_shape [of action r] by blast
  have "dag_ok ((rn_state r)\<lparr>st_mode := m, st_last_decision := l, st_phase := p\<rparr>)"
    using assms l(1) by (intro forget_decision_ok) (auto simp: starting_def)
  then show ?thesis
    unfolding q using assms l(2)
    by (simp add: started_def starting_def at_boundary_def runner_inv_def pausing_def)
qed

lemma started_starting: "started r \<Longrightarrow> starting r"
  by (simp add: started_def starting_def at_boundary_def runner_inv_def)

text \<open>Applying a decision leaves the scheduler's own variables alone.\<close>

lemma apply_decision_frame:
  assumes "\<And>r s. P (r\<lparr>rn_state := s\<rparr>) = P r" "\<And>r. P (pause_mode r) = P r"
    "\<And>r b. P (r\<lparr>rn_pending_advance := b\<rparr>) = P r"
  shows "holds P (apply_dag_decision l) (\<lambda>x. P) P" "holds P apply_pending_dag_decision (\<lambda>x. P) P"
proof -
  have move: "holds P (apply_conditional_move l target) (\<lambda>x. P) P" for l target
    unfolding apply_conditional_move_def Let_def
    by (rule holds_read) (auto split: option.split intro!: holds_raise holds_modify simp: assms)
  have decision: "holds P (apply_dag_decision l) (\<lambda>x. P) P" for l
    unfolding apply_dag_decision_def
    by (rule holds_then [where R = P], rule holds_modify, simp add: assms(1))
      (auto split: option.split dag_command.split intro!: holds_raise holds_modify holds_return move
        simp: assms)
  show "holds P (apply_dag_decision l) (\<lambda>x. P) P" by (rule decision)
  have "holds (\<lambda>s. P s \<and> s = r) (case st_pending_decision (rn_state r) of
       None \<Rightarrow> py_return ()
     | Some source \<Rightarrow> py_then (py_modify (on_state (\<lambda>s. s\<lparr>st_pending_decision := None\<rparr>)))
           (apply_dag_decision source)) (\<lambda>x. P) P" for r
    by (cases "st_pending_decision (rn_state r)")
      (auto intro!: holds_return holds_then [OF holds_modify decision] simp: assms)
  then show "holds P apply_pending_dag_decision (\<lambda>x. P) P"
    unfolding apply_pending_dag_decision_def by (rule holds_read)
qed

lemma apply_pending_started:
  "holds started apply_pending_dag_decision
     (\<lambda>x r. started r \<and> st_pending_decision (rn_state r) = None) anywhere"
proof -
  have "holds (\<lambda>r. rn_readiness r = None \<and> \<not> rn_step r \<and> \<not> rn_ready r) apply_pending_dag_decision
     (\<lambda>x r. rn_readiness r = None \<and> \<not> rn_step r \<and> \<not> rn_ready r)
     (\<lambda>r. rn_readiness r = None \<and> \<not> rn_step r \<and> \<not> rn_ready r)"
    by (rule apply_decision_frame) (auto simp: pause_mode_def)
  then have frame: "holds started apply_pending_dag_decision
     (\<lambda>x r. rn_readiness r = None \<and> \<not> rn_step r \<and> \<not> rn_ready r) anywhere"
    by (rule holds_weaken) (simp_all add: started_def)
  have pending: "holds started apply_pending_dag_decision
     (\<lambda>x r. at_boundary r \<and> st_pending_decision (rn_state r) = None) anywhere"
    by (rule holds_weaken [OF apply_pending_holds]) (simp_all add: started_def)
  show ?thesis
    by (rule holds_weaken [OF holds_conj [OF pending frame]]) (simp_all add: started_def)
qed

lemma prepare_holds:
  assumes env: "considerate env" and prep: "prepares_safely env"
  shows "holds starting (prepare_dag_state env status)
     (\<lambda>b r. runner_inv r \<and> (b \<longrightarrow> settled_loop r \<and> rn_ready r)) anywhere"
    (is "holds _ _ ?Q _")
proof -
  let ?free = "\<lambda>r. starting r \<and> st_pending_decision (rn_state r) = None"
  have stop: "holds (\<lambda>s. starting s \<and> s = r) (py_then (stop_from_stage env b) (py_return False)) ?Q anywhere"
    if "\<not> pausing r" for r b
  proof (rule holds_then [where R = "halted (rn_task r)"])
    show "holds (\<lambda>s. starting s \<and> s = r) (stop_from_stage env b) (\<lambda>x. halted (rn_task r)) anywhere"
      by (rule holds_weaken [OF stop_from_stage_holds [OF env]])
        (use starting_started that in \<open>auto simp: halted_def started_def at_boundary_def\<close>)
  qed (auto intro!: holds_return simp: halted_def)
  have prepared: "holds starting (sch_prepare env) (\<lambda>x. starting) anywhere"
    by (rule holds_weaken [OF holds_keeps [OF prep [unfolded prepares_safely_def]]]) auto
  have pending: "holds (\<lambda>s. starting s \<and> s = r)
      (py_when (st_pending_decision (rn_state r) \<noteq> None) (py_then apply_pending_dag_decision (save_state env)))
      (\<lambda>x s. ?free s \<and> (st_pending_decision (rn_state r) \<noteq> None \<longrightarrow> started s)) anywhere" for r
  proof (rule holds_when)
    assume "st_pending_decision (rn_state r) \<noteq> None"
    then have "starting s \<and> s = r \<Longrightarrow> started s" for s
      using starting_started pending_not_pausing by (auto simp: starting_def)
    then show "holds (\<lambda>s. starting s \<and> s = r) (py_then apply_pending_dag_decision (save_state env))
        (\<lambda>x s. ?free s \<and> (st_pending_decision (rn_state r) \<noteq> None \<longrightarrow> started s)) anywhere"
      using started_starting
      by (intro holds_weaken [OF holds_then [OF apply_pending_started
            holds_save_weak [OF stable_started_free env]]]) auto
  qed auto
  have finish: "holds ?free
      (py_then (py_modify (choose_mode action))
               (py_then (save_state env)
               (py_then (py_modify (\<lambda>r. (update_journal_pause status r)\<lparr>rn_ready := True\<rparr>))
               (py_then (py_modify (\<lambda>r. if st_active_attempt (rn_state r) \<noteq> None
                    then log_effect EffRecovered (r\<lparr>rn_idle := False, rn_stage_task := Some TaskRunning\<rparr>)
                    else r\<lparr>rn_idle := True\<rparr>))
                  (py_return True))))) ?Q anywhere" for action
  proof -
    define P where "P r \<longleftrightarrow> started r \<and> st_pending_decision (rn_state r) = None" for r
    define R where "R r \<longleftrightarrow> at_boundary r \<and> rn_readiness r = None \<and> \<not> rn_step r \<and> rn_ready r
        \<and> st_pending_decision (rn_state r) = None" for r
    have ready: "R ((update_journal_pause status r)\<lparr>rn_ready := True\<rparr>)" if "P r" for r
    proof -
      have "runner_inv (update_journal_pause status r)" "undisturbed r (update_journal_pause status r)"
        using that journal_inv journal_undisturbed by (auto simp: P_def started_def at_boundary_def)
      then show ?thesis
        using that
        by (auto simp: P_def R_def started_def at_boundary_def undisturbed_def runner_inv_def pausing_def)
    qed
    have idle: "?Q True (if st_active_attempt (rn_state r) \<noteq> None
        then log_effect EffRecovered (r\<lparr>rn_idle := False, rn_stage_task := Some TaskRunning\<rparr>)
        else r\<lparr>rn_idle := True\<rparr>)" if "R r" for r
      using that
      by (auto simp: R_def at_boundary_def runner_inv_def pausing_def settled_loop_def log_effect_def)
    have save: "holds P (save_state env) (\<lambda>x. P) anywhere"
      unfolding P_def by (rule holds_save_weak [OF stable_started_free env]) simp
    show ?thesis
      by (rule holds_then [where R = P], rule holds_modify, simp add: P_def choose_mode_started,
          rule holds_then [OF save], rule holds_then [where R = R], rule holds_modify, rule ready, assumption,
          rule holds_then [where R = "?Q True"], rule holds_modify, rule idle, assumption,
          rule holds_return, simp)
  qed
  have main: "holds (\<lambda>s. starting s \<and> s = r) (let pending = (st_pending_decision (rn_state r) \<noteq> None) in
         py_then (py_when pending (py_then apply_pending_dag_decision (save_state env)))
           (py_read (\<lambda>r.
              if pending \<and> decision_command (st_last_decision (rn_state r)) = Some StopCommand
              then py_then (stop_from_stage env False) (py_return False)
              else
                py_then (py_modify (choose_mode action))
               (py_then (save_state env)
               (py_then (py_modify (\<lambda>r. (update_journal_pause status r)\<lparr>rn_ready := True\<rparr>))
               (py_then (py_modify (\<lambda>r. if st_active_attempt (rn_state r) \<noteq> None
                    then log_effect EffRecovered (r\<lparr>rn_idle := False, rn_stage_task := Some TaskRunning\<rparr>)
                    else r\<lparr>rn_idle := True\<rparr>))
                  (py_return True))))))) ?Q anywhere" for r action
    unfolding Let_def
  proof (rule holds_then [OF pending], rule holds_read, rule holds_if)
    fix q :: dag_runner
    assume "st_pending_decision (rn_state r) \<noteq> None
        \<and> decision_command (st_last_decision (rn_state q)) = Some StopCommand"
    then have "\<not> pausing q" by (simp add: pausing_def)
    then show "holds (\<lambda>s. (?free s \<and> (st_pending_decision (rn_state r) \<noteq> None \<longrightarrow> started s)) \<and> s = q)
        (py_then (stop_from_stage env False) (py_return False)) ?Q anywhere"
      by (intro holds_weaken [OF stop]) auto
  next
    fix q :: dag_runner
    show "holds (\<lambda>s. (?free s \<and> (st_pending_decision (rn_state r) \<noteq> None \<longrightarrow> started s)) \<and> s = q)
      (py_then (py_modify (choose_mode action))
               (py_then (save_state env)
               (py_then (py_modify (\<lambda>r. (update_journal_pause status r)\<lparr>rn_ready := True\<rparr>))
               (py_then (py_modify (\<lambda>r. if st_active_attempt (rn_state r) \<noteq> None
                    then log_effect EffRecovered (r\<lparr>rn_idle := False, rn_stage_task := Some TaskRunning\<rparr>)
                    else r\<lparr>rn_idle := True\<rparr>))
                  (py_return True))))) ?Q anywhere"
      by (rule holds_weaken [OF finish]) auto
  qed
  show ?thesis
    unfolding prepare_dag_state_def
    by (rule holds_read, rule holds_if, rule stop, simp add: pausing_def,
        rule holds_bind [OF holds_weaken [OF prepared]], blast, assumption, assumption,
        rule holds_if, rule holds_raise, simp, rule holds_read, rule main)
qed

section \<open>Every execution\<close>

definition scheduled :: "dag_runner \<Rightarrow> bool" where
  "scheduled r \<longleftrightarrow> runner_inv r \<and> (rn_task r = DagRunning \<longrightarrow> settled_loop r)"


lemma runner_step_scheduled:
  assumes "runner_step env r r'" "considerate env" "scheduled r"
  shows "scheduled r'"
proof -
  note turn = advance_once_holds [OF assms(2)]
  note inv = assms(3) [unfolded scheduled_def]
  from assms(1) show ?thesis
  proof cases
    case Actor
    then show ?thesis
      using actor_step_keeps [OF Actor] inv by (auto simp: scheduled_def undisturbed_def)
  next
    case Turn
    then have "turned LoopContinue r'" using inv by (intro holdsD [OF turn]) auto
    then show ?thesis by (simp add: turned_def scheduled_def)
  next
    case (Finish s)
    then have "turned LoopExit s" using inv by (intro holdsD [OF turn]) auto
    then show ?thesis using Finish leave_loop_inv by (simp add: turned_def scheduled_def)
  next
    case (Fail e s x t)
    then have "runner_inv s" using inv by (intro holds_raisedD [OF turn]) auto
    then have "runner_inv t"
      using Fail(4) keepsD [OF keeps_holds [OF fail_runner_holds [OF stable_runner_inv assms(2)]]] by blast
    then show ?thesis using Fail leave_loop_inv by (simp add: scheduled_def)
  next
    case (Stop x)
    then have "halted DagDone r'" using inv by (intro stop_now_halts [OF assms(2)]) auto
    then show ?thesis by (simp add: scheduled_def halted_def)
  qed
qed

lemma reachable_scheduled:
  assumes "(runner_step env)\<^sup>*\<^sup>* r r'" "considerate env" "scheduled r"
  shows "scheduled r'"
  using assms(1)
  by (induction rule: rtranclp_induct) (use assms runner_step_scheduled in blast)+

end
