(* ===== verification/Dag_Log.thy ===== *)
theory Dag_Log
  imports Dag_Loop
begin

text \<open>
  The effects the scheduler has published: a run is finalized as completed only from the last
  stage of the last cycle.
\<close>

section \<open>The invariant\<close>

definition finished :: "runner_state \<Rightarrow> bool" where
  "finished s \<longleftrightarrow> st_stage_position s = int (length (stages (st_template s)))
     \<and> st_cycle_number s = cycles (st_template s) \<and> st_pending_advance s
     \<and> st_active_attempt s = None \<and> decision_command (st_last_decision s) \<noteq> Some PauseCommand"

definition log_ok :: "dag_runner \<Rightarrow> bool" where
  "log_ok r \<longleftrightarrow> (\<forall>s. EffFinalized PhaseCompleted s \<in> set (rn_log r) \<longrightarrow> finished s)"

lemma log_ok_same: "log_ok r \<Longrightarrow> rn_log r' = rn_log r \<Longrightarrow> log_ok r'"
  by (simp add: log_ok_def)

lemma log_ok_effect:
  "log_ok (log_effect e r) \<longleftrightarrow> log_ok r \<and> (\<forall>s. e = EffFinalized PhaseCompleted s \<longrightarrow> finished s)"
  by (auto simp: log_ok_def log_effect_def)

lemma log_actor: "actor_step r r' \<Longrightarrow> log_ok r \<Longrightarrow> log_ok r'"
proof (elim actor_step.cases)
  fix x q q'
  assume eq: "r = q" "r' = q'" "request_pause q = (x, q')" and ok: "log_ok r"
  then show "log_ok r'"
    by (auto simp: request_pause_def pause_mode_def run_actor log_ok_def split: if_splits)
next
  fix q x q'
  assume eq: "r = q" "r' = q'" "settle_pause q = (x, q')" and ok: "log_ok r"
  then show "log_ok r'" by (auto simp: settle_pause_def run_actor log_ok_def split: sum.splits)
next
  fix q status x q'
  assume eq: "r = q" "r' = q'" "resume_now status q = (x, q')" and ok: "log_ok r"
  moreover have "rn_log (update_journal_pause status q) = rn_log q"
    by (auto simp: update_journal_pause_def Let_def split: option.split)
  ultimately show "log_ok r'"
    by (auto simp: resume_now_def run_actor log_ok_def split: sum.splits if_splits)
next
  fix q x q'
  assume eq: "r = q" "r' = q'" "step_now q = (x, q')" and ok: "log_ok r"
  then show "log_ok r'" by (auto simp: step_now_def arm_step_def run_actor log_ok_def split: sum.splits)
next
  fix q p x q'
  assume eq: "r = q" "r' = q'" "rerun_stage p q = (x, q')" and ok: "log_ok r"
  then show "log_ok r'"
    by (auto simp: rerun_stage_def step_now_def arm_step_def run_actor log_ok_def split: sum.splits if_splits)
next
  fix p q x q'
  assume eq: "r = q" "r' = q'" "move_cursor p q = (x, q')" and ok: "log_ok r"
  then show "log_ok r'" by (auto simp: move_cursor_def run_actor log_ok_def split: sum.splits if_splits)
next
  fix kind p q y q'
  assume eq: "r = q" "r' = q'" "reset_retry_count kind p q = (y, q')" and ok: "log_ok r"
  then show "log_ok r'"
    by (auto simp: reset_retry_count_def run_actor log_ok_def
        split: sum.splits if_splits option.splits module_role.splits)
next
  fix q status
  assume eq: "r = q" "r' = update_journal_pause status q" and ok: "log_ok r"
  then show "log_ok r'"
    by (auto simp: update_journal_pause_def Let_def log_ok_def split: option.split)
qed (auto simp: log_ok_def)

lemma log_others: "considerate env \<Longrightarrow> log_ok r \<Longrightarrow> log_ok (sch_others env n r)"
proof -
  assume "considerate env" and ok: "log_ok r"
  then have "actor_step\<^sup>*\<^sup>* r (sch_others env n r)" by (simp add: considerate_def)
  then show ?thesis by (induction rule: rtranclp_induct) (use ok log_actor in blast)+
qed

section \<open>Every handler keeps it\<close>

lemma keeps_py_option [keeps_rules]:
  "keeps I m \<Longrightarrow> (\<And>x. keeps I (f x)) \<Longrightarrow> keeps I (case v of None \<Rightarrow> m | Some x \<Rightarrow> f x)"
  by (cases v) auto

lemma log_others_tick: "considerate env \<Longrightarrow> log_ok r \<Longrightarrow> log_ok (sch_others env n (r\<lparr>rn_ticks := m\<rparr>))"
  by (rule log_others) (auto simp: log_ok_def)

lemma log_suspend:
  assumes "considerate env" "\<And>r. log_ok r \<Longrightarrow> log_ok (f r)"
  shows "keeps log_ok (suspend env raised f)"
  unfolding suspend_def Let_def
  by (intro keeps_rules log_others_tick log_others assms) (auto simp: log_ok_def)

lemma log_await:
  assumes "considerate env" "\<And>n r. log_ok r \<Longrightarrow> log_ok (effect n r)"
  shows "keeps log_ok (await_result env outcome effect)"
  unfolding await_result_def Let_def
  by (intro keeps_rules log_others assms) (auto simp: log_ok_def)

lemma log_save: "considerate env \<Longrightarrow> keeps log_ok (save_state env)"
  unfolding save_state_def prepare_state_save_def
  by (intro keeps_rules log_suspend)
    (auto simp: log_ok_effect mark_checkpoint_def intro: log_ok_same)

lemmas log_simps = log_ok_effect settle_step_def pause_mode_def pause_for_services_def set_confirmed_def
  retire_attempt_def leave_snapshot_def begin_outcome_def finish_stage_step_def run_readiness_def
  retire_accepted_service_requests_def leave_loop_def

lemma log_update [simp]:
  "log_ok (r\<lparr>rn_state := s\<rparr>) = log_ok r" "log_ok (r\<lparr>rn_pending_advance := b\<rparr>) = log_ok r"
  "log_ok (r\<lparr>rn_desired_mode := m\<rparr>) = log_ok r" "log_ok (r\<lparr>rn_journal_pause := j\<rparr>) = log_ok r"
  "log_ok (r\<lparr>rn_ready := b\<rparr>) = log_ok r" "log_ok (r\<lparr>rn_idle := b\<rparr>) = log_ok r"
  "log_ok (r\<lparr>rn_wake := b\<rparr>) = log_ok r" "log_ok (r\<lparr>rn_maintenance := b\<rparr>) = log_ok r"
  "log_ok (r\<lparr>rn_manual := b\<rparr>) = log_ok r" "log_ok (r\<lparr>rn_step := b\<rparr>) = log_ok r"
  "log_ok (r\<lparr>rn_task := t\<rparr>) = log_ok r" "log_ok (r\<lparr>rn_stage_task := o1\<rparr>) = log_ok r"
  "log_ok (r\<lparr>rn_service_task := v\<rparr>) = log_ok r" "log_ok (r\<lparr>rn_readiness := v\<rparr>) = log_ok r"
  "log_ok (r\<lparr>rn_last_attempt := a\<rparr>) = log_ok r" "log_ok (r\<lparr>rn_last_response := l\<rparr>) = log_ok r"
  "log_ok (r\<lparr>rn_last_snapshot := f\<rparr>) = log_ok r" "log_ok (r\<lparr>rn_stop_requested := b\<rparr>) = log_ok r"
  "log_ok (r\<lparr>rn_termination_confirmed := b\<rparr>) = log_ok r" "log_ok (r\<lparr>rn_failing := b\<rparr>) = log_ok r"
  "log_ok (r\<lparr>rn_ticks := n\<rparr>) = log_ok r"
  by (simp_all add: log_ok_def)

lemma log_steps [simp]:
  "log_ok (settle_step f r) = log_ok r" "log_ok (pause_mode r) = log_ok r"
  "log_ok (pause_for_services r) = log_ok r" "log_ok (set_confirmed b r) = log_ok r"
  "log_ok (retire_attempt r) = log_ok r" "log_ok (leave_snapshot r) = log_ok r"
  "log_ok (begin_outcome oc r) = log_ok r" "log_ok (finish_stage_step oc b r) = log_ok r"
  "log_ok (run_readiness r) = log_ok r" "log_ok (leave_loop r) = log_ok r"
  "log_ok (retire_accepted_service_requests env r) = log_ok r"
  by (simp_all add: log_simps Let_def split: option.split)

text \<open>The rules of the handlers for a considerate environment.\<close>

lemma log_close: "considerate env \<Longrightarrow> keeps log_ok (close_services env)"
  unfolding close_services_def by (intro log_suspend) (simp_all add: log_ok_effect)

lemma log_interrupt: "considerate env \<Longrightarrow> keeps log_ok (interrupt_stage env)"
  unfolding interrupt_stage_def by (intro log_await) simp_all

lemma log_finalize:
  "considerate env \<Longrightarrow> p \<noteq> PhaseCompleted \<Longrightarrow> keeps log_ok (finalize_snapshot env p)"
  unfolding finalize_snapshot_def
  by (intro keeps_rules log_await)
    (auto simp: finalize_effect_def log_ok_effect split: sum.split)

lemma log_fail:
  assumes env: "considerate env"
  shows "keeps log_ok (fail_runner env e)"
  unfolding fail_runner_def complete_failure_def stop_failed_participants_def
  by (intro keeps_rules log_suspend [OF env] log_save [OF env] log_interrupt [OF env] log_close [OF env]
      log_await [OF env]) (simp_all add: log_ok_effect)

lemma log_stop:
  assumes env: "considerate env"
  shows "keeps log_ok (stop_runner env finalize)"
proof -
  have stage: "keeps log_ok (stop_stage env audit)" for audit
    unfolding stop_stage_def
    by (intro keeps_rules log_suspend [OF env] log_interrupt [OF env]) simp_all
  have services: "keeps log_ok (stop_services env finalize audit outcome)" for audit outcome
    unfolding stop_services_def
    by (cases outcome, simp only: prod.case)
      (intro keeps_rules log_finalize [OF env] log_await [OF env]; simp)
  have reconsider: "keeps log_ok (reconsider_stage env outcome)" for outcome
    unfolding reconsider_stage_def by (cases outcome, simp only: prod.case) (intro keeps_rules)
  have settle: "keeps log_ok (settle_stop env audit outcome)" for audit outcome
    unfolding settle_stop_def write_state_def
    by (cases outcome, simp only: prod.case)
      (intro keeps_rules log_close [OF env] log_fail [OF env] log_save [OF env]; simp add: log_ok_effect)
  show ?thesis
    unfolding stop_runner_def
    by (intro keeps_rules log_suspend [OF env] log_await [OF env] stage services reconsider settle) simp_all
qed

lemma log_stop_from_stage: "considerate env \<Longrightarrow> keeps log_ok (stop_from_stage env recovering)"
  unfolding stop_from_stage_def Let_def
  by (intro keeps_rules log_stop log_save) (simp_all add: log_ok_effect)

lemma log_decision: "keeps log_ok (apply_dag_decision l)" "keeps log_ok apply_pending_dag_decision"
proof -
  have move: "keeps log_ok (apply_conditional_move l target)" for l target
    unfolding apply_conditional_move_def Let_def by (intro keeps_rules) simp_all
  show decision: "keeps log_ok (apply_dag_decision l)" for l
    unfolding apply_dag_decision_def
    by (intro keeps_rules) (auto intro!: keeps_rules move split: option.split dag_command.split)
  show "keeps log_ok apply_pending_dag_decision"
    unfolding apply_pending_dag_decision_def by (intro keeps_rules decision) simp_all
qed

lemma log_outcome: "keeps log_ok (apply_stage_outcome env oc defer_dag)"
  unfolding apply_stage_outcome_def Let_def
  by (intro keeps_rules log_decision) simp_all

lemma log_snapshot: "considerate env \<Longrightarrow> keeps log_ok (snapshot_stage_boundary env oc final requested)"
  unfolding snapshot_stage_boundary_def
  by (intro keeps_rules log_suspend log_save) (simp_all add: log_ok_effect)

lemma log_complete_stage:
  assumes env: "considerate env"
  shows "keeps log_ok (complete_stage_task env oc)"
proof -
  have unknown: "keeps log_ok (pause_unknown_stage env oc)"
    unfolding pause_unknown_stage_def by (intro keeps_rules log_save [OF env]) simp_all
  show ?thesis
    unfolding complete_stage_task_def Let_def
    by (intro keeps_rules unknown log_outcome log_save [OF env] log_snapshot [OF env] log_decision
        log_stop_from_stage [OF env]) simp_all
qed

lemma log_services:
  assumes env: "considerate env"
  shows "keeps log_ok (apply_supervision_result env action)" "keeps log_ok (apply_readiness_result env action)"
proof -
  show "keeps log_ok (apply_supervision_result env action)"
    unfolding apply_supervision_result_def Let_def
    by (intro keeps_rules log_save [OF env]) (simp_all add: log_ok_effect)
  show "keeps log_ok (apply_readiness_result env action)"
    unfolding apply_readiness_result_def
    by (cases action) (auto intro!: keeps_rules log_save [OF env])
qed

lemma log_launch: "considerate env \<Longrightarrow> keeps log_ok (launch_next_stage env)"
  unfolding launch_next_stage_def by (intro keeps_rules log_save) (simp_all add: log_ok_effect)

text \<open>The completion proper, which is entered at the end of the DAG only.\<close>

lemma log_complete_dag:
  assumes env: "considerate env"
  shows "holds (\<lambda>r. log_ok r \<and> at_dag_end r) (complete_dag env) (\<lambda>x. log_ok) log_ok"
proof -
  have finished: "finished (rn_state r)"
    if "st_active_attempt (rn_state r) = None" "at_dag_end r" "st_pending_advance (rn_state r) = rn_pending_advance r" for r
    using that by (auto simp: at_dag_end_def finished_def Let_def)
  let ?E = "\<lambda>r. log_ok r \<and> at_dag_end r \<and> st_pending_advance (rn_state r) = rn_pending_advance r"
  have enter: "?E (on_state (\<lambda>s. s\<lparr>st_pending_advance := rn_pending_advance r\<rparr>) (r\<lparr>rn_maintenance := True\<rparr>))"
    if "log_ok r \<and> at_dag_end r" for r
    using that by (simp add: at_dag_end_def Let_def)
  have effect: "log_ok (finalize_effect env PhaseCompleted n (r\<lparr>rn_ticks := m\<rparr>))"
    if "?E r" "st_active_attempt (rn_state r) = None" for n m r
    using that finished [of r] by (auto simp: finalize_effect_def log_ok_effect split: sum.split)
  have final: "holds ?E (finalize_snapshot env PhaseCompleted) (\<lambda>x. log_ok) log_ok"
    unfolding finalize_snapshot_def await_result_def Let_def
    by (rule holds_read, rule holds_if, rule holds_raise, blast, rule holds_read,
        rule holds_then [where R = log_ok], rule holds_modify, rule log_others [OF env], rule effect, blast, blast,
        rule holds_lift)
  have check: "keeps log_ok (py_then (py_modify (\<lambda>r. r\<lparr>rn_last_snapshot := Some snapshot\<rparr>))
      (if fs_valid snapshot then py_return () else py_raise RuntimeError))" for snapshot
    by (intro keeps_rules) simp
  have rest: "keeps log_ok (py_then (py_modify (\<lambda>r. set_confirmed (all_stopped r) r))
      (py_then (close_services env)
      (py_then (py_modify (on_state (\<lambda>s. s\<lparr>st_phase := PhaseCompleted\<rparr>)))
      (py_then (save_state env) (py_modify (settle_step final_step))))))"
    by (intro keeps_rules log_close [OF env] log_save [OF env]) simp_all
  show ?thesis
    unfolding complete_dag_def
    by (rule holds_then [where R = ?E], rule holds_modify, rule enter, assumption,
        rule holds_then [OF holds_finally holds_keeps [OF rest]],
        rule holds_weaken [OF holds_bind [OF final holds_keeps [OF check]]], assumption)
      (simp_all)
qed

lemma log_advance_ready:
  assumes env: "considerate env"
  shows "holds log_ok (advance_ready env action) (\<lambda>x. log_ok) log_ok"
  unfolding advance_ready_def
proof (rule holds_then [where R = log_ok], rule holds_modify, simp,
    rule holds_bind [OF holds_keeps [OF log_services(2) [OF env]]], rule holds_if, rule holds_return, assumption)
  show "holds log_ok (py_read (\<lambda>r.
         if rn_service_retrying r \<or> rn_maintenance r then py_return LoopContinue
         else if at_dag_end r then py_then (complete_dag env) (py_return LoopExit)
         else if st_mode (rn_state r) = PausedMode \<and> \<not> rn_step r then py_return LoopContinue
         else py_then (launch_next_stage env) (py_return LoopContinue))) (\<lambda>x. log_ok) log_ok"
  proof (rule holds_read, rule holds_if, rule holds_return, simp, rule holds_if)
    fix r :: dag_runner
    assume "at_dag_end r"
    then show "holds (\<lambda>s. log_ok s \<and> s = r) (py_then (complete_dag env) (py_return LoopExit)) (\<lambda>x. log_ok) log_ok"
      by (intro holds_then [OF holds_weaken [OF log_complete_dag [OF env]] holds_return]) auto
  next
    fix r :: dag_runner
    have "keeps log_ok (if st_mode (rn_state r) = PausedMode \<and> \<not> rn_step r then py_return LoopContinue
         else py_then (launch_next_stage env) (py_return LoopContinue))"
      by (intro keeps_rules log_launch [OF env])
    from holds_keeps [OF this]
    show "holds (\<lambda>s. log_ok s \<and> s = r) (if st_mode (rn_state r) = PausedMode \<and> \<not> rn_step r then py_return LoopContinue
         else py_then (launch_next_stage env) (py_return LoopContinue)) (\<lambda>x. log_ok) log_ok"
      by (rule holds_weaken) auto
  qed
qed

lemma log_advance_once:
  assumes env: "considerate env"
  shows "keeps log_ok (advance_once env)"
proof -
  have supervise: "keeps log_ok (case t of
        Some (TaskFinished action) \<Rightarrow> apply_supervision_result env action
      | Some (TaskRaised e) \<Rightarrow> py_raise e | _ \<Rightarrow> py_return ())" for t
    by (auto split: option.split task.split intro!: keeps_rules log_services [OF env])
  have stage: "keeps log_ok (case t of
        Some (TaskFinished oc) \<Rightarrow> complete_stage_task env oc
      | Some (TaskRaised e) \<Rightarrow> py_raise e | _ \<Rightarrow> py_return StageReady)" for t
    by (auto split: option.split task.split intro!: keeps_rules log_complete_stage [OF env])
  have ready: "keeps log_ok (case t of
        Some (TaskFinished action) \<Rightarrow> advance_ready env action
      | Some (TaskRaised e) \<Rightarrow> py_raise e | _ \<Rightarrow> py_return LoopContinue)" for t
    by (auto split: option.split task.split intro!: keeps_rules keeps_holds [OF log_advance_ready [OF env]])
  have signal: "keeps log_ok (case signal of
            StageUnknown \<Rightarrow> py_return LoopContinue
          | StageStopped \<Rightarrow> py_return LoopExit
          | StageReady \<Rightarrow>
              py_then (py_modify (\<lambda>r. if rn_wake r then run_readiness r else r))
                (py_read (\<lambda>r. case rn_readiness r of
                     Some (TaskFinished action) \<Rightarrow> advance_ready env action
                   | Some (TaskRaised e) \<Rightarrow> py_raise e
                   | _ \<Rightarrow> py_return LoopContinue)))" for signal
    by (cases signal) (auto intro!: keeps_return keeps_then keeps_modify keeps_read ready)
  show ?thesis
    unfolding advance_once_def
    by (intro keeps_read keeps_if keeps_return keeps_then keeps_bind supervise stage signal)
qed

lemma log_step:
  assumes "runner_step env r r'" "considerate env" "log_ok r"
  shows "log_ok r'"
proof -
  note turn = log_advance_once [OF assms(2)]
  from assms(1) show ?thesis
  proof cases
  case Actor
  then show ?thesis using log_actor assms(3) by blast
next
  case Turn
  then show ?thesis by (intro keepsD [OF turn assms(3)])
next
  case (Finish s)
  then have "log_ok s" by (intro keepsD [OF turn assms(3)])
  then show ?thesis using Finish by simp
next
  case (Fail e s x t)
  then have s: "log_ok s" by (intro keepsD [OF turn assms(3)])
  have "log_ok t" by (rule keepsD [OF log_fail [OF assms(2)] s Fail(4)])
  then show ?thesis using Fail by simp
next
  case (Stop x)
  have "keeps log_ok (stop_now env)"
    unfolding stop_now_def by (intro keeps_rules log_stop [OF assms(2)]) simp
  from keepsD [OF this assms(3) Stop] show ?thesis .
  qed
qed

end
