(* ===== verification/Dag_Properties.thy ===== *)
theory Dag_Properties
  imports Dag_Log Sample_Run
begin

text \<open>
  The properties of the scheduler: the invariant of every execution, where a run may complete,
  deferred decisions, conditional moves, the order of the cursor, and shutdown.
\<close>

section \<open>A concrete runner\<close>

definition quiet_env :: scheduler_env where
  "quiet_env = \<lparr>sch_save = (\<lambda>n. None), sch_snapshot = (\<lambda>n. None),
     sch_finalize = (\<lambda>n. Inr \<lparr>fs_valid = False, fs_error = Some ''disk full''\<rparr>),
     sch_others = (\<lambda>n r. r), sch_uuid = (\<lambda>n. uuid_str (100 + n)),
     sch_owner = \<lparr>pi_pid = 7, pi_created_at = 1, pi_host_id = ''host'', pi_boot_id = ''boot''\<rparr>,
     sch_resolve = id, sch_try_resolve = Inr, sch_exists = (\<lambda>p. True), sch_accepted = (\<lambda>i. False),
     sch_audit = (\<lambda>n. False), sch_interrupt = (\<lambda>n. Inr True), sch_settle = (\<lambda>n a. a),
     sch_close = (\<lambda>n. Some LoggingError), sch_stop_all = (\<lambda>n. Inr []), sch_confirmed = (\<lambda>s. True),
     sch_record = (\<lambda>n. None), sch_prepare = py_return ServicesReady\<rparr>"

lemma quiet_env_simps [simp]:
  "sch_save quiet_env n = None" "sch_others quiet_env n r = r" "sch_audit quiet_env n = False"
  "sch_finalize quiet_env n = Inr \<lparr>fs_valid = False, fs_error = Some ''disk full''\<rparr>"
  "sch_interrupt quiet_env n = Inr True" "sch_settle quiet_env n a = a"
  "sch_close quiet_env n = Some LoggingError" "sch_stop_all quiet_env n = Inr []"
  "sch_record quiet_env n = None" "sch_accepted quiet_env i = False"
  by (simp_all add: quiet_env_def)

lemma quiet_considerate: "considerate quiet_env"
  by (simp add: considerate_def)

definition idle_runner :: "runner_state \<Rightarrow> dag_runner" where
  "idle_runner s = \<lparr>rn_state = s, rn_pending_advance = False, rn_desired_mode = PausedMode,
     rn_journal_pause = None, rn_ready = True, rn_idle = True, rn_wake = False,
     rn_maintenance = False, rn_service_retrying = False, rn_manual = False, rn_step = False,
     rn_task = DagRunning, rn_stage_task = None, rn_service_task = None, rn_readiness = None,
     rn_last_attempt = None, rn_last_response = None, rn_last_snapshot = None,
     rn_stop_requested = False, rn_termination_confirmed = False, rn_failing = False,
     rn_log = [], rn_ticks = 0\<rparr>"

definition waiting_state :: runner_state where
  "waiting_state = run_progress\<lparr>st_phase := PhaseWaiting\<rparr>"

lemma waiting_simps [simp]:
  "st_template waiting_state = run_template" "st_stage_position waiting_state = 2"
  "st_cycle_number waiting_state = 1" "st_phase waiting_state = PhaseWaiting"
  "st_mode waiting_state = PausedMode" "st_pending_rebuild waiting_state = None"
  "st_active_attempt waiting_state = None" "st_last_decision waiting_state = None"
  "st_pending_decision waiting_state = None" "st_pending_input waiting_state = None"
  "st_result_ids waiting_state = [(uuid_str 1, Some (uuid_str 11))]"
  "st_result_origins waiting_state = []" "st_retry_counts waiting_state = []"
  "st_services waiting_state = [(uuid_str 2, run_instance)]"
  "st_last_result_id waiting_state = Some (uuid_str 11)"
  by (simp_all add: waiting_state_def run_progress_def run_state_eq)

lemma waiting_ok: "dag_ok waiting_state"
  by (simp add: dag_ok_def validate_transitions_def uuid_str_inject has_key_def)

lemma idle_state: "rn_state (idle_runner s) = s"
  by (simp add: idle_runner_def)

lemma run_length: "length (stages run_template) = 3"
  by simp

lemma idle_scheduled: "scheduled (idle_runner waiting_state)"
  by (simp add: scheduled_def runner_inv_def settled_loop_def idle_runner_def waiting_ok pausing_def
      decision_command_def)

section \<open>Every execution\<close>

text \<open>
  C1. However the scheduler's turns interleave with control operations, stage and service tasks,
  the cursor stays on a stage of the DAG and inside the cycles, the saved transitions stay
  valid, an accepted conditional pause keeps the runner paused, and a runner with a stage task
  is not idle.
\<close>

theorem scheduler_invariant:
  assumes "(runner_step env)\<^sup>*\<^sup>* r r'" "considerate env" "scheduled r"
  shows "1 \<le> st_stage_position (rn_state r')
     \<and> st_stage_position (rn_state r') \<le> int (length (stages (st_template (rn_state r'))))
     \<and> 1 \<le> st_cycle_number (rn_state r') \<and> st_cycle_number (rn_state r') \<le> cycles (st_template (rn_state r'))
     \<and> validate_transitions (rn_state r')
     \<and> (decision_command (st_last_decision (rn_state r')) = Some PauseCommand
          \<longrightarrow> st_mode (rn_state r') = PausedMode)
     \<and> (rn_stage_task r' \<noteq> None \<longrightarrow> \<not> rn_idle r' \<and> st_pending_decision (rn_state r') = None)"
  using reachable_scheduled [OF assms]
  by (simp add: scheduled_def runner_inv_def dag_ok_def pausing_def)

definition moved_runner :: dag_runner where
  "moved_runner = snd (move_cursor 3 (idle_runner waiting_state))"

lemma moved_run: "move_cursor 3 (idle_runner waiting_state) = (Inr (), moved_runner)"
  by (simp add: moved_runner_def move_cursor_def idle_runner_def run_actor require_active_def
      terminal_phase_def)

theorem scheduler_invariant_witness:
  "validate_transitions (rn_state moved_runner) \<and> st_stage_position (rn_state moved_runner) = 3"
proof -
  have "runner_step quiet_env (idle_runner waiting_state) moved_runner"
    using moved_run by (intro runner_step.Actor actor_step.Move)
  from scheduler_invariant [OF r_into_rtranclp [where r = "runner_step quiet_env", OF this] quiet_considerate idle_scheduled]
  have "validate_transitions (rn_state moved_runner)" by blast
  moreover have "st_stage_position (rn_state moved_runner) = 3"
    by (simp add: moved_runner_def move_cursor_def idle_runner_def run_actor require_active_def
        terminal_phase_def Let_def)
  ultimately show ?thesis ..
qed

text \<open>
  C2. A final snapshot of a completed run is published only for a state at the last stage of the
  last cycle, whose result was accepted, without an active attempt and without a conditional
  pause.
\<close>

theorem completed_at_end:
  assumes "(runner_step env)\<^sup>*\<^sup>* r r'" "considerate env" "rn_log r = []"
    and "EffFinalized PhaseCompleted s \<in> set (rn_log r')"
  shows "st_stage_position s = int (length (stages (st_template s)))
     \<and> st_cycle_number s = cycles (st_template s) \<and> st_pending_advance s
     \<and> st_active_attempt s = None \<and> decision_command (st_last_decision s) \<noteq> Some PauseCommand"
proof -
  have "log_ok r'"
    using assms(1)
  proof (induction rule: rtranclp_induct)
    case base
    then show ?case using assms(3) by (simp add: log_ok_def)
  next
    case (step q q')
    then show ?case using log_step assms(2) by blast
  qed
  then show ?thesis using assms(4) by (simp add: log_ok_def finished_def)
qed

definition last_state :: runner_state where
  "last_state = waiting_state\<lparr>st_stage_position := 3, st_cycle_number := 2\<rparr>"

definition ending_runner :: dag_runner where
  "ending_runner = (idle_runner last_state)\<lparr>rn_pending_advance := True,
     rn_readiness := Some (TaskFinished ServicesReady), rn_failing := True\<rparr>"

definition finalized_state :: runner_state where
  "finalized_state = last_state\<lparr>st_pending_advance := True\<rparr>"

lemma ending_turn:
  "\<exists>r'. advance_once quiet_env ending_runner = (Inl RuntimeError, r')
     \<and> rn_log r' = [EffFinalized PhaseCompleted finalized_state] \<and> rn_failing r'"
  by (simp add: advance_once_def ending_runner_def idle_runner_def run_actor py_finally_run
      advance_ready_def apply_readiness_result_def at_dag_end_def last_state_def decision_command_def
      complete_dag_def finalize_snapshot_def await_result_def finalize_effect_def log_effect_def
      finalized_state_def)

lemma join_failure_log:
  "rn_failing r \<Longrightarrow> \<exists>r'. fail_runner quiet_env e r = (Inr (), r') \<and> rn_log r' = rn_log r"
  by (simp add: fail_runner_def suspend_def Let_def)

theorem completed_at_end_witness:
  "st_stage_position finalized_state = 3 \<and> st_cycle_number finalized_state = 2 \<and> cycles run_template = 2"
proof -
  obtain r1 where turn: "advance_once quiet_env ending_runner = (Inl RuntimeError, r1)"
    and r1: "rn_log r1 = [EffFinalized PhaseCompleted finalized_state]" "rn_failing r1"
    using ending_turn by blast
  obtain r2 where fail: "fail_runner quiet_env RuntimeError r1 = (Inr (), r2)"
    and r2: "rn_log r2 = [EffFinalized PhaseCompleted finalized_state]"
    using join_failure_log [OF r1(2)] r1(1) by metis
  have "rn_task ending_runner = DagRunning" by (simp add: ending_runner_def idle_runner_def)
  then have "runner_step quiet_env ending_runner (leave_loop r2)"
    by (rule runner_step.Fail [OF _ turn fail])
  then have "(runner_step quiet_env)\<^sup>*\<^sup>* ending_runner (leave_loop r2)" by blast
  from completed_at_end [OF this quiet_considerate, of finalized_state]
  have "st_stage_position finalized_state = int (length (stages (st_template finalized_state)))
     \<and> st_cycle_number finalized_state = cycles (st_template finalized_state)"
    using r2 by (simp add: ending_runner_def idle_runner_def leave_loop_def)
  then show ?thesis by (simp add: finalized_state_def last_state_def)
qed

section \<open>Decisions\<close>

lemma index_where_first: "index_where p xs = Some k \<Longrightarrow> j < k \<Longrightarrow> \<not> p (xs ! j)"
proof (induction xs arbitrary: k j)
  case (Cons x xs)
  then show ?case by (cases j) (auto split: if_splits)
qed simp

lemma some_values_set: "i \<in> set (some_values xs) \<longleftrightarrow> Some i \<in> set xs"
  by (induction xs) (auto simp: some_values_def List.map_filter_def split: option.split)

lemma some_values_drop:
  "i \<in> set (some_values (map f (drop k xs))) \<longleftrightarrow> (\<exists>j \<ge> k. j < length xs \<and> f (xs ! j) = Some i)"
proof -
  have "i \<in> set (some_values (map f (drop k xs))) \<longleftrightarrow> Some i \<in> f ` set (drop k xs)"
    by (simp add: some_values_set)
  also have "\<dots> \<longleftrightarrow> (\<exists>j \<ge> k. j < length xs \<and> f (xs ! j) = Some i)"
  proof
    assume "Some i \<in> f ` set (drop k xs)"
    then obtain j where "j < length xs - k" "f (xs ! (k + j)) = Some i"
      by (auto simp: in_set_conv_nth)
    then show "\<exists>j \<ge> k. j < length xs \<and> f (xs ! j) = Some i"
      by (intro exI [of _ "k + j"]) auto
  next
    assume "\<exists>j \<ge> k. j < length xs \<and> f (xs ! j) = Some i"
    then obtain j where j: "k \<le> j" "j < length xs" "f (xs ! j) = Some i" by blast
    then have "xs ! j \<in> set (drop k xs)"
      by (auto simp: in_set_conv_nth intro!: exI [of _ "j - k"])
    then show "Some i \<in> f ` set (drop k xs)" using j(3) by (metis image_eqI)
  qed
  finally show ?thesis .
qed

lemma pending_applied:
  "st_pending_decision (rn_state r) = None \<Longrightarrow>
     apply_pending_dag_decision (r\<lparr>rn_state := (rn_state r)\<lparr>st_pending_decision := Some l\<rparr>\<rparr>)
       = apply_dag_decision l r"
proof -
  assume "st_pending_decision (rn_state r) = None"
  then have "(rn_state r)\<lparr>st_pending_decision := None\<rparr> = rn_state r" by simp
  then show ?thesis by (simp add: apply_pending_dag_decision_def)
qed


text \<open>
  C3. A move decision of a conditional stage sets the cursor to the first node with the target's
  ID and withdraws a pending advance; the results, origins and retry counts of the target and of
  every later stage are forgotten, all others are kept; the source's result becomes the
  target's input.
\<close>

theorem conditional_move_rewinds:
  assumes "apply_dag_decision l r = (Inr (), r')"
    and "dd_command (ld_decision l) = Some MoveCommand"
  shows "\<exists>target k. dd_target (ld_decision l) = Some target
     \<and> k < length (stages (st_template (rn_state r)))
     \<and> node_stage_id (stages (st_template (rn_state r)) ! k) = Some target
     \<and> (\<forall>j < k. node_stage_id (stages (st_template (rn_state r)) ! j) \<noteq> Some target)
     \<and> st_stage_position (rn_state r') = int k + 1 \<and> \<not> rn_pending_advance r'
     \<and> st_last_decision (rn_state r') = Some l
     \<and> st_pending_input (rn_state r') = Some \<lparr>in_request_id = ld_request_id l,
          in_source_stage = ld_source_stage l, in_experiment_id = ld_experiment_id l, in_stage_id = target\<rparr>
     \<and> (\<forall>i. let later = (\<exists>j \<ge> k. j < length (stages (st_template (rn_state r)))
                \<and> node_stage_id (stages (st_template (rn_state r)) ! j) = Some i)
            in map_of (st_result_ids (rn_state r')) i = (if later then None else map_of (st_result_ids (rn_state r)) i)
             \<and> map_of (st_result_origins (rn_state r')) i = (if later then None else map_of (st_result_origins (rn_state r)) i)
             \<and> map_of (st_retry_counts (rn_state r')) i = (if later then None else map_of (st_retry_counts (rn_state r)) i))"
proof -
  obtain target where target: "dd_target (ld_decision l) = Some target"
    using assms by (cases "dd_target (ld_decision l)") (auto simp: apply_dag_decision_def run_actor)
  let ?ns = "stages (st_template (rn_state r))"
  obtain k where k: "index_where (\<lambda>n. node_stage_id n = Some target) ?ns = Some k"
    using assms target
    by (cases "index_where (\<lambda>n. node_stage_id n = Some target) ?ns")
      (auto simp: apply_dag_decision_def run_actor apply_conditional_move_def)
  have at: "k < length ?ns" "node_stage_id (?ns ! k) = Some target"
    using index_where_Some [OF k] by auto
  have first: "\<forall>j < k. node_stage_id (?ns ! j) \<noteq> Some target"
    using index_where_first [OF k] by blast
  have suffix: "i \<in> set (some_values (map node_stage_id (drop k ?ns)))
      \<longleftrightarrow> (\<exists>j \<ge> k. j < length ?ns \<and> node_stage_id (?ns ! j) = Some i)" for i
    by (rule some_values_drop)
  show ?thesis
    using assms target k at first
    by (intro exI [of _ target] exI [of _ k])
      (auto simp: apply_dag_decision_def run_actor apply_conditional_move_def map_of_pop_all suffix)
qed

definition move_decision :: last_decision where
  "move_decision = \<lparr>ld_request_id = uuid_str 12, ld_source_stage = uuid_str 4, ld_experiment_id = ''demo'',
     ld_decision = \<lparr>dd_command = Some MoveCommand, dd_stage_id = Some (Some (uuid_str 3))\<rparr>\<rparr>"

theorem conditional_move_rewinds_witness:
  "\<exists>r'. apply_dag_decision move_decision (idle_runner waiting_state) = (Inr (), r')
     \<and> st_stage_position (rn_state r') = 2
     \<and> map_of (st_result_ids (rn_state r')) (uuid_str 1) = Some (Some (uuid_str 11))"
proof -
  have target: "dd_command (ld_decision move_decision) = Some MoveCommand"
    "dd_target (ld_decision move_decision) = Some (uuid_str 3)"
    by (simp_all add: move_decision_def dd_target_def)
  have "index_where (\<lambda>n. node_stage_id n = Some (uuid_str 3)) (stages run_template) = Some 1"
    by (simp add: uuid_str_inject)
  then obtain r' where run: "apply_dag_decision move_decision (idle_runner waiting_state) = (Inr (), r')"
    using target by (simp add: apply_dag_decision_def run_actor apply_conditional_move_def idle_runner_def)
  note rewound = conditional_move_rewinds [OF run target(1), unfolded idle_state waiting_simps Let_def run_length]
  obtain t k where t: "dd_target (ld_decision move_decision) = Some t"
    and k: "k < 3" "node_stage_id (stages run_template ! k) = Some t"
    and position: "st_stage_position (rn_state r') = int k + 1"
    and kept: "\<And>i. map_of (st_result_ids (rn_state r')) i
             = (if \<exists>j \<ge> k. j < 3 \<and> node_stage_id (stages run_template ! j) = Some i
                then None else map_of [(uuid_str 1, Some (uuid_str 11))] i)"
    using rewound by (elim exE conjE) (rule that, assumption+, elim allE conjE, assumption)
  have "t = uuid_str 3" using t target(2) by simp
  moreover have "k = 0 \<or> k = 1 \<or> k = 2" using k(1) by auto
  ultimately have "k = 1" using k(2) by (auto simp: uuid_str_inject)
  moreover have "\<not> (\<exists>j \<ge> 1. j < 3 \<and> node_stage_id (stages run_template ! j) = Some (uuid_str 1))"
  proof
    assume "\<exists>j \<ge> 1. j < 3 \<and> node_stage_id (stages run_template ! j) = Some (uuid_str 1)"
    then obtain j where j: "j = 1 \<or> j = 2" "node_stage_id (stages run_template ! j) = Some (uuid_str 1)"
      by (metis One_nat_def Suc_1 less_Suc_eq_le le_antisym le_SucE numeral_3_eq_3)
    then show False by (auto simp: uuid_str_inject)
  qed
  ultimately show ?thesis using run position kept [of "uuid_str 1"] by auto
qed

section \<open>The order of the cursor\<close>

lemma advance_cursor_simps [simp]:
  "st_template (advance_cursor s) = st_template s"
  "st_stage_position (advance_cursor s) =
     (if st_stage_position s < int (length (stages (st_template s))) then st_stage_position s + 1 else 1)"
  "st_cycle_number (advance_cursor s) =
     (if st_stage_position s < int (length (stages (st_template s))) then st_cycle_number s
      else st_cycle_number s + 1)"
  by (simp_all add: advance_cursor_def Let_def)

lemma advance_cursor_template [simp]: "st_template ((advance_cursor ^^ k) s) = st_template s"
  by (induction k) simp_all

lemma cursor_after:
  assumes "st_stage_position s = 1" "st_cycle_number s = 1" "0 < length (stages (st_template s))"
  shows "st_stage_position ((advance_cursor ^^ k) s) = int (k mod length (stages (st_template s))) + 1
     \<and> st_cycle_number ((advance_cursor ^^ k) s) = int (k div length (stages (st_template s))) + 1"
proof (induction k)
  case (Suc k)
  let ?n = "length (stages (st_template s))"
  show ?case
  proof (cases "Suc (k mod ?n) = ?n")
    case True
    then have "Suc k mod ?n = 0" "Suc k div ?n = Suc (k div ?n)"
      by (simp_all add: mod_Suc div_Suc)
    then show ?thesis using Suc True by simp
  next
    case False
    then have "Suc k mod ?n = Suc (k mod ?n)" "Suc k div ?n = k div ?n"
      by (simp_all add: mod_Suc div_Suc)
    moreover have "Suc (k mod ?n) < ?n" using False assms(3) by (simp add: Suc_lessI)
    ultimately show ?thesis using Suc by simp
  qed
qed (use assms in simp)

text \<open>
  C17. From the start of a run the cursor visits the nodes in order, cycle after cycle, and it is
  at the last stage of the last cycle after exactly as many advances as there are nodes in all
  cycles but one: a run without moves and reruns launches every node once per cycle and then
  ends.
\<close>

theorem cursor_visits:
  assumes "st_stage_position s = 1" "st_cycle_number s = 1" "stages (st_template s) \<noteq> []"
    and "1 \<le> cycles (st_template s)"
  defines "n \<equiv> length (stages (st_template s))"
  shows "st_stage_position ((advance_cursor ^^ k) s) = int (k mod n) + 1
     \<and> st_cycle_number ((advance_cursor ^^ k) s) = int (k div n) + 1
     \<and> (st_stage_position ((advance_cursor ^^ k) s) = int n
          \<and> st_cycle_number ((advance_cursor ^^ k) s) = cycles (st_template s)
        \<longleftrightarrow> Suc k = n * nat (cycles (st_template s)))"
proof -
  have n: "0 < n" using assms(3) by (simp add: n_def)
  note at = cursor_after [OF assms(1,2), of k, folded n_def, OF n]
  obtain c where c: "cycles (st_template s) = int c" "1 \<le> c"
    using assms(4) nonneg_int_cases [of "cycles (st_template s)"] by force
  have "int (k mod n) + 1 = int n \<and> int (k div n) + 1 = int c \<longleftrightarrow> Suc (k mod n) = n \<and> Suc (k div n) = c"
    by linarith
  also have "\<dots> \<longleftrightarrow> Suc k = n * c"
  proof
    assume "Suc (k mod n) = n \<and> Suc (k div n) = c"
    then have "n * c = n * (k div n) + n" "k = n * (k div n) + k mod n" by auto
    then show "Suc k = n * c" using \<open>Suc (k mod n) = n \<and> Suc (k div n) = c\<close> by linarith
  next
    assume "Suc k = n * c"
    then have "Suc k mod n = 0" "Suc k div n = c" using n by simp_all
    then show "Suc (k mod n) = n \<and> Suc (k div n) = c"
      using n by (auto simp: mod_Suc div_Suc split: if_splits)
  qed
  finally show ?thesis using at c by simp
qed

theorem cursor_visits_witness:
  "st_stage_position ((advance_cursor ^^ 5) run_state) = 3 \<and> st_cycle_number ((advance_cursor ^^ 5) run_state) = 2"
  using cursor_visits [of run_state 5] by (simp add: run_state_eq)

section \<open>Shutdown\<close>


lemma quiet_stop:
  "\<exists>r'. stop_now quiet_env (idle_runner waiting_state) = (Inr (), r')
     \<and> st_phase (rn_state r') = PhaseStopped"
  by (simp add: stop_now_def stop_runner_def leave_loop_def idle_runner_def run_actor suspend_def
      await_result_def stop_stage_def interrupt_stage_def py_catch_def retire_attempt_def
      stop_services_def reconsider_stage_def settle_stop_def set_confirmed_def close_services_def
      log_effect_def write_state_def stopped_phase_def settle_step_def logging_error_def)


end
