(* ===== verification/Journal_Store.thy ===== *)
theory Journal_Store
  imports Json_Text Runner_State
begin

text \<open>
  The journal of \<^verbatim>\<open>core/journal/storage.py\<close>: appending events, reconciling the two observations
  of a command's result, the effective view, and the change feed. With \<^verbatim>\<open>core/journal/records.py\<close>,
  \<^verbatim>\<open>diagnostics.py\<close> and the documents of \<^verbatim>\<open>core/models/journal_records.py\<close>.

  The three tables are lists: rows of \<open>jn_events\<close> and \<open>jn_changes\<close> have their index plus one as
  \<^verbatim>\<open>AUTOINCREMENT\<close> cursor (no row is deleted), \<open>jn_results\<close> is the index \<^verbatim>\<open>command_results\<close>. A
  transaction is one function; a rollback returns the journal it started from. The columns
  whose constraints the code relies on (\<^verbatim>\<open>UNIQUE\<close> event IDs and sequence numbers) are checked
  by \<open>insert_event\<close>. I/O failures of SQLite, file identity and free space are not modelled.

  An event's data is kept as the code reads it: validated for a \<^verbatim>\<open>command.result\<close>, JSON
  otherwise. The time at which a change was recorded is left out.
\<close>

section \<open>Events\<close>

datatype author = RunnerAuthor | ParticipantAuthor

datatype result_outcome = Succeeded | Failed | Cancelled | TimedOut | Invalidated

record superseded =
  su_event :: string
  su_ignored :: string

record command_observation =
  ob_request :: string
  ob_author :: author
  ob_outcome :: result_outcome
  ob_response :: json_object
  ob_ignored :: "string option"
  ob_supersedes :: "superseded list"

datatype event_data = PlainEvent string json_object | ResultEvent command_observation

record journal_event =
  ev_id :: string
  ev_producer :: string
  ev_sequence :: int
  ev_occurred :: string
  ev_context :: json_object
  ev_operation :: "string option"
  ev_data :: event_data

definition author_names :: "(string \<times> author) list" where
  "author_names = [(''runner'', RunnerAuthor), (''participant'', ParticipantAuthor)]"

definition outcome_names :: "(string \<times> result_outcome) list" where
  "outcome_names = [(''succeeded'', Succeeded), (''failed'', Failed), (''cancelled'', Cancelled),
     (''timed_out'', TimedOut), (''invalidated'', Invalidated)]"

definition observation_document :: "command_observation \<Rightarrow> json_object" where
  "observation_document d =
     [(''request_id'', JStr (ob_request d)), (''author'', name_in author_names (ob_author d)),
      (''outcome'', name_in outcome_names (ob_outcome d)), (''response'', JObj (ob_response d)),
      (''ignored'', dump_nullable JStr (ob_ignored d)),
      (''supersedes'', JArr (map (\<lambda>s. JObj [(''event_id'', JStr (su_event s)),
                                            (''ignored'', JStr (su_ignored s))]) (ob_supersedes d)))]"

definition event_type :: "journal_event \<Rightarrow> string" where
  "event_type e = (case ev_data e of PlainEvent t d \<Rightarrow> t | ResultEvent d \<Rightarrow> ''command.result'')"

definition event_document :: "journal_event \<Rightarrow> json" where
  "event_document e =
     JObj [(''schema_version'', JInt 2), (''event_id'', JStr (ev_id e)),
       (''producer_instance_id'', JStr (ev_producer e)), (''sequence_number'', JInt (ev_sequence e)),
       (''occurred_at'', JStr (ev_occurred e)), (''event_type'', JStr (event_type e)),
       (''context'', JObj (ev_context e)), (''operation_id'', dump_nullable JStr (ev_operation e)),
       (''data'', case ev_data e of PlainEvent t d \<Rightarrow> JObj d
                  | ResultEvent d \<Rightarrow> JObj (observation_document d))]"

section \<open>Validation\<close>

definition context_text_fields :: "string list" where
  "context_text_fields =
     [''experiment_id'', ''previous_experiment_id'', ''previous_run_id'', ''dag_revision_id'',
      ''template_revision_id'', ''stage_id'', ''stage_execution_id'', ''cycle_id'', ''attempt_id'',
      ''service_id'', ''request_id'', ''command_id'', ''command_chain_id'', ''run_id'', ''node_id'',
      ''node_execution_id'', ''runner_session_id'', ''service_instance_id'', ''participant_id'',
      ''participant_instance_id'', ''module_name'', ''module_version'', ''module_hash'',
      ''configuration_hash'', ''worker_id'', ''host_name'', ''source'', ''parent_operation_id'']"

definition context_integer_fields :: "string list" where
  "context_integer_fields = [''attempt_number'', ''process_id'', ''cycle_number'', ''stage_position'']"

definition context_item_ok :: "string \<times> json \<Rightarrow> bool" where
  "context_item_ok = (\<lambda>(k, v).
     if List.member context_text_fields k
     then (case v of JNull \<Rightarrow> True | JStr s \<Rightarrow> is_text s | _ \<Rightarrow> False)
     else List.member context_integer_fields k
          \<and> (case v of JNull \<Rightarrow> True | JInt n \<Rightarrow> 1 \<le> n | _ \<Rightarrow> False))"

definition context_ok :: "json_object \<Rightarrow> bool" where
  "context_ok c = (is_ok (copy_json_object (embed (JObj c))) \<and> list_all context_item_ok c)"

text \<open>
  \<open>js_size\<close> is the length of the encoded text of an event and \<open>js_max\<close> its limit; \<open>js_utc\<close> is
  the check of a timestamp's offset. \<open>js_change_size\<close> is the length of the text of a change with
  a cursor, \<open>js_page\<close> the limit \<^verbatim>\<open>_PAGE_BYTES\<close> of a page.
\<close>

record store_settings =
  js_size :: "journal_event \<Rightarrow> nat"
  js_max :: "nat option"
  js_utc :: "string \<Rightarrow> bool"
  js_change_size :: "nat \<Rightarrow> nat"
  js_page :: nat

definition observation_ok :: "command_observation \<Rightarrow> bool" where
  "observation_ok d =
     (is_text (ob_request d) \<and> optional is_text (ob_ignored d)
      \<and> list_all (\<lambda>s. is_text (su_event s) \<and> is_text (su_ignored s)) (ob_supersedes d))"

definition encodable :: "store_settings \<Rightarrow> journal_event \<Rightarrow> bool" where
  "encodable st e =
     (is_ok (copy_json_object (embed (event_document e)))
      \<and> is_text (ev_id e) \<and> is_text (ev_producer e)
      \<and> 0 < ev_sequence e \<and> ev_sequence e \<le> 9223372036854775807
      \<and> is_text (ev_occurred e) \<and> js_utc st (ev_occurred e) \<and> is_text (event_type e)
      \<and> context_ok (ev_context e) \<and> optional is_text (ev_operation e)
      \<and> optional (\<lambda>limit. js_size st e \<le> limit) (js_max st))"

section \<open>Tables\<close>

record author_observation =
  ao_producer :: string
  ao_occurred :: string
  ao_context :: json_object
  ao_operation :: "string option"

record result_row =
  rr_identity :: "json list"
  rr_runner :: "(string \<times> author_observation) option"
  rr_participant :: "(string \<times> author_observation) option"
  rr_effective :: string
  rr_author :: author

record journal_change =
  ch_event :: string
  ch_request :: "string option"
  ch_effective :: string
  ch_author :: "author option"
  ch_provisional :: bool
  ch_changed :: bool
  ch_related :: "string list"
  ch_observation :: "(author \<times> author_observation) option"

record journal =
  jn_id :: string
  jn_generation :: string
  jn_events :: "journal_event list"
  jn_results :: "(string, result_row) pydict"
  jn_changes :: "journal_change list"

record journal_store =
  jo_journal :: journal
  jo_open :: bool
  jo_read_only :: bool
  jo_failed :: bool

definition event_with :: "journal \<Rightarrow> string \<Rightarrow> journal_event option" where
  "event_with j i = find (\<lambda>e. ev_id e = i) (jn_events j)"

definition insert_event :: "journal_event \<Rightarrow> journal \<Rightarrow> journal option" where
  "insert_event e j =
     (if list_ex (\<lambda>f. ev_id f = ev_id e \<or> ev_producer f = ev_producer e \<and> ev_sequence f = ev_sequence e)
           (jn_events j)
      then None else Some (j\<lparr>jn_events := jn_events j @ [e]\<rparr>))"

section \<open>Reading the result index\<close>

definition identity_names :: "string list" where
  "identity_names = [''experiment_id'', ''participant_id'', ''participant_instance_id'']"

definition request_identity :: "json_object \<Rightarrow> json list" where
  "request_identity c = map (\<lambda>n. dict_get c n JNull) identity_names"

definition text_json :: "json \<Rightarrow> bool" where
  "text_json j = (case j of JStr s \<Rightarrow> is_text s | _ \<Rightarrow> False)"

definition identity_ok :: "json list \<Rightarrow> bool" where
  "identity_ok i = (case i of [e, p, n] \<Rightarrow> text_json e \<and> text_json p \<and> (n = JNull \<or> text_json n) | _ \<Rightarrow> False)"

record author_state =
  as_id :: string
  as_event :: journal_event
  as_observation :: author_observation
  as_result :: command_observation

record loaded_result =
  lr_identity :: "json list"
  lr_runner :: "author_state option"
  lr_participant :: "author_state option"
  lr_effective :: string
  lr_author :: author

definition owned_by :: "string \<Rightarrow> json list \<Rightarrow> json_object \<Rightarrow> bool" where
  "owned_by request i c = (dict_get c ''request_id'' JNull = JStr request \<and> request_identity c = i)"

text \<open>\<^verbatim>\<open>_decode_author_observation\<close> with the lookup of its event.\<close>

definition decode_author ::
    "journal \<Rightarrow> string \<Rightarrow> json list \<Rightarrow> (string \<times> author_observation) option \<Rightarrow> author_state option result" where
  "decode_author j request i entry =
     (case entry of
        None \<Rightarrow> Inr None
      | Some (k, ao) \<Rightarrow>
          (case event_with j k of
             None \<Rightarrow> Inl LoggingStorageError
           | Some e \<Rightarrow>
               (case ev_data e of
                  PlainEvent t d \<Rightarrow> Inl LoggingStorageError
                | ResultEvent d \<Rightarrow>
                    if ob_request d = request \<and> owned_by request i (ev_context e)
                       \<and> owned_by request i (ao_context ao)
                    then Inr (Some \<lparr>as_id = k, as_event = e, as_observation = ao, as_result = d\<rparr>)
                    else Inl LoggingStorageError)))"

text \<open>The JSON text of outcome and response, keys sorted, by which observations are compared.\<close>

definition response_key :: "command_observation \<Rightarrow> result_outcome \<times> json" where
  "response_key d = (ob_outcome d, dumps_sorted (JObj (ob_response d)))"

definition ignored_reason :: "result_outcome \<Rightarrow> string" where
  "ignored_reason out =
     (case out of
        TimedOut \<Rightarrow> ''request_timed_out''
      | Cancelled \<Rightarrow> ''request_cancelled''
      | Invalidated \<Rightarrow> ''request_invalidated''
      | _ \<Rightarrow> ''runner_result_precedence'')"

definition lr_of :: "loaded_result \<Rightarrow> author \<Rightarrow> author_state option" where
  "lr_of l a = (case a of RunnerAuthor \<Rightarrow> lr_runner l | ParticipantAuthor \<Rightarrow> lr_participant l)"

text \<open>\<^verbatim>\<open>_validate_result_precedence\<close>\<close>

definition preferred :: "'a option \<Rightarrow> author" where
  "preferred runner = (case runner of None \<Rightarrow> ParticipantAuthor | Some x \<Rightarrow> RunnerAuthor)"

definition supersedes_ok :: "author_state \<Rightarrow> author_state option \<Rightarrow> bool" where
  "supersedes_ok runner participant =
     (ob_supersedes (as_result runner) = []
      \<or> (case participant of
           None \<Rightarrow> False
         | Some p \<Rightarrow> ob_supersedes (as_result runner)
             = [\<lparr>su_event = as_id p, su_ignored = ignored_reason (ob_outcome (as_result runner))\<rparr>]))"

definition ignored_ok :: "author_state \<Rightarrow> author_state option \<Rightarrow> bool" where
  "ignored_ok runner participant =
     (case participant of
        None \<Rightarrow> True
      | Some p \<Rightarrow>
          optional (\<lambda>reason. reason = ignored_reason (ob_outcome (as_result runner))) (ob_ignored (as_result p))
          \<and> response_key (as_result runner) \<noteq> response_key (as_result p))"

definition shared_event :: "author_state option \<Rightarrow> author_state option \<Rightarrow> bool" where
  "shared_event runner participant =
     (case (runner, participant) of (Some r, Some p) \<Rightarrow> as_id r = as_id p | _ \<Rightarrow> False)"

definition precedence_ok :: "loaded_result \<Rightarrow> bool" where
  "precedence_ok l =
     (let runner = lr_runner l; participant = lr_participant l; shared = shared_event runner participant
      in (\<not> shared \<longrightarrow>
            optional (\<lambda>a. ob_author (as_result a) = RunnerAuthor) runner
            \<and> optional (\<lambda>a. ob_author (as_result a) = ParticipantAuthor) participant)
         \<and> lr_author l = preferred runner
         \<and> (case lr_of l (preferred runner) of None \<Rightarrow> False | Some a \<Rightarrow> lr_effective l = as_id a)
         \<and> (runner = None \<longrightarrow> optional (\<lambda>a. ob_ignored (as_result a) = None) participant)
         \<and> (if shared
            then optional (\<lambda>a. ob_ignored (as_result a) = None \<and> ob_supersedes (as_result a) = [])
                   (lr_of l (preferred runner))
            else optional (\<lambda>a. ob_supersedes (as_result a) = []) participant
                 \<and> optional (\<lambda>r. ob_ignored (as_result r) = None \<and> supersedes_ok r participant
                                 \<and> ignored_ok r participant) runner))"

text \<open>\<^verbatim>\<open>_load_command_result\<close>\<close>

definition load_row :: "journal \<Rightarrow> string \<Rightarrow> result_row \<Rightarrow> loaded_result result" where
  "load_row j request row =
     (if \<not> identity_ok (rr_identity row) then Inl LoggingStorageError
      else res_bind (decode_author j request (rr_identity row) (rr_runner row)) (\<lambda>runner.
           res_bind (decode_author j request (rr_identity row) (rr_participant row)) (\<lambda>participant.
             let l = \<lparr>lr_identity = rr_identity row, lr_runner = runner, lr_participant = participant,
                      lr_effective = rr_effective row, lr_author = rr_author row\<rparr>
             in if precedence_ok l then Inr l else Inl LoggingStorageError)))"

definition load_result :: "journal \<Rightarrow> string \<Rightarrow> loaded_result option result" where
  "load_result j request =
     (case map_of (jn_results j) request of
        None \<Rightarrow> Inr None
      | Some row \<Rightarrow> res_bind (load_row j request row) (\<lambda>l. Inr (Some l)))"

section \<open>Writing\<close>

text \<open>
  How a transaction ends without a commit: an input rejected before anything was written, which
  leaves the client usable, or a failure, after which it has to be reopened.
\<close>

datatype abort = Rejected exn | Broken exn

definition writable :: "journal_store \<Rightarrow> bool" where
  "writable s = (jo_open s \<and> \<not> jo_read_only s \<and> \<not> jo_failed s)"

definition finish_write :: "journal_store \<Rightarrow> abort + ('a \<times> journal) \<Rightarrow> 'a result \<times> journal_store" where
  "finish_write s r =
     (case r of
        Inl (Rejected e) \<Rightarrow> (Inl e, s)
      | Inl (Broken e) \<Rightarrow> (Inl e, s\<lparr>jo_failed := True\<rparr>)
      | Inr (x, j) \<Rightarrow> (Inr x, s\<lparr>jo_journal := j\<rparr>))"

definition event_change :: "string \<Rightarrow> journal_change" where
  "event_change i =
     \<lparr>ch_event = i, ch_request = None, ch_effective = i, ch_author = None, ch_provisional = False,
      ch_changed = True, ch_related = [i], ch_observation = None\<rparr>"

text \<open>\<^verbatim>\<open>append\<close>, and \<^verbatim>\<open>_append_replayed\<close> for a retry of an authenticated writer.\<close>

definition append_event :: "store_settings \<Rightarrow> bool \<Rightarrow> journal_event \<Rightarrow> journal \<Rightarrow> abort + (unit \<times> journal)" where
  "append_event st replay e j =
     (case (if replay then event_with j (ev_id e) else None) of
        Some f \<Rightarrow>
          if dumps_sorted (event_document e) = dumps_sorted (event_document f)
          then Inr ((), j) else Inl (Broken LoggingStorageError)
      | None \<Rightarrow>
          (case insert_event e j of
             None \<Rightarrow> Inl (Broken LoggingStorageError)
           | Some j \<Rightarrow> Inr ((), j\<lparr>jn_changes := jn_changes j @ [event_change (ev_id e)]\<rparr>)))"

definition append_store :: "store_settings \<Rightarrow> bool \<Rightarrow> journal_event \<Rightarrow> journal_store \<Rightarrow> unit result \<times> journal_store" where
  "append_store st replay e s =
     (if \<not> replay \<and> jo_read_only s then (Inl LoggingStateError, s)
      else if \<not> encodable st e then (Inl ValueError, s)
      else case ev_data e of
             ResultEvent d \<Rightarrow> (Inl ValueError, s)
           | PlainEvent t d \<Rightarrow>
               if \<not> writable s then (Inl LoggingStateError, s)
               else finish_write s (append_event st replay e (jo_journal s)))"

text \<open>\<^verbatim>\<open>_save_command_state\<close> and \<^verbatim>\<open>_record_change\<close>\<close>

definition author_entry :: "author_state option \<Rightarrow> (string \<times> author_observation) option" where
  "author_entry = map_option (\<lambda>a. (as_id a, as_observation a))"

definition result_row_of ::
    "json list \<Rightarrow> (string \<times> author_observation) option \<Rightarrow> (string \<times> author_observation) option \<Rightarrow> result_row" where
  "result_row_of i runner participant =
     \<lparr>rr_identity = i, rr_runner = runner, rr_participant = participant,
      rr_effective = (case (runner, participant) of
                        (Some (k, _), _) \<Rightarrow> k | (None, Some (k, _)) \<Rightarrow> k | (None, None) \<Rightarrow> []),
      rr_author = preferred runner\<rparr>"

definition save_result ::
    "author \<Rightarrow> string \<Rightarrow> json list \<Rightarrow> loaded_result option \<Rightarrow> string \<Rightarrow> author_observation \<Rightarrow> journal
     \<Rightarrow> abort + (string \<times> journal)" where
  "save_result a request i loaded k ao j =
     (let runner = (if a = RunnerAuthor then Some (k, ao) else author_entry (Option.bind loaded lr_runner));
          participant = (if a = ParticipantAuthor then Some (k, ao)
                         else author_entry (Option.bind loaded lr_participant));
          row = result_row_of i runner participant;
          j = j\<lparr>jn_results := AList.update request row (jn_results j)\<rparr>;
          changed = (map_option (\<lambda>l. (lr_author l, lr_effective l)) loaded
                       \<noteq> Some (rr_author row, rr_effective row))
      in case load_row j request row of
           Inl e \<Rightarrow> Inl (Broken e)
         | Inr l \<Rightarrow>
             Inr (k, j\<lparr>jn_changes := jn_changes j @
               [\<lparr>ch_event = k, ch_request = Some request, ch_effective = lr_effective l,
                 ch_author = Some (lr_author l), ch_provisional = (lr_runner l = None),
                 ch_changed = changed,
                 ch_related = remdups (some_values [map_option as_id (lr_runner l),
                                                    map_option as_id (lr_participant l)]),
                 ch_observation = Some (a, ao)\<rparr>]\<rparr>))"

definition other_author :: "author \<Rightarrow> author" where
  "other_author a = (case a of RunnerAuthor \<Rightarrow> ParticipantAuthor | ParticipantAuthor \<Rightarrow> RunnerAuthor)"

text \<open>\<^verbatim>\<open>_prepare_other_author_result\<close>, for an observation that differs from the other author's.\<close>

definition mark_superseded :: "command_observation \<Rightarrow> author_state option \<Rightarrow> command_observation" where
  "mark_superseded d other =
     (case other of
        None \<Rightarrow> d
      | Some a \<Rightarrow>
          (case ob_author d of
             ParticipantAuthor \<Rightarrow> d\<lparr>ob_ignored := Some (ignored_reason (ob_outcome (as_result a)))\<rparr>
           | RunnerAuthor \<Rightarrow> d\<lparr>ob_supersedes :=
               [\<lparr>su_event = as_id a, su_ignored = ignored_reason (ob_outcome d)\<rparr>]\<rparr>))"

definition observe :: "journal_event \<Rightarrow> author_observation" where
  "observe e = \<lparr>ao_producer = ev_producer e, ao_occurred = ev_occurred e,
     ao_context = ev_context e, ao_operation = ev_operation e\<rparr>"

definition reconcile ::
    "store_settings \<Rightarrow> journal_event \<Rightarrow> command_observation \<Rightarrow> journal \<Rightarrow> abort + (string \<times> journal)" where
  "reconcile st e d j =
     (let request = ob_request d; i = request_identity (ev_context e); a = ob_author d
      in case load_result j request of
           Inl x \<Rightarrow> Inl (Broken x)
         | Inr loaded \<Rightarrow>
             if optional (\<lambda>l. lr_identity l = i) loaded
             then (case Option.bind loaded (\<lambda>l. lr_of l a) of
                     Some own \<Rightarrow>
                       if response_key d = response_key (as_result own) then Inr (as_id own, j)
                       else Inl (Rejected ValueError)
                   | None \<Rightarrow>
                       (let other = Option.bind loaded (\<lambda>l. lr_of l (other_author a)) in
                        case other of
                          Some x \<Rightarrow>
                            if response_key d = response_key (as_result x)
                            then save_result a request i loaded (as_id x) (observe e) j
                            else (let e' = e\<lparr>ev_data := ResultEvent (mark_superseded d other)\<rparr> in
                                  if \<not> encodable st e' then Inl (Rejected ValueError)
                                  else case insert_event e' j of
                                         None \<Rightarrow> Inl (Broken LoggingStorageError)
                                       | Some j \<Rightarrow> save_result a request i loaded (ev_id e) (observe e) j)
                        | None \<Rightarrow>
                            (case insert_event e j of
                               None \<Rightarrow> Inl (Broken LoggingStorageError)
                             | Some j \<Rightarrow> save_result a request i loaded (ev_id e) (observe e) j)))
             else Inl (Rejected ValueError))"

definition append_command_result ::
    "store_settings \<Rightarrow> journal_event \<Rightarrow> journal_store \<Rightarrow> string result \<times> journal_store" where
  "append_command_result st e s =
     (if \<not> encodable st e then (Inl ValueError, s)
      else case ev_data e of
             PlainEvent t d \<Rightarrow> (Inl ValueError, s)
           | ResultEvent d \<Rightarrow>
               if \<not> observation_ok d \<or> ob_ignored d \<noteq> None \<or> ob_supersedes d \<noteq> []
                  \<or> \<not> text_json (dict_get (ev_context e) ''experiment_id'' JNull)
                  \<or> \<not> text_json (dict_get (ev_context e) ''participant_id'' JNull)
                  \<or> dict_get (ev_context e) ''request_id'' JNull \<noteq> JStr (ob_request d)
               then (Inl ValueError, s)
               else if \<not> writable s then (Inl LoggingStateError, s)
               else finish_write s (reconcile st e d (jo_journal s)))"

end
