(* ===== verification/Journal_Reads.thy ===== *)
theory Journal_Reads
  imports Journal_Store
begin

text \<open>
  Reading the journal: pages of events in the raw or the effective view, batches of selected
  events, pages of the change feed, and the considered result of a command. The reads of
  \<^verbatim>\<open>core/journal/storage.py\<close> with the checkpoints of \<^verbatim>\<open>core/journal/events.py\<close> and
  \<^verbatim>\<open>records.py\<close> and the documents of \<^verbatim>\<open>core/models/journal_records.py\<close> and
  \<^verbatim>\<open>journal_diagnostics.py\<close>.

  A failure while reading marks the client as failed, like one while writing; a rejected
  checkpoint does not.
\<close>

section \<open>Checkpoints\<close>

definition sqlite_max :: int where
  "sqlite_max = 9223372036854775807"

definition uuid_hex :: "json \<Rightarrow> string result" where
  "uuid_hex j = res_bind (text_value j) (\<lambda>t. res_bind (uuid_int t) (\<lambda>n. Inr (to_hex 32 n)))"

definition journal_identity :: "json_object \<Rightarrow> (string \<times> string) result" where
  "journal_identity d =
     res_bind (field d ''journal_id'' uuid_hex) (\<lambda>i.
     res_bind (field d ''generation'' uuid_hex) (\<lambda>g. Inr (i, g)))"

record journal_checkpoint =
  cp_journal :: string
  cp_generation :: string
  cp_position :: int

definition sqlite_position :: "json \<Rightarrow> int result" where
  "sqlite_position j = res_bind (int_from 0 j) (\<lambda>n. if n \<le> sqlite_max then Inr n else Inl ValueError)"

text \<open>\<^verbatim>\<open>_validated_checkpoint\<close>, with \<^verbatim>\<open>JournalCheckpoint.detach\<close>.\<close>

definition validated_checkpoint :: "string \<Rightarrow> json \<Rightarrow> journal_checkpoint option result" where
  "validated_checkpoint key j =
     (if j = JNull then Inr None
      else res_bind (copy_json_object (embed j)) (\<lambda>d.
           if set (keys d) \<noteq> {''journal_id'', ''generation'', key} then Inl ValueError
           else res_bind (journal_identity d) (\<lambda>(i, g).
                res_bind (field d key sqlite_position) (\<lambda>n.
                  Inr (Some \<lparr>cp_journal = i, cp_generation = g, cp_position = n\<rparr>)))))"

record read_boundary =
  bo_journal :: string
  bo_generation :: string
  bo_cursor :: nat
  bo_count :: nat
  bo_change :: nat

definition read_boundary_of :: "journal \<Rightarrow> read_boundary" where
  "read_boundary_of j = \<lparr>bo_journal = jn_id j, bo_generation = jn_generation j,
     bo_cursor = length (jn_events j), bo_count = length (jn_events j), bo_change = length (jn_changes j)\<rparr>"

definition boundary_document :: "read_boundary \<Rightarrow> json" where
  "boundary_document b =
     JObj [(''schema_version'', JInt 2), (''journal_id'', JStr (bo_journal b)),
       (''generation'', JStr (bo_generation b)), (''cursor'', JInt (int (bo_cursor b))),
       (''event_count'', JInt (int (bo_count b))), (''change_cursor'', JInt (int (bo_change b)))]"

definition checkpoint_document :: "read_boundary \<Rightarrow> string \<Rightarrow> nat \<Rightarrow> json" where
  "checkpoint_document b key n =
     JObj [(''journal_id'', JStr (bo_journal b)), (''generation'', JStr (bo_generation b)), (key, JInt (int n))]"

definition checkpoint_position :: "journal_checkpoint option \<Rightarrow> read_boundary \<Rightarrow> nat \<Rightarrow> nat result" where
  "checkpoint_position cp b limit =
     (case cp of
        None \<Rightarrow> Inr 0
      | Some c \<Rightarrow>
          if (cp_journal c, cp_generation c) \<noteq> (bo_journal b, bo_generation b) then Inl JournalGenerationChanged
          else if int limit < cp_position c then Inl LoggingStateError
          else Inr (nat (cp_position c)))"

section \<open>Pages of events\<close>

record journal_entry =
  je_cursor :: nat
  je_event :: journal_event
  je_result :: "(author option \<times> bool) option"

definition entry_document :: "journal_entry \<Rightarrow> json_object" where
  "entry_document x =
     [(''cursor'', JInt (int (je_cursor x))), (''event'', event_document (je_event x))]
     @ (case je_result x of
          None \<Rightarrow> []
        | Some (a, provisional) \<Rightarrow>
            [(''effective_author'', dump_nullable (name_in author_names) a), (''provisional'', JBool provisional)])"

text \<open>The rows of a table from a cursor on, with their cursors.\<close>

definition rows_after :: "nat \<Rightarrow> 'a list \<Rightarrow> (nat \<times> 'a) list" where
  "rows_after n xs = drop n (enumerate 1 xs)"

definition entry_ids :: "loaded_result \<Rightarrow> string list" where
  "entry_ids l = some_values [map_option as_id (lr_runner l), map_option as_id (lr_participant l)]"

definition effective_entry :: "journal \<Rightarrow> nat \<times> journal_event \<Rightarrow> journal_entry option result" where
  "effective_entry j row =
     (case row of (n, e) \<Rightarrow>
        case ev_data e of
          PlainEvent t d \<Rightarrow> Inr (Some \<lparr>je_cursor = n, je_event = e, je_result = Some (None, False)\<rparr>)
        | ResultEvent d \<Rightarrow>
            res_bind (load_result j (ob_request d)) (\<lambda>state.
              case state of
                None \<Rightarrow> Inl LoggingStorageError
              | Some l \<Rightarrow>
                  if \<not> List.member (entry_ids l) (ev_id e) then Inl LoggingStorageError
                  else if ev_id e \<noteq> lr_effective l then Inr None
                  else Inr (Some \<lparr>je_cursor = n, je_event = e,
                                  je_result = Some (Some (lr_author l), lr_runner l = None)\<rparr>)))"

definition view_entry :: "journal \<Rightarrow> string \<Rightarrow> nat \<times> journal_event \<Rightarrow> journal_entry option result" where
  "view_entry j view row =
     (if view = ''effective'' then effective_entry j row
      else Inr (Some \<lparr>je_cursor = fst row, je_event = snd row, je_result = None\<rparr>))"

fun read_event_page ::
    "store_settings \<Rightarrow> journal \<Rightarrow> string \<Rightarrow> nat \<Rightarrow> (nat \<times> journal_event) list \<Rightarrow> nat \<Rightarrow> journal_entry list \<Rightarrow> nat
     \<Rightarrow> (journal_entry list \<times> nat) result" where
  "read_event_page st j view limit [] after acc page_bytes = Inr (acc, after)"
| "read_event_page st j view limit (row # rows) after acc page_bytes =
     res_bind (view_entry j view row) (\<lambda>entry.
       case entry of
         None \<Rightarrow> read_event_page st j view limit rows (fst row) acc page_bytes
       | Some x \<Rightarrow>
           if acc \<noteq> [] \<and> js_page st < page_bytes + js_size st (snd row) then Inr (acc, after)
           else if Suc (length acc) = limit then Inr (acc @ [x], fst row)
           else read_event_page st j view limit rows (fst row) (acc @ [x]) (page_bytes + js_size st (snd row)))"

record event_page =
  pg_events :: "journal_entry list"
  pg_boundary :: read_boundary
  pg_after :: "nat option"

definition event_page_document :: "event_page \<Rightarrow> json" where
  "event_page_document p =
     (let es = (''events'', JArr (map (\<lambda>x. JObj (entry_document x)) (pg_events p)));
          b = (''boundary'', boundary_document (pg_boundary p))
      in case pg_after p of
           None \<Rightarrow> JObj [es, b]
         | Some n \<Rightarrow> JObj [es, (''checkpoint'', checkpoint_document (pg_boundary p) ''cursor'' n), b,
                         (''has_more'', JBool (n < bo_cursor (pg_boundary p)))])"

text \<open>
  A read transaction: a result, a refusal that leaves the client as it is, or a failure.
\<close>

definition end_read :: "journal_store \<Rightarrow> abort + 'a \<Rightarrow> 'a result \<times> journal_store" where
  "end_read s r =
     (case r of
        Inl (Rejected e) \<Rightarrow> (Inl e, s)
      | Inl (Broken e) \<Rightarrow> (Inl e, s\<lparr>jo_failed := True\<rparr>)
      | Inr x \<Rightarrow> (Inr x, s))"

definition or_broken :: "'a result \<Rightarrow> abort + 'a" where
  "or_broken r = (case r of Inl e \<Rightarrow> Inl (if e = LoggingStateError then Rejected e else Broken LoggingStorageError)
                          | Inr x \<Rightarrow> Inr x)"

definition event_page_at ::
    "store_settings \<Rightarrow> journal \<Rightarrow> string \<Rightarrow> nat \<Rightarrow> nat \<Rightarrow> (journal_entry list \<times> nat) result" where
  "event_page_at st j view limit after =
     read_event_page st j view limit (take 1000 (rows_after after (jn_events j))) after [] 0"

definition read_events ::
    "store_settings \<Rightarrow> json \<Rightarrow> int \<Rightarrow> string \<Rightarrow> journal_store \<Rightarrow> event_page result \<times> journal_store" where
  "read_events st cp limit view s =
     (case validated_checkpoint ''cursor'' cp of
        Inl e \<Rightarrow> (Inl e, s)
      | Inr parsed \<Rightarrow>
          if limit < 1 \<or> 1000 < limit then (Inl ValueError, s)
          else if view \<noteq> ''raw'' \<and> view \<noteq> ''effective'' then (Inl ValueError, s)
          else if \<not> jo_open s then (Inl LoggingStateError, s)
          else end_read s
            (let j = jo_journal s; b = read_boundary_of j
             in case checkpoint_position parsed b (bo_cursor b) of
                  Inl e \<Rightarrow> Inl (Rejected e)
                | Inr after \<Rightarrow> or_broken
                    (res_bind (event_page_at st j view (nat limit) after) (\<lambda>(es, n).
                       Inr \<lparr>pg_events = es, pg_boundary = b, pg_after = Some n\<rparr>))))"

section \<open>Batches of events\<close>

definition batch_rows :: "journal \<Rightarrow> string list option \<Rightarrow> nat option \<Rightarrow> nat \<Rightarrow> (nat \<times> journal_event) list" where
  "batch_rows j ids before limit =
     (case ids of
        Some is \<Rightarrow> filter (\<lambda>(n, e). List.member is (ev_id e)) (enumerate 1 (jn_events j))
      | None \<Rightarrow>
          (let upper = (case before of None \<Rightarrow> Suc (length (jn_events j)) | Some n \<Rightarrow> n)
           in take limit (rev (filter (\<lambda>(n, e). n < upper) (enumerate 1 (jn_events j))))))"

fun batch_entries :: "store_settings \<Rightarrow> (nat \<times> journal_event) list \<Rightarrow> journal_entry list \<Rightarrow> nat \<Rightarrow> journal_entry list" where
  "batch_entries st [] acc bytes = acc"
| "batch_entries st ((n, e) # rows) acc bytes =
     (if js_page st < bytes + js_size st e \<and> acc \<noteq> [] then acc
      else batch_entries st rows (acc @ [\<lparr>je_cursor = n, je_event = e, je_result = None\<rparr>]) (bytes + js_size st e))"

definition read_event_batch ::
    "store_settings \<Rightarrow> string list option \<Rightarrow> int \<Rightarrow> int option \<Rightarrow> journal_store \<Rightarrow> event_page result \<times> journal_store" where
  "read_event_batch st ids limit before s =
     (if limit < 1 \<or> 1000 < limit then (Inl ValueError, s)
      else if \<not> optional (\<lambda>n. 1 \<le> n) before then (Inl ValueError, s)
      else if \<not> optional (\<lambda>is. int (length is) \<le> limit \<and> list_all is_text is
                              \<and> distinct is \<and> before = None) ids
      then (Inl ValueError, s)
      else if \<not> jo_open s then (Inl LoggingStateError, s)
      else (Inr \<lparr>pg_events = batch_entries st
                   (batch_rows (jo_journal s) ids (map_option nat before) (nat limit)) [] 0,
                 pg_boundary = read_boundary_of (jo_journal s), pg_after = None\<rparr>, s))"

section \<open>The change feed\<close>

text \<open>\<^verbatim>\<open>_event_entry\<close>\<close>

definition event_entry :: "journal \<Rightarrow> string \<Rightarrow> (nat \<times> journal_event) result" where
  "event_entry j i =
     (case find (\<lambda>(n, e). ev_id e = i) (enumerate 1 (jn_events j)) of
        None \<Rightarrow> Inl LoggingStorageError
      | Some row \<Rightarrow> Inr row)"

definition change_shape_ok :: "journal_change \<Rightarrow> bool" where
  "change_shape_ok c =
     (ch_related c \<noteq> [] \<and> distinct (ch_related c)
      \<and> (case ch_request c of
           None \<Rightarrow> ch_author c = None \<and> \<not> ch_provisional c \<and> ch_changed c \<and> ch_observation c = None
         | Some q \<Rightarrow> is_text q \<and> ch_author c \<noteq> None
             \<and> ch_provisional c = (ch_author c = Some ParticipantAuthor)))"

definition owner_names :: "string list" where
  "owner_names = identity_names @ [''request_id'']"

definition same_owner :: "json_object \<Rightarrow> json_object \<Rightarrow> bool" where
  "same_owner c d = list_all (\<lambda>n. dict_get c n JNull = dict_get d n JNull) owner_names"

text \<open>\<^verbatim>\<open>_validate_command_change\<close>\<close>

definition related_ok :: "journal \<Rightarrow> string \<Rightarrow> journal_event \<Rightarrow> string \<Rightarrow> bool" where
  "related_ok j q x i =
     (case event_entry j i of
        Inl e \<Rightarrow> False
      | Inr (n, e) \<Rightarrow>
          (case ev_data e of
             PlainEvent t d \<Rightarrow> False
           | ResultEvent d \<Rightarrow> ob_request d = q \<and> same_owner (ev_context e) (ev_context x)))"

record change_entry =
  ce_cursor :: nat
  ce_change :: journal_change
  ce_entry :: journal_entry
  ce_observed :: "nat \<times> journal_event"

text \<open>\<^verbatim>\<open>_decode_change\<close>\<close>

definition change_refers :: "journal \<Rightarrow> journal_change \<Rightarrow> journal_event \<Rightarrow> bool" where
  "change_refers j c x =
     (List.member (ch_related c) (ch_event c) \<and> List.member (ch_related c) (ch_effective c)
      \<and> (case ch_request c of
           None \<Rightarrow> ch_related c = [ch_event c] \<and> (case ev_data x of PlainEvent t d \<Rightarrow> True | ResultEvent d \<Rightarrow> False)
         | Some q \<Rightarrow> list_all (related_ok j q x) (ch_related c)
             \<and> optional (\<lambda>(a, ao). same_owner (ao_context ao) (ev_context x)) (ch_observation c)))"

definition decode_change :: "journal \<Rightarrow> nat \<times> journal_change \<Rightarrow> change_entry result" where
  "decode_change j row =
     (case row of (n, c) \<Rightarrow>
        if \<not> change_shape_ok c then Inl ValueError
        else res_bind (event_entry j (ch_effective c)) (\<lambda>(m, x).
             res_bind (event_entry j (ch_event c)) (\<lambda>observed.
               if \<not> change_refers j c x then Inl LoggingStorageError
               else Inr \<lparr>ce_cursor = n, ce_change = c,
                         ce_entry = \<lparr>je_cursor = m, je_event = x,
                                     je_result = Some (ch_author c, ch_provisional c)\<rparr>,
                         ce_observed = observed\<rparr>)))"

fun change_page ::
    "store_settings \<Rightarrow> journal \<Rightarrow> (nat \<times> journal_change) list \<Rightarrow> nat \<Rightarrow> change_entry list \<Rightarrow> nat
     \<Rightarrow> (change_entry list \<times> nat) result" where
  "change_page st j [] after acc bytes = Inr (acc, after)"
| "change_page st j (row # rows) after acc bytes =
     res_bind (decode_change j row) (\<lambda>item.
       if acc \<noteq> [] \<and> js_page st < bytes + js_change_size st (fst row) then Inr (acc, after)
       else change_page st j rows (fst row) (acc @ [item]) (bytes + js_change_size st (fst row)))"

definition change_page_at :: "store_settings \<Rightarrow> journal \<Rightarrow> nat \<Rightarrow> nat \<Rightarrow> (change_entry list \<times> nat) result" where
  "change_page_at st j limit after = change_page st j (take limit (rows_after after (jn_changes j))) after [] 0"

record changes_page =
  cg_changes :: "change_entry list"
  cg_boundary :: read_boundary
  cg_after :: nat

definition read_changes ::
    "store_settings \<Rightarrow> json \<Rightarrow> int \<Rightarrow> journal_store \<Rightarrow> changes_page result \<times> journal_store" where
  "read_changes st cp limit s =
     (case validated_checkpoint ''change_cursor'' cp of
        Inl e \<Rightarrow> (Inl e, s)
      | Inr parsed \<Rightarrow>
          if limit < 1 \<or> 1000 < limit then (Inl ValueError, s)
          else if \<not> jo_open s then (Inl LoggingStateError, s)
          else end_read s
            (let j = jo_journal s; b = read_boundary_of j
             in case checkpoint_position parsed b (bo_change b) of
                  Inl e \<Rightarrow> Inl (Rejected e)
                | Inr after \<Rightarrow> or_broken
                    (res_bind (change_page_at st j (nat limit) after) (\<lambda>(cs, n).
                       Inr \<lparr>cg_changes = cs, cg_boundary = b, cg_after = n\<rparr>))))"

section \<open>The considered result\<close>

record result_observer =
  ro_author :: author
  ro_id :: string
  ro_event :: journal_event
  ro_observation :: author_observation
  ro_ignored :: "string option"

record considered_result =
  cr_request :: string
  cr_event :: string
  cr_author :: author
  cr_result :: command_observation
  cr_entry :: journal_event
  cr_observers :: "result_observer list"
  cr_provisional :: bool

text \<open>\<^verbatim>\<open>_command_result_document\<close>\<close>

definition observer_of :: "loaded_result \<Rightarrow> author \<Rightarrow> result_observer option" where
  "observer_of l a =
     map_option (\<lambda>x. \<lparr>ro_author = a, ro_id = as_id x, ro_event = as_event x, ro_observation = as_observation x,
         ro_ignored = (case (a, lr_runner l) of
                         (ParticipantAuthor, Some r) \<Rightarrow>
                           if as_id x \<noteq> as_id r then Some (ignored_reason (ob_outcome (as_result r))) else None
                       | _ \<Rightarrow> None)\<rparr>)
       (lr_of l a)"

definition command_result_of :: "string \<Rightarrow> loaded_result \<Rightarrow> considered_result result" where
  "command_result_of q l =
     (case lr_of l (lr_author l) of
        None \<Rightarrow> Inl TypeError
      | Some x \<Rightarrow> Inr \<lparr>cr_request = q, cr_event = as_id x, cr_author = lr_author l, cr_result = as_result x,
          cr_entry = as_event x,
          cr_observers = some_values [observer_of l RunnerAuthor, observer_of l ParticipantAuthor],
          cr_provisional = (lr_runner l = None)\<rparr>)"

definition read_command_result ::
    "string \<Rightarrow> journal_store \<Rightarrow> considered_result option result \<times> journal_store" where
  "read_command_result q s =
     (if \<not> is_text q then (Inl ValueError, s)
      else if \<not> jo_open s then (Inl LoggingStateError, s)
      else end_read s (or_broken
        (res_bind (load_result (jo_journal s) q) (\<lambda>state.
           case state of
             None \<Rightarrow> Inr None
           | Some l \<Rightarrow> res_bind (command_result_of q l) (\<lambda>x. Inr (Some x))))))"

end
