(* ===== verification/Journal_Invariants.thy ===== *)
theory Journal_Invariants
  imports Journal_Reads
begin

text \<open>
  The journal stays consistent: every write keeps the checks that every later read makes of the
  result index, so an index is never found corrupt, and the change feed determines the
  considered results.
\<close>

section \<open>Appending events\<close>

definition ids_distinct :: "journal \<Rightarrow> bool" where
  "ids_distinct j \<longleftrightarrow> distinct (map ev_id (jn_events j))
     \<and> distinct (map (\<lambda>e. (ev_producer e, ev_sequence e)) (jn_events j))"

lemma find_append: "find p (xs @ ys) = (case find p xs of Some x \<Rightarrow> Some x | None \<Rightarrow> find p ys)"
  by (induction xs) auto

lemma insert_event_Some:
  "insert_event e j = Some j' \<longleftrightarrow> j' = j\<lparr>jn_events := jn_events j @ [e]\<rparr>
     \<and> (\<forall>f \<in> set (jn_events j). ev_id f \<noteq> ev_id e
          \<and> (ev_producer f, ev_sequence f) \<noteq> (ev_producer e, ev_sequence e))"
  by (auto simp: insert_event_def list_ex_iff)

lemma insert_distinct: "insert_event e j = Some j' \<Longrightarrow> ids_distinct j \<Longrightarrow> ids_distinct j'"
  by (auto simp: insert_event_Some ids_distinct_def)

lemma event_with_old:
  "event_with j k = Some f \<Longrightarrow> event_with (j\<lparr>jn_events := jn_events j @ es\<rparr>) k = Some f"
  by (simp add: event_with_def find_append)

lemma event_with_new:
  assumes "insert_event e j = Some j'"
  shows "event_with j' (ev_id e) = Some e"
proof -
  have "find (\<lambda>f. ev_id f = ev_id e) (jn_events j) = None"
    using assms by (auto simp: insert_event_Some find_None_iff)
  then show ?thesis using assms by (auto simp: insert_event_Some event_with_def find_append)
qed

lemma event_with_id: "event_with j k = Some f \<Longrightarrow> ev_id f = k \<and> f \<in> set (jn_events j)"
  by (auto simp: event_with_def find_Some_iff)

lemma event_with_tables [simp]:
  "event_with (j\<lparr>jn_results := r\<rparr>) k = event_with j k"
  "event_with (j\<lparr>jn_changes := c\<rparr>) k = event_with j k"
  by (simp_all add: event_with_def)

lemma decode_old:
  "decode_author j q i entry = Inr x \<Longrightarrow>
     decode_author (j\<lparr>jn_events := jn_events j @ es\<rparr>) q i entry = Inr x"
  using event_with_old [of j _ _ es]
  by (cases entry) (auto simp: decode_author_def split: option.splits event_data.splits)

lemma decode_tables [simp]:
  "decode_author (j\<lparr>jn_results := r\<rparr>) = decode_author j" "decode_author (j\<lparr>jn_changes := c\<rparr>) = decode_author j"
  by (simp_all add: decode_author_def fun_eq_iff split: option.split)

lemma load_row_tables [simp]:
  "load_row (j\<lparr>jn_results := r\<rparr>) = load_row j" "load_row (j\<lparr>jn_changes := c\<rparr>) = load_row j"
  by (simp_all add: load_row_def fun_eq_iff)

lemma load_row_old:
  "load_row j q row = Inr l \<Longrightarrow> load_row (j\<lparr>jn_events := jn_events j @ es\<rparr>) q row = Inr l"
  by (auto simp: load_row_def Let_def dest: decode_old [where es = es] split: if_splits)

lemma event_entry_tables [simp]:
  "event_entry (j\<lparr>jn_results := r\<rparr>) = event_entry j" "event_entry (j\<lparr>jn_changes := c\<rparr>) = event_entry j"
  by (simp_all add: event_entry_def fun_eq_iff)

lemma related_ok_tables [simp]:
  "related_ok (j\<lparr>jn_results := r\<rparr>) = related_ok j" "related_ok (j\<lparr>jn_changes := c\<rparr>) = related_ok j"
  by (simp_all add: related_ok_def fun_eq_iff)

lemma change_refers_tables [simp]:
  "change_refers (j\<lparr>jn_results := r\<rparr>) = change_refers j" "change_refers (j\<lparr>jn_changes := c\<rparr>) = change_refers j"
  by (simp_all add: change_refers_def fun_eq_iff split: option.split)

lemma decode_change_tables [simp]:
  "decode_change (j\<lparr>jn_results := r\<rparr>) = decode_change j" "decode_change (j\<lparr>jn_changes := c\<rparr>) = decode_change j"
  by (simp_all add: decode_change_def fun_eq_iff)

lemma event_entry_old: "event_entry j i = Inr row \<Longrightarrow> event_entry (j\<lparr>jn_events := jn_events j @ es\<rparr>) i = Inr row"
  by (auto simp: event_entry_def enumerate_append_eq find_append split: option.splits)

lemma related_ok_old: "related_ok j q x i \<Longrightarrow> related_ok (j\<lparr>jn_events := jn_events j @ es\<rparr>) q x i"
  by (auto simp: related_ok_def event_entry_old split: sum.splits)

lemma decode_change_old:
  "decode_change j row = Inr x \<Longrightarrow> decode_change (j\<lparr>jn_events := jn_events j @ es\<rparr>) row = Inr x"
  by (cases row)
    (fastforce simp: decode_change_def change_refers_def related_ok_old list_all_iff event_entry_old
      split: if_splits option.splits)

lemma find_enumerate: "map_option snd (find (\<lambda>(n, e). p e) (enumerate k xs)) = find p xs"
  by (induction xs arbitrary: k) auto

lemma event_entry_with: "event_with j i = Some e \<longleftrightarrow> (\<exists>n. event_entry j i = Inr (n, e))"
  using find_enumerate [of "\<lambda>e. ev_id e = i" 1 "jn_events j"]
  by (auto simp: event_with_def event_entry_def split: option.splits)

section \<open>What a loaded row says\<close>

lemma decode_Some:
  "decode_author j q i entry = Inr (Some a) \<Longrightarrow>
     entry = Some (as_id a, as_observation a) \<and> event_with j (as_id a) = Some (as_event a)
     \<and> ev_data (as_event a) = ResultEvent (as_result a) \<and> ob_request (as_result a) = q
     \<and> owned_by q i (ev_context (as_event a)) \<and> owned_by q i (ao_context (as_observation a))"
  by (auto simp: decode_author_def split: option.splits event_data.splits if_splits)

lemma decode_None: "decode_author j q i entry = Inr None \<longleftrightarrow> entry = None"
  by (auto simp: decode_author_def split: option.splits event_data.splits if_splits)

lemma decode_entry: "decode_author j q i entry = Inr x \<Longrightarrow> author_entry x = entry"
  by (cases x) (auto simp: author_entry_def decode_None dest: decode_Some)

lemma decode_again: "decode_author j q i entry = Inr x \<Longrightarrow> decode_author j q i (author_entry x) = Inr x"
  by (simp add: decode_entry)

lemma load_row_Inr:
  "load_row j q row = Inr l \<longleftrightarrow> identity_ok (rr_identity row)
     \<and> decode_author j q (rr_identity row) (rr_runner row) = Inr (lr_runner l)
     \<and> decode_author j q (rr_identity row) (rr_participant row) = Inr (lr_participant l)
     \<and> lr_identity l = rr_identity row \<and> lr_effective l = rr_effective row \<and> lr_author l = rr_author row
     \<and> precedence_ok l"
  by (cases l) (auto simp: load_row_def Let_def)

lemma load_result_Inr:
  "load_result j q = Inr loaded \<longleftrightarrow>
     (case map_of (jn_results j) q of None \<Rightarrow> loaded = None
      | Some row \<Rightarrow> (\<exists>l. loaded = Some l \<and> load_row j q row = Inr l))"
  by (auto simp: load_result_def split: option.splits)

text \<open>An accepted result of one author only is neither ignored nor does it supersede another.\<close>

lemma precedence_single:
  assumes "precedence_ok l" "lr_of l a = None" "lr_of l (other_author a) = Some x"
  shows "ob_ignored (as_result x) = None" "ob_supersedes (as_result x) = []"
    "ob_author (as_result x) = other_author a"
  using assms
  by (cases a; auto simp: precedence_ok_def Let_def lr_of_def other_author_def shared_event_def preferred_def
      supersedes_ok_def)+

section \<open>The row saved for an observation\<close>

text \<open>The states of the two authors after an observation \<open>x\<close> of \<open>a\<close> beside the other's \<open>y\<close>.\<close>

definition merged :: "json list \<Rightarrow> author \<Rightarrow> author_state \<Rightarrow> author_state option \<Rightarrow> loaded_result" where
  "merged i a x y =
     (let runner = (if a = RunnerAuthor then Some x else y);
          participant = (if a = ParticipantAuthor then Some x else y)
      in \<lparr>lr_identity = i, lr_runner = runner, lr_participant = participant,
          lr_effective = (case runner of Some r \<Rightarrow> as_id r | None \<Rightarrow> as_id x),
          lr_author = preferred runner\<rparr>)"

lemma other_author_simps [simp]:
  "other_author RunnerAuthor = ParticipantAuthor" "other_author ParticipantAuthor = RunnerAuthor"
  "other_author (other_author a) = a" "other_author a \<noteq> a"
  by (cases a; simp add: other_author_def)+

lemma lr_of_simps [simp]:
  "lr_of l RunnerAuthor = lr_runner l" "lr_of l ParticipantAuthor = lr_participant l"
  by (simp_all add: lr_of_def)

lemma merged_of [simp]: "lr_of (merged i a x y) a = Some x" "lr_of (merged i a x y) (other_author a) = y"
  by (cases a; simp add: merged_def Let_def)+

text \<open>An observation without a counterpart.\<close>

lemma merged_first:
  "ob_author (as_result x) = a \<Longrightarrow> ob_ignored (as_result x) = None \<Longrightarrow> ob_supersedes (as_result x) = []
     \<Longrightarrow> precedence_ok (merged i a x None)"
  by (cases a)
    (auto simp: merged_def Let_def precedence_ok_def shared_event_def preferred_def supersedes_ok_def ignored_ok_def)

text \<open>An observation that agrees with its counterpart shares its event.\<close>

lemma merged_shared:
  "ob_ignored (as_result y) = None \<Longrightarrow> ob_supersedes (as_result y) = [] \<Longrightarrow> as_id x = as_id y
     \<Longrightarrow> as_result x = as_result y \<Longrightarrow> precedence_ok (merged i a x (Some y))"
  by (cases a) (auto simp: merged_def Let_def precedence_ok_def shared_event_def preferred_def)

text \<open>An observation that differs from its counterpart is marked.\<close>

lemma merged_marked:
  assumes "ob_author d = a" "ob_ignored d = None" "ob_supersedes d = []"
    and "ob_author (as_result y) = other_author a" "ob_ignored (as_result y) = None" "ob_supersedes (as_result y) = []"
    and "response_key d \<noteq> response_key (as_result y)" "as_id x \<noteq> as_id y"
    and "as_result x = mark_superseded d (Some y)"
  shows "precedence_ok (merged i a x (Some y))"
  using assms
  by (cases a)
    (auto simp: merged_def Let_def precedence_ok_def shared_event_def preferred_def supersedes_ok_def
      ignored_ok_def mark_superseded_def response_key_def)

lemma mark_superseded_simps [simp]:
  "ob_request (mark_superseded d other) = ob_request d" "ob_author (mark_superseded d other) = ob_author d"
  "response_key (mark_superseded d other) = response_key d" "mark_superseded d None = d"
  by (auto simp: mark_superseded_def response_key_def split: option.split author.split)

lemma save_result_run:
  assumes "identity_ok i"
    and "decode_author j q i (Some (k, ao)) = Inr (Some x)"
    and "decode_author j q i (author_entry (Option.bind loaded (\<lambda>l. lr_of l (other_author a))))
      = Inr (Option.bind loaded (\<lambda>l. lr_of l (other_author a)))"
    and "precedence_ok (merged i a x (Option.bind loaded (\<lambda>l. lr_of l (other_author a))))"
  defines "l \<equiv> merged i a x (Option.bind loaded (\<lambda>l. lr_of l (other_author a)))"
  defines "row \<equiv> result_row_of i (author_entry (lr_runner l)) (author_entry (lr_participant l))"
  shows "load_row j q row = Inr l \<and> rr_effective row = lr_effective l \<and> rr_author row = lr_author l
     \<and> save_result a q i loaded k ao j
       = Inr (k, j\<lparr>jn_results := AList.update q row (jn_results j),
           jn_changes := jn_changes j @ [\<lparr>ch_event = k, ch_request = Some q, ch_effective = lr_effective l,
             ch_author = Some (lr_author l), ch_provisional = (lr_runner l = None),
             ch_changed = (map_option (\<lambda>l. (lr_author l, lr_effective l)) loaded
                             \<noteq> Some (lr_author l, lr_effective l)),
             ch_related = remdups (some_values [map_option as_id (lr_runner l),
                                                map_option as_id (lr_participant l)]),
             ch_observation = Some (a, ao)\<rparr>]\<rparr>)"
proof -
  have x: "as_id x = k" "as_observation x = ao" using decode_Some [OF assms(2)] by auto
  have entries: "author_entry (lr_runner l) = (if a = RunnerAuthor then Some (k, ao)
      else author_entry (Option.bind loaded lr_runner))"
    "author_entry (lr_participant l) = (if a = ParticipantAuthor then Some (k, ao)
      else author_entry (Option.bind loaded lr_participant))"
    using x by (cases a; auto simp: l_def merged_def Let_def author_entry_def)+
  have effective: "rr_effective row = lr_effective l" "rr_author row = lr_author l"
    by (cases a; auto simp: row_def result_row_of_def l_def merged_def Let_def author_entry_def preferred_def
        split: option.split)+
  have "load_row j q row = Inr l"
    using assms(1-4) x effective
    by (cases a) (auto simp: load_row_Inr row_def result_row_of_def l_def merged_def Let_def author_entry_def)
  then show ?thesis
    using effective unfolding save_result_def Let_def
    by (simp add: entries [symmetric] row_def [symmetric])
qed

section \<open>The change feed\<close>

text \<open>
  What a reader of the change feed knows: for every request the event and author of its
  considered result.
\<close>

definition considered_of :: "journal_change \<Rightarrow> (string \<times> author) option" where
  "considered_of c = map_option (\<lambda>a. (ch_effective c, a)) (ch_author c)"

definition follow_change :: "journal_change \<Rightarrow> (string \<Rightarrow> (string \<times> author) option) \<Rightarrow> string \<Rightarrow> (string \<times> author) option" where
  "follow_change c m = (case ch_request c of None \<Rightarrow> m | Some q \<Rightarrow> m(q := considered_of c))"

definition follow_changes :: "journal_change list \<Rightarrow> string \<Rightarrow> (string \<times> author) option" where
  "follow_changes cs = fold follow_change cs (\<lambda>q. None)"

lemma follow_changes_append: "follow_changes (cs @ [c]) = follow_change c (follow_changes cs)"
  by (simp add: follow_changes_def)

definition considered :: "journal \<Rightarrow> string \<Rightarrow> (string \<times> author) option" where
  "considered j q = map_option (\<lambda>row. (rr_effective row, rr_author row)) (map_of (jn_results j) q)"

section \<open>The invariant\<close>

definition row_events :: "result_row \<Rightarrow> string list" where
  "row_events row = map fst (some_values [rr_runner row, rr_participant row])"

definition change_ok :: "journal \<Rightarrow> journal_change \<Rightarrow> bool" where
  "change_ok j c \<longleftrightarrow> is_ok (decode_change j (0, c))"

definition journal_ok :: "journal \<Rightarrow> bool" where
  "journal_ok j \<longleftrightarrow> ids_distinct j \<and> distinct (keys (jn_results j))
     \<and> (\<forall>q row. map_of (jn_results j) q = Some row \<longrightarrow> is_ok (load_row j q row))
     \<and> (\<forall>e d. e \<in> set (jn_events j) \<longrightarrow> ev_data e = ResultEvent d \<longrightarrow>
          (\<exists>row. map_of (jn_results j) (ob_request d) = Some row \<and> ev_id e \<in> set (row_events row)))
     \<and> follow_changes (jn_changes j) = considered j
     \<and> list_all (change_ok j) (jn_changes j)"

lemma is_ok_load: "is_ok (load_row j q row) \<longleftrightarrow> (\<exists>l. load_row j q row = Inr l)"
  by (rule is_ok_iff)

lemma journal_rows: "journal_ok j \<Longrightarrow> map_of (jn_results j) q = Some row \<Longrightarrow> \<exists>l. load_row j q row = Inr l"
  unfolding journal_ok_def is_ok_load by blast

lemma journal_results: "journal_ok j \<Longrightarrow> e \<in> set (jn_events j) \<Longrightarrow> ev_data e = ResultEvent d \<Longrightarrow>
    \<exists>row. map_of (jn_results j) (ob_request d) = Some row \<and> ev_id e \<in> set (row_events row)"
  unfolding journal_ok_def by blast

lemma journal_load:
  assumes "journal_ok j"
  obtains loaded where "load_result j q = Inr loaded"
proof (cases "map_of (jn_results j) q")
  case None
  then show ?thesis using that by (simp add: load_result_def)
next
  case (Some row)
  then obtain l where "load_row j q row = Inr l" using journal_rows [OF assms] by blast
  then show ?thesis using Some that by (simp add: load_result_def)
qed

lemma row_events_of:
  "set (row_events row) = fst ` (set_option (rr_runner row) \<union> set_option (rr_participant row))"
  by (cases "rr_runner row"; cases "rr_participant row")
    (auto simp: row_events_def some_values_def List.map_filter_def)

lemma change_ok_tables [simp]:
  "change_ok (j\<lparr>jn_results := r\<rparr>) = change_ok j" "change_ok (j\<lparr>jn_changes := c\<rparr>) = change_ok j"
  by (simp_all add: change_ok_def fun_eq_iff)

lemma change_ok_old: "change_ok j c \<Longrightarrow> change_ok (j\<lparr>jn_events := jn_events j @ es\<rparr>) c"
  by (auto simp: change_ok_def is_ok_iff dest: decode_change_old)

lemma change_ok_rows: "change_ok j c \<Longrightarrow> \<exists>x. decode_change j (n, c) = Inr x"
  by (auto simp: change_ok_def is_ok_iff decode_change_def split: if_splits)

lemma change_ok_plain:
  assumes "event_with j i = Some e" "\<And>d. ev_data e \<noteq> ResultEvent d"
  shows "change_ok j (event_change i)"
  using assms
  by (cases "ev_data e")
    (auto simp: change_ok_def event_entry_with decode_change_def event_change_def change_shape_ok_def
      change_refers_def)

lemma owned_same: "owned_by q i c \<Longrightarrow> owned_by q i d \<Longrightarrow> same_owner c d"
  by (auto simp: owned_by_def same_owner_def request_identity_def owner_names_def list_all_iff)

lemma ex_author: "(\<exists>a. p a) \<longleftrightarrow> p RunnerAuthor \<or> p ParticipantAuthor"
  by (metis author.exhaust)

lemma entry_ids_of: "k \<in> set (entry_ids l) \<longleftrightarrow> (\<exists>a x. lr_of l a = Some x \<and> as_id x = k)"
  unfolding ex_author by (auto simp: entry_ids_def some_values_def List.map_filter_def lr_of_def split: if_splits)

lemma entry_ids_owned:
  assumes "load_row j q row = Inr l" "k \<in> set (entry_ids l)"
  obtains e d where "event_with j k = Some e" "ev_data e = ResultEvent d" "ob_request d = q"
    "owned_by q (lr_identity l) (ev_context e)"
proof -
  obtain a x where x: "lr_of l a = Some x" "as_id x = k"
    using assms(2) unfolding entry_ids_of by blast
  then have "decode_author j q (lr_identity l) (author_entry (lr_of l a)) = Inr (Some x)"
    using assms(1) by (cases a) (auto simp: load_row_Inr intro: decode_again)
  from decode_Some [OF this] show ?thesis using x(2) that by auto
qed

lemma effective_in: "precedence_ok l \<Longrightarrow> lr_effective l \<in> set (entry_ids l)"
  by (auto simp: precedence_ok_def Let_def entry_ids_def some_values_def List.map_filter_def preferred_def
      split: option.splits)

text \<open>A change that records what a loaded row says can be read.\<close>

lemma change_ok_result:
  assumes load: "load_row j q row = Inr l"
    and c: "is_text q" "k \<in> set (entry_ids l)" "owned_by q (lr_identity l) (ao_context ao)"
    and d: "c = \<lparr>ch_event = k, ch_request = Some q, ch_effective = lr_effective l,
      ch_author = Some (lr_author l), ch_provisional = (lr_runner l = None), ch_changed = b,
      ch_related = remdups (entry_ids l), ch_observation = Some (a, ao)\<rparr>"
  shows "change_ok j c"
proof -
  have prec: "precedence_ok l" using load by (simp add: load_row_Inr)
  obtain e where e: "event_with j (lr_effective l) = Some e" "owned_by q (lr_identity l) (ev_context e)"
    using entry_ids_owned [OF load effective_in [OF prec]] by metis
  have related: "related_ok j q e i" if at: "i \<in> set (entry_ids l)" for i
  proof -
    obtain f d where f: "event_with j i = Some f" "ev_data f = ResultEvent d" "ob_request d = q"
        "owned_by q (lr_identity l) (ev_context f)"
      using entry_ids_owned [OF load at] by blast
    then obtain n where "event_entry j i = Inr (n, f)" unfolding event_entry_with by blast
    then show ?thesis using f owned_same [OF f(4) e(2)] by (simp add: related_ok_def)
  qed
  obtain m n f where rows: "event_entry j (lr_effective l) = Inr (m, e)" "event_entry j k = Inr (n, f)"
    using e(1) entry_ids_owned [OF load c(2)] by (metis event_entry_with)
  have "entry_ids l \<noteq> []" using c(2) by auto
  moreover have "(lr_runner l = None) = (lr_author l = ParticipantAuthor)"
    using prec by (auto simp: precedence_ok_def Let_def preferred_def split: option.splits)
  moreover have "same_owner (ao_context ao) (ev_context e)" using c(3) e(2) owned_same by blast
  ultimately show ?thesis
    using c related rows effective_in [OF prec]
    by (simp add: change_ok_def decode_change_def change_shape_ok_def change_refers_def d list_all_iff)
qed

lemma append_event_ok:
  assumes "journal_ok j" "append_event st replay e j = Inr (u, j')" "\<And>d. ev_data e \<noteq> ResultEvent d"
  shows "journal_ok j'"
proof (cases "j' = j")
  case False
  then obtain j1 where ins: "insert_event e j = Some j1"
    and j': "j' = j1\<lparr>jn_changes := jn_changes j1 @ [event_change (ev_id e)]\<rparr>"
    using assms(2) by (auto simp: append_event_def split: option.splits if_splits)
  then have j1: "j1 = j\<lparr>jn_events := jn_events j @ [e]\<rparr>" by (simp add: insert_event_Some)
  have "is_ok (load_row j1 q row)" if "map_of (jn_results j) q = Some row" for q row
    using assms(1) that load_row_old [of j q row _ "[e]"] unfolding j1 journal_ok_def is_ok_load by blast
  moreover have "ids_distinct j1" using insert_distinct [OF ins] assms(1) by (simp add: journal_ok_def)
  moreover have "change_ok j1 c" if "c \<in> set (jn_changes j)" for c
    using assms(1) that by (simp add: journal_ok_def list_all_iff j1 change_ok_old)
  moreover have "change_ok j1 (event_change (ev_id e))"
    by (rule change_ok_plain [OF event_with_new [OF ins]]) (rule assms(3))
  ultimately show ?thesis
    using assms(1,3)
    by (auto simp: journal_ok_def j' j1 ids_distinct_def follow_changes_append follow_change_def
        event_change_def considered_def fun_eq_iff list_all_iff)
qed (use assms(1) in simp)

text \<open>Saving the row of an observation, the event of which has been inserted.\<close>

lemma saved_row_ok:
  assumes ok: "journal_ok j0"
    and j: "jn_results j = jn_results j0" "jn_changes j = jn_changes j0" "ids_distinct j"
    and rows: "\<And>p row l. load_row j0 p row = Inr l \<Longrightarrow> load_row j p row = Inr l"
    and load: "load_row j q row = Inr l" "rr_effective row = lr_effective l" "rr_author row = lr_author l"
    and kept: "\<And>r. map_of (jn_results j0) q = Some r \<Longrightarrow> set (row_events r) \<subseteq> set (row_events row)"
    and new: "\<And>e d. e \<in> set (jn_events j) - set (jn_events j0) \<Longrightarrow> ev_data e = ResultEvent d
      \<Longrightarrow> ob_request d = q \<and> ev_id e \<in> set (row_events row)"
    and c: "ch_request c = Some q" "ch_effective c = lr_effective l" "ch_author c = Some (lr_author l)"
      "change_ok j c"
    and changes: "\<And>c. change_ok j0 c \<Longrightarrow> change_ok j c"
  shows "journal_ok (j\<lparr>jn_results := AList.update q row (jn_results j), jn_changes := jn_changes j @ [c]\<rparr>)"
    (is "journal_ok ?j")
proof -
  have loads: "is_ok (load_row ?j p r)" if "map_of (jn_results ?j) p = Some r" for p r
  proof (cases "p = q")
    case True
    then show ?thesis using that load(1) by (simp add: is_ok_load)
  next
    case False
    then have "map_of (jn_results j0) p = Some r" using that j(1) by simp
    then obtain l where "load_row j0 p r = Inr l" using journal_rows [OF ok] by blast
    then show ?thesis using rows by (simp add: is_ok_load)
  qed
  have events: "\<exists>r. map_of (jn_results ?j) (ob_request d) = Some r \<and> ev_id e \<in> set (row_events r)"
    if at: "e \<in> set (jn_events ?j)" "ev_data e = ResultEvent d" for e d
  proof (cases "e \<in> set (jn_events j0)")
    case True
    then obtain r where "map_of (jn_results j0) (ob_request d) = Some r" "ev_id e \<in> set (row_events r)"
      using journal_results [OF ok True at(2)] by blast
    then show ?thesis using kept j(1) by auto
  next
    case False
    then show ?thesis using new [of e d] at by simp
  qed
  have "follow_changes (jn_changes ?j) = considered ?j"
    using ok j c load
    by (auto simp: journal_ok_def follow_changes_append follow_change_def considered_of_def considered_def fun_eq_iff)
  moreover have "list_all (change_ok ?j) (jn_changes ?j)"
    using ok j(2) c(4) changes by (simp add: journal_ok_def list_all_iff)
  moreover have "distinct (keys (jn_results ?j))" "ids_distinct ?j"
    using ok j by (simp_all add: journal_ok_def ids_distinct_def)
  ultimately show ?thesis using loads events unfolding journal_ok_def by blast
qed

section \<open>Reconciling observations\<close>

definition keys_of :: "loaded_result option \<Rightarrow> author \<Rightarrow> (result_outcome \<times> json) option" where
  "keys_of loaded a = map_option (\<lambda>x. response_key (as_result x)) (Option.bind loaded (\<lambda>l. lr_of l a))"

text \<open>What the guards of \<^verbatim>\<open>append_command_result\<close> establish.\<close>

definition reportable :: "journal_event \<Rightarrow> command_observation \<Rightarrow> bool" where
  "reportable e d \<longleftrightarrow> is_text (ob_request d) \<and> ev_data e = ResultEvent d \<and> ob_ignored d = None \<and> ob_supersedes d = []
     \<and> identity_ok (request_identity (ev_context e))
     \<and> dict_get (ev_context e) ''request_id'' JNull = JStr (ob_request d)"

lemma reportable_owned:
  "reportable e d \<Longrightarrow> owned_by (ob_request d) (request_identity (ev_context e)) (ev_context e)
     \<and> owned_by (ob_request d) (request_identity (ev_context e)) (ao_context (observe e))"
  by (simp add: reportable_def owned_by_def observe_def)

lemma decode_inserted:
  assumes "event_with j (ev_id e) = Some e'" "ev_data e' = ResultEvent d'" "ob_request d' = ob_request d"
    "ev_context e' = ev_context e" "reportable e d"
  shows "decode_author j (ob_request d) (request_identity (ev_context e)) (Some (ev_id e, observe e))
    = Inr (Some \<lparr>as_id = ev_id e, as_event = e', as_observation = observe e, as_result = d'\<rparr>)"
  using assms reportable_owned [OF assms(5)] by (simp add: decode_author_def)

lemma load_result_old:
  assumes "journal_ok j" "jn_events j' = jn_events j @ es" "map_of (jn_results j') p = map_of (jn_results j) p"
  shows "load_result j' p = load_result j p"
proof (cases "map_of (jn_results j) p")
  case (Some row)
  then obtain l where l: "load_row j p row = Inr l" using journal_rows [OF assms(1)] by blast
  have "load_row j' p row = load_row (j\<lparr>jn_events := jn_events j @ es\<rparr>) p row"
    using assms(2) by (simp add: load_row_def decode_author_def event_with_def cong: option.case_cong)
  then show ?thesis
    using Some l load_row_old [OF l, of es] assms(3) by (simp add: load_result_def)
qed (use assms(3) in \<open>simp add: load_result_def\<close>)


text \<open>The state of the author whose observation is not being saved.\<close>

abbreviation counterpart :: "loaded_result option \<Rightarrow> author \<Rightarrow> author_state option" where
  "counterpart loaded a \<equiv> Option.bind loaded (\<lambda>l. lr_of l (other_author a))"

lemma loaded_row:
  assumes "load_result j q = Inr (Some l)"
  obtains row where "map_of (jn_results j) q = Some row" "load_row j q row = Inr l"
  using assms by (auto simp: load_result_Inr split: option.splits)

lemma counterpart_decodes:
  assumes "load_result j0 q = Inr loaded" "optional (\<lambda>l. lr_identity l = i) loaded"
  shows "decode_author (j0\<lparr>jn_events := jn_events j0 @ es\<rparr>) q i (author_entry (counterpart loaded a))
    = Inr (counterpart loaded a)"
proof (cases loaded)
  case None
  then show ?thesis by (simp add: author_entry_def decode_None)
next
  case (Some l)
  then obtain row where "load_row j0 q row = Inr l" using assms(1) loaded_row by metis
  then have "load_row (j0\<lparr>jn_events := jn_events j0 @ es\<rparr>) q row = Inr l" by (rule load_row_old)
  moreover have "lr_identity l = i" using assms(2) Some by (simp add: optional_def)
  ultimately show ?thesis
    using Some by (cases a) (auto simp: load_row_Inr intro: decode_again)
qed

lemma row_grows:
  assumes "load_row j0 q r = Inr l" "lr_of l a = None" "y = lr_of l (other_author a)"
  shows "set (row_events r) \<subseteq>
    set (row_events (result_row_of i (author_entry (lr_runner (merged i a x y)))
                                   (author_entry (lr_participant (merged i a x y)))))"
proof -
  have "rr_runner r = author_entry (lr_runner l)" "rr_participant r = author_entry (lr_participant l)"
    using assms(1) by (auto simp: load_row_Inr dest: decode_entry)
  then show ?thesis
    using assms(2,3) unfolding row_events_of
    by (cases a) (auto simp: result_row_of_def author_entry_def merged_def Let_def)
qed

lemma row_new:
  "as_id x \<in> set (row_events (result_row_of i (author_entry (lr_runner (merged i a x y)))
                                             (author_entry (lr_participant (merged i a x y)))))"
  unfolding row_events_of by (cases a) (auto simp: result_row_of_def author_entry_def merged_def Let_def)

lemma save_result_ok:
  assumes ok: "journal_ok j0" and dist: "ids_distinct (j0\<lparr>jn_events := jn_events j0 @ es\<rparr>)"
    and loaded: "load_result j0 q = Inr loaded" "optional (\<lambda>l. lr_identity l = i) loaded"
      "Option.bind loaded (\<lambda>l. lr_of l a) = None" "identity_ok i"
    and named: "is_text q"
    and x: "decode_author (j0\<lparr>jn_events := jn_events j0 @ es\<rparr>) q i (Some (k, ao)) = Inr (Some x)"
    and prec: "precedence_ok (merged i a x (counterpart loaded a))"
    and es: "\<And>e d. e \<in> set es \<Longrightarrow> ev_data e = ResultEvent d \<Longrightarrow> ob_request d = q \<and> ev_id e = k"
  shows "\<exists>j'. save_result a q i loaded k ao (j0\<lparr>jn_events := jn_events j0 @ es\<rparr>) = Inr (k, j') \<and> journal_ok j'
    \<and> load_result j' q = Inr (Some (merged i a x (counterpart loaded a)))
    \<and> (\<forall>p. p \<noteq> q \<longrightarrow> load_result j' p = load_result j0 p)"
proof -
  define j l where "j = j0\<lparr>jn_events := jn_events j0 @ es\<rparr>" and "l = merged i a x (counterpart loaded a)"
  define row where "row = result_row_of i (author_entry (lr_runner l)) (author_entry (lr_participant l))"
  have k: "as_id x = k" "event_with j k = Some (as_event x)" using decode_Some [OF x] by (auto simp: j_def)
  define c where "c = \<lparr>ch_event = k, ch_request = Some q, ch_effective = lr_effective l,
      ch_author = Some (lr_author l), ch_provisional = (lr_runner l = None),
      ch_changed = (map_option (\<lambda>l. (lr_author l, lr_effective l)) loaded
                      \<noteq> Some (lr_author l, lr_effective l)),
      ch_related = remdups (entry_ids l), ch_observation = Some (a, ao)\<rparr>"
  note saved = save_result_run [OF loaded(4) x counterpart_decodes [OF loaded(1,2)] prec,
      folded j_def l_def, folded row_def entry_ids_def, folded c_def]
  have c: "ch_request c = Some q" "ch_effective c = lr_effective l" "ch_author c = Some (lr_author l)"
      "ch_event c = k"
    by (simp_all add: c_def)
  let ?j = "j\<lparr>jn_results := AList.update q row (jn_results j), jn_changes := jn_changes j @ [c]\<rparr>"
  have run: "save_result a q i loaded k ao j = Inr (k, ?j)"
    and load: "load_row j q row = Inr l" "rr_effective row = lr_effective l" "rr_author row = lr_author l"
    using saved by blast+
  have "journal_ok ?j"
  proof (rule saved_row_ok [OF ok])
    show "set (row_events r) \<subseteq> set (row_events row)" if at: "map_of (jn_results j0) q = Some r" for r
    proof -
      obtain m where m: "load_row j0 q r = Inr m" using journal_rows [OF ok at] by blast
      then have "loaded = Some m" using loaded(1) at by (simp add: load_result_def)
      then show ?thesis
        unfolding row_def l_def using loaded(3) by (auto intro: row_grows [OF m, THEN subsetD])
    qed
    show "ob_request d = q \<and> ev_id e \<in> set (row_events row)"
      if "e \<in> set (jn_events j) - set (jn_events j0)" "ev_data e = ResultEvent d" for e d
      using that es [of e d] row_new [of x] k(1) by (auto simp: j_def row_def l_def)
    show "change_ok j b" if "change_ok j0 b" for b
      using change_ok_old [OF that] by (simp add: j_def)
    show "change_ok j c"
    proof (rule change_ok_result [OF load(1) named _ _ c_def])
      show "k \<in> set (entry_ids l)" unfolding entry_ids_of l_def using k(1) merged_of(1) by blast
      show "owned_by q (lr_identity l) (ao_context ao)"
        using decode_Some [OF x] by (simp add: l_def merged_def Let_def)
    qed
    show "load_row j p r = Inr m" if "load_row j0 p r = Inr m" for p r m
      using load_row_old [OF that] by (simp add: j_def)
  qed (use load c dist k in \<open>simp_all add: j_def\<close>)
  moreover have "load_result ?j q = Inr (Some l)" using load(1) by (simp add: load_result_def)
  moreover have "load_result ?j p = load_result j0 p" if "p \<noteq> q" for p
    by (rule load_result_old [OF ok, where es = es]) (use that in \<open>simp_all add: j_def\<close>)
  ultimately show ?thesis using run unfolding j_def l_def by blast
qed

text \<open>
  The first observation of an author: it is stored, and the other author's is kept; a refusal
  comes from the limit on an event's text or from an event already in the journal.
\<close>

definition stored :: "journal_event \<Rightarrow> command_observation \<Rightarrow> loaded_result option \<Rightarrow> journal \<Rightarrow> journal \<Rightarrow> bool" where
  "stored e d loaded j j' \<longleftrightarrow> journal_ok j'
     \<and> (\<exists>x. response_key (as_result x) = response_key d
          \<and> load_result j' (ob_request d)
              = Inr (Some (merged (request_identity (ev_context e)) (ob_author d) x
                                  (counterpart loaded (ob_author d)))))
     \<and> (\<forall>p. p \<noteq> ob_request d \<longrightarrow> load_result j' p = load_result j p)"

definition with_mark :: "journal_event \<Rightarrow> command_observation \<Rightarrow> loaded_result option \<Rightarrow> journal_event" where
  "with_mark e d loaded = e\<lparr>ev_data := ResultEvent (mark_superseded d (counterpart loaded (ob_author d)))\<rparr>"

lemma marked_simps [simp]:
  "ev_id (with_mark e d loaded) = ev_id e" "ev_context (with_mark e d loaded) = ev_context e"
  "ev_data (with_mark e d loaded) = ResultEvent (mark_superseded d (counterpart loaded (ob_author d)))"
  by (simp_all add: with_mark_def)

lemma unmarked: "ev_data e = ResultEvent d \<Longrightarrow> counterpart loaded (ob_author d) = None \<Longrightarrow> with_mark e d loaded = e"
  by (simp add: with_mark_def)

lemma counterpart_owned:
  assumes "load_result j q = Inr loaded" "optional (\<lambda>l. lr_identity l = i) loaded" "counterpart loaded a = Some y"
  shows "decode_author j q i (Some (as_id y, ao)) = (if owned_by q i (ao_context ao) then
    Inr (Some \<lparr>as_id = as_id y, as_event = as_event y, as_observation = ao, as_result = as_result y\<rparr>)
    else Inl LoggingStorageError)"
proof -
  have "decode_author j q i (author_entry (Some y)) = Inr (Some y)"
    using counterpart_decodes [OF assms(1,2), of "[]" a] assms(3) by simp
  then show ?thesis using decode_Some [of j q i _ y] by (auto simp: decode_author_def)
qed

lemma counterpart_alone:
  assumes "load_result j q = Inr loaded" "Option.bind loaded (\<lambda>l. lr_of l a) = None" "counterpart loaded a = Some y"
  shows "ob_ignored (as_result y) = None" "ob_supersedes (as_result y) = []" "ob_author (as_result y) = other_author a"
proof -
  obtain l where l: "loaded = Some l" "lr_of l a = None" "lr_of l (other_author a) = Some y"
    using assms(2,3) by (cases loaded) auto
  then have "precedence_ok l" using assms(1) by (auto simp: load_row_Inr elim: loaded_row)
  from precedence_single [OF this l(2,3)]
  show "ob_ignored (as_result y) = None" "ob_supersedes (as_result y) = []"
    "ob_author (as_result y) = other_author a" by blast+
qed

lemma event_with_in: "e \<in> set (jn_events j) \<Longrightarrow> event_with j (ev_id e) \<noteq> None"
  by (auto simp: event_with_def find_None_iff)

text \<open>An observation that agrees with its counterpart is stored without an event.\<close>

lemma store_shared:
  assumes ok: "journal_ok j" "reportable e d"
    and loaded: "load_result j (ob_request d) = Inr loaded"
      "optional (\<lambda>l. lr_identity l = request_identity (ev_context e)) loaded"
      "Option.bind loaded (\<lambda>l. lr_of l (ob_author d)) = None"
    and y: "counterpart loaded (ob_author d) = Some y" "response_key d = response_key (as_result y)"
  shows "\<exists>j'. save_result (ob_author d) (ob_request d) (request_identity (ev_context e)) loaded (as_id y) (observe e) j
    = Inr (as_id y, j') \<and> stored e d loaded j j'"
proof -
  let ?q = "ob_request d" and ?i = "request_identity (ev_context e)" and ?a = "ob_author d"
  let ?x = "\<lparr>as_id = as_id y, as_event = as_event y, as_observation = observe e, as_result = as_result y\<rparr>"
  have same: "j\<lparr>jn_events := jn_events j @ []\<rparr> = j" by simp
  have "decode_author j ?q ?i (Some (as_id y, observe e)) = Inr (Some ?x)"
    using counterpart_owned [OF loaded(1,2) y(1)] reportable_owned [OF ok(2)] by simp
  note decoded = this
  have prec: "precedence_ok (merged ?i ?a ?x (counterpart loaded ?a))"
    unfolding y(1) by (rule merged_shared) (use counterpart_alone [OF loaded(1,3) y(1)] in simp_all)
  have facts: "ids_distinct j" "identity_ok ?i" "is_text ?q" using ok by (simp_all add: journal_ok_def reportable_def)
  obtain j' where j': "save_result ?a ?q ?i loaded (as_id y) (observe e) j = Inr (as_id y, j')" "journal_ok j'"
      "load_result j' ?q = Inr (Some (merged ?i ?a ?x (counterpart loaded ?a)))"
      "\<forall>p. p \<noteq> ?q \<longrightarrow> load_result j' p = load_result j p"
    using save_result_ok [OF ok(1), where es = "[]", unfolded same, OF facts(1) loaded facts(2,3) decoded prec]
    by auto
  have "stored e d loaded j j'"
    unfolding stored_def using j'(2-) y(2) by (intro conjI exI [of _ ?x]) simp_all
  then show ?thesis using j'(1) by blast
qed

text \<open>Any other observation is stored with its event, marked when the other author differs.\<close>

lemma store_inserted:
  assumes ok: "journal_ok j" "reportable e d"
    and loaded: "load_result j (ob_request d) = Inr loaded"
      "optional (\<lambda>l. lr_identity l = request_identity (ev_context e)) loaded"
      "Option.bind loaded (\<lambda>l. lr_of l (ob_author d)) = None"
    and differs: "\<And>y. counterpart loaded (ob_author d) = Some y \<Longrightarrow> response_key d \<noteq> response_key (as_result y)"
    and ins: "insert_event (with_mark e d loaded) j = Some j1"
  shows "\<exists>j'. save_result (ob_author d) (ob_request d) (request_identity (ev_context e)) loaded (ev_id e) (observe e) j1
    = Inr (ev_id e, j') \<and> stored e d loaded j j'"
proof -
  let ?q = "ob_request d" and ?i = "request_identity (ev_context e)" and ?a = "ob_author d"
  let ?e = "with_mark e d loaded" and ?d = "mark_superseded d (counterpart loaded (ob_author d))"
  let ?x = "\<lparr>as_id = ev_id e, as_event = ?e, as_observation = observe e, as_result = ?d\<rparr>"
  have j1: "j1 = j\<lparr>jn_events := jn_events j @ [?e]\<rparr>" using ins by (simp add: insert_event_Some)
  have dist: "ids_distinct j1" using insert_distinct [OF ins] ok(1) by (simp add: journal_ok_def)
  have x: "decode_author j1 ?q ?i (Some (ev_id e, observe e)) = Inr (Some ?x)"
    using decode_inserted [of j1 e ?e ?d d] event_with_new [OF ins] ok(2) by simp
  have prec: "precedence_ok (merged ?i ?a ?x (counterpart loaded ?a))"
  proof (cases "counterpart loaded ?a")
    case None
    then show ?thesis using ok(2) by (simp add: merged_first reportable_def)
  next
    case (Some y)
    then have "event_with j (as_id y) \<noteq> None"
      using counterpart_decodes [OF loaded(1,2), of "[]" ?a] by (auto dest!: decode_Some)
    then have "ev_id e \<noteq> as_id y"
      using ins by (auto simp: insert_event_Some dest: event_with_id)
    then show ?thesis
      unfolding Some using counterpart_alone [OF loaded(1,3) Some] differs [OF Some] ok(2)
      by (intro merged_marked) (auto simp: reportable_def Some)
  qed
  have i: "identity_ok ?i" "is_text ?q" using ok by (simp_all add: reportable_def)
  have new: "ob_request b = ?q \<and> ev_id f = ev_id e" if "f \<in> set [?e]" "ev_data f = ResultEvent b" for f b
    using that by auto
  obtain j' where j': "save_result ?a ?q ?i loaded (ev_id e) (observe e) j1 = Inr (ev_id e, j')" "journal_ok j'"
      "load_result j' ?q = Inr (Some (merged ?i ?a ?x (counterpart loaded ?a)))"
      "\<forall>p. p \<noteq> ?q \<longrightarrow> load_result j' p = load_result j p"
    using save_result_ok [OF ok(1), where es = "[?e]", folded j1, OF dist loaded i x prec new] by blast
  have "stored e d loaded j j'"
    unfolding stored_def using j'(2-) by (intro conjI exI [of _ ?x]) simp_all
  then show ?thesis using j'(1) by blast
qed

lemma reconcile_new:
  assumes ok: "journal_ok j" "reportable e d"
    and loaded: "load_result j (ob_request d) = Inr loaded"
      "optional (\<lambda>l. lr_identity l = request_identity (ev_context e)) loaded"
      "Option.bind loaded (\<lambda>l. lr_of l (ob_author d)) = None"
  shows "(\<exists>k j'. reconcile st e d j = Inr (k, j') \<and> stored e d loaded j j')
    \<or> reconcile st e d j = Inl (Rejected ValueError) \<and> counterpart loaded (ob_author d) \<noteq> None
        \<and> \<not> encodable st (with_mark e d loaded)
    \<or> reconcile st e d j = Inl (Broken LoggingStorageError) \<and> insert_event (with_mark e d loaded) j = None"
proof (cases "counterpart loaded (ob_author d)")
  case None
  then have "with_mark e d loaded = e" using ok(2) by (simp add: unmarked reportable_def)
  then show ?thesis
    using loaded None store_inserted [OF ok loaded]
    by (cases "insert_event e j") (auto simp: reconcile_def Let_def)
next
  case (Some y)
  have run: "reconcile st e d j = (if response_key d = response_key (as_result y)
      then save_result (ob_author d) (ob_request d) (request_identity (ev_context e)) loaded (as_id y) (observe e) j
      else if \<not> encodable st (with_mark e d loaded) then Inl (Rejected ValueError)
      else case insert_event (with_mark e d loaded) j of
             None \<Rightarrow> Inl (Broken LoggingStorageError)
           | Some j \<Rightarrow> save_result (ob_author d) (ob_request d) (request_identity (ev_context e)) loaded
               (ev_id e) (observe e) j)"
    using loaded Some by (simp add: reconcile_def with_mark_def Let_def)
  show ?thesis
  proof (cases "response_key d = response_key (as_result y)")
    case True
    then show ?thesis using run store_shared [OF ok loaded Some] by auto
  next
    case False
    then show ?thesis
      using run Some store_inserted [OF ok loaded] by (cases "insert_event (with_mark e d loaded) j") auto
  qed
qed

end
