(* ===== verification/Journal_Register.thy ===== *)
theory Journal_Register
  imports Journal_Invariants "HOL-Library.Sublist"
begin

text \<open>
  What the journal promises of command results: for every request the identity of its owner and,
  per author, the first outcome and response that author reported. Storing an observation
  implements a report to that register, and the register as an interface: reports are kept, and a
  considered result only ever changes from the participant's to the runner's.
\<close>

section \<open>The abstract register\<close>

type_synonym outcome_key = "result_outcome \<times> json"

type_synonym result_register = "string \<Rightarrow> (json list \<times> (author \<Rightarrow> outcome_key option)) option"

definition report_to ::
    "string \<Rightarrow> json list \<Rightarrow> author \<Rightarrow> outcome_key \<Rightarrow> result_register \<Rightarrow> result_register option" where
  "report_to q i a k R =
     (case R q of
        None \<Rightarrow> Some (R(q \<mapsto> (i, (\<lambda>b. None)(a \<mapsto> k))))
      | Some (i', known) \<Rightarrow>
          if i' \<noteq> i then None
          else case known a of
                 None \<Rightarrow> Some (R(q \<mapsto> (i, known(a \<mapsto> k))))
               | Some k' \<Rightarrow> if k' = k then Some R else None)"

definition reported :: "result_register \<Rightarrow> string \<Rightarrow> author \<Rightarrow> outcome_key option" where
  "reported R q a = Option.bind (R q) (\<lambda>(i, known). known a)"

text \<open>The considered result: the runner's, if any, otherwise the participant's.\<close>

definition register_considered :: "result_register \<Rightarrow> string \<Rightarrow> outcome_key option" where
  "register_considered R q =
     (case reported R q RunnerAuthor of None \<Rightarrow> reported R q ParticipantAuthor | Some k \<Rightarrow> Some k)"

definition register_of :: "journal \<Rightarrow> result_register" where
  "register_of j q =
     (case load_result j q of
        Inr (Some l) \<Rightarrow> Some (lr_identity l, \<lambda>a. map_option (\<lambda>x. response_key (as_result x)) (lr_of l a))
      | _ \<Rightarrow> None)"

lemma author_neq: "b \<noteq> a \<longleftrightarrow> b = other_author a"
  by (cases a; cases b; simp)

lemma merged_identity [simp]: "lr_identity (merged i a x y) = i"
  by (simp add: merged_def Let_def)

lemma register_stored:
  assumes "load_result j (ob_request d) = Inr loaded"
    "optional (\<lambda>l. lr_identity l = request_identity (ev_context e)) loaded"
    "Option.bind loaded (\<lambda>l. lr_of l (ob_author d)) = None" "stored e d loaded j j'"
  shows "report_to (ob_request d) (request_identity (ev_context e)) (ob_author d) (response_key d) (register_of j)
    = Some (register_of j')"
proof -
  let ?q = "ob_request d" and ?i = "request_identity (ev_context e)" and ?a = "ob_author d"
  obtain x where x: "response_key (as_result x) = response_key d"
      "load_result j' ?q = Inr (Some (merged ?i ?a x (counterpart loaded ?a)))"
    and others: "\<And>p. p \<noteq> ?q \<Longrightarrow> load_result j' p = load_result j p"
    using assms(4) by (auto simp: stored_def)
  let ?known = "\<lambda>b. map_option (\<lambda>x. response_key (as_result x)) (Option.bind loaded (\<lambda>l. lr_of l b))"
  have "register_of j' ?q = Some (?i, ?known(?a \<mapsto> response_key d))"
    using x by (auto simp: register_of_def fun_eq_iff author_neq)
  then have new: "register_of j' = (register_of j)(?q \<mapsto> (?i, ?known(?a \<mapsto> response_key d)))"
    using others by (auto simp: register_of_def fun_eq_iff)
  show ?thesis
    using assms(1-3) unfolding new by (cases loaded) (simp_all add: report_to_def register_of_def)
qed

section \<open>Reports to the store\<close>

text \<open>What the guards of \<^verbatim>\<open>append_command_result\<close> let through.\<close>

definition acceptable :: "store_settings \<Rightarrow> journal_event \<Rightarrow> command_observation \<Rightarrow> bool" where
  "acceptable st e d \<longleftrightarrow> encodable st e \<and> ev_data e = ResultEvent d \<and> observation_ok d
     \<and> ob_ignored d = None \<and> ob_supersedes d = []
     \<and> text_json (dict_get (ev_context e) ''experiment_id'' JNull)
     \<and> text_json (dict_get (ev_context e) ''participant_id'' JNull)
     \<and> dict_get (ev_context e) ''request_id'' JNull = JStr (ob_request d)"

lemma append_command_result_eq:
  "append_command_result st e s =
     (case ev_data e of
        PlainEvent t d \<Rightarrow> (Inl ValueError, s)
      | ResultEvent d \<Rightarrow>
          if \<not> acceptable st e d then (Inl ValueError, s)
          else if \<not> writable s then (Inl LoggingStateError, s)
          else finish_write s (reconcile st e d (jo_journal s)))"
  by (auto simp: append_command_result_def acceptable_def split: event_data.split)

lemma context_instance:
  assumes "list_all context_item_ok c"
  shows "dict_get c ''participant_instance_id'' JNull = JNull
    \<or> text_json (dict_get c ''participant_instance_id'' JNull)"
proof (cases "map_of c ''participant_instance_id''")
  case (Some v)
  then have "context_item_ok (''participant_instance_id'', v)"
    using assms by (auto simp: list_all_iff dest: map_of_SomeD)
  then show ?thesis
    using Some
    by (auto simp: dict_get_def context_item_ok_def context_text_fields_def text_json_def split: json.splits)
qed (simp add: dict_get_def)

lemma acceptable_reportable: "acceptable st e d \<Longrightarrow> reportable e d"
  using context_instance [of "ev_context e"]
  by (auto simp: acceptable_def reportable_def observation_ok_def identity_ok_def request_identity_def
      identity_names_def encodable_def context_ok_def)

lemma report_new:
  assumes "load_result j (ob_request d) = Inr loaded"
    "optional (\<lambda>l. lr_identity l = i) loaded" "Option.bind loaded (\<lambda>l. lr_of l a) = None"
  shows "report_to (ob_request d) i a k (register_of j) \<noteq> None"
  using assms by (cases loaded) (simp_all add: report_to_def register_of_def)

definition used_event :: "journal \<Rightarrow> journal_event \<Rightarrow> bool" where
  "used_event j e \<longleftrightarrow> (\<exists>f \<in> set (jn_events j).
     ev_id f = ev_id e \<or> ev_producer f = ev_producer e \<and> ev_sequence f = ev_sequence e)"

lemma insert_used: "insert_event (with_mark e d loaded) j = None \<longleftrightarrow> used_event j e"
  by (auto simp: insert_event_def used_event_def list_ex_iff with_mark_def)

text \<open>How a report ends, and what it does to the register.\<close>

lemma reconcile_register:
  assumes ok: "journal_ok j" "reportable e d"
  defines "R \<equiv> report_to (ob_request d) (request_identity (ev_context e)) (ob_author d) (response_key d) (register_of j)"
  shows "(\<exists>k j'. reconcile st e d j = Inr (k, j') \<and> journal_ok j' \<and> R = Some (register_of j'))
    \<or> reconcile st e d j = Inl (Rejected ValueError)
        \<and> (R = None \<or> (\<exists>loaded. \<not> encodable st (with_mark e d loaded)))
    \<or> reconcile st e d j = Inl (Broken LoggingStorageError) \<and> R \<noteq> None \<and> used_event j e"
proof -
  obtain loaded where loaded: "load_result j (ob_request d) = Inr loaded" using journal_load [OF ok(1)] .
  consider (foreign) "\<not> optional (\<lambda>l. lr_identity l = request_identity (ev_context e)) loaded"
    | (known) own where "optional (\<lambda>l. lr_identity l = request_identity (ev_context e)) loaded"
        "Option.bind loaded (\<lambda>l. lr_of l (ob_author d)) = Some own"
    | (new) "optional (\<lambda>l. lr_identity l = request_identity (ev_context e)) loaded"
        "Option.bind loaded (\<lambda>l. lr_of l (ob_author d)) = None"
    by (cases "Option.bind loaded (\<lambda>l. lr_of l (ob_author d))") auto
  then show ?thesis
  proof cases
    case foreign
    then show ?thesis
      using loaded by (cases loaded) (auto simp: reconcile_def R_def report_to_def register_of_def)
  next
    case known
    then show ?thesis
      using loaded ok(1)
      by (cases loaded) (auto simp: reconcile_def R_def report_to_def register_of_def)
  next
    case new
    then show ?thesis
      using reconcile_new [OF ok loaded, of st] register_stored [OF loaded] report_new [OF loaded new]
      unfolding R_def insert_used by (metis stored_def)
  qed
qed

section \<open>The store\<close>

datatype journal_call =
    AppendEvent bool journal_event
  | AppendResult journal_event
  | ReadEvents json int string
  | ReadBatch "string list option" int "int option"
  | ReadChanges json int
  | ReadResult string

fun journal_step :: "store_settings \<Rightarrow> journal_call \<Rightarrow> journal_store \<Rightarrow> journal_store" where
  "journal_step st (AppendEvent replay e) s = snd (append_store st replay e s)"
| "journal_step st (AppendResult e) s = snd (append_command_result st e s)"
| "journal_step st (ReadEvents cp limit view) s = snd (read_events st cp limit view s)"
| "journal_step st (ReadBatch ids limit before) s = snd (read_event_batch st ids limit before s)"
| "journal_step st (ReadChanges cp limit) s = snd (read_changes st cp limit s)"
| "journal_step st (ReadResult q) s = snd (read_command_result q s)"

definition new_store :: "string \<Rightarrow> string \<Rightarrow> journal_store" where
  "new_store i g =
     \<lparr>jo_journal = \<lparr>jn_id = i, jn_generation = g, jn_events = [], jn_results = [], jn_changes = []\<rparr>,
      jo_open = True, jo_read_only = False, jo_failed = False\<rparr>"

text \<open>Journal identities are UUIDs in hexadecimal.\<close>

definition hex_id :: "string \<Rightarrow> bool" where
  "hex_id s \<longleftrightarrow> (\<exists>n < uuid_limit. s = to_hex 32 n)"

text \<open>The stores after any sequence of calls on a new journal.\<close>

inductive journal_reached :: "store_settings \<Rightarrow> journal_store \<Rightarrow> bool" for st where
  new: "hex_id i \<Longrightarrow> hex_id g \<Longrightarrow> journal_reached st (new_store i g)"
| call: "journal_reached st s \<Longrightarrow> journal_reached st (journal_step st c s)"

lemma append_store_journal:
  "journal_ok (jo_journal s) \<Longrightarrow> journal_ok (jo_journal (snd (append_store st replay e s)))"
  by (auto simp: append_store_def finish_write_def append_event_ok split: event_data.split sum.split abort.split)

lemma append_result_journal:
  assumes "journal_ok (jo_journal s)"
  shows "journal_ok (jo_journal (snd (append_command_result st e s)))"
proof (cases "ev_data e")
  case (ResultEvent d)
  show ?thesis
  proof (cases "acceptable st e d \<and> writable s")
    case True
    then have "reportable e d" using acceptable_reportable by blast
    from reconcile_register [OF assms this, of st] show ?thesis
      using ResultEvent True assms by (auto simp: append_command_result_eq finish_write_def)
  qed (use ResultEvent assms in \<open>auto simp: append_command_result_eq\<close>)
qed (use assms in \<open>simp add: append_command_result_eq\<close>)

lemma end_read_journal [simp]: "jo_journal (snd (end_read s r)) = jo_journal s"
  by (simp add: end_read_def split: sum.split abort.split)

lemma read_journal [simp]:
  "jo_journal (snd (read_events st cp limit view s)) = jo_journal s"
  "jo_journal (snd (read_event_batch st ids limit before s)) = jo_journal s"
  "jo_journal (snd (read_changes st cp limit s)) = jo_journal s"
  "jo_journal (snd (read_command_result q s)) = jo_journal s"
  by (simp_all add: read_events_def read_event_batch_def read_changes_def read_command_result_def split: sum.split)

lemma journal_step_ok: "journal_ok (jo_journal s) \<Longrightarrow> journal_ok (jo_journal (journal_step st c s))"
  by (cases c) (simp_all add: append_store_journal append_result_journal)

lemma new_store_ok: "journal_ok (jo_journal (new_store i g))"
  by (simp add: journal_ok_def new_store_def ids_distinct_def follow_changes_def considered_def fun_eq_iff)

lemma reached_ok: "journal_reached st s \<Longrightarrow> journal_ok (jo_journal s)"
  by (induction rule: journal_reached.induct) (simp_all add: new_store_ok journal_step_ok)

text \<open>A call keeps the journal's identity and adds to its tables.\<close>

definition journal_grows :: "journal_store \<Rightarrow> journal_store \<Rightarrow> bool" where
  "journal_grows s t \<longleftrightarrow> jn_id (jo_journal t) = jn_id (jo_journal s)
     \<and> jn_generation (jo_journal t) = jn_generation (jo_journal s) \<and> jo_open t = jo_open s
     \<and> prefix (jn_events (jo_journal s)) (jn_events (jo_journal t))
     \<and> prefix (jn_changes (jo_journal s)) (jn_changes (jo_journal t))"

lemma grows_refl [simp]: "journal_grows s s"
  by (simp add: journal_grows_def)

lemma grows_trans: "journal_grows s t \<Longrightarrow> journal_grows t u \<Longrightarrow> journal_grows s u"
  by (auto simp: journal_grows_def intro: prefix_order.trans)

lemma grows_failed [simp]: "journal_grows s (s\<lparr>jo_failed := b\<rparr>)"
  by (simp add: journal_grows_def)

lemma finish_write_grows:
  assumes "\<And>x j. r = Inr (x, j) \<Longrightarrow> journal_grows s (s\<lparr>jo_journal := j\<rparr>)"
  shows "journal_grows s (snd (finish_write s r))"
proof (cases r)
  case (Inl e)
  then show ?thesis by (cases e) (simp_all add: finish_write_def)
next
  case (Inr p)
  then show ?thesis using assms by (cases p) (simp add: finish_write_def)
qed

lemma append_event_grows:
  "append_event st replay e (jo_journal s) = Inr (x, j) \<Longrightarrow> journal_grows s (s\<lparr>jo_journal := j\<rparr>)"
  by (auto simp: append_event_def journal_grows_def insert_event_Some split: option.splits if_splits)

lemma save_result_grows:
  "save_result a q i loaded k ao j0 = Inr (x, j) \<Longrightarrow> journal_grows (s\<lparr>jo_journal := j0\<rparr>) (s\<lparr>jo_journal := j\<rparr>)"
  by (auto simp: save_result_def Let_def journal_grows_def split: sum.splits)

lemma insert_grows: "insert_event e j = Some j' \<Longrightarrow> journal_grows (s\<lparr>jo_journal := j\<rparr>) (s\<lparr>jo_journal := j'\<rparr>)"
  by (simp add: insert_event_Some journal_grows_def)

lemma reconcile_grows:
  assumes "reconcile st e d j = Inr (x, j')"
  shows "journal_grows (s\<lparr>jo_journal := j\<rparr>) (s\<lparr>jo_journal := j'\<rparr>)"
proof -
  have "j' = j \<or> (\<exists>a q i loaded k ao. save_result a q i loaded k ao j = Inr (x, j'))
    \<or> (\<exists>e j1 a q i loaded k ao. insert_event e j = Some j1 \<and> save_result a q i loaded k ao j1 = Inr (x, j'))"
    using assms unfolding reconcile_def Let_def
    by (simp split: sum.splits if_splits option.splits) blast+
  then show ?thesis using grows_trans [OF insert_grows save_result_grows] save_result_grows by (metis grows_refl)
qed

lemma end_read_grows: "journal_grows s (snd (end_read s r))"
  by (simp add: end_read_def journal_grows_def split: sum.split abort.split)

lemma journal_step_grows: "journal_grows s (journal_step st c s)"
proof (cases c)
  case (AppendEvent replay e)
  then show ?thesis
    by (auto simp: append_store_def intro: finish_write_grows append_event_grows split: event_data.split)
next
  case (AppendResult e)
  have "journal_grows s (snd (finish_write s (reconcile st e d (jo_journal s))))" for d
    by (rule finish_write_grows) (use reconcile_grows [of st e d "jo_journal s" _ _ s] in simp)
  then show ?thesis using AppendResult by (simp add: append_command_result_eq split: event_data.split)
qed (simp_all add: read_events_def read_event_batch_def read_changes_def read_command_result_def end_read_grows
      split: sum.split)

text \<open>A store some calls later.\<close>

definition later :: "store_settings \<Rightarrow> journal_store \<Rightarrow> journal_store \<Rightarrow> bool" where
  "later st s t \<longleftrightarrow> (\<exists>cs. t = fold (journal_step st) cs s)"

lemma later_grows: "later st s t \<Longrightarrow> journal_grows s t"
proof -
  have "journal_grows s (fold (journal_step st) cs s)" for cs
    by (induction cs arbitrary: s) (auto intro: grows_trans journal_step_grows)
  then show "later st s t \<Longrightarrow> journal_grows s t" by (auto simp: later_def)
qed

lemma reached_later: "journal_reached st s \<Longrightarrow> later st s t \<Longrightarrow> journal_reached st t"
proof -
  have "journal_reached st (fold (journal_step st) cs s)" if "journal_reached st s" for cs
    using that by (induction cs arbitrary: s) (auto intro: journal_reached.call)
  then show "journal_reached st s \<Longrightarrow> later st s t \<Longrightarrow> journal_reached st t" by (auto simp: later_def)
qed

lemma reached_shape:
  "journal_reached st s \<Longrightarrow> jo_open s \<and> hex_id (jn_id (jo_journal s)) \<and> hex_id (jn_generation (jo_journal s))"
proof (induction rule: journal_reached.induct)
  case (call s c)
  then show ?case using journal_step_grows [of s st c] by (auto simp: journal_grows_def)
qed (simp add: new_store_def)

section \<open>Reports as an interface\<close>

text \<open>
  A book of reports: every report either leaves the book as it is or enters its own value where
  there was none.
\<close>

locale report_book =
  fixes good :: "'s \<Rightarrow> bool"
    and report :: "'r \<Rightarrow> 's \<Rightarrow> 's"
    and known :: "'s \<Rightarrow> 'q \<Rightarrow> 'a \<Rightarrow> 'k option"
    and entry :: "'r \<Rightarrow> ('q \<times> 'a \<times> 'k) option"
  assumes good_report: "good s \<Longrightarrow> good (report r s)"
    and kept: "good s \<Longrightarrow> known s q a = Some k \<Longrightarrow> known (report r s) q a = Some k"
    and origin: "good s \<Longrightarrow> known (report r s) q a = Some k \<Longrightarrow> known s q a = Some k \<or> entry r = Some (q, a, k)"
begin

lemma good_reports: "good s \<Longrightarrow> good (fold report rs s)"
  by (induction rs arbitrary: s) (simp_all add: good_report)

lemma kept_reports: "good s \<Longrightarrow> known s q a = Some k \<Longrightarrow> known (fold report rs s) q a = Some k"
  by (induction rs arbitrary: s) (simp_all add: good_report kept)

lemma reports_origin:
  "good s \<Longrightarrow> known (fold report rs s) q a = Some k
     \<Longrightarrow> known s q a = Some k \<or> (\<exists>r \<in> set rs. entry r = Some (q, a, k))"
proof (induction rs arbitrary: s)
  case (Cons r rs)
  then show ?case using good_report [of s r] origin [of s r q a k] by auto
qed simp

end

definition store_register :: "journal_store \<Rightarrow> result_register" where
  "store_register s = register_of (jo_journal s)"

text \<open>The author, request and key a call reports.\<close>

definition reports :: "journal_call \<Rightarrow> (string \<times> author \<times> outcome_key) option" where
  "reports c =
     (case c of
        AppendResult e \<Rightarrow>
          (case ev_data e of
             PlainEvent t d \<Rightarrow> None
           | ResultEvent d \<Rightarrow> Some (ob_request d, ob_author d, response_key d))
      | _ \<Rightarrow> None)"

lemma append_event_register:
  assumes "journal_ok j" "append_event st replay e j = Inr (u, j')"
  shows "register_of j' = register_of j"
proof (cases "j' = j")
  case False
  then obtain j1 where ins: "insert_event e j = Some j1"
    and j': "j' = j1\<lparr>jn_changes := jn_changes j1 @ [event_change (ev_id e)]\<rparr>"
    using assms(2) by (auto simp: append_event_def split: option.splits if_splits)
  then have "load_result j' p = load_result j p" for p
    by (intro load_result_old [OF assms(1), where es = "[e]"]) (simp_all add: insert_event_Some)
  then show ?thesis by (simp add: register_of_def fun_eq_iff)
qed simp

lemma report_to_reported:
  "report_to q i a k R = Some R' \<Longrightarrow> reported R p b = Some m \<Longrightarrow> reported R' p b = Some m"
  "report_to q i a k R = Some R' \<Longrightarrow> reported R' p b = Some m \<Longrightarrow> reported R p b = Some m \<or> (p, b, m) = (q, a, k)"
  by (auto simp: report_to_def reported_def split: option.splits if_splits)

text \<open>A call leaves the register as it is, or makes its report.\<close>

lemma journal_step_register:
  assumes "journal_ok (jo_journal s)"
  shows "store_register (journal_step st c s) = store_register s
    \<or> (\<exists>q i a k. reports c = Some (q, a, k)
        \<and> report_to q i a k (store_register s) = Some (store_register (journal_step st c s)))"
proof (cases c)
  case (AppendEvent replay e)
  then show ?thesis
    by (auto simp: store_register_def append_store_def finish_write_def append_event_register [OF assms]
        split: event_data.split sum.split abort.split)
next
  case (AppendResult e)
  show ?thesis
  proof (cases "ev_data e")
    case (ResultEvent d)
    show ?thesis
    proof (cases "acceptable st e d \<and> writable s")
      case True
      then have "reportable e d" using acceptable_reportable by blast
      from reconcile_register [OF assms this, of st] show ?thesis
        using AppendResult ResultEvent True
        by (auto simp: append_command_result_eq finish_write_def store_register_def reports_def)
    qed (use AppendResult ResultEvent in \<open>auto simp: append_command_result_eq store_register_def\<close>)
  qed (use AppendResult in \<open>simp add: append_command_result_eq store_register_def\<close>)
qed (simp_all add: store_register_def)

interpretation journal_book: report_book "\<lambda>s :: journal_store. journal_ok (jo_journal s)" "journal_step st"
    "\<lambda>s :: journal_store. reported (store_register s)" reports for st
proof unfold_locales
  fix r and s :: journal_store and q :: string and a k
  assume ok: "journal_ok (jo_journal s)"
  show "journal_ok (jo_journal (journal_step st r s))" using ok by (rule journal_step_ok)
  show "reported (store_register (journal_step st r s)) q a = Some k"
    if "reported (store_register s) q a = Some k"
    using journal_step_register [OF ok, of st r] that report_to_reported(1) by metis
  show "reported (store_register s) q a = Some k \<or> reports r = Some (q, a, k)"
    if "reported (store_register (journal_step st r s)) q a = Some k"
    using journal_step_register [OF ok, of st r] that report_to_reported(2) by metis
qed

end
