(* ===== verification/Journal_Paging.thy ===== *)
theory Journal_Paging
  imports Journal_Register
begin

text \<open>
  Reading page by page: a feed whose pages continue where the last one stopped delivers every row
  once and in order, also when rows are added between two pages. The interface is interpreted on
  the raw and the effective view of the events and on the change feed, each read through the
  checkpoint documents the store hands out.
\<close>

section \<open>Pages of a feed\<close>

lemma map_filter_append: "List.map_filter f (xs @ ys) = List.map_filter f xs @ List.map_filter f ys"
  by (simp add: List.map_filter_def)

lemma map_filter_Cons:
  "List.map_filter f (x # xs) = (case f x of None \<Rightarrow> List.map_filter f xs | Some y \<Rightarrow> y # List.map_filter f xs)"
  by (simp add: List.map_filter_def split: option.split)

lemma map_filter_Nil [simp]: "List.map_filter f [] = []"
  by (simp add: List.map_filter_def)

lemma map_filter_same: "(\<And>x. x \<in> set xs \<Longrightarrow> f x = g x) \<Longrightarrow> List.map_filter f xs = List.map_filter g xs"
  by (induction xs) (simp_all add: map_filter_Cons split: option.split)

lemma rows_after_nth: "k < length xs \<Longrightarrow> rows_after k xs = (Suc k, xs ! k) # rows_after (Suc k) xs"
  by (simp add: rows_after_def Cons_nth_drop_Suc [symmetric] nth_enumerate_eq)

lemma length_rows_after [simp]: "length (rows_after k xs) = length xs - k"
  by (simp add: rows_after_def)

lemma rows_after_all: "length xs \<le> k \<Longrightarrow> rows_after k xs = []"
  by (simp add: rows_after_def)

lemma rows_after_append: "k \<le> length xs \<Longrightarrow> rows_after k (xs @ ys) = rows_after k xs @ enumerate (Suc (length xs)) ys"
  by (simp add: rows_after_def enumerate_append_eq)

lemma rows_after_take: "k \<le> n \<Longrightarrow> rows_after k xs = take (n - k) (rows_after k xs) @ rows_after n xs"
  by (simp add: rows_after_def add.commute [of "n - k"] flip: drop_drop)
    (metis append_take_drop_id drop_drop le_add_diff_inverse2)

text \<open>Following the checkpoints of a feed up to a boundary, with a limit on the number of pages.\<close>

fun follow_pages :: "(nat \<Rightarrow> ('y list \<times> nat) result) \<Rightarrow> nat \<Rightarrow> nat \<Rightarrow> nat \<Rightarrow> 'y list option" where
  "follow_pages page bound 0 k = None"
| "follow_pages page bound (Suc fuel) k =
     (case page k of
        Inl e \<Rightarrow> None
      | Inr (ys, n) \<Rightarrow> if n < bound then map_option ((@) ys) (follow_pages page bound fuel n) else Some ys)"

text \<open>Reading one page of each of a list of states.\<close>

fun follow_states :: "('s \<Rightarrow> nat \<Rightarrow> ('y list \<times> nat) result) \<Rightarrow> 's list \<Rightarrow> nat \<Rightarrow> ('y list \<times> nat) option" where
  "follow_states page [] k = Some ([], k)"
| "follow_states page (s # ss) k =
     (case page s k of
        Inl e \<Rightarrow> None
      | Inr (ys, n) \<Rightarrow> map_option (apfst ((@) ys)) (follow_states page ss n))"

locale paged_feed =
  fixes good :: "'s \<Rightarrow> bool"
    and rows :: "'s \<Rightarrow> 'x list"
    and shown :: "'s \<Rightarrow> nat \<times> 'x \<Rightarrow> 'y option"
    and page :: "'s \<Rightarrow> nat \<Rightarrow> ('y list \<times> nat) result"
  assumes page: "good s \<Longrightarrow> k \<le> length (rows s) \<Longrightarrow>
    \<exists>n. page s k = Inr (List.map_filter (shown s) (take (n - k) (rows_after k (rows s))), n)
      \<and> k \<le> n \<and> n \<le> length (rows s) \<and> (k < length (rows s) \<longrightarrow> k < n)"
begin

lemma follow_all:
  "good s \<Longrightarrow> k \<le> length (rows s) \<Longrightarrow> length (rows s) - k < fuel \<Longrightarrow>
     follow_pages (page s) (length (rows s)) fuel k = Some (List.map_filter (shown s) (rows_after k (rows s)))"
proof (induction fuel arbitrary: k)
  case (Suc fuel)
  obtain n where n: "page s k = Inr (List.map_filter (shown s) (take (n - k) (rows_after k (rows s))), n)"
      "k \<le> n" "n \<le> length (rows s)" "k < length (rows s) \<longrightarrow> k < n"
    using page [OF Suc.prems(1,2)] by blast
  show ?case
  proof (cases "n < length (rows s)")
    case True
    then have "follow_pages (page s) (length (rows s)) fuel n
        = Some (List.map_filter (shown s) (rows_after n (rows s)))"
      using Suc n by auto
    then show ?thesis
      using n True rows_after_take [OF n(2), of "rows s"] by (simp flip: map_filter_append)
  next
    case False
    then show ?thesis using n by simp
  qed
qed simp

end

text \<open>A feed whose rows stay as they are while rows are added.\<close>

locale growing_feed = paged_feed +
  fixes grows :: "'a \<Rightarrow> 'a \<Rightarrow> bool"
  assumes grown: "grows s t \<Longrightarrow> \<exists>xs. rows t = rows s @ xs"
    and shown_grown: "good s \<Longrightarrow> good t \<Longrightarrow> grows s t \<Longrightarrow> x \<in> set (rows_after 0 (rows s)) \<Longrightarrow> shown t x = shown s x"
begin

lemma in_rows: "x \<in> set (take m (rows_after k xs)) \<Longrightarrow> x \<in> set (rows_after 0 xs)"
  by (auto simp: rows_after_def dest: in_set_takeD in_set_dropD)

lemma shown_later:
  assumes "good s" "good t" "grows s t" "k \<le> n" "n \<le> length (rows s)"
  shows "List.map_filter (shown t) (take (n - k) (rows_after k (rows t)))
    = List.map_filter (shown s) (take (n - k) (rows_after k (rows s)))"
proof -
  obtain xs where "rows t = rows s @ xs" using grown [OF assms(3)] by blast
  then have same: "take (n - k) (rows_after k (rows t)) = take (n - k) (rows_after k (rows s))"
    using assms(4,5) by (simp add: rows_after_append)
  show ?thesis
    unfolding same by (rule map_filter_same) (rule shown_grown [OF assms(1-3) in_rows])
qed

lemma follow_grown:
  "ss \<noteq> [] \<Longrightarrow> list_all good ss \<Longrightarrow> sorted_wrt grows ss \<Longrightarrow> k \<le> length (rows (hd ss)) \<Longrightarrow>
     \<exists>n. follow_states page ss k
         = Some (List.map_filter (shown (last ss)) (take (n - k) (rows_after k (rows (last ss)))), n)
       \<and> k \<le> n \<and> n \<le> length (rows (last ss))"
proof (induction ss arbitrary: k)
  case (Cons s ss)
  obtain n where n: "page s k = Inr (List.map_filter (shown s) (take (n - k) (rows_after k (rows s))), n)"
      "k \<le> n" "n \<le> length (rows s)"
    using page [of s k] Cons.prems by auto
  show ?case
  proof (cases "ss = []")
    case False
    then have last: "last ss \<in> set ss" by simp
    have "hd ss \<in> set ss" using False by simp
    then have "grows s (hd ss)" using Cons.prems(3) by simp
    then obtain xs where "rows (hd ss) = rows s @ xs" using grown by blast
    then have "n \<le> length (rows (hd ss))" using n by simp
    then obtain m where m: "follow_states page ss n
        = Some (List.map_filter (shown (last ss)) (take (m - n) (rows_after n (rows (last ss)))), m)"
        "n \<le> m" "m \<le> length (rows (last ss))"
      using Cons False by auto
    have "List.map_filter (shown s) (take (n - k) (rows_after k (rows s)))
        = List.map_filter (shown (last ss)) (take (n - k) (rows_after k (rows (last ss))))"
      by (rule shown_later [symmetric]) (use Cons.prems last n in \<open>auto simp: list_all_iff\<close>)
    moreover have "take (m - k) (rows_after k (rows (last ss)))
        = take (n - k) (rows_after k (rows (last ss))) @ take (m - n) (rows_after n (rows (last ss)))"
    proof -
      have "length (rows (last ss)) \<ge> n" using m by simp
      then have "length (take (n - k) (rows_after k (rows (last ss)))) = n - k" using n by simp
      then show ?thesis
        using n(2) m(2) by (subst rows_after_take [OF n(2)]) simp
    qed
    ultimately have "follow_states page (s # ss) k
        = Some (List.map_filter (shown (last ss)) (take (m - k) (rows_after k (rows (last ss)))), m)"
      using n m by (simp add: map_filter_append)
    then show ?thesis using n m False by (intro exI [of _ m]) simp
  qed (use n in simp)
qed simp

end

section \<open>Checkpoints are read back\<close>

lemma uuid_int_hex: "n < uuid_limit \<Longrightarrow> uuid_int (to_hex 32 n) = Inr n"
proof -
  assume n: "n < uuid_limit"
  then have n16: "n < 16 ^ 32" by (simp add: uuid_limit_def)
  let ?h = "to_hex 32 n"
  have plain: "CHR ''u'' \<notin> set ?h" "CHR ''{'' \<notin> set ?h" "CHR ''}'' \<notin> set ?h" "CHR ''-'' \<notin> set ?h"
    using set_to_hex [of 32 n] lower_hex_plain by blast+
  then have "remove_sub ''urn:'' ?h = ?h" "remove_sub ''uuid:'' ?h = ?h" "remove_sub ''-'' ?h = ?h"
    by (auto intro: remove_sub_absent)
  moreover have "strip_chars (\<lambda>c. c = CHR ''{'' \<or> c = CHR ''}'') ?h = ?h"
    using plain by (intro strip_chars_absent) auto
  ultimately show ?thesis
    using n parse_int16_to_hex [OF n16] by (simp add: uuid_int_def Let_def)
qed

lemma require_text_hex: "require_text (PStr (to_hex 32 n)) = Inr (to_hex 32 n)"
proof -
  have "\<not> is_space c" "c \<noteq> null_char" if "c \<in> set (to_hex 32 n)" for c
    using set_to_hex [of 32 n] that lower_hex_plain(2,10) [of c] by blast+
  then have "py_strip (to_hex 32 n) = to_hex 32 n" "null_char \<notin> set (to_hex 32 n)"
    by (auto simp: py_strip_def intro: strip_chars_absent)
  moreover have "to_hex 32 n \<noteq> []"
    by (metis length_to_hex list.size(3) zero_neq_numeral)
  ultimately show ?thesis by simp
qed

lemma uuid_hex_again: "hex_id s \<Longrightarrow> uuid_hex (JStr s) = Inr s"
  by (auto simp: hex_id_def uuid_hex_def text_value_def require_text_hex uuid_int_hex simp del: require_text.simps)

lemma int_printable_position: "0 \<le> n \<Longrightarrow> n \<le> sqlite_max \<Longrightarrow> int_printable n"
proof -
  assume "0 \<le> n" "n \<le> sqlite_max"
  then have "\<bar>n\<bar> < 10 ^ 19" by (simp add: sqlite_max_def)
  also have "(10 :: int) ^ 19 \<le> 10 ^ 4300" by (rule power_increasing) simp_all
  finally show ?thesis unfolding int_printable_def .
qed

lemma checkpoint_read_back:
  assumes "hex_id (bo_journal b)" "hex_id (bo_generation b)" "int k \<le> sqlite_max"
    and key: "key \<noteq> ''journal_id''" "key \<noteq> ''generation''"
  shows "validated_checkpoint key (checkpoint_document b key k)
    = Inr (Some \<lparr>cp_journal = bo_journal b, cp_generation = bo_generation b, cp_position = int k\<rparr>)"
proof -
  define d where "d = [(''journal_id'', JStr (bo_journal b)), (''generation'', JStr (bo_generation b)), (key, JInt (int k))]"
  have doc: "checkpoint_document b key k = JObj d" by (simp add: checkpoint_document_def d_def)
  have "copy_json_object (embed (JObj d)) = Inr d"
    unfolding copy_json_object_iff embed_inj
    using assms(3) by (simp add: d_def int_printable_position)
  moreover have "journal_identity d = Inr (bo_journal b, bo_generation b)"
    using assms(1,2) by (simp add: journal_identity_def d_def field_def uuid_hex_again)
  moreover have "field d key sqlite_position = Inr (int k)"
  proof -
    have "int_from 0 (JInt (int k)) = Inr (int k)" by (simp add: int_from_Inr)
    then show ?thesis using assms(3) key by (simp add: d_def field_def sqlite_position_def)
  qed
  moreover have "set (keys d) = {''journal_id'', ''generation'', key}" by (simp add: d_def)
  ultimately show ?thesis by (simp add: validated_checkpoint_def doc)
qed

section \<open>Pages of events\<close>

lemma fst_rows_after: "map fst (rows_after k xs) = [Suc k..<Suc (length xs)]"
  by (simp add: rows_after_def drop_map [symmetric] del: upt_Suc)

definition shown_entry :: "string \<Rightarrow> journal_store \<Rightarrow> nat \<times> journal_event \<Rightarrow> journal_entry option" where
  "shown_entry view s row = (case view_entry (jo_journal s) view row of Inl e \<Rightarrow> None | Inr x \<Rightarrow> x)"

text \<open>
  A page shows the rows from its start on; it stops at the limits, but not before its first entry.
\<close>

lemma read_event_page_run:
  assumes "\<And>row. row \<in> set rows \<Longrightarrow> view_entry j view row = Inr (out row)"
    and "length acc < limit" "map fst rows = [Suc k..<Suc k + length rows]"
  shows "\<exists>m. read_event_page st j view limit rows k acc b = Inr (acc @ List.map_filter out (take m rows), k + m)
    \<and> m \<le> length rows \<and> (acc = [] \<longrightarrow> rows \<noteq> [] \<longrightarrow> 0 < m)"
  using assms
proof (induction rows arbitrary: k acc b)
  case (Cons row rows)
  have row: "view_entry j view row = Inr (out row)" "fst row = Suc k"
      "map fst rows = [Suc (Suc k)..<Suc (Suc k) + length rows]"
    using Cons.prems by (auto simp: upt_rec split: if_splits)
  note step = Cons.IH [OF Cons.prems(1) _ row(3), simplified]
  show ?case
  proof (cases "out row")
    case None
    obtain m where "read_event_page st j view limit rows (Suc k) acc b
        = Inr (acc @ List.map_filter out (take m rows), Suc k + m)" "m \<le> length rows"
      using step [of acc b] Cons.prems(2) by auto
    then show ?thesis using None row by (intro exI [of _ "Suc m"]) (simp add: map_filter_Cons)
  next
    case (Some x)
    consider (full) "acc \<noteq> [] \<and> js_page st < b + js_size st (snd row)"
      | (last) "\<not> (acc \<noteq> [] \<and> js_page st < b + js_size st (snd row))" "Suc (length acc) = limit"
      | (more) "\<not> (acc \<noteq> [] \<and> js_page st < b + js_size st (snd row))" "Suc (length acc) < limit"
      using Cons.prems(2) by linarith
    then show ?thesis
    proof cases
      case full
      then show ?thesis using Some row by (intro exI [of _ 0]) simp
    next
      case last
      then show ?thesis using Some row by (intro exI [of _ 1]) (auto simp: map_filter_Cons)
    next
      case more
      then obtain m where "read_event_page st j view limit rows (Suc k) (acc @ [x]) (b + js_size st (snd row))
          = Inr (acc @ [x] @ List.map_filter out (take m rows), Suc k + m)" "m \<le> length rows"
        using step [of "acc @ [x]" "b + js_size st (snd row)"] by auto
      then show ?thesis using more Some row by (intro exI [of _ "Suc m"]) (auto simp: map_filter_Cons)
    qed
  qed
qed (intro exI [of _ 0], simp)

lemma in_rows_after: "(n, x) \<in> set (rows_after k xs) \<Longrightarrow> x \<in> set xs"
  by (auto simp: rows_after_def dest!: in_set_dropD simp: in_set_enumerate_eq)

lemma rows_shown:
  assumes "journal_ok j" "row \<in> set (rows_after k (jn_events j))"
  shows "\<exists>x. view_entry j view row = Inr x"
proof (cases "view = ''effective''")
  case True
  obtain n e where row: "row = (n, e)" "e \<in> set (jn_events j)"
    using assms(2) by (metis in_rows_after surj_pair)
  show ?thesis
  proof (cases "ev_data e")
    case (ResultEvent d)
    obtain r where r: "map_of (jn_results j) (ob_request d) = Some r" "ev_id e \<in> set (row_events r)"
      using journal_results [OF assms(1) row(2) ResultEvent] by blast
    then obtain l where l: "load_row j (ob_request d) r = Inr l" using journal_rows [OF assms(1)] by blast
    then have "rr_runner r = author_entry (lr_runner l)" "rr_participant r = author_entry (lr_participant l)"
      by (auto simp: load_row_Inr dest: decode_entry)
    then have "row_events r = entry_ids l"
      by (cases "lr_runner l"; cases "lr_participant l")
        (simp_all add: row_events_def entry_ids_def author_entry_def some_values_def List.map_filter_def)
    then show ?thesis
      using r l ResultEvent row(1) True by (simp add: view_entry_def effective_entry_def load_result_def)
  qed (use row True in \<open>simp add: view_entry_def effective_entry_def\<close>)
qed (simp add: view_entry_def)

text \<open>A store that can be read, with tables within the range of SQLite's cursors.\<close>

definition readable :: "journal_store \<Rightarrow> bool" where
  "readable s \<longleftrightarrow> journal_ok (jo_journal s) \<and> jo_open s
     \<and> hex_id (jn_id (jo_journal s)) \<and> hex_id (jn_generation (jo_journal s))
     \<and> int (length (jn_events (jo_journal s))) \<le> sqlite_max
     \<and> int (length (jn_changes (jo_journal s))) \<le> sqlite_max"

text \<open>A page of events, asked for with the checkpoint at a cursor.\<close>

definition event_feed ::
    "store_settings \<Rightarrow> int \<Rightarrow> string \<Rightarrow> journal_store \<Rightarrow> nat \<Rightarrow> (journal_entry list \<times> nat) result" where
  "event_feed st limit view s k =
     res_bind (fst (read_events st (checkpoint_document (read_boundary_of (jo_journal s)) ''cursor'' k) limit view s))
       (\<lambda>p. Inr (pg_events p, the (pg_after p)))"

definition valid_limit :: "int \<Rightarrow> bool" where
  "valid_limit limit \<longleftrightarrow> 1 \<le> limit \<and> limit \<le> 1000"

definition valid_view :: "string \<Rightarrow> bool" where
  "valid_view view \<longleftrightarrow> view = ''raw'' \<or> view = ''effective''"

lemma boundary_fields [simp]:
  "bo_journal (read_boundary_of j) = jn_id j" "bo_generation (read_boundary_of j) = jn_generation j"
  "bo_cursor (read_boundary_of j) = length (jn_events j)" "bo_change (read_boundary_of j) = length (jn_changes j)"
  by (simp_all add: read_boundary_of_def)

lemma event_feed_eq:
  assumes "readable s" "valid_limit limit" "valid_view view" "k \<le> length (jn_events (jo_journal s))"
    and "event_page_at st (jo_journal s) view (nat limit) k = Inr (es, n)"
  shows "event_feed st limit view s k = Inr (es, n)"
proof -
  have "int k \<le> sqlite_max" using assms(1,4) unfolding readable_def by linarith
  then have "validated_checkpoint ''cursor'' (checkpoint_document (read_boundary_of (jo_journal s)) ''cursor'' k)
      = Inr (Some \<lparr>cp_journal = jn_id (jo_journal s), cp_generation = jn_generation (jo_journal s), cp_position = int k\<rparr>)"
    using assms(1) by (simp add: checkpoint_read_back readable_def)
  moreover have "jo_open s" "\<not> limit < 1" "\<not> 1000 < limit" "view = ''raw'' \<or> view = ''effective''"
    using assms(1-3) by (auto simp: readable_def valid_limit_def valid_view_def)
  ultimately show ?thesis
    using assms(4,5)
    by (simp add: event_feed_def read_events_def Let_def checkpoint_position_def or_broken_def end_read_def)
qed

lemma event_pages:
  assumes s: "readable s \<and> valid_limit limit \<and> valid_view view" and k: "k \<le> length (jn_events (jo_journal s))"
  shows "\<exists>n. event_feed st limit view s k
      = Inr (List.map_filter (shown_entry view s) (take (n - k) (rows_after k (jn_events (jo_journal s)))), n)
    \<and> k \<le> n \<and> n \<le> length (jn_events (jo_journal s)) \<and> (k < length (jn_events (jo_journal s)) \<longrightarrow> k < n)"
proof -
  let ?j = "jo_journal s"
  let ?all = "rows_after k (jn_events ?j)" let ?rows = "take 1000 ?all"
  have ok: "journal_ok ?j" using s by (simp add: readable_def)
  have out: "view_entry ?j view row = Inr (shown_entry view s row)" if "row \<in> set ?rows" for row
  proof -
    have "row \<in> set ?all" using that by (rule in_set_takeD)
    from rows_shown [OF ok this, of view] show ?thesis by (auto simp: shown_entry_def)
  qed
  have cursors: "map fst ?rows = [Suc k..<Suc k + length ?rows]"
    using k by (simp add: take_map [symmetric] fst_rows_after take_upt min_def del: upt_Suc)
  obtain m where m: "read_event_page st ?j view (nat limit) ?rows k [] 0
      = Inr (List.map_filter (shown_entry view s) (take m ?rows), k + m)" "m \<le> length ?rows"
      "?rows \<noteq> [] \<longrightarrow> 0 < m"
    using read_event_page_run [OF out _ cursors, of "[]" "nat limit" st 0] s by (auto simp: valid_limit_def)
  have "m \<le> 1000" using m(2) by simp
  then have "take m ?rows = take m ?all" by simp
  then have "event_feed st limit view s k
      = Inr (List.map_filter (shown_entry view s) (take m ?all), k + m)"
    using s k m(1) by (intro event_feed_eq) (auto simp: event_page_at_def)
  moreover have "k < length (jn_events ?j) \<longrightarrow> 0 < m" using m(3) by (auto simp flip: length_greater_0_conv)
  ultimately show ?thesis using m(2) k by (intro exI [of _ "k + m"]) auto
qed

interpretation effective_feed: paged_feed "\<lambda>s. readable s \<and> valid_limit limit \<and> valid_view view"
    "\<lambda>s. jn_events (jo_journal s)" "shown_entry view" "event_feed st limit view" for limit view st
  by unfold_locales (rule event_pages)

interpretation raw_feed: growing_feed "\<lambda>s. readable s \<and> valid_limit limit \<and> valid_view ''raw''"
    "\<lambda>s. jn_events (jo_journal s)" "shown_entry ''raw''" "event_feed st limit ''raw''" journal_grows for limit st
  by unfold_locales (auto simp: journal_grows_def prefix_def shown_entry_def view_entry_def)

section \<open>Pages of changes\<close>

definition shown_change :: "journal_store \<Rightarrow> nat \<times> journal_change \<Rightarrow> change_entry option" where
  "shown_change s row = (case decode_change (jo_journal s) row of Inl e \<Rightarrow> None | Inr x \<Rightarrow> Some x)"

lemma change_page_run:
  assumes "\<And>row. row \<in> set rows \<Longrightarrow> \<exists>x. decode_change j row = Inr x \<and> out row = Some x"
    and "map fst rows = [Suc k..<Suc k + length rows]"
  shows "\<exists>m. change_page st j rows k acc b = Inr (acc @ List.map_filter out (take m rows), k + m)
    \<and> m \<le> length rows \<and> (acc = [] \<longrightarrow> rows \<noteq> [] \<longrightarrow> 0 < m)"
  using assms
proof (induction rows arbitrary: k acc b)
  case (Cons row rows)
  have row: "fst row = Suc k" "map fst rows = [Suc (Suc k)..<Suc (Suc k) + length rows]"
    using Cons.prems by (auto simp: upt_rec split: if_splits)
  obtain x where x: "decode_change j row = Inr x" "out row = Some x" using Cons.prems(1) [of row] by auto
  show ?case
  proof (cases "acc \<noteq> [] \<and> js_page st < b + js_change_size st (fst row)")
    case True
    then show ?thesis using x by (intro exI [of _ 0]) simp
  next
    case False
    obtain m where "change_page st j rows (Suc k) (acc @ [x]) (b + js_change_size st (fst row))
        = Inr (acc @ [x] @ List.map_filter out (take m rows), Suc k + m)" "m \<le> length rows"
      using Cons.IH [OF Cons.prems(1) row(2), of "acc @ [x]" "b + js_change_size st (fst row)"] by auto
    then show ?thesis using False x row by (intro exI [of _ "Suc m"]) (auto simp: map_filter_Cons)
  qed
qed (intro exI [of _ 0], simp)

definition change_feed :: "store_settings \<Rightarrow> int \<Rightarrow> journal_store \<Rightarrow> nat \<Rightarrow> (change_entry list \<times> nat) result" where
  "change_feed st limit s k =
     res_bind (fst (read_changes st (checkpoint_document (read_boundary_of (jo_journal s)) ''change_cursor'' k) limit s))
       (\<lambda>p. Inr (cg_changes p, cg_after p))"

lemma change_feed_eq:
  assumes "readable s" "valid_limit limit" "k \<le> length (jn_changes (jo_journal s))"
    and "change_page_at st (jo_journal s) (nat limit) k = Inr (cs, n)"
  shows "change_feed st limit s k = Inr (cs, n)"
proof -
  have "int k \<le> sqlite_max" using assms(1,3) unfolding readable_def by linarith
  then have "validated_checkpoint ''change_cursor''
        (checkpoint_document (read_boundary_of (jo_journal s)) ''change_cursor'' k)
      = Inr (Some \<lparr>cp_journal = jn_id (jo_journal s), cp_generation = jn_generation (jo_journal s), cp_position = int k\<rparr>)"
    using assms(1) by (simp add: checkpoint_read_back readable_def)
  moreover have "jo_open s" "\<not> limit < 1" "\<not> 1000 < limit"
    using assms(1,2) by (auto simp: readable_def valid_limit_def)
  ultimately show ?thesis
    using assms(3,4)
    by (simp add: change_feed_def read_changes_def Let_def checkpoint_position_def or_broken_def end_read_def)
qed

lemma changes_shown:
  assumes "journal_ok (jo_journal s)" "row \<in> set (rows_after k (jn_changes (jo_journal s)))"
  shows "\<exists>x. decode_change (jo_journal s) row = Inr x \<and> shown_change s row = Some x"
proof -
  obtain n c where row: "row = (n, c)" "c \<in> set (jn_changes (jo_journal s))"
    using assms(2) by (metis in_rows_after surj_pair)
  then have "change_ok (jo_journal s) c" using assms(1) by (simp add: journal_ok_def list_all_iff)
  from change_ok_rows [OF this, of n] show ?thesis using row(1) by (auto simp: shown_change_def)
qed

lemma change_pages:
  assumes s: "readable s \<and> valid_limit limit" and k: "k \<le> length (jn_changes (jo_journal s))"
  shows "\<exists>n. change_feed st limit s k
      = Inr (List.map_filter (shown_change s) (take (n - k) (rows_after k (jn_changes (jo_journal s)))), n)
    \<and> k \<le> n \<and> n \<le> length (jn_changes (jo_journal s)) \<and> (k < length (jn_changes (jo_journal s)) \<longrightarrow> k < n)"
proof -
  let ?j = "jo_journal s"
  let ?all = "rows_after k (jn_changes ?j)" let ?rows = "take (nat limit) ?all"
  have ok: "journal_ok ?j" using s by (simp add: readable_def)
  have out: "\<exists>x. decode_change ?j row = Inr x \<and> shown_change s row = Some x" if "row \<in> set ?rows" for row
    using changes_shown [OF ok in_set_takeD [OF that]] .
  have cursors: "map fst ?rows = [Suc k..<Suc k + length ?rows]"
    using k by (simp add: take_map [symmetric] fst_rows_after take_upt min_def del: upt_Suc)
  obtain m where m: "change_page st ?j ?rows k [] 0
      = Inr (List.map_filter (shown_change s) (take m ?rows), k + m)" "m \<le> length ?rows" "?rows \<noteq> [] \<longrightarrow> 0 < m"
    using change_page_run [OF out cursors, of st "[]" 0] by auto
  have "m \<le> nat limit" using m(2) by simp
  then have "take m ?rows = take m ?all" by simp
  then have "change_feed st limit s k = Inr (List.map_filter (shown_change s) (take m ?all), k + m)"
    using s k m(1) by (intro change_feed_eq) (auto simp: change_page_at_def)
  moreover have "k < length (jn_changes ?j) \<longrightarrow> 0 < m"
    using m(3) s by (auto simp: valid_limit_def simp flip: length_greater_0_conv)
  ultimately show ?thesis using m(2) k by (intro exI [of _ "k + m"]) auto
qed

lemma decode_change_grown:
  assumes "journal_grows s t" "decode_change (jo_journal s) row = Inr x"
  shows "decode_change (jo_journal t) row = Inr x"
proof -
  obtain es where es: "jn_events (jo_journal t) = jn_events (jo_journal s) @ es"
    using assms(1) by (auto simp: journal_grows_def prefix_def)
  have "event_entry (jo_journal t) = event_entry ((jo_journal s)\<lparr>jn_events := jn_events (jo_journal s) @ es\<rparr>)"
    by (simp add: event_entry_def es fun_eq_iff)
  note entry = this
  have related: "related_ok (jo_journal t) = related_ok ((jo_journal s)\<lparr>jn_events := jn_events (jo_journal s) @ es\<rparr>)"
    unfolding related_ok_def entry by simp
  have refers: "change_refers (jo_journal t) = change_refers ((jo_journal s)\<lparr>jn_events := jn_events (jo_journal s) @ es\<rparr>)"
    unfolding change_refers_def related by simp
  have "decode_change (jo_journal t) row
      = decode_change ((jo_journal s)\<lparr>jn_events := jn_events (jo_journal s) @ es\<rparr>) row"
    unfolding decode_change_def entry refers by (rule refl)
  then show ?thesis using decode_change_old [OF assms(2)] by simp
qed

interpretation changes_feed: growing_feed "\<lambda>s. readable s \<and> valid_limit limit"
    "\<lambda>s. jn_changes (jo_journal s)" shown_change "change_feed st limit" journal_grows for limit st
proof unfold_locales
  fix s t :: journal_store and x
  assume "readable s \<and> valid_limit limit" "journal_grows s t" "x \<in> set (rows_after 0 (jn_changes (jo_journal s)))"
  then show "shown_change t x = shown_change s x"
    using changes_shown [of s x 0] decode_change_grown [of s t x] by (auto simp: shown_change_def readable_def)
qed (auto simp: journal_grows_def prefix_def intro: change_pages)

end
