(* ===== verification/Journal_Properties.thy ===== *)
theory Journal_Properties
  imports Journal_Paging
begin

text \<open>
  The properties of the journal: reads never find it corrupt and return the considered results,
  reports implement the register of results, first reports stand, refused writes change nothing,
  and the feeds deliver everything once.
\<close>

section \<open>Reading results\<close>

lemma register_load:
  assumes "load_result j q = Inr loaded"
  shows "reported (register_of j) q a
    = map_option (\<lambda>x. response_key (as_result x)) (Option.bind loaded (\<lambda>l. lr_of l a))"
  using assms by (cases loaded) (simp_all add: reported_def register_of_def)

lemma considered_load:
  assumes "precedence_ok l"
  obtains x where "lr_of l (lr_author l) = Some x" "lr_effective l = as_id x"
    "lr_author l = (if lr_runner l = None then ParticipantAuthor else RunnerAuthor)"
  using assms by (auto simp: precedence_ok_def Let_def preferred_def split: option.splits)

lemma considered_read:
  assumes "journal_reached st s" "is_text q"
  shows "\<exists>r. read_command_result q s = (Inr r, s)
    \<and> map_option (\<lambda>x. response_key (cr_result x)) r = register_considered (store_register s) q
    \<and> map_option cr_provisional r
        = map_option (\<lambda>k. reported (store_register s) q RunnerAuthor = None) (register_considered (store_register s) q)"
proof -
  let ?j = "jo_journal s"
  have ok: "journal_ok ?j" and "jo_open s" using assms(1) reached_ok reached_shape by auto
  obtain loaded where loaded: "load_result ?j q = Inr loaded" using journal_load [OF ok] .
  note facts = loaded \<open>jo_open s\<close> assms(2) register_load [OF loaded]
  show ?thesis
  proof (cases loaded)
    case None
    then show ?thesis
      using facts by (simp add: read_command_result_def or_broken_def end_read_def register_considered_def
          store_register_def)
  next
    case (Some l)
    then have "precedence_ok l" using loaded by (auto simp: load_row_Inr elim: loaded_row)
    then obtain x where x: "lr_of l (lr_author l) = Some x"
        "lr_author l = (if lr_runner l = None then ParticipantAuthor else RunnerAuthor)"
      by (elim considered_load)
    then show ?thesis
      using facts Some
      by (cases "lr_runner l")
        (simp_all add: read_command_result_def or_broken_def end_read_def register_considered_def
          store_register_def command_result_of_def)
  qed
qed

text \<open>
  C14. Reading a command's result in any reachable store succeeds and leaves the store as it is:
  the index is never found corrupt. The result returned is the runner's if the runner has reported
  one, otherwise the participant's, which is marked provisional; there is none exactly if neither
  has reported.
\<close>

theorem read_result_considered:
  assumes "journal_reached st s" "is_text q"
  shows "\<exists>r. read_command_result q s = (Inr r, s)
    \<and> map_option (\<lambda>x. response_key (cr_result x)) r = register_considered (store_register s) q
    \<and> map_option cr_provisional r
        = map_option (\<lambda>k. reported (store_register s) q RunnerAuthor = None) (register_considered (store_register s) q)"
  using assms by (rule considered_read)

section \<open>Reporting results\<close>

lemma result_reports:
  assumes "journal_reached st s" "writable s" "acceptable st e d"
  shows "case report_to (ob_request d) (request_identity (ev_context e)) (ob_author d) (response_key d)
           (store_register s) of
      None \<Rightarrow> append_command_result st e s = (Inl ValueError, s)
    | Some R \<Rightarrow>
        (\<exists>k t. append_command_result st e s = (Inr k, t) \<and> store_register t = R)
        \<or> append_command_result st e s = (Inl ValueError, s) \<and> (\<exists>loaded. \<not> encodable st (with_mark e d loaded))
        \<or> append_command_result st e s = (Inl LoggingStorageError, s\<lparr>jo_failed := True\<rparr>)
            \<and> used_event (jo_journal s) e"
proof -
  have d: "reportable e d" using acceptable_reportable [OF assms(3)] .
  have "append_command_result st e s = finish_write s (reconcile st e d (jo_journal s))"
    using assms(2,3) by (simp add: append_command_result_eq acceptable_def)
  then show ?thesis
    using reconcile_register [OF reached_ok [OF assms(1)] d, of st]
    unfolding store_register_def
    by (elim disjE exE conjE) (auto simp: finish_write_def split: option.split)
qed

text \<open>
  C4. Storing a command's result implements a report to the abstract register. When the register
  refuses the report, because the request belongs to another owner or the author has already
  reported another outcome, it is rejected as a value error and the store does not change.
  Otherwise the store afterwards is the register with this report; unless the event is already
  in the journal, or its text with the mark of the superseded observation is too long, and then the
  register keeps what it had.
\<close>

theorem result_reports_refine:
  assumes "journal_reached st s" "writable s" "acceptable st e d"
  shows "case report_to (ob_request d) (request_identity (ev_context e)) (ob_author d) (response_key d)
           (store_register s) of
      None \<Rightarrow> append_command_result st e s = (Inl ValueError, s)
    | Some R \<Rightarrow>
        (\<exists>k t. append_command_result st e s = (Inr k, t) \<and> store_register t = R)
        \<or> append_command_result st e s = (Inl ValueError, s) \<and> (\<exists>loaded. \<not> encodable st (with_mark e d loaded))
        \<or> append_command_result st e s = (Inl LoggingStorageError, s\<lparr>jo_failed := True\<rparr>)
            \<and> used_event (jo_journal s) e"
  using assms by (rule result_reports)

text \<open>
  C28. What an author has reported for a request stands for the life of the journal, whatever calls
  follow; and nothing is reported that was not asked for: every value in the register of a new
  journal after some calls is that of one of these calls.
\<close>

theorem first_report_stands:
  assumes "journal_reached st s"
  shows "(reported (store_register s) q a = Some k \<longrightarrow>
        reported (store_register (fold (journal_step st) cs s)) q a = Some k)
    \<and> (reported (store_register (fold (journal_step st) cs s)) q a = Some k \<longrightarrow>
        reported (store_register s) q a = Some k \<or> (\<exists>c \<in> set cs. reports c = Some (q, a, k)))"
  using journal_book.kept_reports journal_book.reports_origin reached_ok [OF assms] by blast

lemma reports_swap:
  assumes "report_to q i a k R = Some R1" "report_to q i' b m R1 = Some R2"
    and "report_to q i' b m R = Some R1'" "a \<noteq> b"
  shows "report_to q i a k R1' = Some R2"
  using assms by (auto simp: report_to_def fun_upd_twist split: option.splits if_splits)

lemma stored_reports:
  assumes "journal_reached st s" "ev_data e = ResultEvent d" "append_command_result st e s = (Inr k, t)"
  shows "report_to (ob_request d) (request_identity (ev_context e)) (ob_author d) (response_key d)
      (store_register s) = Some (store_register t)" "journal_reached st t"
proof -
  have "acceptable st e d \<and> writable s"
    using assms(2,3) by (auto simp: append_command_result_eq split: if_splits)
  then show "report_to (ob_request d) (request_identity (ev_context e)) (ob_author d) (response_key d)
      (store_register s) = Some (store_register t)"
    using result_reports [OF assms(1), of e d] assms(3) by (auto split: option.splits)
  show "journal_reached st t" using journal_reached.call [OF assms(1), of "AppendResult e"] assms(3) by simp
qed

lemma report_known: "report_to q i a k R = Some R' \<Longrightarrow> reported R' q a = Some k"
  by (auto simp: report_to_def reported_def split: option.splits if_splits)

text \<open>
  C29. The runner's and the participant's observation of a command may arrive in either order: when
  both are stored, the two orders leave the same register, with the runner's outcome considered.
\<close>

theorem authors_commute:
  assumes reached: "journal_reached st s" and data: "ev_data e = ResultEvent d" "ev_data f = ResultEvent g"
    and authors: "ob_request d = ob_request g" "ob_author d = RunnerAuthor" "ob_author g = ParticipantAuthor"
    and first: "append_command_result st e s = (Inr k1, s1)" "append_command_result st f s1 = (Inr k2, s2)"
    and other: "append_command_result st f s = (Inr m1, t1)" "append_command_result st e t1 = (Inr m2, t2)"
  shows "store_register s2 = store_register t2
    \<and> register_considered (store_register s2) (ob_request d) = Some (response_key d)"
proof -
  note e1 = stored_reports [OF reached data(1) first(1)]
  note f1 = stored_reports [OF reached data(2) other(1)]
  note f2 = stored_reports [OF e1(2) data(2) first(2)]
  note e2 = stored_reports [OF f1(2) data(1) other(2)]
  have same: "store_register s2 = store_register t2"
    using reports_swap [OF e1(1) f2(1) [folded authors(1)] f1(1) [folded authors(1)]] e2(1) authors by simp
  then show ?thesis using report_known [OF e2(1)] authors by (simp add: register_considered_def)
qed

section \<open>Reading the feeds\<close>

text \<open>Tables within the range of SQLite's cursors.\<close>

definition in_range :: "journal_store \<Rightarrow> bool" where
  "in_range s \<longleftrightarrow> int (length (jn_events (jo_journal s))) \<le> sqlite_max
     \<and> int (length (jn_changes (jo_journal s))) \<le> sqlite_max"

lemma reached_readable: "journal_reached st s \<Longrightarrow> in_range s \<Longrightarrow> readable s"
  using reached_ok reached_shape by (auto simp: readable_def in_range_def)

lemma grows_in_range: "journal_grows s t \<Longrightarrow> in_range t \<Longrightarrow> in_range s"
  by (auto simp: journal_grows_def in_range_def dest!: prefix_length_le)

text \<open>The stores of a run at which a client reads.\<close>

definition visited :: "store_settings \<Rightarrow> journal_store list \<Rightarrow> bool" where
  "visited st ss \<longleftrightarrow> ss \<noteq> [] \<and> journal_reached st (hd ss) \<and> sorted_wrt (later st) ss \<and> in_range (last ss)"

lemma visited_feed:
  assumes "visited st ss"
  shows "ss \<noteq> []" "list_all readable ss" "sorted_wrt journal_grows ss" "readable (last ss)"
proof -
  have ss: "ss \<noteq> []" "journal_reached st (hd ss)" "sorted_wrt (later st) ss" "in_range (last ss)"
    using assms by (auto simp: visited_def)
  have reached: "journal_reached st s" if "s \<in> set ss" for s
    using ss(1-3) that reached_later by (cases ss) auto
  have range: "in_range s" if at: "s \<in> set ss" for s
  proof (cases "s = last ss")
    case False
    obtain xs where "ss = xs @ [last ss]" using ss(1) by (metis append_butlast_last_id)
    then have "later st s (last ss)"
      using ss(3) at False by (metis (no_types, lifting) Un_iff list.set_intros(1) set_append set_ConsD
          sorted_wrt_append empty_iff list.set(1))
    then show ?thesis using later_grows grows_in_range ss(4) by blast
  qed (use ss(4) in simp)
  have all: "readable s" if "s \<in> set ss" for s using reached range reached_readable that by blast
  then show "list_all readable ss" "readable (last ss)" using ss(1) by (simp_all add: list_all_iff)
  show "ss \<noteq> []" by (rule ss(1))
  show "sorted_wrt journal_grows ss" by (rule sorted_wrt_mono_rel [OF later_grows ss(3)])
qed

lemma take_rows: "n \<le> length xs \<Longrightarrow> take n (rows_after 0 xs) = enumerate 1 (take n xs)"
  by (simp add: rows_after_def enumerate_eq_zip take_zip take_upt del: upt_Suc)

lemma map_filter_Some: "(\<And>x. x \<in> set xs \<Longrightarrow> f x = Some (g x)) \<Longrightarrow> List.map_filter f xs = map g xs"
  by (induction xs) (simp_all add: map_filter_Cons)

text \<open>
  A client that reads the raw events page by page, each page from the checkpoint of the one
  before and with any calls in between, has read the first events of the journal as it is at the
  last page: every event up to its cursor once and in the order of the cursors.
\<close>

theorem events_read_once:
  assumes "visited st ss" "valid_limit limit"
  shows "\<exists>es n. follow_states (event_feed st limit ''raw'') ss 0 = Some (es, n)
    \<and> map je_event es = take n (jn_events (jo_journal (last ss))) \<and> map je_cursor es = [1..<Suc n]"
proof -
  note feed = visited_feed [OF assms(1)]
  let ?xs = "jn_events (jo_journal (last ss))"
  have good: "list_all (\<lambda>s. readable s \<and> valid_limit limit \<and> valid_view ''raw'') ss"
    using feed(2) assms(2) by (simp add: list_all_iff valid_view_def)
  obtain n where n: "follow_states (event_feed st limit ''raw'') ss 0
      = Some (List.map_filter (shown_entry ''raw'' (last ss)) (take n (rows_after 0 ?xs)), n)" "n \<le> length ?xs"
    using raw_feed.follow_grown [OF feed(1) good feed(3), where k = 0] by auto
  have "List.map_filter (shown_entry ''raw'' (last ss)) (take n (rows_after 0 ?xs))
      = map (\<lambda>(m, e). \<lparr>je_cursor = m, je_event = e, je_result = None\<rparr>) (enumerate 1 (take n ?xs))"
    unfolding take_rows [OF n(2)]
    by (rule map_filter_Some) (auto simp: shown_entry_def view_entry_def)
  moreover have "map je_event (map (\<lambda>(m, e). \<lparr>je_cursor = m, je_event = e, je_result = None\<rparr>) xs) = map snd xs"
    "map je_cursor (map (\<lambda>(m, e). \<lparr>je_cursor = m, je_event = e, je_result = None\<rparr>) xs) = map fst xs" for xs
    by auto
  ultimately show ?thesis using n by (auto simp: min_def simp del: map_map upt_Suc)
qed

text \<open>
  C16. The change feed, read in the same way, delivers the first changes of the journal once and in
  order; and a client that has read it to its end knows, from the changes alone, the considered
  event and author of every request.
\<close>

theorem changes_tell_results:
  assumes "visited st ss" "valid_limit limit"
  shows "\<exists>cs n. follow_states (change_feed st limit) ss 0 = Some (cs, n)
    \<and> map ce_change cs = take n (jn_changes (jo_journal (last ss)))
    \<and> (n = length (jn_changes (jo_journal (last ss))) \<longrightarrow>
        follow_changes (map ce_change cs) = considered (jo_journal (last ss)))"
proof -
  note feed = visited_feed [OF assms(1)]
  let ?s = "last ss" let ?xs = "jn_changes (jo_journal ?s)"
  have good: "list_all (\<lambda>s. readable s \<and> valid_limit limit) ss"
    using feed(2) assms(2) by (simp add: list_all_iff)
  obtain n where n: "follow_states (change_feed st limit) ss 0
      = Some (List.map_filter (shown_change ?s) (take n (rows_after 0 ?xs)), n)" "n \<le> length ?xs"
    using changes_feed.follow_grown [OF feed(1) good feed(3), where k = 0] by auto
  have ok: "journal_ok (jo_journal ?s)" using feed(4) by (simp add: readable_def)
  have "ce_change x = snd row" if "shown_change ?s row = Some x" for row x
    using that by (cases row) (auto simp: shown_change_def decode_change_def split: sum.splits if_splits)
  then have "map ce_change (List.map_filter (shown_change ?s) rows) = map snd rows"
    if "set rows \<subseteq> set (rows_after 0 ?xs)" for rows
    using that changes_shown [OF ok, of _ 0] by (induction rows) (fastforce simp: map_filter_Cons)+
  then have "map ce_change (List.map_filter (shown_change ?s) (take n (rows_after 0 ?xs))) = take n ?xs"
    using set_take_subset [of n "rows_after 0 ?xs"] by (simp add: take_rows [OF n(2)])
  then show ?thesis using n ok by (auto simp: journal_ok_def)
qed

definition plain :: "journal_event \<Rightarrow> bool" where
  "plain e \<longleftrightarrow> (case ev_data e of PlainEvent t d \<Rightarrow> True | ResultEvent d \<Rightarrow> False)"

definition about :: "string \<Rightarrow> journal_event \<Rightarrow> bool" where
  "about q e \<longleftrightarrow> (case ev_data e of PlainEvent t d \<Rightarrow> False | ResultEvent d \<Rightarrow> ob_request d = q)"

definition in_effect :: "journal \<Rightarrow> journal_event \<Rightarrow> bool" where
  "in_effect j e \<longleftrightarrow> plain e \<or> (\<exists>q. about q e \<and> map_option fst (considered j q) = Some (ev_id e))"

lemma shown_in_effect:
  assumes "journal_ok (jo_journal s)" "(n, e) \<in> set (rows_after k (jn_events (jo_journal s)))"
  shows "map_option je_event (shown_entry ''effective'' s (n, e)) = (if in_effect (jo_journal s) e then Some e else None)"
proof (cases "ev_data e")
  case (ResultEvent d)
  obtain r l where r: "map_of (jn_results (jo_journal s)) (ob_request d) = Some r"
      "load_row (jo_journal s) (ob_request d) r = Inr l"
    using journal_results [OF assms(1) in_rows_after [OF assms(2)] ResultEvent] journal_rows [OF assms(1)] by blast
  then have l: "load_result (jo_journal s) (ob_request d) = Inr (Some l)" "rr_effective r = lr_effective l"
    by (simp_all add: load_result_def) (simp add: load_row_Inr)
  obtain x where "view_entry (jo_journal s) ''effective'' (n, e) = Inr x"
    using rows_shown [OF assms] by blast
  then have "ev_id e \<in> set (entry_ids l)"
    using l(1) ResultEvent by (auto simp: view_entry_def effective_entry_def split: if_splits)
  then show ?thesis
    using ResultEvent r(1) l
    by (auto simp: shown_entry_def view_entry_def effective_entry_def in_effect_def plain_def about_def considered_def)
qed (simp add: shown_entry_def view_entry_def effective_entry_def in_effect_def plain_def)

lemma map_filter_kept:
  "(\<And>x. x \<in> set xs \<Longrightarrow> map_option h (f x) = (if p (g x) then Some (g x) else None)) \<Longrightarrow>
     map h (List.map_filter f xs) = filter p (map g xs)"
proof (induction xs)
  case (Cons x xs)
  then show ?case using Cons.prems [of x] by (cases "f x") (auto simp: map_filter_Cons split: if_splits)
qed simp

lemma filter_single: "distinct (map f xs) \<Longrightarrow> x \<in> set xs \<Longrightarrow> filter (\<lambda>y. f y = f x) xs = [x]"
proof (induction xs)
  case (Cons a xs)
  show ?case
  proof (cases "x = a")
    case True
    then have "f y \<noteq> f x" if "y \<in> set xs" for y
      using Cons.prems(1) that by (metis distinct.simps(2) imageI list.set_map list.simps(9))
    then have "filter (\<lambda>y. f y = f x) xs = []" by (simp add: filter_empty_conv)
    then show ?thesis using True by simp
  next
    case False
    then have "f a \<noteq> f x" using Cons.prems by auto
    then show ?thesis using Cons False by simp
  qed
qed simp

lemma considered_event:
  assumes ok: "journal_ok j" and c: "considered j q = Some (k, a)"
  obtains e where "e \<in> set (jn_events j)" "ev_id e = k" "about q e"
proof -
  obtain row where row: "map_of (jn_results j) q = Some row" "rr_effective row = k"
    using c by (auto simp: considered_def)
  then obtain l where l: "load_row j q row = Inr l" using journal_rows [OF ok] by blast
  then have "k \<in> set (entry_ids l)" using row(2) effective_in [of l] by (simp add: load_row_Inr)
  then obtain e d where "event_with j k = Some e" "ev_data e = ResultEvent d" "ob_request d = q"
    using entry_ids_owned [OF l] by metis
  then show ?thesis using that [of e] event_with_id [of j k e] by (simp add: about_def)
qed

text \<open>
  C18. Reading the effective view page by page ends after at most one page more than there are
  events. It gives every ordinary event, in the journal's order, and for every request with a result
  exactly one result event, that of the considered result.
\<close>

theorem effective_view_complete:
  assumes "journal_reached st s" "in_range s" "valid_limit limit"
  defines "j \<equiv> jo_journal s"
  shows "\<exists>es. follow_pages (event_feed st limit ''effective'' s) (length (jn_events j)) (Suc (length (jn_events j))) 0
      = Some es
    \<and> filter plain (map je_event es) = filter plain (jn_events j)
    \<and> (\<forall>q. map ev_id (filter (about q) (map je_event es)) = map fst (some_values [considered j q]))"
proof -
  have ok: "journal_ok j" using reached_ok [OF assms(1)] by (simp add: j_def)
  let ?es = "List.map_filter (shown_entry ''effective'' s) (rows_after 0 (jn_events j))"
  have "follow_pages (event_feed st limit ''effective'' s) (length (jn_events j)) (Suc (length (jn_events j))) 0 = Some ?es"
    unfolding j_def by (rule effective_feed.follow_all)
      (use reached_readable [OF assms(1,2)] assms(3) in \<open>simp_all add: valid_view_def\<close>)
  moreover have es: "map je_event ?es = filter (in_effect j) (jn_events j)"
  proof -
    have "map je_event ?es = filter (in_effect j) (map snd (rows_after 0 (jn_events j)))"
    proof (rule map_filter_kept)
      fix row assume "row \<in> set (rows_after 0 (jn_events j))"
      then show "map_option je_event (shown_entry ''effective'' s row)
          = (if in_effect j (snd row) then Some (snd row) else None)"
        using shown_in_effect [of s "fst row" "snd row" 0] ok unfolding j_def by simp
    qed
    then show ?thesis by (simp add: rows_after_def)
  qed
  moreover have "filter plain (filter (in_effect j) (jn_events j)) = filter plain (jn_events j)"
    by (auto simp: in_effect_def intro: filter_cong)
  moreover have "map ev_id (filter (about q) (filter (in_effect j) (jn_events j))) = map fst (some_values [considered j q])" for q
  proof (cases "considered j q")
    case None
    have "\<not> (about q e \<and> in_effect j e)" for e
      using None by (auto simp: in_effect_def about_def plain_def split: event_data.splits)
    then show ?thesis using None by (auto simp: some_values_def List.map_filter_def filter_empty_conv)
  next
    case (Some c)
    then obtain k a where c: "considered j q = Some (k, a)" by (cases c) simp
    obtain e where e: "e \<in> set (jn_events j)" "ev_id e = k" "about q e"
      using considered_event [OF ok c] .
    have "about q f \<and> in_effect j f \<longleftrightarrow> ev_id f = ev_id e" if f: "f \<in> set (jn_events j)" for f
    proof -
      have "in_effect j f \<longleftrightarrow> ev_id f = k" if "about q f"
        using that c by (cases "ev_data f") (auto simp: in_effect_def about_def plain_def)
      moreover have "f = e" if "ev_id f = ev_id e"
        using ok e(1) f that by (simp add: journal_ok_def ids_distinct_def distinct_map inj_on_def)
      ultimately show ?thesis using e(2,3) by metis
    qed
    then have "filter (about q) (filter (in_effect j) (jn_events j)) = filter (\<lambda>f. ev_id f = ev_id e) (jn_events j)"
      unfolding filter_filter by (intro filter_cong) auto
    also have "\<dots> = [e]"
      by (rule filter_single) (use ok e(1) in \<open>simp_all add: journal_ok_def ids_distinct_def\<close>)
    finally show ?thesis using c e(2) by (simp add: some_values_def List.map_filter_def)
  qed
  ultimately show ?thesis by (intro exI [of _ ?es]) simp
qed

section \<open>Refused writes\<close>

lemma finish_write_refused:
  "finish_write s r = (Inl x, t) \<Longrightarrow> jo_journal t = jo_journal s"
  by (auto simp: finish_write_def split: sum.splits abort.splits)

lemma end_read_failed: "jo_failed s \<Longrightarrow> jo_failed (snd (end_read s r))"
  by (simp add: end_read_def split: sum.split abort.split)

lemma failed_step:
  assumes "jo_failed s"
  shows "jo_journal (journal_step st c s) = jo_journal s \<and> jo_failed (journal_step st c s)"
proof (cases c)
  case (AppendEvent replay e)
  then show ?thesis using assms by (simp add: append_store_def writable_def split: event_data.split)
next
  case (AppendResult e)
  then show ?thesis using assms by (simp add: append_command_result_eq writable_def split: event_data.split)
next
  case (ReadEvents cp limit view)
  then show ?thesis using assms by (simp add: read_events_def end_read_failed split: sum.split)
next
  case (ReadChanges cp limit)
  then show ?thesis using assms by (simp add: read_changes_def end_read_failed split: sum.split)
next
  case (ReadResult q)
  then show ?thesis using assms by (simp add: read_command_result_def end_read_failed)
qed (use assms in \<open>simp add: read_event_batch_def\<close>)


section \<open>A concrete journal\<close>

definition sample_settings :: store_settings where
  "sample_settings = \<lparr>js_size = (\<lambda>e. 100), js_max = Some 1000, js_utc = (\<lambda>s. True),
     js_change_size = (\<lambda>n. 200), js_page = 300\<rparr>"

definition sample_context :: json_object where
  "sample_context = [(''experiment_id'', JStr ''exp''), (''participant_id'', JStr ''stage''),
     (''request_id'', JStr ''req'')]"

definition sample_event :: "string \<Rightarrow> int \<Rightarrow> event_data \<Rightarrow> journal_event" where
  "sample_event i n d = \<lparr>ev_id = i, ev_producer = ''session'', ev_sequence = n,
     ev_occurred = ''2026-01-01T00:00:00+00:00'', ev_context = sample_context, ev_operation = None, ev_data = d\<rparr>"

definition sample_observation :: "author \<Rightarrow> result_outcome \<Rightarrow> command_observation" where
  "sample_observation a out = \<lparr>ob_request = ''req'', ob_author = a, ob_outcome = out,
     ob_response = [(''ok'', JBool True)], ob_ignored = None, ob_supersedes = []\<rparr>"

definition runner_event :: journal_event where
  "runner_event = sample_event ''r'' 1 (ResultEvent (sample_observation RunnerAuthor TimedOut))"

definition participant_event :: journal_event where
  "participant_event = sample_event ''p'' 2 (ResultEvent (sample_observation ParticipantAuthor Succeeded))"

definition sample_start :: journal_store where
  "sample_start = new_store (to_hex 32 1) (to_hex 32 2)"

definition after_result :: "journal_event \<Rightarrow> journal_store \<Rightarrow> journal_store" where
  "after_result e s = snd (append_command_result sample_settings e s)"

lemma copy_ok_object: "is_ok (copy_json_object (embed (JObj d))) \<longleftrightarrow> json_height (JObj d) \<le> 32 \<and> json_printable (JObj d)"
  unfolding is_ok_iff copy_json_object_iff embed_inj by auto

lemma journal_texts [simp]:
  "is_text ''r''" "is_text ''p''" "is_text ''session''" "is_text ''req''" "is_text ''exp''" "is_text ''stage''"
  "is_text ''2026-01-01T00:00:00+00:00''" "is_text ''command.result''"
  by code_simp+

lemma sample_context_ok: "context_ok sample_context"
  by (simp add: context_ok_def copy_ok_object sample_context_def context_item_ok_def context_text_fields_def
      del: embed.simps)

lemma fold_max_const: "set xs \<subseteq> {m} \<Longrightarrow> fold max xs (m :: nat) = m"
  by (induction xs) auto

lemma journal_names [simp]:
  "json_height (name_in author_names a) = 0" "json_printable (name_in author_names a)"
  "json_height (name_in outcome_names out) = 0" "json_printable (name_in outcome_names out)"
  "json_height (dump_nullable JStr x) = 0" "json_printable (dump_nullable JStr x)"
  by (cases a; cases out; cases x; simp add: author_names_def outcome_names_def name_in_def)+

lemma height_list: "json_height (JArr (map (\<lambda>s. JObj [(''event_id'', JStr (f s)), (''ignored'', JStr (g s))]) xs)) \<le> 2"
  by (simp add: fold_max_le)

lemma sample_encodable: "is_text i \<Longrightarrow> 0 < n \<Longrightarrow> n \<le> 10 \<Longrightarrow> ob_response d = [(''ok'', JBool True)] \<Longrightarrow> encodable sample_settings (sample_event i n (ResultEvent d))"
   by (simp add: encodable_def event_document_def copy_ok_object sample_context_ok sample_event_def sample_settings_def observation_document_def event_type_def fold_max_le list_all_iff sample_context_def[symmetric] del: embed.simps) (simp add: sample_context_def)

lemma sample_marked: "encodable sample_settings (with_mark (sample_event i n (ResultEvent (sample_observation a out)))
    (sample_observation a out) loaded)" if "is_text i" "0 < n" "n \<le> 10"
proof -
  let ?d = "mark_superseded (sample_observation a out) (counterpart loaded (ob_author (sample_observation a out)))"
  have "with_mark (sample_event i n (ResultEvent (sample_observation a out))) (sample_observation a out) loaded
      = sample_event i n (ResultEvent ?d)"
    by (simp add: with_mark_def sample_event_def)
  moreover have "ob_response ?d = [(''ok'', JBool True)]"
    by (simp add: mark_superseded_def sample_observation_def split: option.split author.split)
  ultimately show ?thesis using sample_encodable [OF that] by simp
qed

lemma sample_acceptable: "is_text i \<Longrightarrow> 0 < n \<Longrightarrow> n \<le> 10 \<Longrightarrow>
    acceptable sample_settings (sample_event i n (ResultEvent (sample_observation a out))) (sample_observation a out)"
  using sample_encodable [of i n "sample_observation a out"]
  by (simp add: acceptable_def) (simp add: observation_ok_def sample_observation_def sample_event_def sample_context_def dict_get_def text_json_def)

lemma append_result_tables:
  assumes "append_command_result st e s = (r, t)"
  shows "(jn_events (jo_journal t) = jn_events (jo_journal s)
        \<or> (\<exists>g. jn_events (jo_journal t) = jn_events (jo_journal s) @ [g] \<and> ev_id g = ev_id e \<and> ev_sequence g = ev_sequence e))
    \<and> length (jn_changes (jo_journal t)) \<le> Suc (length (jn_changes (jo_journal s)))"
proof -
  have saved: "jn_events j' = jn_events j \<and> length (jn_changes j') = Suc (length (jn_changes j))"
    if "save_result a q i loaded k ao j = Inr (x, j')" for a q i loaded k ao j x j'
    using that by (auto simp: save_result_def Let_def split: sum.splits)
  have inserted: "jn_events j' = jn_events j @ [g] \<and> jn_changes j' = jn_changes j" if "insert_event g j = Some j'" for g j j'
    using that by (simp add: insert_event_Some)
  have "(jn_events j' = jn_events j \<or> (\<exists>g. jn_events j' = jn_events j @ [g] \<and> ev_id g = ev_id e \<and> ev_sequence g = ev_sequence e))
      \<and> length (jn_changes j') \<le> Suc (length (jn_changes j))"
    if "reconcile st e d j = Inr (x, j')" for d j x j'
    using that unfolding reconcile_def Let_def
    by (simp split: sum.splits if_splits option.splits) (auto dest!: saved inserted)
  then show ?thesis
    using assms by (fastforce simp: append_command_result_eq finish_write_def
        split: event_data.splits if_splits sum.splits abort.splits)
qed

lemma append_result_events:
  assumes "append_command_result st e s = (r, t)" "f \<in> set (jn_events (jo_journal t))"
  shows "f \<in> set (jn_events (jo_journal s)) \<or> ev_id f = ev_id e \<and> ev_sequence f = ev_sequence e"
  using append_result_tables [OF assms(1)] assms(2) by auto

lemma append_result_open: "append_command_result st e s = (Inr k, t) \<Longrightarrow> writable t"
  by (auto simp: append_command_result_eq finish_write_def writable_def split: event_data.splits if_splits sum.splits abort.splits)

lemma sample_stored:
  assumes "journal_reached sample_settings s" "writable s" "is_text i" "0 < n" "n \<le> 10"
    and "\<And>f. f \<in> set (jn_events (jo_journal s)) \<Longrightarrow> ev_id f \<noteq> i \<and> ev_sequence f \<noteq> n"
    and "report_to ''req'' (request_identity sample_context) a (response_key (sample_observation a out)) (store_register s) \<noteq> None"
  shows "\<exists>k t. append_command_result sample_settings (sample_event i n (ResultEvent (sample_observation a out))) s = (Inr k, t)"
proof -
  let ?e = "sample_event i n (ResultEvent (sample_observation a out))"
  have "\<not> used_event (jo_journal s) ?e"
    using assms(6) by (auto simp: used_event_def sample_event_def)
  then show ?thesis
    using result_reports [OF assms(1,2) sample_acceptable [OF assms(3-5)], of a out] sample_marked [OF assms(3-5)] assms(7)
    by (auto simp: sample_event_def sample_observation_def split: option.splits)
qed

lemma sample_start_facts [simp]:
  "journal_reached sample_settings sample_start" "writable sample_start" "store_register sample_start = (\<lambda>q. None)"
  "jn_events (jo_journal sample_start) = []" "jn_changes (jo_journal sample_start) = []"
proof -
  show "journal_reached sample_settings sample_start"
    unfolding sample_start_def hex_id_def
    by (rule journal_reached.new; unfold hex_id_def, rule exI, rule conjI [OF _ refl]) (simp_all add: uuid_limit_def)
qed (simp_all add: sample_start_def new_store_def writable_def store_register_def register_of_def load_result_def fun_eq_iff)

lemma after_result_run:
  "append_command_result sample_settings e s = (Inr k, t) \<Longrightarrow>
     append_command_result sample_settings e s = (Inr k, after_result e s)"
  by (simp add: after_result_def)

text \<open>The two events can be stored after each other in either order.\<close>

lemma sample_report:
  "report_to ''req'' i a k (\<lambda>q. None) = Some R \<Longrightarrow> a \<noteq> b \<Longrightarrow> report_to ''req'' i b m R \<noteq> None"
  by (auto simp: report_to_def)

lemma sample_first:
  "\<exists>k. append_command_result sample_settings runner_event sample_start = (Inr k, after_result runner_event sample_start)"
  "\<exists>k. append_command_result sample_settings participant_event sample_start = (Inr k, after_result participant_event sample_start)"
  using sample_stored [of sample_start "''r''" 1 RunnerAuthor TimedOut]
    sample_stored [of sample_start "''p''" 2 ParticipantAuthor Succeeded] after_result_run
  unfolding runner_event_def participant_event_def by (fastforce simp: report_to_def)+

lemma sample_event_data [simp]:
  "ev_data (sample_event i n d) = d" "ev_id (sample_event i n d) = i" "ev_sequence (sample_event i n d) = n"
  "ev_context (sample_event i n d) = sample_context"
  "ob_request (sample_observation a out) = ''req''" "ob_author (sample_observation a out) = a"
  by (simp_all add: sample_event_def sample_observation_def)

lemma sample_after:
  assumes run: "append_command_result sample_settings (sample_event i n (ResultEvent (sample_observation a out))) sample_start
      = (Inr k, t)"
    and new: "a \<noteq> b" "i \<noteq> i'" "n \<noteq> n'" "is_text i'" "0 < n'" "n' \<le> 10"
  shows "\<exists>m. append_command_result sample_settings (sample_event i' n' (ResultEvent (sample_observation b out'))) t
    = (Inr m, after_result (sample_event i' n' (ResultEvent (sample_observation b out'))) t)"
proof -
  note stored = stored_reports [OF sample_start_facts(1) sample_event_data(1) run, simplified]
  have "ev_id f \<noteq> i' \<and> ev_sequence f \<noteq> n'" if "f \<in> set (jn_events (jo_journal t))" for f
    using append_result_events [OF run that] new by simp
  then show ?thesis
    using sample_stored [OF stored(2) append_result_open [OF run] new(4-6) _ sample_report [OF stored(1) new(1)]]
      after_result_run by blast
qed

lemma sample_second:
  "\<exists>k. append_command_result sample_settings participant_event (after_result runner_event sample_start)
    = (Inr k, after_result participant_event (after_result runner_event sample_start))"
  "\<exists>k. append_command_result sample_settings runner_event (after_result participant_event sample_start)
    = (Inr k, after_result runner_event (after_result participant_event sample_start))"
proof -
  obtain k where "append_command_result sample_settings runner_event sample_start = (Inr k, after_result runner_event sample_start)"
    using sample_first(1) by blast
  from sample_after [OF this [unfolded runner_event_def], of ParticipantAuthor "''p''" 2 Succeeded]
  show "\<exists>k. append_command_result sample_settings participant_event (after_result runner_event sample_start)
      = (Inr k, after_result participant_event (after_result runner_event sample_start))"
    by (simp add: runner_event_def participant_event_def)
  obtain k where "append_command_result sample_settings participant_event sample_start = (Inr k, after_result participant_event sample_start)"
    using sample_first(2) by blast
  from sample_after [OF this [unfolded participant_event_def], of RunnerAuthor "''r''" 1 TimedOut]
  show "\<exists>k. append_command_result sample_settings runner_event (after_result participant_event sample_start)
      = (Inr k, after_result runner_event (after_result participant_event sample_start))"
    by (simp add: runner_event_def participant_event_def)
qed

section \<open>Witnesses\<close>

lemma after_runner_reached: "journal_reached sample_settings (after_result runner_event sample_start)"
  using journal_reached.call [OF sample_start_facts(1), of "AppendResult runner_event"] by (simp add: after_result_def)

lemma after_runner_range: "in_range (after_result runner_event sample_start)"
  using sample_first(1) append_result_tables [of sample_settings runner_event sample_start]
  by (fastforce simp: in_range_def sqlite_max_def)

theorem read_result_considered_witness:
  "\<exists>r. read_command_result ''req'' (after_result runner_event sample_start)
      = (Inr r, after_result runner_event sample_start)
    \<and> map_option (\<lambda>x. response_key (cr_result x)) r
        = register_considered (store_register (after_result runner_event sample_start)) ''req''"
  using read_result_considered [OF after_runner_reached, of "''req''"] by auto

theorem result_reports_refine_witness:
  "\<exists>k t. append_command_result sample_settings runner_event sample_start = (Inr k, t)
     \<and> report_to ''req'' (request_identity sample_context) RunnerAuthor
         (response_key (sample_observation RunnerAuthor TimedOut)) (store_register sample_start) = Some (store_register t)"
proof -
  obtain k t where run: "append_command_result sample_settings runner_event sample_start = (Inr k, t)"
    using sample_first(1) by blast
  have "acceptable sample_settings runner_event (sample_observation RunnerAuthor TimedOut)"
    unfolding runner_event_def by (rule sample_acceptable) simp_all
  from result_reports_refine [OF sample_start_facts(1,2) this] run
  show ?thesis by (auto simp: runner_event_def split: option.splits)
qed

lemma runner_reported:
  "reported (store_register (after_result runner_event sample_start)) ''req'' RunnerAuthor
    = Some (response_key (sample_observation RunnerAuthor TimedOut))"
proof -
  obtain k where run: "append_command_result sample_settings runner_event sample_start
      = (Inr k, after_result runner_event sample_start)"
    using sample_first(1) by blast
  show ?thesis
    using report_known [OF stored_reports(1) [OF sample_start_facts(1) _ run, of "sample_observation RunnerAuthor TimedOut"]]
    by (simp add: runner_event_def)
qed

theorem first_report_stands_witness:
  "reported (store_register (fold (journal_step sample_settings) [AppendResult participant_event, ReadResult ''req'']
       (after_result runner_event sample_start))) ''req'' RunnerAuthor
    = Some (response_key (sample_observation RunnerAuthor TimedOut))"
  using first_report_stands [OF after_runner_reached] runner_reported by blast

theorem authors_commute_witness:
  "store_register (after_result participant_event (after_result runner_event sample_start))
     = store_register (after_result runner_event (after_result participant_event sample_start))
   \<and> register_considered (store_register (after_result participant_event (after_result runner_event sample_start))) ''req''
     = Some (response_key (sample_observation RunnerAuthor TimedOut))"
proof -
  have data: "ev_data runner_event = ResultEvent (sample_observation RunnerAuthor TimedOut)"
    "ev_data participant_event = ResultEvent (sample_observation ParticipantAuthor Succeeded)"
    by (simp_all add: runner_event_def participant_event_def)
  obtain k1 k2 m1 m2 where
    "append_command_result sample_settings runner_event sample_start = (Inr k1, after_result runner_event sample_start)"
    "append_command_result sample_settings participant_event (after_result runner_event sample_start)
      = (Inr k2, after_result participant_event (after_result runner_event sample_start))"
    "append_command_result sample_settings participant_event sample_start
      = (Inr m1, after_result participant_event sample_start)"
    "append_command_result sample_settings runner_event (after_result participant_event sample_start)
      = (Inr m2, after_result runner_event (after_result participant_event sample_start))"
    using sample_first sample_second by blast
  from authors_commute [OF sample_start_facts(1) data _ _ _ this, unfolded sample_event_data, OF refl refl refl]
  show ?thesis .
qed

lemma sample_visited: "visited sample_settings [sample_start, after_result runner_event sample_start]"
proof -
  have "later sample_settings sample_start (after_result runner_event sample_start)"
    unfolding later_def by (rule exI [of _ "[AppendResult runner_event]"]) (simp add: after_result_def)
  then show ?thesis using after_runner_range by (simp add: visited_def)
qed

theorem events_read_once_witness:
  "\<exists>es n. follow_states (event_feed sample_settings 1 ''raw'')
      [sample_start, after_result runner_event sample_start] 0 = Some (es, n)
    \<and> map je_event es = take n (jn_events (jo_journal (after_result runner_event sample_start)))"
  using events_read_once [OF sample_visited, of 1] by (auto simp: valid_limit_def)

theorem changes_tell_results_witness:
  "\<exists>cs n. follow_states (change_feed sample_settings 1)
      [sample_start, after_result runner_event sample_start] 0 = Some (cs, n)
    \<and> map ce_change cs = take n (jn_changes (jo_journal (after_result runner_event sample_start)))"
  using changes_tell_results [OF sample_visited, of 1] by (auto simp: valid_limit_def)

theorem effective_view_complete_witness:
  "\<exists>es. follow_pages (event_feed sample_settings 1 ''effective'' (after_result runner_event sample_start))
      (length (jn_events (jo_journal (after_result runner_event sample_start))))
      (Suc (length (jn_events (jo_journal (after_result runner_event sample_start))))) 0 = Some es
    \<and> map ev_id (filter (about ''req'') (map je_event es))
        = map fst (some_values [considered (jo_journal (after_result runner_event sample_start)) ''req''])"
  using effective_view_complete [OF after_runner_reached after_runner_range, of 1] by (auto simp: valid_limit_def)


end
