(* ===== verification/Service_Queue.thy ===== *)
theory Service_Queue
  imports Journal_Store
begin

text \<open>
  The request queue of \<^verbatim>\<open>ServiceManager\<close> in \<^verbatim>\<open>core/experiments/services.py\<close>: admission, sending,
  replies, timeouts, cancellation and the retirement of requests when a service stops.

  The manager's coroutines share one event loop. A coroutine is modelled by its segments between
  two awaits: \<open>sm_tasks\<close> holds the suspended ones with the local variables they resume with,
  \<open>Resume\<close> runs the next segment of one of them when the awaited write has ended, and
  the other events start a coroutine. Any order of events is a possible interleaving, but there is
  at most one monitor. \<open>sm_log\<close> lists the committed journal entries and the effects on callers.

  Of the runner's state the model has the services and the used request IDs. The instance of a
  service stays the same object: starting and replacing instances is left to the supervision.
\<close>

section \<open>Requests\<close>

datatype queue_effect =
    EffQueued string service_request
  | EffIntent string service_request
  | EffSent string service_request
  | EffOutcome string string json_object result_outcome
  | EffRetired string string json_object
  | EffResolved string
  | EffAbandoned string string
  | EffUnrecorded string string
  | EffMessage string string
  | EffIgnored string string string
  | EffRestart string
  | EffPolicy blocked_action
  | EffMonitorFailed exn

text \<open>Where a coroutine goes on after \<^verbatim>\<open>_finish_request\<close>, and after saving the state.\<close>

datatype after_finish =
    FinExpire
  | FinCancel
  | FinWork
  | FinStop "service_request list"

datatype after_save =
    SaveExpire string
  | SaveSent string service_request
  | SaveCancel string string bool
  | SaveDone

datatype after_timeout = TimeoutOnly | TimeoutReply bool json

datatype queue_task =
    AdmitTask string service_request
  | FinishTask string service_request json_object result_outcome after_finish
  | SaveTask after_save
  | IntentTask string service_request
  | StartedTask string service_request
  | MessageTask string string bool json
  | ExpireTask string service_request after_timeout
  | IgnoreTask string service_request
  | InterruptTask string string
  | ExchangeTask string string

record service_manager =
  sm_services :: "(string, path service_instance) pydict"
  sm_used :: "string fset"
  sm_waiters :: "string list"
  sm_snapshot :: "string option"
  sm_closed :: bool
  sm_pending_action :: "blocked_action option"
  sm_sends :: "(string \<times> string) list"
  sm_recovery :: "(string, rat) pydict"
  sm_tasks :: "queue_task list"
  sm_log :: "queue_effect list"

text \<open>The clock of an event: monotonic time, the journal's recovery seconds, the wall clock and a fresh UUID.\<close>

record queue_clock =
  ck_now :: rat
  ck_recovered :: rat
  ck_wall :: string
  ck_uuid :: string

definition on_service ::
    "string \<Rightarrow> (path service_instance \<Rightarrow> path service_instance) \<Rightarrow> service_manager \<Rightarrow> service_manager" where
  "on_service sid f m = m\<lparr>sm_services := map (\<lambda>(k, i). (k, if k = sid then f i else i)) (sm_services m)\<rparr>"

definition note_effect :: "queue_effect \<Rightarrow> service_manager \<Rightarrow> service_manager" where
  "note_effect e m = m\<lparr>sm_log := sm_log m @ [e]\<rparr>"

definition spawn :: "queue_task \<Rightarrow> service_manager \<Rightarrow> service_manager" where
  "spawn t m = m\<lparr>sm_tasks := sm_tasks m @ [t]\<rparr>"

section \<open>Admission\<close>

definition control_commands :: "string list" where
  "control_commands = [''heartbeat'', ''shutdown'', ''command_state'', ''interrupt'']"

definition barrier_commands :: "string list" where
  "barrier_commands = [''freeze_writes'', ''save_state'', ''unfreeze_writes'']"

definition instance_commands :: "string list" where
  "instance_commands = [''freeze_writes'', ''save_state'', ''unfreeze_writes'', ''load_state'']"

definition instance_requests :: "path service_instance \<Rightarrow> service_request list" where
  "instance_requests i = si_pending i @ (case si_active i of None \<Rightarrow> [] | Some a \<Rightarrow> [a])"

text \<open>\<^verbatim>\<open>_validate_enqueue\<close>\<close>

definition validate_enqueue ::
    "string \<Rightarrow> json_object \<Rightarrow> string \<Rightarrow> service_manager \<Rightarrow> unit result" where
  "validate_enqueue command args request m =
     (if \<not> is_text command \<or> List.member control_commands command then Inl ValueError
      else if (case sm_snapshot m of
                 None \<Rightarrow> False
               | Some s \<Rightarrow> \<not> List.member barrier_commands command
                   \<or> dict_get args ''snapshot_id'' JNull \<noteq> JStr s)
      then Inl RuntimeError
      else if \<not> is_uuid request then Inl ValueError
      else if request |\<in>| sm_used m then Inl ValueError
      else if List.member (sm_waiters m) request
           \<or> list_ex (\<lambda>i. list_ex (\<lambda>e. rq_id e = request) (instance_requests i)) (dict_values (sm_services m))
      then Inl ValueError
      else Inr ())"

text \<open>\<^verbatim>\<open>_prepare_queue_entry\<close>\<close>

definition new_request ::
    "queue_clock \<Rightarrow> string \<Rightarrow> string \<Rightarrow> json_object \<Rightarrow> request_owner \<Rightarrow> rat option \<Rightarrow> string \<Rightarrow> service_request" where
  "new_request ck request command args owner deadline instance_id =
     \<lparr>rq_owner = owner, rq_id = request, rq_command = command, rq_args = args, rq_queued = ck_now ck,
      rq_deadline = deadline, rq_sent = None, rq_instance_id = None, rq_timed_out = False,
      rq_extra = (''sent_at'', JNull) #
        (if owner = CallerOwned \<or> List.member instance_commands command
         then [(''expected_instance'', JStr instance_id)] else [])\<rparr>"

definition prepare_entry ::
    "queue_clock \<Rightarrow> string \<Rightarrow> string \<Rightarrow> string \<Rightarrow> json_object \<Rightarrow> request_owner \<Rightarrow> rat option
     \<Rightarrow> (service_manager, service_request) py" where
  "prepare_entry ck sid request command args owner deadline = py_read (\<lambda>m.
     py_bind (py_lift (dict_item (sm_services m) sid)) (\<lambda>i.
       if sm_closed m \<or> si_manually_stopped i \<or> si_stopped i \<or> si_stopping i then py_raise RuntimeError
       else py_then (py_lift (validate_enqueue command args request m))
           (py_then (py_modify (\<lambda>m. m\<lparr>sm_used := finsert request (sm_used m)\<rparr>))
           (py_bind (py_lift (copy_json_object (embed (JObj args)))) (\<lambda>args.
              py_then (py_modify (\<lambda>m. m\<lparr>sm_recovery := AList.update request (ck_recovered ck) (sm_recovery m)\<rparr>))
                (py_return (new_request ck request command args owner deadline (si_instance_id i))))))))"

text \<open>\<^verbatim>\<open>_publish_queue_entry\<close>, after the admission has been committed.\<close>

definition publish_entry :: "string \<Rightarrow> service_request \<Rightarrow> service_manager \<Rightarrow> service_manager" where
  "publish_entry sid e m =
     on_service sid (\<lambda>i. i\<lparr>si_pending := si_pending i @ [e]\<rparr>)
       ((note_effect (EffQueued sid e) m)\<lparr>sm_waiters := sm_waiters m @ [rq_id e]\<rparr>)"

section \<open>Retiring requests\<close>

definition fail_response :: "string \<Rightarrow> json_object" where
  "fail_response reason = [(''result'', JStr ''fail''), (''data'', JObj [(''reason'', JStr reason)])]"

text \<open>The rest of \<^verbatim>\<open>_finish_request\<close>: the waiter gets the result.\<close>

definition resolve_waiter :: "string \<Rightarrow> service_manager \<Rightarrow> service_manager" where
  "resolve_waiter request m =
     (if List.member (sm_waiters m) request
      then note_effect (EffResolved request) (m\<lparr>sm_waiters := removeAll request (sm_waiters m)\<rparr>) else m)"

text \<open>The start of \<^verbatim>\<open>_finish_request\<close>: what it writes to the journal, if anything.\<close>

definition outcome_effect ::
    "string \<Rightarrow> service_request \<Rightarrow> json_object \<Rightarrow> result_outcome \<Rightarrow> queue_effect option" where
  "outcome_effect sid e response out =
     (if rq_owner e = ServiceOwned
      then if rq_timed_out e then None else Some (EffOutcome sid (rq_id e) response out)
      else Some (EffRetired sid (rq_id e) response))"

definition set_active :: "string \<Rightarrow> service_request option \<Rightarrow> service_manager \<Rightarrow> service_manager" where
  "set_active sid a = on_service sid (\<lambda>i. i\<lparr>si_active := a\<rparr>)"

text \<open>\<^verbatim>\<open>_cancel_service_stop_requests\<close> retires the requests one after the other.\<close>

fun retire_next :: "string \<Rightarrow> service_request list \<Rightarrow> service_manager \<Rightarrow> service_manager" where
  "retire_next sid [] m = on_service sid (\<lambda>i. i\<lparr>si_stopping := False\<rparr>) m"
| "retire_next sid (e # es) m =
     (let out = (if rq_sent e = None then Cancelled else Failed);
          response = fail_response ''service_stopped''
      in case outcome_effect sid e response out of
           None \<Rightarrow> retire_next sid es (resolve_waiter (rq_id e) m)
         | Some _ \<Rightarrow> spawn (FinishTask sid e response out (FinStop es)) m)"

definition after_finished :: "string \<Rightarrow> after_finish \<Rightarrow> service_manager \<Rightarrow> service_manager" where
  "after_finished sid k m =
     (case k of
        FinExpire \<Rightarrow> spawn (SaveTask (SaveExpire sid)) m
      | FinCancel \<Rightarrow> spawn (SaveTask SaveDone) m
      | FinWork \<Rightarrow> set_active sid None m
      | FinStop es \<Rightarrow> retire_next sid es m)"

definition finish_request ::
    "string \<Rightarrow> service_request \<Rightarrow> json_object \<Rightarrow> result_outcome \<Rightarrow> after_finish \<Rightarrow> service_manager \<Rightarrow> service_manager" where
  "finish_request sid e response out k m =
     (case outcome_effect sid e response out of
        None \<Rightarrow> after_finished sid k (resolve_waiter (rq_id e) m)
      | Some _ \<Rightarrow> spawn (FinishTask sid e response out k) m)"

section \<open>Sending\<close>

text \<open>\<^verbatim>\<open>_request_deadline\<close>: time the journal spent recovering does not count.\<close>

definition recovery_baseline :: "queue_clock \<Rightarrow> string \<Rightarrow> service_manager \<Rightarrow> rat" where
  "recovery_baseline ck request m = dict_get (sm_recovery m) request (ck_recovered ck)"

definition request_expired :: "queue_clock \<Rightarrow> service_request \<Rightarrow> service_manager \<Rightarrow> bool" where
  "request_expired ck e m =
     (case rq_deadline e of
        None \<Rightarrow> False
      | Some d \<Rightarrow> d + max 0 (ck_recovered ck - recovery_baseline ck (rq_id e) m) \<le> ck_now ck)"

definition keep_baseline :: "queue_clock \<Rightarrow> service_request \<Rightarrow> service_manager \<Rightarrow> service_manager" where
  "keep_baseline ck e m =
     (if rq_deadline e = None \<or> has_key (sm_recovery m) (rq_id e) then m
      else m\<lparr>sm_recovery := AList.update (rq_id e) (ck_recovered ck) (sm_recovery m)\<rparr>)"

text \<open>The loop of \<^verbatim>\<open>_send_next\<close> up to its next await.\<close>

definition send_loop :: "queue_clock \<Rightarrow> string \<Rightarrow> service_manager \<Rightarrow> service_manager" where
  "send_loop ck sid m =
     (case map_of (sm_services m) sid of
        None \<Rightarrow> m
      | Some i \<Rightarrow>
          (case si_pending i of
             [] \<Rightarrow> m
           | e # es \<Rightarrow>
               (let m = keep_baseline ck e m
                in if request_expired ck e m
                   then finish_request sid e (fail_response ''queue_timeout'') TimedOut FinExpire
                          (on_service sid (\<lambda>i. i\<lparr>si_pending := es\<rparr>) m)
                   else spawn (IntentTask sid e) m)))"

definition send_next :: "queue_clock \<Rightarrow> string \<Rightarrow> service_manager \<Rightarrow> service_manager" where
  "send_next ck sid m =
     (case map_of (sm_services m) sid of
        None \<Rightarrow> m
      | Some i \<Rightarrow> if \<not> si_ready i \<or> si_stopping i \<or> si_active i \<noteq> None then m else send_loop ck sid m)"

definition sent_request :: "queue_clock \<Rightarrow> string \<Rightarrow> service_request \<Rightarrow> service_request" where
  "sent_request ck instance_id e =
     e\<lparr>rq_instance_id := Some instance_id, rq_sent := Some (ck_now ck),
       rq_extra := AList.update ''sent_at'' (JStr (ck_wall ck)) (rq_extra e)\<rparr>"

text \<open>The segment of \<^verbatim>\<open>_send_next\<close> after the intent has been committed; \<^verbatim>\<open>pop(0)\<close> may fail.\<close>

definition take_request :: "queue_clock \<Rightarrow> string \<Rightarrow> service_request \<Rightarrow> service_manager \<Rightarrow> service_manager" where
  "take_request ck sid e m =
     (case map_of (sm_services m) sid of
        None \<Rightarrow> m
      | Some i \<Rightarrow>
          (let e' = sent_request ck (si_instance_id i) e
           in case si_pending i of
                [] \<Rightarrow> note_effect (EffMonitorFailed IndexError) m
              | _ # es \<Rightarrow> spawn (SaveTask (SaveSent sid e'))
                  (on_service sid (\<lambda>i. i\<lparr>si_pending := es, si_active := Some e'\<rparr>) m)))"

section \<open>Timeouts\<close>

definition seconds :: "number \<Rightarrow> rat" where
  "seconds n = number_value n"

definition overdue :: "queue_clock \<Rightarrow> path service_instance \<Rightarrow> service_request \<Rightarrow> bool" where
  "overdue ck i a =
     (rq_owner a = ServiceOwned \<and> \<not> rq_timed_out a
      \<and> (case rq_sent a of None \<Rightarrow> False
         | Some sent \<Rightarrow> seconds (sv_command_timeout (si_definition i)) \<le> ck_now ck - sent))"

text \<open>\<^verbatim>\<open>_handle_timeout\<close> after the outcome of the timed-out request has been committed.\<close>

definition accept_timeout :: "string \<Rightarrow> service_request \<Rightarrow> service_manager \<Rightarrow> service_manager" where
  "accept_timeout sid a m =
     (let m = set_active sid (Some (a\<lparr>rq_timed_out := True\<rparr>)) m
      in case map_of (sm_services m) sid of
           None \<Rightarrow> m
         | Some i \<Rightarrow>
             (case sv_on_command_timeout (si_definition i) of
                TimeoutRestart \<Rightarrow> m
              | TimeoutPause \<Rightarrow> resolve_waiter (rq_id a)
                  ((on_service sid (\<lambda>i. i\<lparr>si_blocked := Some BlockedPause\<rparr>) m)\<lparr>sm_pending_action := Some BlockedPause\<rparr>)
              | TimeoutStop \<Rightarrow> resolve_waiter (rq_id a)
                  ((on_service sid (\<lambda>i. i\<lparr>si_blocked := Some BlockedStop\<rparr>) m)\<lparr>sm_pending_action := Some BlockedStop\<rparr>)))"

section \<open>Replies\<close>

definition reply_document :: "bool \<Rightarrow> json \<Rightarrow> json_object" where
  "reply_document success data =
     [(''result'', JStr (if success then ''success'' else ''fail'')), (''data'', data)]"

text \<open>The rest of \<^verbatim>\<open>_handle_work_observation\<close> for the active request.\<close>

definition handle_work :: "string \<Rightarrow> bool \<Rightarrow> json \<Rightarrow> service_manager \<Rightarrow> service_manager" where
  "handle_work sid success data m =
     (case Option.bind (map_of (sm_services m) sid) si_active of
        None \<Rightarrow> m
      | Some a \<Rightarrow>
          if rq_timed_out a then spawn (IgnoreTask sid a) m
          else finish_request sid a (reply_document success data) (if success then Succeeded else Failed)
                 FinWork m)"

text \<open>\<^verbatim>\<open>_handle_observation\<close> after the message has been committed.\<close>

definition handle_message ::
    "queue_clock \<Rightarrow> string \<Rightarrow> string \<Rightarrow> bool \<Rightarrow> json \<Rightarrow> service_manager \<Rightarrow> service_manager" where
  "handle_message ck sid request success data m =
     (case map_of (sm_services m) sid of
        None \<Rightarrow> m
      | Some i \<Rightarrow>
          (case si_active i of
             None \<Rightarrow> note_effect (EffIgnored sid request ''retired_or_unknown_request'') m
           | Some a \<Rightarrow>
               if rq_id a \<noteq> request
               then note_effect (EffIgnored sid request ''retired_or_unknown_request'') m
               else if overdue ck i a then spawn (ExpireTask sid a (TimeoutReply success data)) m
               else handle_work sid success data m))"

text \<open>A late reply releases the service, it never changes the timed-out outcome.\<close>

definition release_late :: "string \<Rightarrow> service_request \<Rightarrow> service_manager \<Rightarrow> service_manager" where
  "release_late sid a m =
     (case map_of (sm_services m) sid of
        None \<Rightarrow> m
      | Some i \<Rightarrow>
          if rq_owner a = ServiceOwned \<and> sv_on_command_timeout (si_definition i) = TimeoutRestart
          then note_effect (EffRestart sid)
                 (on_service sid (\<lambda>i. i\<lparr>si_failure := Some \<lparr>sf_code = ''service_failure'',
                      sf_message = ''Timed-out command requires an explicit restart.''\<rparr>\<rparr>) m)
          else set_active sid None
                 (on_service sid (\<lambda>i. i\<lparr>si_blocked :=
                    if si_blocked i = Some BlockedPause then None else si_blocked i\<rparr>) m))"

section \<open>Cancellation\<close>

definition cancel_queued :: "string \<Rightarrow> service_request \<Rightarrow> service_manager \<Rightarrow> service_manager" where
  "cancel_queued sid e m =
     finish_request sid e (fail_response ''cancelled_before_send'') Cancelled FinCancel
       (on_service sid (\<lambda>i. i\<lparr>si_pending := remove1 e (si_pending i)\<rparr>) m)"

definition abandon_waiter :: "string \<Rightarrow> string \<Rightarrow> service_manager \<Rightarrow> service_manager" where
  "abandon_waiter sid request m =
     note_effect (EffAbandoned sid request) (m\<lparr>sm_waiters := removeAll request (sm_waiters m)\<rparr>)"

definition cancel_request :: "string \<Rightarrow> string \<Rightarrow> bool \<Rightarrow> service_manager \<Rightarrow> service_manager" where
  "cancel_request sid request interrupt m =
     (case map_of (sm_services m) sid of
        None \<Rightarrow> m
      | Some i \<Rightarrow>
          (case find (\<lambda>e. rq_id e = request) (si_pending i) of
             Some e \<Rightarrow> cancel_queued sid e m
           | None \<Rightarrow>
               (case si_active i of
                  None \<Rightarrow> m
                | Some a \<Rightarrow>
                    if rq_id a \<noteq> request then m
                    else spawn (SaveTask (SaveCancel sid request interrupt))
                           (abandon_waiter sid request (set_active sid (Some (a\<lparr>rq_timed_out := True\<rparr>)) m)))))"

definition after_cancel_saved :: "queue_clock \<Rightarrow> string \<Rightarrow> string \<Rightarrow> bool \<Rightarrow> service_manager \<Rightarrow> service_manager" where
  "after_cancel_saved ck sid request interrupt m =
     (case map_of (sm_services m) sid of
        None \<Rightarrow> m
      | Some i \<Rightarrow>
          if si_stopped i \<or> \<not> interrupt then m
          else spawn (InterruptTask sid request) (m\<lparr>sm_used := finsert (ck_uuid ck) (sm_used m)\<rparr>))"

section \<open>Stopping\<close>

definition begin_stop :: "string \<Rightarrow> service_manager \<Rightarrow> service_manager" where
  "begin_stop sid m =
     on_service sid (\<lambda>i. i\<lparr>si_ready := False, si_stopping := True\<rparr>)
       (m\<lparr>sm_sends := filter (\<lambda>(r, s). s \<noteq> sid) (sm_sends m)\<rparr>)"

text \<open>
  \<^verbatim>\<open>_stop_service\<close> once the exit has been confirmed or given up, with
  \<^verbatim>\<open>_cancel_service_stop_requests\<close>.
\<close>

definition confirm_stop :: "string \<Rightarrow> bool \<Rightarrow> service_manager \<Rightarrow> service_manager" where
  "confirm_stop sid stopped m =
     (if stopped then on_service sid (\<lambda>i. i\<lparr>si_stopped := True\<rparr>) m
      else (on_service sid (\<lambda>i. i\<lparr>si_failure := Some \<lparr>sf_code = ''service_failure'',
                sf_message = ''Service termination is unconfirmed.''\<rparr>, si_blocked := Some BlockedStop\<rparr>) m)
           \<lparr>sm_pending_action := Some BlockedStop\<rparr>)"

definition end_stop :: "string \<Rightarrow> bool \<Rightarrow> bool \<Rightarrow> service_manager \<Rightarrow> service_manager" where
  "end_stop sid stopped preserve m =
     (case map_of (sm_services m) sid of
        None \<Rightarrow> m
      | Some i \<Rightarrow>
          retire_next sid ((case si_active i of None \<Rightarrow> [] | Some a \<Rightarrow> [a]) @ (if preserve then [] else si_pending i))
            (on_service sid (\<lambda>i. i\<lparr>si_active := None, si_pending := if preserve then si_pending i else []\<rparr>)
               (confirm_stop sid stopped m)))"

section \<open>The event loop\<close>

text \<open>What \<^verbatim>\<open>monitor\<close> does for one service that is not being started, stopped or restarted.\<close>

definition monitor_service :: "queue_clock \<Rightarrow> string \<Rightarrow> service_manager \<Rightarrow> service_manager" where
  "monitor_service ck sid m =
     (case map_of (sm_services m) sid of
        None \<Rightarrow> m
      | Some i \<Rightarrow>
          if si_manually_stopped i \<or> si_stopped i \<or> si_stopping i then m
          else if si_failure i \<noteq> None
          then (let m = on_service sid (\<lambda>i. i\<lparr>si_ready := False\<rparr>) m
                in if si_blocked i = None then note_effect (EffRestart sid) m else m)
          else (case si_active i of
                  Some a \<Rightarrow>
                    if overdue ck i a then spawn (ExpireTask sid a TimeoutOnly) m
                    else if si_ready i \<and> si_blocked i = None then send_next ck sid m else m
                | None \<Rightarrow> if si_ready i \<and> si_blocked i = None then send_next ck sid m else m))"

definition monitor_task :: "queue_task \<Rightarrow> bool" where
  "monitor_task t =
     (case t of
        FinishTask sid e response out k \<Rightarrow> (case k of FinExpire \<Rightarrow> True | FinWork \<Rightarrow> True | _ \<Rightarrow> False)
      | SaveTask k \<Rightarrow> (case k of SaveExpire sid \<Rightarrow> True | SaveSent sid e \<Rightarrow> True | _ \<Rightarrow> False)
      | IntentTask sid e \<Rightarrow> True
      | StartedTask sid e \<Rightarrow> True
      | MessageTask sid request success data \<Rightarrow> True
      | ExpireTask sid a k \<Rightarrow> True
      | IgnoreTask sid a \<Rightarrow> True
      | _ \<Rightarrow> False)"

definition monitor_busy :: "service_manager \<Rightarrow> bool" where
  "monitor_busy m = list_ex monitor_task (sm_tasks m)"

text \<open>After a timeout found by the monitor itself, it returns the policy's action or restarts.\<close>

definition after_timeout_policy :: "string \<Rightarrow> service_manager \<Rightarrow> service_manager" where
  "after_timeout_policy sid m =
     (case map_of (sm_services m) sid of
        None \<Rightarrow> m
      | Some i \<Rightarrow>
          (case sv_on_command_timeout (si_definition i) of
             TimeoutRestart \<Rightarrow> note_effect (EffRestart sid) m
           | TimeoutPause \<Rightarrow> note_effect (EffPolicy BlockedPause) (m\<lparr>sm_pending_action := None\<rparr>)
           | TimeoutStop \<Rightarrow> note_effect (EffPolicy BlockedStop) (m\<lparr>sm_pending_action := None\<rparr>)))"

text \<open>The next segment of a suspended coroutine, when the awaited operation has succeeded.\<close>

definition run_task :: "queue_clock \<Rightarrow> queue_task \<Rightarrow> service_manager \<Rightarrow> service_manager" where
  "run_task ck t m =
     (case t of
        AdmitTask sid e \<Rightarrow> spawn (SaveTask SaveDone) (publish_entry sid e m)
      | FinishTask sid e response out k \<Rightarrow>
          after_finished sid k (resolve_waiter (rq_id e)
            (case outcome_effect sid e response out of None \<Rightarrow> m | Some x \<Rightarrow> note_effect x m))
      | SaveTask k \<Rightarrow>
          (case k of
             SaveExpire sid \<Rightarrow> send_loop ck sid m
           | SaveSent sid e \<Rightarrow> spawn (StartedTask sid e) m
           | SaveCancel sid request interrupt \<Rightarrow> after_cancel_saved ck sid request interrupt m
           | SaveDone \<Rightarrow> m)
      | IntentTask sid e \<Rightarrow> take_request ck sid e (note_effect (EffIntent sid e) m)
      | StartedTask sid e \<Rightarrow> note_effect (EffSent sid e) (m\<lparr>sm_sends := (rq_id e, sid) # sm_sends m\<rparr>)
      | MessageTask sid request success data \<Rightarrow>
          handle_message ck sid request success data (note_effect (EffMessage sid request) m)
      | ExpireTask sid a k \<Rightarrow>
          (let m = accept_timeout sid a (note_effect
                     (EffOutcome sid (rq_id a) (fail_response ''command_timeout'') TimedOut) m)
           in case k of
                TimeoutOnly \<Rightarrow> after_timeout_policy sid m
              | TimeoutReply success data \<Rightarrow> handle_work sid success data m)
      | IgnoreTask sid a \<Rightarrow> release_late sid a (note_effect (EffIgnored sid (rq_id a) ''command_timeout'') m)
      | InterruptTask sid request \<Rightarrow> spawn (ExchangeTask sid request) m
      | ExchangeTask sid request \<Rightarrow> spawn (SaveTask SaveDone) (set_active sid None m))"

text \<open>
  When it has failed: the exception ends the coroutine, except that a stop goes on with the next
  request and an interruption is only not confirmed.
\<close>

definition fail_task :: "queue_task \<Rightarrow> service_manager \<Rightarrow> service_manager" where
  "fail_task t m =
     (case t of
        FinishTask sid e response out (FinStop es) \<Rightarrow> retire_next sid es (note_effect (EffUnrecorded sid (rq_id e)) m)
      | FinishTask sid e response out k \<Rightarrow>
          (let m = note_effect (EffUnrecorded sid (rq_id e)) m
           in if monitor_task t then note_effect (EffMonitorFailed LoggingError) m else m)
      | _ \<Rightarrow> if monitor_task t then note_effect (EffMonitorFailed LoggingError) m else m)"

datatype queue_event =
    Enqueue string string string json_object request_owner "rat option"
  | EnqueueNow string string string json_object request_owner "rat option"
  | Cancel string string bool
  | Monitor string
  | TakeAction
  | Reply string string bool bool json
  | Freeze "string option"
  | BeginStop string
  | EndStop string bool bool
  | Resume nat bool

definition queue_step :: "queue_clock \<Rightarrow> queue_event \<Rightarrow> service_manager \<Rightarrow> service_manager" where
  "queue_step ck ev m =
     (case ev of
        Enqueue sid request command args owner deadline \<Rightarrow>
          (case prepare_entry ck sid request command args owner deadline m of
             (Inl x, m) \<Rightarrow> m | (Inr e, m) \<Rightarrow> spawn (AdmitTask sid e) m)
      | EnqueueNow sid request command args owner deadline \<Rightarrow>
          (case prepare_entry ck sid request command args owner deadline m of
             (Inl x, m) \<Rightarrow> m | (Inr e, m) \<Rightarrow> publish_entry sid e m)
      | Cancel sid request interrupt \<Rightarrow> cancel_request sid request interrupt m
      | Monitor sid \<Rightarrow> if monitor_busy m then m else monitor_service ck sid m
      | TakeAction \<Rightarrow>
          if monitor_busy m then m
          else (case sm_pending_action m of
                  None \<Rightarrow> m | Some a \<Rightarrow> note_effect (EffPolicy a) (m\<lparr>sm_pending_action := None\<rparr>))
      | Reply sid request matching success data \<Rightarrow>
          if monitor_busy m \<or> \<not> has_key (sm_services m) sid then m
          else (let m = m\<lparr>sm_sends := filter (\<lambda>(r, s). r \<noteq> request) (sm_sends m)\<rparr>
                in if matching then spawn (MessageTask sid request success data) m
                   else note_effect (EffIgnored sid request ''different_instance'') m)
      | Freeze s \<Rightarrow> m\<lparr>sm_snapshot := s\<rparr>
      | BeginStop sid \<Rightarrow> begin_stop sid m
      | EndStop sid stopped preserve \<Rightarrow> end_stop sid stopped preserve m
      | Resume n ok \<Rightarrow>
          if n < length (sm_tasks m)
          then (let t = sm_tasks m ! n; m = m\<lparr>sm_tasks := take n (sm_tasks m) @ drop (Suc n) (sm_tasks m)\<rparr>
                in if ok then run_task ck t m else fail_task t m)
          else m)"

end
