(* ===== verification/Service_Restart.thy ===== *)
theory Service_Restart
  imports Service_Queue
begin

text \<open>
  Restarting a service in \<^verbatim>\<open>ServiceManager.restart\<close>: the previous instance is stopped, the retry budget
  of its error policy decides about another start, and a new instance inherits the queue.

  A restart is one coroutine; the model runs it without interleaving, with the journal available.
  What the processes do is an environment: one \<open>restart_try\<close> for each round of the loop. When the
  list of rounds is used up the restart still retries, which is \<open>None\<close>.
\<close>

section \<open>Stopping the previous instance\<close>

text \<open>\<^verbatim>\<open>_finish_request\<close> whose record is committed.\<close>

definition finish_now ::
    "string \<Rightarrow> service_request \<Rightarrow> json_object \<Rightarrow> result_outcome \<Rightarrow> service_manager \<Rightarrow> service_manager" where
  "finish_now sid e response out m =
     resolve_waiter (rq_id e)
       (case outcome_effect sid e response out of None \<Rightarrow> m | Some x \<Rightarrow> note_effect x m)"

text \<open>\<^verbatim>\<open>stop_all\<close> of one service with its unsent requests preserved.\<close>

definition stop_for_restart :: "string \<Rightarrow> bool \<Rightarrow> service_manager \<Rightarrow> service_manager" where
  "stop_for_restart sid stopped m =
     (let m = confirm_stop sid stopped (begin_stop sid m)
      in on_service sid (\<lambda>i. i\<lparr>si_stopping := False\<rparr>)
           (case Option.bind (map_of (sm_services m) sid) si_active of
              None \<Rightarrow> m
            | Some a \<Rightarrow> finish_now sid a (fail_response ''service_stopped'')
                (if rq_sent a = None then Cancelled else Failed) (set_active sid None m)))"

section \<open>Starting the next instance\<close>

text \<open>\<^verbatim>\<open>_inherit_service_requests\<close>: work pinned to the old instance is invalidated.\<close>

definition pinned :: "service_request \<Rightarrow> bool" where
  "pinned e \<longleftrightarrow> dict_get (rq_extra e) ''expected_instance'' JNull \<noteq> JNull"

fun invalidate_pinned :: "string \<Rightarrow> service_request list \<Rightarrow> service_manager \<Rightarrow> service_manager" where
  "invalidate_pinned sid [] m = m"
| "invalidate_pinned sid (e # es) m =
     invalidate_pinned sid es
       (if pinned e then finish_now sid e (fail_response ''service_instance_changed'') Invalidated m else m)"

datatype start_result = NotPrepared | PrepareRaised exn | NotReady | StartRaised exn | Started

record restart_try =
  rt_stopped :: bool
  rt_manual :: bool
  rt_start :: start_result
  rt_instance :: string
  rt_request :: string

text \<open>
  \<^verbatim>\<open>_prepare_service_start\<close> publishes the new instance; \<^verbatim>\<open>_confirm_service_readiness\<close> is the environment's.
\<close>

definition replace_instance :: "string \<Rightarrow> string \<Rightarrow> service_manager \<Rightarrow> service_manager result" where
  "replace_instance sid instance_id m =
     res_bind (dict_item (sm_services m) sid) (\<lambda>old.
       if \<not> si_stopped old then Inl RuntimeError
       else res_bind (new_service_instance sid instance_id (si_definition old)) (\<lambda>new.
         Inr (on_service sid (\<lambda>_. new\<lparr>si_restart_count := si_restart_count old,
                                      si_pending := filter (\<lambda>e. \<not> pinned e) (si_pending old)\<rparr>)
                (invalidate_pinned sid (si_pending old) m))))"

definition mark_ready :: "string \<Rightarrow> service_manager \<Rightarrow> service_manager" where
  "mark_ready sid = on_service sid (\<lambda>i. i\<lparr>si_ready := True, si_ever_ready := True, si_failure := None\<rparr>)"

text \<open>\<^verbatim>\<open>_requeue_timed_out_request\<close>\<close>

definition replacement_of :: "string \<Rightarrow> service_request \<Rightarrow> service_request" where
  "replacement_of request r =
     r\<lparr>rq_id := request, rq_sent := None, rq_instance_id := None, rq_timed_out := False,
       rq_extra := AList.update ''retry_of'' (JStr (rq_id r)) (AList.update ''sent_at'' JNull (rq_extra r))\<rparr>"

definition requeue :: "string \<Rightarrow> string \<Rightarrow> service_request \<Rightarrow> bool \<Rightarrow> service_manager \<Rightarrow> service_manager result" where
  "requeue sid request r waited m =
     (let e = replacement_of request r
      in if request |\<in>| sm_used m then Inl RuntimeError
         else Inr (note_effect (EffQueued sid e)
                ((on_service sid (\<lambda>i. i\<lparr>si_pending := e # si_pending i\<rparr>) m)
                  \<lparr>sm_used := finsert request (sm_used m),
                   sm_waiters := if waited then sm_waiters m @ [request] else sm_waiters m\<rparr>)))"

section \<open>The restart loop\<close>

datatype restart_end = RestartReady | RestartBlocked blocked_action | RestartRaised exn

definition retry_budget_used :: "bool \<Rightarrow> path service_instance \<Rightarrow> bool" where
  "retry_budget_used automatic i =
     (automatic \<and> retries (sv_errors (si_definition i)) \<le> int (si_restart_count i)
      \<and> on_exhausted (sv_errors (si_definition i)) \<noteq> OnExhaustedSkip)"

definition exhausted_block :: "exhausted_action \<Rightarrow> blocked_action" where
  "exhausted_block x = (if x = OnExhaustedPause then BlockedPause else BlockedStop)"

definition start_failure :: "string \<Rightarrow> service_manager \<Rightarrow> service_manager" where
  "start_failure sid = on_service sid (\<lambda>i. i\<lparr>si_failure := Some \<lparr>sf_code = ''service_failure'',
     sf_message = ''Service start failed.''\<rparr>\<rparr>)"

definition resolve_retry :: "service_request option \<Rightarrow> bool \<Rightarrow> service_manager \<Rightarrow> service_manager" where
  "resolve_retry retry waited m =
     (case retry of None \<Rightarrow> m | Some r \<Rightarrow> if waited then note_effect (EffResolved (rq_id r)) m else m)"

definition abandon_retry :: "string \<Rightarrow> service_request option \<Rightarrow> bool \<Rightarrow> service_manager \<Rightarrow> service_manager" where
  "abandon_retry sid retry waited m =
     (case retry of None \<Rightarrow> m | Some r \<Rightarrow> if waited then note_effect (EffAbandoned sid (rq_id r)) m else m)"

text \<open>\<^verbatim>\<open>_finish_exhausted_restart\<close>\<close>

definition finish_exhausted ::
    "string \<Rightarrow> path service_instance \<Rightarrow> service_request option \<Rightarrow> bool \<Rightarrow> service_manager
     \<Rightarrow> restart_end \<times> service_manager" where
  "finish_exhausted sid i retry waited m =
     (let a = exhausted_block (on_exhausted (sv_errors (si_definition i)))
      in (RestartBlocked a, resolve_retry retry waited (on_service sid (\<lambda>i. i\<lparr>si_blocked := Some a\<rparr>) m)))"

definition end_ready ::
    "string \<Rightarrow> service_request option \<Rightarrow> bool \<Rightarrow> string \<Rightarrow> service_manager \<Rightarrow> restart_end \<times> service_manager" where
  "end_ready sid retry waited request m =
     (case retry of
        None \<Rightarrow> (RestartReady, m)
      | Some r \<Rightarrow>
          (case requeue sid request r waited m of
             Inl x \<Rightarrow> (RestartRaised x, m) | Inr m \<Rightarrow> (RestartReady, m)))"

text \<open>A failed start: another round when the restart is automatic.\<close>

definition start_failed ::
    "bool \<Rightarrow> string \<Rightarrow> service_request option \<Rightarrow> bool \<Rightarrow> service_manager
     \<Rightarrow> restart_end \<times> service_manager + service_manager" where
  "start_failed automatic sid retry waited m =
     (let m = start_failure sid m
      in if automatic then Inr m else Inl (RestartRaised OSError, resolve_retry retry waited m))"

definition start_again ::
    "bool \<Rightarrow> string \<Rightarrow> service_request option \<Rightarrow> bool \<Rightarrow> restart_try \<Rightarrow> service_manager
     \<Rightarrow> restart_end \<times> service_manager + service_manager" where
  "start_again automatic sid retry waited t m =
     (case rt_start t of
        NotPrepared \<Rightarrow> start_failed automatic sid retry waited m
      | PrepareRaised x \<Rightarrow> Inl (RestartRaised x, m)
      | st \<Rightarrow>
          (case replace_instance sid (rt_instance t) m of
             Inl x \<Rightarrow> Inl (RestartRaised x, m)
           | Inr m \<Rightarrow>
               (case st of
                  Started \<Rightarrow> Inl (end_ready sid retry waited (rt_request t) (mark_ready sid m))
                | StartRaised x \<Rightarrow> Inl (RestartRaised x, m)
                | _ \<Rightarrow> start_failed automatic sid retry waited m)))"

text \<open>A round of the loop ends the restart or leaves the state of the next round.\<close>

definition restart_round ::
    "bool \<Rightarrow> string \<Rightarrow> service_request option \<Rightarrow> bool \<Rightarrow> restart_try \<Rightarrow> service_manager
     \<Rightarrow> restart_end \<times> service_manager + service_manager" where
  "restart_round automatic sid retry waited t m =
     (if sm_closed m then Inl (RestartRaised RuntimeError, m)
      else (case map_of (sm_services m) sid of
        None \<Rightarrow> Inl (RestartRaised KeyError, m)
      | Some i \<Rightarrow>
          (let m = stop_for_restart sid (rt_stopped t) m
           in if \<not> rt_stopped t then Inl (RestartBlocked BlockedStop, resolve_retry retry waited m)
              else if retry_budget_used automatic i then Inl (finish_exhausted sid i retry waited m)
              else (let m = (if automatic
                             then on_service sid (\<lambda>i. i\<lparr>si_restart_count := Suc (si_restart_count i)\<rparr>) m else m)
                    in if rt_manual t
                       then Inl (RestartBlocked BlockedPause, abandon_retry sid retry waited
                              (on_service sid (\<lambda>i. i\<lparr>si_manually_stopped := True\<rparr>) m))
                       else start_again automatic sid retry waited t m))))"

fun restart_loop ::
    "bool \<Rightarrow> string \<Rightarrow> service_request option \<Rightarrow> bool \<Rightarrow> restart_try list \<Rightarrow> service_manager
     \<Rightarrow> (restart_end \<times> service_manager) option" where
  "restart_loop automatic sid retry waited [] m = None"
| "restart_loop automatic sid retry waited (t # ts) m =
     (case restart_round automatic sid retry waited t m of
        Inl r \<Rightarrow> Some r
      | Inr m \<Rightarrow> restart_loop automatic sid retry waited ts m)"

text \<open>\<^verbatim>\<open>restart\<close> up to its loop\<close>

definition retry_request :: "path service_instance \<Rightarrow> service_request option" where
  "retry_request i =
     (case si_active i of
        None \<Rightarrow> None
      | Some r \<Rightarrow>
          if rq_timed_out r \<and> rq_owner r = ServiceOwned \<and> sv_on_command_timeout (si_definition i) = TimeoutRestart
          then Some r else None)"

definition restart ::
    "bool \<Rightarrow> string \<Rightarrow> restart_try list \<Rightarrow> service_manager \<Rightarrow> (restart_end \<times> service_manager) option" where
  "restart automatic sid ts m =
     (case map_of (sm_services m) sid of
        None \<Rightarrow> Some (RestartRaised KeyError, m)
      | Some i \<Rightarrow>
          if si_manually_stopped i
          then Some (if automatic then RestartBlocked BlockedPause else RestartRaised RuntimeError, m)
          else (let retry = retry_request i;
                    waited = (case retry of None \<Rightarrow> False | Some r \<Rightarrow> List.member (sm_waiters m) (rq_id r));
                    m = (case retry of None \<Rightarrow> m | Some r \<Rightarrow> m\<lparr>sm_waiters := removeAll (rq_id r) (sm_waiters m)\<rparr>)
                in restart_loop automatic sid retry waited ts m))"

end
