(* ===== verification/Service_Invariants.thy ===== *)
theory Service_Invariants
  imports Service_Queue "HOL-Library.Sublist"
begin

text \<open>
  What the request queue of \<^verbatim>\<open>ServiceManager\<close> keeps, whatever the order in which its coroutines
  resume: request IDs are admitted once, one monitor runs, and each service is sent its requests in
  the order of their admission, each at most once.
\<close>

section \<open>Reachable managers\<close>

definition idle_service :: "path service_instance \<Rightarrow> bool" where
  "idle_service i \<longleftrightarrow> si_pending i = [] \<and> si_active i = None"

definition fresh_manager :: "service_manager \<Rightarrow> bool" where
  "fresh_manager m \<longleftrightarrow> sm_tasks m = [] \<and> sm_log m = [] \<and> list_all (\<lambda>(k, i). idle_service i) (sm_services m)"

inductive queue_reached :: "service_manager \<Rightarrow> bool" where
  reached_start: "fresh_manager m \<Longrightarrow> queue_reached m"
| reached_step: "queue_reached m \<Longrightarrow> queue_reached (queue_step ck ev m)"

section \<open>What is seen of one service\<close>

definition instance_of :: "service_manager \<Rightarrow> string \<Rightarrow> path service_instance option" where
  "instance_of m sid = map_of (sm_services m) sid"

definition waiting :: "service_manager \<Rightarrow> string \<Rightarrow> service_request list" where
  "waiting m sid = (case instance_of m sid of None \<Rightarrow> [] | Some i \<Rightarrow> si_pending i)"

definition queued_of :: "string \<Rightarrow> queue_effect \<Rightarrow> string list" where
  "queued_of sid x = (case x of EffQueued s e \<Rightarrow> if s = sid then [rq_id e] else [] | _ \<Rightarrow> [])"

definition sent_of :: "string \<Rightarrow> queue_effect \<Rightarrow> string list" where
  "sent_of sid x = (case x of EffSent s e \<Rightarrow> if s = sid then [rq_id e] else [] | _ \<Rightarrow> [])"

definition queued_ids :: "service_manager \<Rightarrow> string \<Rightarrow> string list" where
  "queued_ids m sid = concat (map (queued_of sid) (sm_log m))"

definition sent_ids :: "service_manager \<Rightarrow> string \<Rightarrow> string list" where
  "sent_ids m sid = concat (map (sent_of sid) (sm_log m))"

definition launch_of :: "string \<Rightarrow> queue_task \<Rightarrow> string list" where
  "launch_of sid t =
     (case t of
        SaveTask k \<Rightarrow> (case k of SaveSent s e \<Rightarrow> if s = sid then [rq_id e] else [] | _ \<Rightarrow> [])
      | StartedTask s e \<Rightarrow> if s = sid then [rq_id e] else []
      | _ \<Rightarrow> [])"

definition intent_of :: "string \<Rightarrow> queue_task \<Rightarrow> service_request list" where
  "intent_of sid t = (case t of IntentTask s e \<Rightarrow> if s = sid then [e] else [] | _ \<Rightarrow> [])"

definition launches :: "service_manager \<Rightarrow> string \<Rightarrow> string list" where
  "launches m sid = concat (map (launch_of sid) (sm_tasks m))"

definition intents :: "service_manager \<Rightarrow> string \<Rightarrow> service_request list" where
  "intents m sid = concat (map (intent_of sid) (sm_tasks m))"

lemmas seen_defs = queued_of_def sent_of_def launch_of_def intent_of_def

text \<open>The operations are compositions of a few updates; each observation of one is a rewrite rule.\<close>

lemma map_of_at:
  "map_of (map (\<lambda>(k, v). (k, if k = s then f v else v)) d) k = (if k = s then map_option f (map_of d k) else map_of d k)"
  by (induction d) auto

lemma instance_of_on_service [simp]:
  "instance_of (on_service s f m) sid = (if sid = s then map_option f (instance_of m sid) else instance_of m sid)"
  by (simp add: instance_of_def on_service_def map_of_at)

lemma manager_parts [simp]:
  "sm_tasks (on_service s f m) = sm_tasks m" "sm_log (on_service s f m) = sm_log m"
  "sm_used (on_service s f m) = sm_used m"
  "sm_tasks (note_effect x m) = sm_tasks m" "sm_log (note_effect x m) = sm_log m @ [x]"
  "sm_used (note_effect x m) = sm_used m" "sm_services (note_effect x m) = sm_services m"
  "sm_tasks (spawn t m) = sm_tasks m @ [t]" "sm_log (spawn t m) = sm_log m"
  "sm_used (spawn t m) = sm_used m" "sm_services (spawn t m) = sm_services m"
  "keys (sm_services (on_service s f m)) = keys (sm_services m)"
  by (simp_all add: on_service_def note_effect_def spawn_def o_def split_beta)

lemma instance_of_same [simp]:
  "instance_of (note_effect x m) sid = instance_of m sid" "instance_of (spawn t m) sid = instance_of m sid"
  "instance_of (m\<lparr>sm_waiters := w\<rparr>) sid = instance_of m sid"
  "instance_of (m\<lparr>sm_used := u\<rparr>) sid = instance_of m sid"
  "instance_of (m\<lparr>sm_sends := ss\<rparr>) sid = instance_of m sid"
  "instance_of (m\<lparr>sm_recovery := rc\<rparr>) sid = instance_of m sid"
  "instance_of (m\<lparr>sm_pending_action := pa\<rparr>) sid = instance_of m sid"
  "instance_of (m\<lparr>sm_snapshot := sn\<rparr>) sid = instance_of m sid"
  "instance_of (m\<lparr>sm_tasks := ts\<rparr>) sid = instance_of m sid"
  by (simp_all add: instance_of_def note_effect_def spawn_def)

section \<open>One monitor\<close>

definition monitors :: "service_manager \<Rightarrow> nat" where
  "monitors m = length (filter monitor_task (sm_tasks m))"

lemma monitors_same [simp]:
  "monitors (on_service s f m) = monitors m" "monitors (note_effect x m) = monitors m"
  "monitors (m\<lparr>sm_waiters := w\<rparr>) = monitors m" "monitors (m\<lparr>sm_used := u\<rparr>) = monitors m"
  "monitors (m\<lparr>sm_sends := ss\<rparr>) = monitors m" "monitors (m\<lparr>sm_recovery := rc\<rparr>) = monitors m"
  "monitors (m\<lparr>sm_pending_action := pa\<rparr>) = monitors m" "monitors (m\<lparr>sm_snapshot := sn\<rparr>) = monitors m"
  "monitors (spawn t m) = monitors m + (if monitor_task t then 1 else 0)"
  by (simp_all add: monitors_def)

lemma monitors_parts [simp]:
  "monitors (set_active s a m) = monitors m" "monitors (resolve_waiter r m) = monitors m"
  "monitors (abandon_waiter s r m) = monitors m" "monitors (keep_baseline ck e m) = monitors m"
  "monitors (publish_entry s e m) = monitors m" "monitors (begin_stop s m) = monitors m"
  "monitors (confirm_stop s b m) = monitors m" "monitors (accept_timeout s e m) = monitors m"
  "monitors (release_late s e m) = monitors m" "monitors (after_timeout_policy s m) = monitors m"
  by (auto simp: set_active_def resolve_waiter_def abandon_waiter_def keep_baseline_def publish_entry_def
      begin_stop_def confirm_stop_def accept_timeout_def release_late_def after_timeout_policy_def Let_def
      split: option.split command_timeout_action.split)

lemma monitors_retire [simp]: "monitors (retire_next s es m) = monitors m"
  by (induction s es m rule: retire_next.induct) (auto simp: Let_def monitor_task_def split: option.split)

lemma monitors_finish:
  "monitors (finish_request s e response out k m)
    \<le> monitors m + (case k of FinExpire \<Rightarrow> 1 | FinWork \<Rightarrow> 1 | _ \<Rightarrow> 0)"
  by (auto simp: finish_request_def after_finished_def monitor_task_def split: option.split after_finish.split)

lemma monitors_cancel [simp]: "monitors (cancel_request sid r b m) = monitors m"
  by (auto simp: cancel_request_def cancel_queued_def finish_request_def after_finished_def monitor_task_def
      split: option.split)

lemma monitors_end_stop [simp]: "monitors (end_stop sid b c m) = monitors m"
  by (auto simp: end_stop_def split: option.split)

lemma monitors_after_finished:
  "monitors (after_finished sid k m) \<le> monitors m + (if k = FinExpire then 1 else 0)"
  by (auto simp: after_finished_def monitor_task_def split: after_finish.split)

lemma monitors_send_loop: "monitors (send_loop ck sid m) \<le> Suc (monitors m)"
  using monitors_finish
  by (auto simp: send_loop_def Let_def monitor_task_def split: option.split list.split intro: order_trans[OF monitors_finish])

lemma monitors_handle_work: "monitors (handle_work sid b d m) \<le> Suc (monitors m)"
  by (auto simp: handle_work_def Let_def monitor_task_def split: option.split intro: order_trans[OF monitors_finish])

lemma monitors_handle_message: "monitors (handle_message ck sid r b d m) \<le> Suc (monitors m)"
  by (auto simp: handle_message_def monitors_handle_work monitor_task_def split: option.split)

lemma monitors_monitor_service: "monitors (monitor_service ck sid m) \<le> Suc (monitors m)"
  by (auto simp: monitor_service_def send_next_def monitors_send_loop monitor_task_def Let_def split: option.split)

lemma monitors_take [simp]: "monitors (take_request ck sid e m) \<le> Suc (monitors m)"
  by (auto simp: take_request_def Let_def monitor_task_def split: option.split list.split)

lemma monitors_run_task:
  "monitors (run_task ck t m) \<le> monitors m + (if monitor_task t then 1 else 0)"
proof (cases t)
  case (FinishTask sid e response out k)
  then show ?thesis
    using monitors_after_finished[of sid k]
    by (auto simp: run_task_def monitor_task_def split: option.split after_finish.split intro: order_trans[OF monitors_after_finished])
next
  case (SaveTask k)
  then show ?thesis
    by (auto simp: run_task_def monitor_task_def after_cancel_saved_def monitors_send_loop split: after_save.split option.split)
next
  case (IntentTask sid e)
  then show ?thesis by (auto simp: run_task_def monitor_task_def intro: order_trans[OF monitors_take])
next
  case (MessageTask sid r b d)
  then show ?thesis by (auto simp: run_task_def monitor_task_def intro: order_trans[OF monitors_handle_message])
next
  case (ExpireTask sid a k)
  then show ?thesis
    by (auto simp: run_task_def monitor_task_def Let_def split: after_timeout.split intro: order_trans[OF monitors_handle_work])
qed (simp_all add: run_task_def monitor_task_def)

lemma monitors_fail_task [simp]: "monitors (fail_task t m) = monitors m"
  by (auto simp: fail_task_def Let_def split: queue_task.split after_finish.split)

lemma monitors_resume:
  "sm_tasks m = xs @ t # ys \<Longrightarrow>
    monitors m = monitors (m\<lparr>sm_tasks := xs @ ys\<rparr>) + (if monitor_task t then 1 else 0)"
  by (simp add: monitors_def)


lemma monitors_neutral [simp]:
  "monitors (m\<lparr>sm_sends := ss, sm_tasks := ts\<rparr>) = monitors (m\<lparr>sm_tasks := ts\<rparr>)"
  by (simp add: monitors_def)

lemma prepare_refused:
  assumes "prepare_entry ck sid request command args owner deadline m = (Inl x, m')"
  obtains "m' = m" | "m' = m\<lparr>sm_used := finsert request (sm_used m)\<rparr>"
  using assms
  by (auto simp: prepare_entry_def py_simps split: if_splits sum.splits prod.splits)

lemma prepare_admitted:
  assumes "prepare_entry ck sid request command args owner deadline m = (Inr e, m')"
  obtains i args' where "instance_of m sid = Some i" "validate_enqueue command args request m = Inr ()"
    "\<not> sm_closed m" "\<not> si_manually_stopped i" "\<not> si_stopped i" "\<not> si_stopping i"
    "e = new_request ck request command args' owner deadline (si_instance_id i)"
    "m' = m\<lparr>sm_used := finsert request (sm_used m),
            sm_recovery := AList.update request (ck_recovered ck) (sm_recovery m)\<rparr>"
  using assms
  by (auto simp: prepare_entry_def py_simps dict_item_def instance_of_def split: if_splits sum.splits prod.splits option.splits)

lemma validate_fresh: "validate_enqueue command args request m = Inr () \<Longrightarrow> request |\<notin>| sm_used m"
  by (simp add: validate_enqueue_def split: if_splits option.splits)

lemma resume_parts:
  assumes "n < length (sm_tasks m)"
  obtains xs t ys where "sm_tasks m = xs @ t # ys" "t = sm_tasks m ! n"
    "queue_step ck (Resume n ok) m =
      (if ok then run_task ck t (m\<lparr>sm_tasks := xs @ ys\<rparr>) else fail_task t (m\<lparr>sm_tasks := xs @ ys\<rparr>))"
proof
  show "sm_tasks m = take n (sm_tasks m) @ sm_tasks m ! n # drop (Suc n) (sm_tasks m)"
    using assms by (simp add: id_take_nth_drop)
  show "sm_tasks m ! n = sm_tasks m ! n" by simp
  show "queue_step ck (Resume n ok) m =
      (if ok then run_task ck (sm_tasks m ! n) (m\<lparr>sm_tasks := take n (sm_tasks m) @ drop (Suc n) (sm_tasks m)\<rparr>)
       else fail_task (sm_tasks m ! n) (m\<lparr>sm_tasks := take n (sm_tasks m) @ drop (Suc n) (sm_tasks m)\<rparr>))"
    using assms by (simp add: queue_step_def)
qed

lemma monitor_idle: "\<not> monitor_busy m \<longleftrightarrow> monitors m = 0"
  by (simp add: monitor_busy_def monitors_def list_ex_iff filter_empty_conv)

lemma monitors_step:
  assumes "monitors m \<le> 1"
  shows "monitors (queue_step ck ev m) \<le> 1"
proof (cases ev)
  case (Enqueue sid request command args owner deadline)
  with assms show ?thesis
    by (auto simp: queue_step_def monitor_task_def elim: prepare_refused prepare_admitted split: prod.split sum.split)
next
  case (EnqueueNow sid request command args owner deadline)
  with assms show ?thesis
    by (auto simp: queue_step_def elim: prepare_refused prepare_admitted split: prod.split sum.split)
next
  case (Monitor sid)
  with assms show ?thesis
    using monitors_monitor_service[of ck sid m] by (auto simp: queue_step_def monitor_idle)
next
  case (Resume n ok)
  show ?thesis
  proof (cases "n < length (sm_tasks m)")
    case True
    obtain xs t ys where parts: "sm_tasks m = xs @ t # ys" "t = sm_tasks m ! n"
      "queue_step ck (Resume n ok) m =
        (if ok then run_task ck t (m\<lparr>sm_tasks := xs @ ys\<rparr>) else fail_task t (m\<lparr>sm_tasks := xs @ ys\<rparr>))"
      using resume_parts[OF True] .
    show ?thesis
      using monitors_resume[OF parts(1)] monitors_run_task[of ck t "m\<lparr>sm_tasks := xs @ ys\<rparr>"] assms
      by (auto simp: Resume parts(3))
  qed (use assms Resume in \<open>simp add: queue_step_def\<close>)
qed (use assms in \<open>auto simp: queue_step_def monitor_idle monitor_task_def Let_def split: option.split\<close>)


section \<open>Admission and order\<close>

definition admission_of :: "queue_effect \<Rightarrow> string list" where
  "admission_of x = (case x of EffQueued s e \<Rightarrow> [rq_id e] | _ \<Rightarrow> [])"

definition admitting_of :: "queue_task \<Rightarrow> string list" where
  "admitting_of t = (case t of AdmitTask s e \<Rightarrow> [rq_id e] | _ \<Rightarrow> [])"

definition admitted_ids :: "service_manager \<Rightarrow> string list" where
  "admitted_ids m = concat (map admission_of (sm_log m))"

definition admitting_ids :: "service_manager \<Rightarrow> string list" where
  "admitting_ids m = concat (map admitting_of (sm_tasks m))"

definition target_of :: "queue_task \<Rightarrow> string list" where
  "target_of t = (case t of AdmitTask s e \<Rightarrow> [s] | _ \<Rightarrow> [])"

definition admitting_to :: "service_manager \<Rightarrow> string list" where
  "admitting_to m = concat (map target_of (sm_tasks m))"

definition ids_ok :: "service_manager \<Rightarrow> bool" where
  "ids_ok m \<longleftrightarrow> distinct (admitted_ids m @ admitting_ids m)
     \<and> set (admitted_ids m @ admitting_ids m) \<subseteq> fset (sm_used m)
     \<and> (\<forall>sid \<in> set (admitting_to m). instance_of m sid \<noteq> None)"

definition fifo_ok :: "service_manager \<Rightarrow> string \<Rightarrow> bool" where
  "fifo_ok m sid \<longleftrightarrow>
     subseq (sent_ids m sid @ launches m sid @ map rq_id (intents m sid) @
             filter (\<lambda>x. x \<notin> set (map rq_id (intents m sid))) (map rq_id (waiting m sid))) (queued_ids m sid)
     \<and> distinct (map rq_id (waiting m sid)) \<and> set (map rq_id (waiting m sid)) \<subseteq> set (queued_ids m sid)
     \<and> (\<forall>e \<in> set (intents m sid). rq_id e \<in> set (map rq_id (waiting m sid)) \<longrightarrow> rq_id (hd (waiting m sid)) = rq_id e)"

definition order_ok :: "service_manager \<Rightarrow> bool" where
  "order_ok m \<longleftrightarrow> ids_ok m \<and> (\<forall>sid. fifo_ok m sid)"

lemmas order_defs = order_ok_def ids_ok_def fifo_ok_def queued_ids_def sent_ids_def launches_def intents_def
  admitted_ids_def admitting_ids_def admitting_to_def

definition quiet_effect :: "queue_effect \<Rightarrow> bool" where
  "quiet_effect x = (case x of EffQueued s e \<Rightarrow> False | EffSent s e \<Rightarrow> False | _ \<Rightarrow> True)"

definition quiet_task :: "queue_task \<Rightarrow> bool" where
  "quiet_task t = (case t of AdmitTask s e \<Rightarrow> False | IntentTask s e \<Rightarrow> False | StartedTask s e \<Rightarrow> False
     | SaveTask k \<Rightarrow> (case k of SaveSent s e \<Rightarrow> False | _ \<Rightarrow> True) | _ \<Rightarrow> True)"

lemma quiet_effect_seen:
  "quiet_effect x \<Longrightarrow> queued_of sid x = [] \<and> sent_of sid x = [] \<and> admission_of x = []"
  by (auto simp: quiet_effect_def seen_defs admission_of_def split: queue_effect.splits)

lemma quiet_task_seen:
  "quiet_task t \<Longrightarrow> launch_of sid t = [] \<and> intent_of sid t = [] \<and> admitting_of t = []
     \<and> target_of t = []"
  by (auto simp: quiet_task_def seen_defs admitting_of_def target_of_def split: queue_task.splits after_save.splits)

lemma waiting_same [simp]:
  "waiting (note_effect x m) sid = waiting m sid" "waiting (spawn t m) sid = waiting m sid"
  "waiting (m\<lparr>sm_waiters := w\<rparr>) sid = waiting m sid"
  "waiting (m\<lparr>sm_used := u\<rparr>) sid = waiting m sid"
  "waiting (m\<lparr>sm_sends := ss\<rparr>) sid = waiting m sid"
  "waiting (m\<lparr>sm_recovery := rc\<rparr>) sid = waiting m sid"
  "waiting (m\<lparr>sm_pending_action := pa\<rparr>) sid = waiting m sid"
  "waiting (m\<lparr>sm_snapshot := sn\<rparr>) sid = waiting m sid"
  "waiting (m\<lparr>sm_tasks := ts\<rparr>) sid = waiting m sid"
  by (simp_all add: waiting_def)

lemma waiting_on_service:
  "(\<And>i. si_pending (f i) = si_pending i) \<Longrightarrow> waiting (on_service s f m) sid = waiting m sid"
  by (simp add: waiting_def split: option.split)

lemma observed_note [simp]:
  "queued_ids (note_effect x m) sid = queued_ids m sid @ queued_of sid x"
  "sent_ids (note_effect x m) sid = sent_ids m sid @ sent_of sid x"
  "admitted_ids (note_effect x m) = admitted_ids m @ admission_of x"
  "launches (note_effect x m) sid = launches m sid" "intents (note_effect x m) sid = intents m sid"
  "admitting_ids (note_effect x m) = admitting_ids m" "admitting_to (note_effect x m) = admitting_to m"
  by (simp_all add: order_defs)

lemma observed_spawn [simp]:
  "queued_ids (spawn t m) sid = queued_ids m sid" "sent_ids (spawn t m) sid = sent_ids m sid"
  "admitted_ids (spawn t m) = admitted_ids m"
  "launches (spawn t m) sid = launches m sid @ launch_of sid t"
  "intents (spawn t m) sid = intents m sid @ intent_of sid t"
  "admitting_ids (spawn t m) = admitting_ids m @ admitting_of t"
  "admitting_to (spawn t m) = admitting_to m @ target_of t"
  by (simp_all add: order_defs)

lemma observed_on_service [simp]:
  "queued_ids (on_service s f m) sid = queued_ids m sid" "sent_ids (on_service s f m) sid = sent_ids m sid"
  "admitted_ids (on_service s f m) = admitted_ids m" "launches (on_service s f m) sid = launches m sid"
  "intents (on_service s f m) sid = intents m sid" "admitting_ids (on_service s f m) = admitting_ids m"
  "admitting_to (on_service s f m) = admitting_to m"
  by (simp_all add: order_defs)

lemma ids_on_service [simp]: "ids_ok (on_service s f m) = ids_ok m"
proof -
  have "(instance_of (on_service s f m) sid \<noteq> None) = (instance_of m sid \<noteq> None)" for sid
    by simp
  then show ?thesis by (simp only: ids_ok_def observed_on_service manager_parts)
qed

lemma ids_note [simp]: "quiet_effect x \<Longrightarrow> ids_ok (note_effect x m) = ids_ok m"
  by (simp add: ids_ok_def quiet_effect_seen)

lemma ids_spawn [simp]: "quiet_task t \<Longrightarrow> ids_ok (spawn t m) = ids_ok m"
  by (simp add: ids_ok_def quiet_task_seen)

lemma order_note [simp]: "quiet_effect x \<Longrightarrow> order_ok (note_effect x m) = order_ok m"
  by (simp add: order_ok_def fifo_ok_def quiet_effect_seen)

lemma order_spawn [simp]: "quiet_task t \<Longrightarrow> order_ok (spawn t m) = order_ok m"
  by (simp add: order_ok_def fifo_ok_def quiet_task_seen)

lemma order_on_service:
  "(\<And>i. si_pending (f i) = si_pending i) \<Longrightarrow> order_ok (on_service s f m) = order_ok m"
  by (simp add: order_ok_def fifo_ok_def waiting_on_service)

lemma order_same [simp]:
  "order_ok (m\<lparr>sm_waiters := w\<rparr>) = order_ok m" "order_ok (m\<lparr>sm_sends := ss\<rparr>) = order_ok m"
  "order_ok (m\<lparr>sm_recovery := rc\<rparr>) = order_ok m" "order_ok (m\<lparr>sm_pending_action := pa\<rparr>) = order_ok m"
  "order_ok (m\<lparr>sm_snapshot := sn\<rparr>) = order_ok m"
  by (simp_all add: order_defs)

lemma order_used [simp]: "order_ok m \<Longrightarrow> order_ok (m\<lparr>sm_used := finsert r (sm_used m)\<rparr>)"
  by (auto simp: order_defs)

lemmas quiet_defs = quiet_effect_def quiet_task_def

lemma order_parts [simp]:
  "order_ok (set_active s a m) = order_ok m" "order_ok (resolve_waiter r m) = order_ok m"
  "order_ok (abandon_waiter s r m) = order_ok m" "order_ok (keep_baseline ck e m) = order_ok m"
  "order_ok (begin_stop s m) = order_ok m" "order_ok (confirm_stop s b m) = order_ok m"
  "order_ok (accept_timeout s e m) = order_ok m" "order_ok (release_late s e m) = order_ok m"
  "order_ok (after_timeout_policy s m) = order_ok m"
  by (auto simp: set_active_def resolve_waiter_def abandon_waiter_def keep_baseline_def quiet_defs order_on_service
      begin_stop_def confirm_stop_def accept_timeout_def release_late_def after_timeout_policy_def Let_def
      split: option.split command_timeout_action.split)


abbreviation ids_of :: "service_request list \<Rightarrow> string list" where
  "ids_of es \<equiv> map rq_id es"

lemma subseq_set: "subseq xs ys \<Longrightarrow> set xs \<subseteq> set ys"
  by (induction rule: list_emb.induct) auto

lemma subseq_distinct: "subseq xs ys \<Longrightarrow> distinct ys \<Longrightarrow> distinct xs"
  by (induction rule: list_emb.induct) (auto dest: subseq_set)

lemma subseq_remove1: "subseq (remove1 x xs) xs"
  by (induction xs) auto

lemma filter_absent: "x \<notin> set xs \<Longrightarrow> filter (\<lambda>y. y \<noteq> x) xs = xs"
  by (induction xs) auto

lemma subseq_keeps_head:
  assumes "subseq ys xs" "distinct xs" "x \<in> set ys" "hd xs = x"
  shows "hd ys = x"
  using assms by (induction rule: list_emb.induct) (auto dest: subseq_set)

lemma order_drop:
  assumes "order_ok m" "\<And>i. instance_of m s = Some i \<Longrightarrow> subseq (si_pending (f i)) (si_pending i)"
  shows "order_ok (on_service s f m)"
proof -
  have sub: "subseq (ids_of (waiting (on_service s f m) sid)) (ids_of (waiting m sid))" for sid
    using assms(2) by (auto simp: waiting_def split: option.split intro: subseq_map)
  have "fifo_ok (on_service s f m) sid" for sid
  proof -
    have ok: "fifo_ok m sid" using assms(1) by (simp add: order_ok_def)
    have "rq_id (hd (waiting (on_service s f m) sid)) = rq_id e"
      if intent: "e \<in> set (intents m sid)" "rq_id e \<in> set (ids_of (waiting (on_service s f m) sid))" for e
    proof -
      have "rq_id e \<in> set (ids_of (waiting m sid))" using subseq_set[OF sub] intent(2) by blast
      with ok intent(1) have "rq_id (hd (waiting m sid)) = rq_id e" by (simp add: fifo_ok_def)
      with \<open>rq_id e \<in> set (ids_of (waiting m sid))\<close> have "hd (ids_of (waiting m sid)) = rq_id e"
        by (cases "waiting m sid") auto
      with subseq_keeps_head[OF sub _ intent(2)] ok have "hd (ids_of (waiting (on_service s f m) sid)) = rq_id e"
        by (simp add: fifo_ok_def)
      with intent(2) show ?thesis by (cases "waiting (on_service s f m) sid") auto
    qed
    then show ?thesis
      using ok sub[of sid] subseq_set[OF sub, of sid] subseq_distinct[OF sub, of sid]
      unfolding fifo_ok_def observed_on_service
      by (meson list_emb_append_mono subseq_filter subseq_order.order_refl subseq_order.trans subset_trans)
  qed
  with assms(1) show ?thesis by (simp add: order_ok_def)
qed

lemma queued_admitted: "subseq (queued_ids m sid) (admitted_ids m)"
proof -
  have "subseq (concat (map (queued_of sid) l)) (concat (map admission_of l))" for l
    by (induction l) (auto simp: queued_of_def admission_of_def split: queue_effect.split)
  then show ?thesis by (simp add: queued_ids_def admitted_ids_def)
qed

lemma order_fifo: "order_ok m \<Longrightarrow> fifo_ok m sid"
  by (simp add: order_ok_def)

lemma intents_queued:
  assumes "order_ok m" "e \<in> set (intents m sid)"
  shows "rq_id e \<in> set (queued_ids m sid)"
  using subseq_set[OF conjunct1[OF order_fifo[OF assms(1), unfolded fifo_ok_def]]] assms(2) by auto

lemma waiting_queued:
  assumes "order_ok m" "e \<in> set (waiting m sid)"
  shows "rq_id e \<in> set (queued_ids m sid)"
  using order_fifo[OF assms(1), of sid] assms(2) by (auto simp: fifo_ok_def)

lemma fresh_unseen:
  assumes "order_ok m" "r \<notin> set (admitted_ids m)"
  shows "r \<notin> set (queued_ids m sid)" "r \<notin> set (ids_of (waiting m sid))" "r \<notin> set (ids_of (intents m sid))"
proof -
  show q: "r \<notin> set (queued_ids m sid)" using assms(2) subseq_set[OF queued_admitted] by blast
  show "r \<notin> set (ids_of (waiting m sid))" using q by (auto dest: waiting_queued[OF assms(1)])
  show "r \<notin> set (ids_of (intents m sid))" using q by (auto dest: intents_queued[OF assms(1)])
qed

lemma publish_parts [simp]:
  "queued_ids (publish_entry s e m) sid = queued_ids m sid @ (if s = sid then [rq_id e] else [])"
  "sent_ids (publish_entry s e m) sid = sent_ids m sid" "launches (publish_entry s e m) sid = launches m sid"
  "intents (publish_entry s e m) sid = intents m sid" "admitting_ids (publish_entry s e m) = admitting_ids m"
  "admitting_to (publish_entry s e m) = admitting_to m" "sm_used (publish_entry s e m) = sm_used m"
  "admitted_ids (publish_entry s e m) = admitted_ids m @ [rq_id e]"
  "(instance_of (publish_entry s e m) sid = None) = (instance_of m sid = None)"
  by (simp_all add: publish_entry_def order_defs seen_defs admission_of_def)

lemma waiting_publish:
  "instance_of m s \<noteq> None \<Longrightarrow>
    waiting (publish_entry s e m) sid = waiting m sid @ (if s = sid then [e] else [])"
  by (auto simp: publish_entry_def waiting_def split: option.split)

lemma order_publish:
  assumes "order_ok m" "rq_id e \<notin> set (admitted_ids m @ admitting_ids m)" "rq_id e |\<in>| sm_used m"
    "instance_of m s \<noteq> None"
  shows "order_ok (publish_entry s e m)"
proof -
  have ids: "ids_ok (publish_entry s e m)"
    using assms by (auto simp: order_ok_def ids_ok_def)
  have "fifo_ok (publish_entry s e m) sid" for sid
  proof (cases "sid = s")
    case True
    have ok: "fifo_ok m s" using assms(1) by (simp add: order_ok_def)
    have fresh: "rq_id e \<notin> set (ids_of (intents m s))" "rq_id e \<notin> set (ids_of (waiting m s))"
      using fresh_unseen[OF assms(1)] assms(2) by simp_all
    have "subseq (sent_ids m s @ launches m s @ ids_of (intents m s) @
        filter (\<lambda>x. x \<notin> set (ids_of (intents m s))) (ids_of (waiting m s)) @ [rq_id e])
        (queued_ids m s @ [rq_id e])"
      using ok list_emb_append_mono[of "(=)" _ _ "[rq_id e]" "[rq_id e]"]
      unfolding fifo_ok_def by (metis append.assoc subseq_order.order_refl)
    moreover have "rq_id (hd (waiting m s @ [e])) = rq_id x"
      if intent: "x \<in> set (intents m s)" "rq_id x \<in> set (ids_of (waiting m s @ [e]))" for x
    proof -
      have "rq_id x \<noteq> rq_id e" using fresh(1) intent(1) by (metis image_eqI list.set_map)
      with intent ok show ?thesis by (cases "waiting m s") (auto simp: fifo_ok_def)
    qed
    ultimately show ?thesis
      using ok fresh by (auto simp: fifo_ok_def True waiting_publish[OF assms(4)])
  next
    case False
    with assms show ?thesis by (simp add: order_ok_def fifo_ok_def waiting_publish)
  qed
  with ids show ?thesis by (simp add: order_ok_def)
qed

lemma order_intent:
  assumes "order_ok m" "launches m s = []" "intents m s = []" "waiting m s = e # es"
  shows "order_ok (spawn (IntentTask s e) m)"
proof -
  have "fifo_ok (spawn (IntentTask s e) m) sid" for sid
  proof (cases "sid = s")
    case True
    have ok: "fifo_ok m s" using assms(1) by (simp add: order_ok_def)
    then have "rq_id e \<notin> set (ids_of es)" using assms(4) by (simp add: fifo_ok_def)
    then have "filter (\<lambda>x. x \<noteq> rq_id e) (ids_of es) = ids_of es" by (rule filter_absent)
    with ok assms show ?thesis by (simp add: True fifo_ok_def seen_defs)
  next
    case False
    with assms(1) show ?thesis by (simp add: order_ok_def fifo_ok_def seen_defs)
  qed
  moreover have "ids_ok (spawn (IntentTask s e) m)"
    using assms(1) by (simp add: order_ok_def ids_ok_def admitting_of_def target_of_def)
  ultimately show ?thesis by (simp add: order_ok_def)
qed

text \<open>What is known when the monitor resumes after an await of \<^verbatim>\<open>_send_next\<close>.\<close>

definition may_take :: "service_manager \<Rightarrow> string \<Rightarrow> string \<Rightarrow> bool" where
  "may_take m sid x \<longleftrightarrow> launches m sid = [] \<and> intents m sid = []
     \<and> subseq (sent_ids m sid @ x # filter (\<lambda>y. y \<noteq> x) (ids_of (waiting m sid))) (queued_ids m sid)
     \<and> (x \<in> set (ids_of (waiting m sid)) \<longrightarrow> rq_id (hd (waiting m sid)) = x)"

definition may_send :: "service_manager \<Rightarrow> string \<Rightarrow> string \<Rightarrow> bool" where
  "may_send m sid x \<longleftrightarrow> launches m sid = [] \<and> intents m sid = []
     \<and> subseq (sent_ids m sid @ x # ids_of (waiting m sid)) (queued_ids m sid)"

lemma order_take:
  assumes "order_ok m" "may_take m sid (rq_id e)"
  shows "order_ok (take_request ck sid e m)"
proof (cases "instance_of m sid")
  case None
  with assms(1) show ?thesis by (simp add: take_request_def instance_of_def)
next
  case (Some i)
  define e' where "e' = sent_request ck (si_instance_id i) e"
  have [simp]: "rq_id e' = rq_id e" by (simp add: e'_def sent_request_def)
  show ?thesis
  proof (cases "si_pending i")
    case Nil
    with assms(1) Some show ?thesis by (simp add: take_request_def instance_of_def Let_def quiet_effect_def)
  next
    case (Cons h es)
    define n where "n = on_service sid (\<lambda>i. i\<lparr>si_pending := es, si_active := Some e'\<rparr>) m"
    have w: "waiting m sid = h # es" "waiting n sid = es" using Some Cons by (simp_all add: waiting_def n_def)
    have other: "s \<noteq> sid \<Longrightarrow> waiting n s = waiting m s" for s by (simp add: n_def waiting_def)
    have take: "take_request ck sid e m = spawn (SaveTask (SaveSent sid e')) n"
      using Some Cons by (simp add: take_request_def instance_of_def n_def e'_def Let_def)
    have ok: "fifo_ok m sid" using assms(1) by (simp add: order_ok_def)
    have "subseq (sent_ids m sid @ rq_id e # ids_of es) (queued_ids m sid)"
    proof (cases "rq_id h = rq_id e")
      case True
      with ok w have "rq_id e \<notin> set (ids_of es)" by (simp add: fifo_ok_def)
      then have "filter (\<lambda>y. y \<noteq> rq_id e) (ids_of es) = ids_of es" by (rule filter_absent)
      with True assms(2) w show ?thesis by (simp add: may_take_def)
    next
      case False
      with assms(2) w have "rq_id e \<notin> set (ids_of es)" by (auto simp: may_take_def simp del: set_map)
      then have "filter (\<lambda>y. y \<noteq> rq_id e) (ids_of es) = ids_of es" by (rule filter_absent)
      with False assms(2) w show ?thesis
        by (simp add: may_take_def)
          (meson list_emb_append_mono list_emb_Cons subseq_Cons2 subseq_order.order_refl subseq_order.trans)
    qed
    then have "fifo_ok (spawn (SaveTask (SaveSent sid e')) n) s" for s
      using ok order_fifo[OF assms(1), of s] assms(2) w other[of s]
      by (cases "s = sid") (auto simp: fifo_ok_def may_take_def n_def seen_defs)
    moreover have "ids_ok (spawn (SaveTask (SaveSent sid e')) n)"
      using assms(1) by (simp add: order_ok_def n_def) (simp add: ids_ok_def admitting_of_def target_of_def)
    ultimately show ?thesis by (simp add: take order_ok_def)
  qed
qed

lemma order_started:
  assumes "order_ok m" "may_send m sid (rq_id e)"
  shows "order_ok (spawn (StartedTask sid e) m)" "order_ok (note_effect (EffSent sid e) m)"
proof -
  have "fifo_ok (spawn (StartedTask sid e) m) s" "fifo_ok (note_effect (EffSent sid e) m) s" for s
    using order_fifo[OF assms(1), of s] assms(2)
    by (cases "s = sid"; simp add: fifo_ok_def may_send_def seen_defs)+
  with assms(1) show "order_ok (spawn (StartedTask sid e) m)" "order_ok (note_effect (EffSent sid e) m)"
    by (simp_all add: order_ok_def ids_ok_def admitting_of_def target_of_def admission_of_def)
qed

lemma unmonitored: "\<not> monitor_task t \<Longrightarrow> launch_of sid t = [] \<and> intent_of sid t = []"
  by (cases t) (auto simp: monitor_task_def seen_defs split: after_save.splits)

lemma idle_flight:
  assumes "monitors m = 0"
  shows "launches m sid = []" "intents m sid = []"
proof -
  have "launch_of sid t = [] \<and> intent_of sid t = []" if "t \<in> set (sm_tasks m)" for t
    using assms that unmonitored by (auto simp: monitors_def filter_empty_conv)
  then show "launches m sid = []" "intents m sid = []" by (simp_all add: launches_def intents_def)
qed

definition resumed :: "service_manager \<Rightarrow> queue_task \<Rightarrow> service_manager \<Rightarrow> bool" where
  "resumed m t n \<longleftrightarrow> (\<exists>xs ys. sm_tasks m = xs @ t # ys \<and> n = m\<lparr>sm_tasks := xs @ ys\<rparr>) \<and> monitors m \<le> 1"

lemma resumed_monitors: "resumed m t n \<Longrightarrow> monitors m = monitors n + (if monitor_task t then 1 else 0)"
  by (auto simp: resumed_def monitors_def)

lemma resumed_parts:
  assumes "resumed m t n"
  shows "sent_ids n sid = sent_ids m sid" "queued_ids n sid = queued_ids m sid" "waiting n sid = waiting m sid"
    "admitted_ids n = admitted_ids m" "sm_used n = sm_used m" "instance_of n sid = instance_of m sid"
    "distinct (admitting_ids m) \<Longrightarrow> distinct (admitting_of t @ admitting_ids n)"
    "set (admitting_ids m) = set (admitting_of t) \<union> set (admitting_ids n)"
    "set (admitting_to m) = set (target_of t) \<union> set (admitting_to n)"
    "monitor_task t \<Longrightarrow> launches m sid = launch_of sid t \<and> intents m sid = intent_of sid t"
    "monitor_task t \<Longrightarrow> launches n sid = [] \<and> intents n sid = []"
    "\<not> monitor_task t \<Longrightarrow> launches m sid = launches n sid \<and> intents m sid = intents n sid"
proof -
  obtain xs ys where parts: "sm_tasks m = xs @ t # ys" "n = m\<lparr>sm_tasks := xs @ ys\<rparr>"
    using assms by (auto simp: resumed_def)
  then show "sent_ids n sid = sent_ids m sid" "queued_ids n sid = queued_ids m sid" "waiting n sid = waiting m sid"
    "admitted_ids n = admitted_ids m" "sm_used n = sm_used m" "instance_of n sid = instance_of m sid"
    "distinct (admitting_ids m) \<Longrightarrow> distinct (admitting_of t @ admitting_ids n)"
    "set (admitting_ids m) = set (admitting_of t) \<union> set (admitting_ids n)"
    "set (admitting_to m) = set (target_of t) \<union> set (admitting_to n)"
    by (auto simp: order_defs)
  show "launches m sid = launches n sid \<and> intents m sid = intents n sid" if "\<not> monitor_task t"
    using unmonitored[OF that] parts by (simp add: order_defs)
  assume t: "monitor_task t"
  then have "monitors n = 0" using resumed_monitors[OF assms] assms by (simp add: resumed_def)
  note idle = idle_flight[OF this, of sid]
  then show "launches n sid = [] \<and> intents n sid = []" by simp
  then show "launches m sid = launch_of sid t \<and> intents m sid = intent_of sid t"
    using parts by (simp add: order_defs del: concat_eq_Nil_conv)
qed

lemma resumed_may_take:
  assumes "resumed m t n" "order_ok m" "intent_of sid t = [e]"
  shows "may_take n sid (rq_id e)"
proof -
  have t: "monitor_task t" "launch_of sid t = []"
    using assms(3) by (auto simp: seen_defs monitor_task_def split: queue_task.splits)
  show ?thesis
    using order_fifo[OF assms(2), of sid] resumed_parts[OF assms(1)] t assms(3)
    by (auto simp: may_take_def fifo_ok_def)
qed

lemma resumed_may_send:
  assumes "resumed m t n" "order_ok m" "launch_of sid t = [x]"
  shows "may_send n sid x"
proof -
  have t: "monitor_task t" "intent_of sid t = []"
    using assms(3) by (auto simp: seen_defs monitor_task_def split: queue_task.splits after_save.splits if_splits)
  show ?thesis
    using order_fifo[OF assms(2), of sid] resumed_parts[OF assms(1)] t assms(3)
    by (auto simp: may_send_def fifo_ok_def)
qed

lemma may_take_waiting:
  assumes "may_take m sid x" "distinct (ids_of (waiting m sid))"
  shows "subseq (sent_ids m sid @ ids_of (waiting m sid)) (queued_ids m sid)"
proof (cases "x \<in> set (ids_of (waiting m sid))")
  case True
  with assms(1) obtain e es where w: "waiting m sid = e # es" "rq_id e = x"
    by (cases "waiting m sid") (auto simp: may_take_def)
  with assms(2) have "filter (\<lambda>y. y \<noteq> x) (ids_of es) = ids_of es" by (intro filter_absent) auto
  with assms(1) w show ?thesis by (simp add: may_take_def)
next
  case False
  with assms(1) show ?thesis
    by (simp add: may_take_def filter_absent)
      (meson list_emb_append_mono list_emb_Cons subseq_order.order_refl subseq_order.trans)
qed

lemma order_resumed:
  assumes "resumed m t n" "order_ok m"
  shows "order_ok n"
proof -
  note parts = resumed_parts[OF assms(1)]
  have ids: "ids_ok m" using assms(2) by (simp add: order_ok_def)
  with parts have "ids_ok n" by (auto simp: ids_ok_def)
  moreover have "fifo_ok n sid" for sid
  proof -
    have ok: "fifo_ok m sid" using assms(2) by (rule order_fifo)
    show ?thesis
    proof (cases "monitor_task t")
      case True
      have "subseq (sent_ids n sid @ ids_of (waiting n sid)) (queued_ids n sid)"
      proof (cases "intent_of sid t")
        case Nil
        with ok parts True show ?thesis
          by (simp add: fifo_ok_def) (meson list_emb_append2 list_emb_append_mono subseq_order.order_refl subseq_order.trans)
      next
        case (Cons e es)
        then have "intent_of sid t = [e]" by (auto simp: seen_defs split: queue_task.splits if_splits)
        then show ?thesis using may_take_waiting[OF resumed_may_take[OF assms]] ok parts by (simp add: fifo_ok_def)
      qed
      with True ok parts show ?thesis by (simp add: fifo_ok_def)
    next
      case False
      with ok parts show ?thesis by (simp add: fifo_ok_def)
    qed
  qed
  ultimately show ?thesis by (simp add: order_ok_def)
qed

lemma order_retire [simp]: "order_ok (retire_next s es m) = order_ok m"
  by (induction s es m rule: retire_next.induct) (auto simp: Let_def quiet_defs order_on_service split: option.split)

lemma order_after_finished_quiet [simp]: "order_ok (after_finished s k m) = order_ok m"
  by (auto simp: after_finished_def quiet_defs split: after_finish.split)

lemma order_finish [simp]: "order_ok (finish_request s e response out k m) = order_ok m"
  by (auto simp: finish_request_def quiet_defs split: option.split)

lemma order_send_loop:
  assumes "order_ok m" "monitors m = 0"
  shows "order_ok (send_loop ck sid m)"
proof (cases "instance_of m sid")
  case None
  with assms show ?thesis by (simp add: send_loop_def instance_of_def)
next
  case (Some i)
  show ?thesis
  proof (cases "si_pending i")
    case Nil
    with Some assms show ?thesis by (simp add: send_loop_def instance_of_def)
  next
    case (Cons e es)
    define n where "n = keep_baseline ck e m"
    have n: "order_ok n" "monitors n = 0" using assms by (simp_all add: n_def)
    have i: "instance_of n sid = Some i" using Some by (simp add: n_def keep_baseline_def)
    have "order_ok (on_service sid (\<lambda>i. i\<lparr>si_pending := es\<rparr>) n)"
      using n i Cons by (intro order_drop) auto
    with n idle_flight[OF n(2)] i Cons Some order_intent[OF n(1)] show ?thesis
      by (simp add: send_loop_def instance_of_def[symmetric] n_def[symmetric] waiting_def Let_def)
  qed
qed

lemma order_handle_work [simp]: "order_ok (handle_work sid b d m) = order_ok m"
  by (simp add: handle_work_def quiet_defs split: option.split)

lemma order_handle_message [simp]: "order_ok (handle_message ck sid r b d m) = order_ok m"
  by (simp add: handle_message_def quiet_defs split: option.split)

lemma order_monitor_service:
  "order_ok m \<Longrightarrow> monitors m = 0 \<Longrightarrow> order_ok (monitor_service ck sid m)"
  by (simp add: monitor_service_def send_next_def order_send_loop quiet_defs order_on_service Let_def
      split: option.split)

lemma order_cancel: "order_ok m \<Longrightarrow> order_ok (cancel_request sid r b m)"
  by (auto simp: cancel_request_def cancel_queued_def quiet_defs instance_of_def intro!: order_drop subseq_remove1 split: option.split)

lemma order_end_stop: "order_ok m \<Longrightarrow> order_ok (end_stop sid b c m)"
  by (auto simp: end_stop_def intro!: order_drop split: option.split)

lemma order_fail_task [simp]: "order_ok (fail_task t m) = order_ok m"
  by (simp add: fail_task_def Let_def quiet_defs split: queue_task.split after_finish.split)

lemma quiet_outcome: "outcome_effect sid e response out = Some x \<Longrightarrow> order_ok (note_effect x m) = order_ok m"
  by (auto simp: outcome_effect_def quiet_defs split: if_splits)

lemma order_run_task:
  assumes "resumed m t n" "order_ok m"
  shows "order_ok (run_task ck t n)"
proof -
  have n: "order_ok n" using assms by (rule order_resumed)
  note parts = resumed_parts[OF assms(1)]
  show ?thesis
  proof (cases t)
    case (AdmitTask sid e)
    have ids: "ids_ok m" using assms(2) by (simp add: order_ok_def)
    have "rq_id e \<notin> set (admitted_ids n @ admitting_ids n)" "rq_id e |\<in>| sm_used n" "instance_of n sid \<noteq> None"
      using ids parts(4-9) by (auto simp: ids_ok_def AdmitTask admitting_of_def target_of_def)
    then show ?thesis using n by (simp add: AdmitTask run_task_def order_publish quiet_defs)
  next
    case (SaveTask k)
    show ?thesis
    proof (cases k)
      case (SaveExpire sid)
      then have "monitors n = 0"
        using resumed_monitors[OF assms(1)] assms(1) by (simp add: resumed_def SaveTask monitor_task_def)
      with n show ?thesis by (simp add: SaveTask SaveExpire run_task_def order_send_loop)
    next
      case (SaveSent sid e)
      then have "may_send n sid (rq_id e)"
        using resumed_may_send[OF assms] by (simp add: SaveTask launch_of_def)
      with n show ?thesis by (simp add: SaveTask SaveSent run_task_def order_started)
    qed (use n in \<open>auto simp: SaveTask run_task_def after_cancel_saved_def quiet_defs split: option.split\<close>)
  next
    case (IntentTask sid e)
    then have "may_take n sid (rq_id e)"
      using resumed_may_take[OF assms] by (simp add: intent_of_def)
    then have "may_take (note_effect (EffIntent sid e) n) sid (rq_id e)"
      by (simp add: may_take_def seen_defs)
    with n show ?thesis by (simp add: IntentTask run_task_def order_take quiet_defs)
  next
    case (StartedTask sid e)
    then have "may_send n sid (rq_id e)"
      using resumed_may_send[OF assms] by (simp add: launch_of_def)
    then have "may_send (n\<lparr>sm_sends := (rq_id e, sid) # sm_sends n\<rparr>) sid (rq_id e)"
      by (simp add: may_send_def order_defs)
    with n show ?thesis by (simp add: StartedTask run_task_def order_started)
  qed (use n in \<open>auto simp: run_task_def quiet_defs quiet_outcome Let_def split: option.split after_timeout.split\<close>)
qed

lemma order_admission:
  assumes "prepare_entry ck sid request command args owner deadline m = (r, n)" "order_ok m"
  shows "order_ok n" "r = Inr e \<Longrightarrow> order_ok (spawn (AdmitTask sid e) n) \<and> order_ok (publish_entry sid e n)"
proof -
  show n: "order_ok n"
  proof (cases r)
    case (Inl x)
    with assms show ?thesis by (auto elim: prepare_refused)
  next
    case (Inr e)
    with assms show ?thesis by (auto elim!: prepare_admitted order_used)
  qed
  assume e: "r = Inr e"
  obtain i args' where entry: "instance_of m sid = Some i" "request |\<notin>| sm_used m"
      "e = new_request ck request command args' owner deadline (si_instance_id i)"
      "n = m\<lparr>sm_used := finsert request (sm_used m), sm_recovery := AList.update request (ck_recovered ck) (sm_recovery m)\<rparr>"
    using assms(1)[unfolded e] validate_fresh by (elim prepare_admitted) blast
  have "ids_ok m" using assms(2) by (simp add: order_ok_def)
  then have fresh: "rq_id e \<notin> set (admitted_ids n @ admitting_ids n)" "rq_id e |\<in>| sm_used n" "instance_of n sid \<noteq> None"
    using entry by (auto simp: ids_ok_def new_request_def order_defs)
  then have "order_ok (spawn (AdmitTask sid e) n)"
    using n by (simp add: order_ok_def ids_ok_def fifo_ok_def admitting_of_def target_of_def seen_defs)
  with n fresh show "order_ok (spawn (AdmitTask sid e) n) \<and> order_ok (publish_entry sid e n)"
    by (simp add: order_publish)
qed

lemma resumed_at:
  assumes "n < length (sm_tasks m)" "monitors m \<le> 1"
  obtains t n' where "resumed m t n'" "t = sm_tasks m ! n"
    "queue_step ck (Resume n ok) m = (if ok then run_task ck t n' else fail_task t n')"
proof -
  obtain xs t ys where parts: "sm_tasks m = xs @ t # ys" "t = sm_tasks m ! n"
    "queue_step ck (Resume n ok) m =
      (if ok then run_task ck t (m\<lparr>sm_tasks := xs @ ys\<rparr>) else fail_task t (m\<lparr>sm_tasks := xs @ ys\<rparr>))"
    using resume_parts[OF assms(1)] .
  then have "resumed m t (m\<lparr>sm_tasks := xs @ ys\<rparr>)" using assms(2) by (auto simp: resumed_def)
  with parts(2,3) that show thesis by blast
qed

lemma order_step:
  assumes "order_ok m" "monitors m \<le> 1"
  shows "order_ok (queue_step ck ev m)"
proof (cases ev)
  case (Enqueue sid request command args owner deadline)
  with assms order_admission show ?thesis
    by (auto simp: queue_step_def split: prod.split sum.split)
next
  case (EnqueueNow sid request command args owner deadline)
  with assms order_admission show ?thesis
    by (auto simp: queue_step_def split: prod.split sum.split)
next
  case (Resume n ok)
  show ?thesis
  proof (cases "n < length (sm_tasks m)")
    case True
    obtain t n' where "resumed m t n'" "t = sm_tasks m ! n"
      "queue_step ck ev m = (if ok then run_task ck t n' else fail_task t n')"
      using resumed_at[OF True assms(2)] unfolding Resume .
    with assms(1) show ?thesis by (simp add: order_run_task order_resumed)
  qed (use assms Resume in \<open>simp add: queue_step_def\<close>)
qed (use assms in \<open>auto simp: queue_step_def monitor_idle order_monitor_service order_cancel order_end_stop
       quiet_defs Let_def split: option.split\<close>)

lemma fresh_ok:
  assumes "fresh_manager m"
  shows "order_ok m" "monitors m = 0"
proof -
  have "waiting m sid = []" for sid
    using assms by (auto simp: fresh_manager_def waiting_def instance_of_def idle_service_def list_all_iff
        dest!: map_of_SomeD split: option.split)
  with assms show "order_ok m" "monitors m = 0" by (simp_all add: fresh_manager_def order_defs monitors_def)
qed

lemma queue_reached_ok: "queue_reached m \<Longrightarrow> order_ok m \<and> monitors m \<le> 1"
proof (induction rule: queue_reached.induct)
  case (reached_step m ck ev)
  then show ?case using order_step monitors_step by blast
qed (simp add: fresh_ok)

lemma sent_in_order:
  assumes "queue_reached m"
  shows "subseq (sent_ids m sid) (queued_ids m sid)" "distinct (queued_ids m sid)"
proof -
  have ok: "order_ok m" using queue_reached_ok[OF assms] by simp
  show "subseq (sent_ids m sid) (queued_ids m sid)"
    using order_fifo[OF ok, of sid] unfolding fifo_ok_def
    by (meson list_emb_append_mono list_emb_Nil subseq_append_iff subseq_order.order_trans subseq_rev_drop_many subseq_order.order_refl)
  show "distinct (queued_ids m sid)"
    using ok subseq_distinct[OF queued_admitted] by (simp add: order_ok_def ids_ok_def)
qed

end
