(* ===== verification/Service_Books.thy ===== *)
theory Service_Books
  imports Service_Invariants
begin

text \<open>
  Bookkeeping of the service queue: under an order of events that a caller can enforce, no admitted
  request is lost and no request gets two outcomes from the runner.
\<close>

section \<open>Orderly runs\<close>

definition active_of :: "service_manager \<Rightarrow> string \<Rightarrow> service_request option" where
  "active_of m sid = Option.bind (instance_of m sid) si_active"

definition working_of :: "string \<Rightarrow> queue_task \<Rightarrow> bool" where
  "working_of sid t =
     (case t of
        FinishTask s e response out k \<Rightarrow> s = sid \<and> k = FinWork
      | ExpireTask s a k \<Rightarrow> s = sid
      | _ \<Rightarrow> False)"

definition working :: "service_manager \<Rightarrow> string \<Rightarrow> bool" where
  "working m sid = list_ex (working_of sid) (sm_tasks m)"

text \<open>
  An order the callers can keep: a request is not cancelled while the monitor writes its intent, a
  stop does not retire the queue of a service the monitor works on, and an interruption succeeds
  only while its target is still active.
\<close>

definition orderly :: "queue_event \<Rightarrow> service_manager \<Rightarrow> bool" where
  "orderly ev m =
     (case ev of
        Cancel sid request interrupt \<Rightarrow> \<not> List.member (ids_of (intents m sid)) request
      | EndStop sid stopped preserve \<Rightarrow> intents m sid = [] \<and> \<not> working m sid
      | Resume n ok \<Rightarrow>
          \<not> (ok \<and> n < length (sm_tasks m)
             \<and> (case sm_tasks m ! n of
                  ExchangeTask sid request \<Rightarrow>
                    (case active_of m sid of None \<Rightarrow> False | Some a \<Rightarrow> rq_id a \<noteq> request)
                | _ \<Rightarrow> False))
      | _ \<Rightarrow> True)"

inductive orderly_reached :: "service_manager \<Rightarrow> bool" where
  orderly_start: "fresh_manager m \<Longrightarrow> orderly_reached m"
| orderly_step: "orderly_reached m \<Longrightarrow> orderly ev m \<Longrightarrow> orderly_reached (queue_step ck ev m)"

lemma orderly_is_reached: "orderly_reached m \<Longrightarrow> queue_reached m"
  by (induction rule: orderly_reached.induct) (auto intro: queue_reached.intros)

section \<open>The books of one service\<close>

definition settled_of :: "string \<Rightarrow> queue_effect \<Rightarrow> string list" where
  "settled_of sid x =
     (case x of
        EffOutcome s r response out \<Rightarrow> if s = sid then [r] else []
      | EffRetired s r response \<Rightarrow> if s = sid then [r] else []
      | _ \<Rightarrow> [])"

definition dropped_of :: "string \<Rightarrow> queue_effect \<Rightarrow> string list" where
  "dropped_of sid x =
     (case x of
        EffAbandoned s r \<Rightarrow> if s = sid then [r] else []
      | EffUnrecorded s r \<Rightarrow> if s = sid then [r] else []
      | _ \<Rightarrow> [])"

definition settled_ids :: "service_manager \<Rightarrow> string \<Rightarrow> string list" where
  "settled_ids m sid = concat (map (settled_of sid) (sm_log m))"

definition dropped_ids :: "service_manager \<Rightarrow> string \<Rightarrow> string list" where
  "dropped_ids m sid = concat (map (dropped_of sid) (sm_log m))"

definition closed_request :: "service_request \<Rightarrow> bool" where
  "closed_request e \<longleftrightarrow> rq_owner e = ServiceOwned \<and> rq_timed_out e"

definition claim_of :: "string \<Rightarrow> queue_task \<Rightarrow> string list" where
  "claim_of sid t =
     (case t of
        FinishTask s e response out k \<Rightarrow>
          if s = sid then rq_id e # (case k of FinStop es \<Rightarrow> ids_of (filter (\<lambda>x. \<not> closed_request x) es) | _ \<Rightarrow> []) else []
      | ExpireTask s a k \<Rightarrow> if s = sid then [rq_id a] else []
      | _ \<Rightarrow> [])"

definition retiring_of :: "string \<Rightarrow> queue_task \<Rightarrow> string list" where
  "retiring_of sid t =
     (case t of
        FinishTask s e response out k \<Rightarrow>
          if s = sid then rq_id e # (case k of FinStop es \<Rightarrow> ids_of es | _ \<Rightarrow> []) else []
      | _ \<Rightarrow> [])"

definition claimed_ids :: "service_manager \<Rightarrow> string \<Rightarrow> string list" where
  "claimed_ids m sid = concat (map (claim_of sid) (sm_tasks m))"

definition retiring_ids :: "service_manager \<Rightarrow> string \<Rightarrow> string list" where
  "retiring_ids m sid = concat (map (retiring_of sid) (sm_tasks m))"

definition held_ids :: "service_request option \<Rightarrow> string list" where
  "held_ids a = (case a of None \<Rightarrow> [] | Some e \<Rightarrow> [rq_id e])"

definition unclosed_ids :: "service_request option \<Rightarrow> string list" where
  "unclosed_ids a = (case a of None \<Rightarrow> [] | Some e \<Rightarrow> if closed_request e then [] else [rq_id e])"

text \<open>The active request may still get an outcome, unless it has one or one is being written.\<close>

definition open_ids :: "service_manager \<Rightarrow> string \<Rightarrow> string list" where
  "open_ids m sid = (if working m sid then [] else unclosed_ids (active_of m sid))"

definition same_or_none :: "service_request option \<Rightarrow> service_request \<Rightarrow> bool" where
  "same_or_none a e = (case a of None \<Rightarrow> True | Some b \<Rightarrow> rq_id b = rq_id e)"

definition task_ok ::
    "service_request list \<Rightarrow> service_request option \<Rightarrow> string set \<Rightarrow> string \<Rightarrow> queue_task \<Rightarrow> bool" where
  "task_ok w a recorded sid t =
     (case t of
        AdmitTask s e \<Rightarrow> s = sid \<longrightarrow> \<not> rq_timed_out e
      | IntentTask s e \<Rightarrow> s = sid \<longrightarrow> a = None \<and> w \<noteq> [] \<and> hd w = e
      | FinishTask s e response out k \<Rightarrow> s = sid \<longrightarrow> \<not> closed_request e
          \<and> (case k of
               FinExpire \<Rightarrow> a = None
             | FinWork \<Rightarrow> same_or_none a e
             | FinStop es \<Rightarrow> (\<forall>x \<in> set es. rq_timed_out x \<longrightarrow> rq_id x \<in> recorded)
             | _ \<Rightarrow> True)
      | SaveTask k \<Rightarrow> 
          (case k of
             SaveExpire s \<Rightarrow> s = sid \<longrightarrow> a = None
           | SaveCancel s r b \<Rightarrow> s = sid \<longrightarrow> r \<in> recorded
           | _ \<Rightarrow> True)
      | InterruptTask s r \<Rightarrow> s = sid \<longrightarrow> r \<in> recorded
      | ExchangeTask s r \<Rightarrow> s = sid \<longrightarrow> r \<in> recorded
      | ExpireTask s e k \<Rightarrow> s = sid \<longrightarrow> rq_owner e = ServiceOwned \<and> \<not> rq_timed_out e \<and> same_or_none a e
      | IgnoreTask s e \<Rightarrow> s = sid \<longrightarrow> rq_id e \<in> recorded \<and> same_or_none a e
      | _ \<Rightarrow> True)"

definition recorded_set :: "service_manager \<Rightarrow> string \<Rightarrow> string set" where
  "recorded_set m sid = set (settled_ids m sid) \<union> set (dropped_ids m sid)"

text \<open>
  The books while a coroutine resumes: \<open>cl\<close> are the IDs it still owes an outcome, \<open>rt\<close> the requests it
  retires, and \<open>busy\<close> says that it works on the active request.
\<close>

definition books_with :: "service_manager \<Rightarrow> string \<Rightarrow> bool \<Rightarrow> string list \<Rightarrow> string list \<Rightarrow> bool" where
  "books_with m sid busy cl rt \<longleftrightarrow>
     (\<forall>e \<in> set (waiting m sid). \<not> rq_timed_out e)
     \<and> (\<forall>a. active_of m sid = Some a \<longrightarrow> rq_timed_out a \<longrightarrow> rq_id a \<in> recorded_set m sid)
     \<and> (\<forall>t \<in> set (sm_tasks m). task_ok (waiting m sid) (active_of m sid) (recorded_set m sid) sid t)
     \<and> (\<forall>r. count_list (settled_ids m sid) r + count_list (claimed_ids m sid) r + count_list (ids_of (waiting m sid)) r
            + count_list (if busy then [] else open_ids m sid) r + count_list cl r \<le> count_list (queued_ids m sid) r)
     \<and> (\<forall>r \<in> set (queued_ids m sid). r \<in> set (ids_of (waiting m sid)) \<or> r \<in> set (held_ids (active_of m sid))
          \<or> r \<in> set (retiring_ids m sid) \<or> r \<in> recorded_set m sid \<or> r \<in> set rt)"

abbreviation books_ok :: "service_manager \<Rightarrow> string \<Rightarrow> bool" where
  "books_ok m sid \<equiv> books_with m sid False [] []"

lemmas book_lists = settled_ids_def dropped_ids_def claimed_ids_def retiring_ids_def
lemmas book_kinds = settled_of_def dropped_of_def claim_of_def retiring_of_def working_of_def

lemma active_same [simp]:
  "active_of (note_effect x m) sid = active_of m sid" "active_of (spawn t m) sid = active_of m sid"
  "active_of (m\<lparr>sm_waiters := w\<rparr>) sid = active_of m sid" "active_of (m\<lparr>sm_used := u\<rparr>) sid = active_of m sid"
  "active_of (m\<lparr>sm_sends := ss\<rparr>) sid = active_of m sid" "active_of (m\<lparr>sm_recovery := rc\<rparr>) sid = active_of m sid"
  "active_of (m\<lparr>sm_pending_action := pa\<rparr>) sid = active_of m sid"
  "active_of (m\<lparr>sm_snapshot := sn\<rparr>) sid = active_of m sid" "active_of (m\<lparr>sm_tasks := ts\<rparr>) sid = active_of m sid"
  by (simp_all add: active_of_def)

lemma books_seen_note [simp]:
  "settled_ids (note_effect x m) sid = settled_ids m sid @ settled_of sid x"
  "dropped_ids (note_effect x m) sid = dropped_ids m sid @ dropped_of sid x"
  "claimed_ids (note_effect x m) sid = claimed_ids m sid" "retiring_ids (note_effect x m) sid = retiring_ids m sid"
  "working (note_effect x m) sid = working m sid"
  by (simp_all add: book_lists working_def)

lemma books_seen_spawn [simp]:
  "settled_ids (spawn t m) sid = settled_ids m sid" "dropped_ids (spawn t m) sid = dropped_ids m sid"
  "claimed_ids (spawn t m) sid = claimed_ids m sid @ claim_of sid t"
  "retiring_ids (spawn t m) sid = retiring_ids m sid @ retiring_of sid t"
  "working (spawn t m) sid = (working m sid \<or> working_of sid t)"
  by (auto simp: book_lists working_def)

lemma books_seen_on_service [simp]:
  "settled_ids (on_service s f m) sid = settled_ids m sid" "dropped_ids (on_service s f m) sid = dropped_ids m sid"
  "claimed_ids (on_service s f m) sid = claimed_ids m sid" "retiring_ids (on_service s f m) sid = retiring_ids m sid"
  "working (on_service s f m) sid = working m sid"
  by (simp_all add: book_lists working_def)

lemma books_seen_same [simp]:
  "settled_ids (m\<lparr>sm_waiters := w\<rparr>) sid = settled_ids m sid" "dropped_ids (m\<lparr>sm_waiters := w\<rparr>) sid = dropped_ids m sid"
  "claimed_ids (m\<lparr>sm_waiters := w\<rparr>) sid = claimed_ids m sid" "retiring_ids (m\<lparr>sm_waiters := w\<rparr>) sid = retiring_ids m sid"
  "working (m\<lparr>sm_waiters := w\<rparr>) sid = working m sid" "queued_ids (m\<lparr>sm_waiters := w\<rparr>) sid = queued_ids m sid"
  by (simp_all add: book_lists working_def queued_ids_def)

lemma active_on_service:
  "(\<And>i. si_active (f i) = si_active i) \<Longrightarrow> active_of (on_service s f m) sid = active_of m sid"
  by (cases "instance_of m s") (simp_all add: active_of_def)

lemma books_same [simp]:
  "books_with (m\<lparr>sm_waiters := w\<rparr>) sid busy cl rt = books_with m sid busy cl rt" "books_with (m\<lparr>sm_sends := ss\<rparr>) sid busy cl rt = books_with m sid busy cl rt"
  "books_with (m\<lparr>sm_recovery := rc\<rparr>) sid busy cl rt = books_with m sid busy cl rt" "books_with (m\<lparr>sm_pending_action := pa\<rparr>) sid busy cl rt = books_with m sid busy cl rt"
  "books_with (m\<lparr>sm_snapshot := sn\<rparr>) sid busy cl rt = books_with m sid busy cl rt" "books_with (m\<lparr>sm_used := u\<rparr>) sid busy cl rt = books_with m sid busy cl rt"
  by (simp_all add: books_with_def book_lists queued_ids_def open_ids_def recorded_set_def working_def)

definition plain_effect :: "queue_effect \<Rightarrow> bool" where
  "plain_effect x = (case x of EffQueued s e \<Rightarrow> False | EffOutcome s r response out \<Rightarrow> False
     | EffRetired s r response \<Rightarrow> False | EffAbandoned s r \<Rightarrow> False | EffUnrecorded s r \<Rightarrow> False | _ \<Rightarrow> True)"

definition plain_task :: "queue_task \<Rightarrow> bool" where
  "plain_task t = (case t of AdmitTask s e \<Rightarrow> False | IntentTask s e \<Rightarrow> False | FinishTask s e response out k \<Rightarrow> False
     | ExpireTask s a k \<Rightarrow> False | IgnoreTask s a \<Rightarrow> False
     | SaveTask k \<Rightarrow> (case k of SaveExpire s \<Rightarrow> False | SaveCancel s r b \<Rightarrow> False | _ \<Rightarrow> True)
     | InterruptTask s r \<Rightarrow> False | ExchangeTask s r \<Rightarrow> False | _ \<Rightarrow> True)"

lemmas plain_defs = plain_effect_def plain_task_def

lemma books_note [simp]: "plain_effect x \<Longrightarrow> books_with (note_effect x m) sid busy cl rt = books_with m sid busy cl rt"
  by (cases x) (simp_all add: books_with_def recorded_set_def open_ids_def plain_defs book_kinds queued_of_def)

lemma books_spawn [simp]: "plain_task t \<Longrightarrow> books_with (spawn t m) sid busy cl rt = books_with m sid busy cl rt"
  by (cases t) (simp_all add: books_with_def recorded_set_def plain_defs book_kinds open_ids_def task_ok_def
      split: after_save.splits)

lemma books_on_service:
  "(\<And>i. si_pending (f i) = si_pending i) \<Longrightarrow> (\<And>i. si_active (f i) = si_active i) \<Longrightarrow>
    books_with (on_service s f m) sid busy cl rt = books_with m sid busy cl rt"
  by (simp add: books_with_def recorded_set_def open_ids_def waiting_on_service active_on_service)

lemma books_frame:
  assumes "sid \<noteq> s"
  shows "books_with (on_service s f m) sid busy cl rt = books_with m sid busy cl rt"
    "claim_of sid t = [] \<Longrightarrow> retiring_of sid t = [] \<Longrightarrow> \<not> working_of sid t \<Longrightarrow>
      (\<And>w a r. task_ok w a r sid t) \<Longrightarrow> books_with (spawn t m) sid busy cl rt = books_with m sid busy cl rt"
    "settled_of sid x = [] \<Longrightarrow> dropped_of sid x = [] \<Longrightarrow> queued_of sid x = [] \<Longrightarrow>
      books_with (note_effect x m) sid busy cl rt = books_with m sid busy cl rt"
  using assms
  by (simp_all add: books_with_def recorded_set_def open_ids_def waiting_def active_of_def)


lemma books_parts [simp]:
  "books_with (resolve_waiter r m) sid busy cl rt = books_with m sid busy cl rt" "books_with (keep_baseline ck e m) sid busy cl rt = books_with m sid busy cl rt"
  "books_with (begin_stop s m) sid busy cl rt = books_with m sid busy cl rt" "books_with (confirm_stop s b m) sid busy cl rt = books_with m sid busy cl rt"
  "books_with (after_timeout_policy s m) sid busy cl rt = books_with m sid busy cl rt"
  by (auto simp: resolve_waiter_def keep_baseline_def plain_defs books_on_service begin_stop_def confirm_stop_def
      after_timeout_policy_def Let_def split: option.split command_timeout_action.split)

lemma books_admitting: "\<not> rq_timed_out e \<Longrightarrow> books_with (spawn (AdmitTask s e) m) sid busy cl rt = books_with m sid busy cl rt"
  by (simp add: books_with_def recorded_set_def open_ids_def book_kinds task_ok_def)

lemma task_ok_mono: "task_ok w a R sid t \<Longrightarrow> R \<subseteq> S \<Longrightarrow> task_ok w a S sid t"
  by (auto simp: task_ok_def split: queue_task.splits after_finish.splits after_save.splits)

lemma task_ok_append: "task_ok w a R sid t \<Longrightarrow> task_ok (w @ [e]) a R sid t"
  by (auto simp: task_ok_def split: queue_task.splits after_finish.splits after_save.splits)

lemma no_intents: "intents m sid = [] \<Longrightarrow> IntentTask sid e \<notin> set (sm_tasks m)"
  by (auto simp: intents_def intent_of_def)

lemma task_ok_pop:
  assumes "task_ok w a R sid t" "\<And>e. t = IntentTask sid e \<Longrightarrow> w' \<noteq> [] \<and> hd w' = hd w"
  shows "task_ok w' a R sid t"
  using assms by (cases t) (auto simp: task_ok_def)

lemma books_withI:
  assumes "\<And>e. e \<in> set (waiting m sid) \<Longrightarrow> \<not> rq_timed_out e"
    "\<And>a. active_of m sid = Some a \<Longrightarrow> rq_timed_out a \<Longrightarrow> rq_id a \<in> recorded_set m sid"
    "\<And>t. t \<in> set (sm_tasks m) \<Longrightarrow> task_ok (waiting m sid) (active_of m sid) (recorded_set m sid) sid t"
    "\<And>r. count_list (settled_ids m sid) r + count_list (claimed_ids m sid) r + count_list (ids_of (waiting m sid)) r
       + count_list (if busy then [] else open_ids m sid) r + count_list cl r \<le> count_list (queued_ids m sid) r"
    "\<And>r. r \<in> set (queued_ids m sid) \<Longrightarrow> r \<in> set (ids_of (waiting m sid)) \<or> r \<in> set (held_ids (active_of m sid))
       \<or> r \<in> set (retiring_ids m sid) \<or> r \<in> recorded_set m sid \<or> r \<in> set rt"
  shows "books_with m sid busy cl rt"
  unfolding books_with_def using assms by simp

lemma books_withD:
  assumes "books_with m sid busy cl rt"
  shows "e \<in> set (waiting m sid) \<Longrightarrow> \<not> rq_timed_out e"
    "active_of m sid = Some a \<Longrightarrow> rq_timed_out a \<Longrightarrow> rq_id a \<in> recorded_set m sid"
    "t \<in> set (sm_tasks m) \<Longrightarrow> task_ok (waiting m sid) (active_of m sid) (recorded_set m sid) sid t"
    "count_list (settled_ids m sid) r + count_list (claimed_ids m sid) r + count_list (ids_of (waiting m sid)) r
       + count_list (if busy then [] else open_ids m sid) r + count_list cl r \<le> count_list (queued_ids m sid) r"
    "r \<in> set (queued_ids m sid) \<Longrightarrow> r \<in> set (ids_of (waiting m sid)) \<or> r \<in> set (held_ids (active_of m sid))
       \<or> r \<in> set (retiring_ids m sid) \<or> r \<in> recorded_set m sid \<or> r \<in> set rt"
  using assms unfolding books_with_def by simp_all

lemma books_okI:
  assumes "\<And>e. e \<in> set (waiting m sid) \<Longrightarrow> \<not> rq_timed_out e"
    "\<And>a. active_of m sid = Some a \<Longrightarrow> rq_timed_out a \<Longrightarrow> rq_id a \<in> recorded_set m sid"
    "\<And>t. t \<in> set (sm_tasks m) \<Longrightarrow> task_ok (waiting m sid) (active_of m sid) (recorded_set m sid) sid t"
    "\<And>r. count_list (settled_ids m sid) r + count_list (claimed_ids m sid) r + count_list (ids_of (waiting m sid)) r
       + count_list (open_ids m sid) r \<le> count_list (queued_ids m sid) r"
    "\<And>r. r \<in> set (queued_ids m sid) \<Longrightarrow> r \<in> set (ids_of (waiting m sid)) \<or> r \<in> set (held_ids (active_of m sid))
       \<or> r \<in> set (retiring_ids m sid) \<or> r \<in> recorded_set m sid"
  shows "books_ok m sid"
  unfolding books_with_def using assms by simp

lemma books_okD:
  assumes "books_ok m sid"
  shows "e \<in> set (waiting m sid) \<Longrightarrow> \<not> rq_timed_out e"
    "active_of m sid = Some a \<Longrightarrow> rq_timed_out a \<Longrightarrow> rq_id a \<in> recorded_set m sid"
    "t \<in> set (sm_tasks m) \<Longrightarrow> task_ok (waiting m sid) (active_of m sid) (recorded_set m sid) sid t"
    "count_list (settled_ids m sid) r + count_list (claimed_ids m sid) r + count_list (ids_of (waiting m sid)) r
       + count_list (open_ids m sid) r \<le> count_list (queued_ids m sid) r"
    "r \<in> set (queued_ids m sid) \<Longrightarrow> r \<in> set (ids_of (waiting m sid)) \<or> r \<in> set (held_ids (active_of m sid))
       \<or> r \<in> set (retiring_ids m sid) \<or> r \<in> recorded_set m sid"
  using assms unfolding books_with_def by simp_all

lemma books_publish:
  assumes "books_ok m sid" "\<not> rq_timed_out e" "instance_of m s \<noteq> None"
  shows "books_ok (publish_entry s e m) sid"
proof (cases "sid = s")
  case True
  have act: "active_of (publish_entry s e m) s = active_of m s"
    by (simp add: publish_entry_def active_on_service)
  have lists: "settled_ids (publish_entry s e m) s = settled_ids m s" "dropped_ids (publish_entry s e m) s = dropped_ids m s"
    "claimed_ids (publish_entry s e m) s = claimed_ids m s" "retiring_ids (publish_entry s e m) s = retiring_ids m s"
    "working (publish_entry s e m) s = working m s" "sm_tasks (publish_entry s e m) = sm_tasks m"
    by (simp_all add: publish_entry_def book_kinds)
  have rec: "recorded_set (publish_entry s e m) s = recorded_set m s" by (simp add: recorded_set_def lists)
  have w: "waiting (publish_entry s e m) s = waiting m s @ [e]" by (simp add: waiting_publish[OF assms(3)])
  note ok = books_okD[OF assms(1)[unfolded True]]
  show ?thesis
    unfolding True
  proof (rule books_okI, unfold w act rec lists)
    show "\<not> rq_timed_out x" if "x \<in> set (waiting m s @ [e])" for x using ok(1) assms(2) that by auto
    show "rq_id a \<in> recorded_set m s" if "active_of m s = Some a" "rq_timed_out a" for a using ok(2) that .
    show "task_ok (waiting m s @ [e]) (active_of m s) (recorded_set m s) s t" if "t \<in> set (sm_tasks m)" for t
      using ok(3) that by (intro task_ok_append)
    show "count_list (settled_ids m s) r + count_list (claimed_ids m s) r + count_list (ids_of (waiting m s @ [e])) r
        + count_list (open_ids (publish_entry s e m) s) r \<le> count_list (queued_ids (publish_entry s e m) s) r" for r
      using ok(4)[of r] by (simp add: open_ids_def lists act split: if_splits)
    show "r \<in> set (ids_of (waiting m s @ [e])) \<or> r \<in> set (held_ids (active_of m s)) \<or> r \<in> set (retiring_ids m s)
        \<or> r \<in> recorded_set m s" if "r \<in> set (queued_ids (publish_entry s e m) s)" for r
    proof (cases "r = rq_id e")
      case False
      with that have "r \<in> set (queued_ids m s)" by simp
      from ok(5)[OF this] show ?thesis by (metis UnCI map_append set_append)
    qed simp
  qed
next
  case False
  then show ?thesis using assms(1) by (simp add: publish_entry_def books_frame(1,3) queued_of_def book_kinds)
qed

lemma books_frame_spawn:
  "sid \<noteq> s \<Longrightarrow> books_with (spawn (FinishTask s e response out k) m) sid busy cl rt = books_with m sid busy cl rt"
  "sid \<noteq> s \<Longrightarrow> books_with (spawn (ExpireTask s e kt) m) sid busy cl rt = books_with m sid busy cl rt"
  "sid \<noteq> s \<Longrightarrow> books_with (spawn (IgnoreTask s e) m) sid busy cl rt = books_with m sid busy cl rt"
  "sid \<noteq> s \<Longrightarrow> books_with (spawn (IntentTask s e) m) sid busy cl rt = books_with m sid busy cl rt"
  "sid \<noteq> s \<Longrightarrow> books_with (spawn (SaveTask (SaveExpire s)) m) sid busy cl rt = books_with m sid busy cl rt"
  "sid \<noteq> s \<Longrightarrow> books_with (spawn (SaveTask (SaveCancel s r b)) m) sid busy cl rt = books_with m sid busy cl rt"
  "sid \<noteq> s \<Longrightarrow> books_with (spawn (InterruptTask s r) m) sid busy cl rt = books_with m sid busy cl rt"
  "sid \<noteq> s \<Longrightarrow> books_with (spawn (ExchangeTask s r) m) sid busy cl rt = books_with m sid busy cl rt"
  by (intro books_frame; simp add: book_kinds task_ok_def)+

lemma count_remove1:
  "e \<in> set es \<Longrightarrow> count_list (ids_of es) r = count_list (ids_of (remove1 e es)) r + (if r = rq_id e then 1 else 0)"
proof (induction es)
  case (Cons a es)
  then show ?case by (cases "a = e") simp_all
qed simp

lemma ids_remove1: "set (ids_of es) \<subseteq> insert (rq_id e) (set (ids_of (remove1 e es)))"
proof (induction es)
  case (Cons a es)
  then show ?case by (cases "a = e") auto
qed simp

lemma hd_remove1: "es \<noteq> [] \<Longrightarrow> hd es \<noteq> e \<Longrightarrow> remove1 e es \<noteq> [] \<and> hd (remove1 e es) = hd es"
  by (cases es) auto

lemma books_retire:
  assumes "books_ok m sid" "instance_of m s = Some i" "e \<in> set (si_pending i)" "k = FinExpire \<or> k = FinCancel"
    "\<And>x. IntentTask s x \<in> set (sm_tasks m) \<Longrightarrow> x \<noteq> e"
    "k = FinExpire \<Longrightarrow> active_of m s = None"
    "si_pending (f i) = remove1 e (si_pending i)" "\<And>j. si_active (f j) = si_active j"
  shows "books_ok (spawn (FinishTask s e response out k) (on_service s f m)) sid"
    (is "books_ok ?n sid")
proof (cases "sid = s")
  case True
  define w where "w = remove1 e (si_pending i)"
  have w: "waiting m s = si_pending i" "waiting ?n s = w"
    using assms(2,7) by (simp_all add: waiting_def w_def)
  have act: "active_of ?n s = active_of m s" using assms(8) active_on_service by simp
  have k: "claim_of s (FinishTask s e response out k) = [rq_id e]" "retiring_of s (FinishTask s e response out k) = [rq_id e]"
    "\<not> working_of s (FinishTask s e response out k)"
    using assms(4) by (auto simp: book_kinds)
  have rec: "recorded_set ?n s = recorded_set m s" by (simp add: recorded_set_def)
  note ok = books_okD[OF assms(1)[unfolded True]]
  have new: "task_ok w (active_of m s) (recorded_set m s) s (FinishTask s e response out k)"
    using ok(1)[of e] assms(3,4,6) w by (auto simp: task_ok_def closed_request_def)
  have old: "task_ok w (active_of m s) (recorded_set m s) s t" if "t \<in> set (sm_tasks m)" for t
  proof (rule task_ok_pop)
    show t: "task_ok (si_pending i) (active_of m s) (recorded_set m s) s t"
      using ok(3) that by (simp add: w)
    fix x assume "t = IntentTask s x"
    with t assms(5)[of x] that have "si_pending i \<noteq> []" "hd (si_pending i) \<noteq> e" by (auto simp: task_ok_def)
    then show "w \<noteq> [] \<and> hd w = hd (si_pending i)" unfolding w_def by (rule hd_remove1)
  qed
  show ?thesis
    unfolding True
  proof (rule books_okI, unfold w(2) act rec)
    show "\<not> rq_timed_out x" if "x \<in> set w" for x
      using ok(1)[of x] that w(1) by (auto simp: w_def dest: notin_set_remove1)
    show "rq_id a \<in> recorded_set m s" if "active_of m s = Some a" "rq_timed_out a" for a
      using ok(2) that .
    show "task_ok w (active_of m s) (recorded_set m s) s t" if "t \<in> set (sm_tasks ?n)" for t
      using that old new by auto
    show "count_list (settled_ids ?n s) r + count_list (claimed_ids ?n s) r + count_list (ids_of w) r
       + count_list (open_ids ?n s) r \<le> count_list (queued_ids ?n s) r" for r
      using ok(4)[of r] count_remove1[OF assms(3), of r] by (auto simp: open_ids_def k active_on_service assms(8) w(1) w_def split: if_splits)
    show "r \<in> set (ids_of w) \<or> r \<in> set (held_ids (active_of m s)) \<or> r \<in> set (retiring_ids ?n s) \<or> r \<in> recorded_set m s"
      if "r \<in> set (queued_ids ?n s)" for r
    proof -
      have "r \<in> set (queued_ids m s)" using that by simp
      from ok(5)[OF this] show ?thesis
        using ids_remove1[of "si_pending i" e] unfolding w(1) w_def[symmetric]
        by (simp del: set_map add: k) blast
    qed
  qed
next
  case False
  with assms(1) show ?thesis by (simp add: books_frame_spawn books_frame(1))
qed

end
