(* ===== verification/Service_Accounts.thy ===== *)
theory Service_Accounts
  imports Service_Books
begin

text \<open>
  Every operation of the service queue keeps the books of \<^theory_text>\<open>Service_Books\<close>, so every orderly run does.
\<close>

section \<open>Moving claims\<close>


lemma outcome_none: "outcome_effect sid e response out = None \<longleftrightarrow> closed_request e"
  by (simp add: outcome_effect_def closed_request_def)

lemma outcome_seen:
  "outcome_effect sid e response out = Some x \<Longrightarrow>
    settled_of s x = (if s = sid then [rq_id e] else []) \<and> dropped_of s x = [] \<and> queued_of s x = []"
  by (auto simp: outcome_effect_def book_kinds queued_of_def split: if_splits)

lemma books_resumed:
  assumes "resumed m t n" "books_ok m sid"
  shows "books_with n sid (working_of sid t) (claim_of sid t) (retiring_of sid t)"
    "task_ok (waiting n sid) (active_of n sid) (recorded_set n sid) sid t"
proof -
  obtain xs ys where parts: "sm_tasks m = xs @ t # ys" "n = m\<lparr>sm_tasks := xs @ ys\<rparr>"
    using assms(1) by (auto simp: resumed_def)
  note ok = books_okD[OF assms(2)]
  have same: "waiting n sid = waiting m sid" "active_of n sid = active_of m sid"
    "settled_ids n sid = settled_ids m sid" "recorded_set n sid = recorded_set m sid"
    "queued_ids n sid = queued_ids m sid"
    by (simp_all add: parts(2) settled_ids_def recorded_set_def dropped_ids_def queued_ids_def)
  show "task_ok (waiting n sid) (active_of n sid) (recorded_set n sid) sid t"
    using ok(3)[of t] parts(1) by (simp add: same)
  show "books_with n sid (working_of sid t) (claim_of sid t) (retiring_of sid t)"
  proof (rule books_withI, unfold same)
    show "\<not> rq_timed_out e" if "e \<in> set (waiting m sid)" for e using ok(1) that .
    show "rq_id a \<in> recorded_set m sid" if "active_of m sid = Some a" "rq_timed_out a" for a using ok(2) that .
    show "task_ok (waiting m sid) (active_of m sid) (recorded_set m sid) sid t'" if "t' \<in> set (sm_tasks n)" for t'
      using ok(3) that parts by simp
    have "working m sid = (working_of sid t \<or> working n sid)" using parts by (auto simp: working_def)
    then have "(if working_of sid t then [] else open_ids n sid) = open_ids m sid"
      by (simp add: open_ids_def same)
    then show "count_list (settled_ids m sid) r + count_list (claimed_ids n sid) r + count_list (ids_of (waiting m sid)) r
        + count_list (if working_of sid t then [] else open_ids n sid) r + count_list (claim_of sid t) r
        \<le> count_list (queued_ids m sid) r" for r
      using ok(4)[of r] parts by (simp add: claimed_ids_def)
    have "set (retiring_ids m sid) = set (retiring_of sid t) \<union> set (retiring_ids n sid)"
      using parts by (auto simp: retiring_ids_def)
    then show "r \<in> set (ids_of (waiting m sid)) \<or> r \<in> set (held_ids (active_of m sid)) \<or> r \<in> set (retiring_ids n sid)
        \<or> r \<in> recorded_set m sid \<or> r \<in> set (retiring_of sid t)" if "r \<in> set (queued_ids m sid)" for r
      using ok(5)[OF that] by blast
  qed
qed

text \<open>A record pays one claim.\<close>

lemma books_record:
  assumes "books_with n sid busy (r # cl) (r # rt)" "queued_of sid x = []"
    "settled_of sid x @ dropped_of sid x = [r]"
  shows "books_with (note_effect x n) sid busy cl rt"
proof (rule books_withI, unfold instance_of_same waiting_same active_same)
  note ok = books_withD[OF assms(1)]
  have rec: "recorded_set (note_effect x n) sid = insert r (recorded_set n sid)"
    using assms(3) by (cases "settled_of sid x") (auto simp: recorded_set_def)
  show "\<not> rq_timed_out e" if "e \<in> set (waiting n sid)" for e using ok(1) that .
  show "rq_id a \<in> recorded_set (note_effect x n) sid" if "active_of n sid = Some a" "rq_timed_out a" for a
    using ok(2)[OF that] by (simp add: rec)
  show "task_ok (waiting n sid) (active_of n sid) (recorded_set (note_effect x n) sid) sid t"
    if "t \<in> set (sm_tasks (note_effect x n))" for t
    using ok(3)[of t] that by (auto simp: rec elim: task_ok_mono)
  have paid: "count_list (settled_of sid x) i \<le> count_list [r] i" for i
    using assms(3) by (cases "settled_of sid x") auto
  have claim: "count_list (r # cl) i = count_list [r] i + count_list cl i" for i by simp
  have lists: "settled_ids (note_effect x n) sid = settled_ids n sid @ settled_of sid x"
    "open_ids (note_effect x n) sid = open_ids n sid" "queued_ids (note_effect x n) sid = queued_ids n sid"
    by (simp_all add: assms(2) open_ids_def)
  show "count_list (settled_ids (note_effect x n) sid) i + count_list (claimed_ids (note_effect x n) sid) i
      + count_list (ids_of (waiting n sid)) i + count_list (if busy then [] else open_ids (note_effect x n) sid) i
      + count_list cl i \<le> count_list (queued_ids (note_effect x n) sid) i" for i
    using ok(4)[of i] paid[of i] unfolding claim lists books_seen_note(3) count_list_append by linarith
  show "i \<in> set (ids_of (waiting n sid)) \<or> i \<in> set (held_ids (active_of n sid)) \<or> i \<in> set (retiring_ids (note_effect x n) sid)
      \<or> i \<in> recorded_set (note_effect x n) sid \<or> i \<in> set rt" if "i \<in> set (queued_ids (note_effect x n) sid)" for i
    using ok(5)[of i] that by (auto simp: rec assms(2) simp del: set_map)
qed

lemma books_dropped:
  assumes "books_with m s busy cl rt" "queued_of s x = []" "settled_of s x = []" "set rt \<subseteq> set (dropped_of s x) \<union> set rt'"
  shows "books_with (note_effect x m) s busy cl rt'"
proof (rule books_withI, unfold instance_of_same waiting_same active_same)
  let ?n = "note_effect x m"
  note ok = books_withD[OF assms(1)]
  have rec: "recorded_set ?n s = set (dropped_of s x) \<union> recorded_set m s" by (auto simp: recorded_set_def assms(3))
  show "\<not> rq_timed_out e" if "e \<in> set (waiting m s)" for e using ok(1) that .
  show "rq_id c \<in> recorded_set ?n s" if "active_of m s = Some c" "rq_timed_out c" for c using ok(2)[OF that] by (simp add: rec)
  show "task_ok (waiting m s) (active_of m s) (recorded_set ?n s) s t" if "t \<in> set (sm_tasks ?n)" for t
    using ok(3)[of t] that by (auto simp: rec elim: task_ok_mono)
  have "open_ids ?n s = open_ids m s" by (simp add: open_ids_def)
  then show "count_list (settled_ids ?n s) i + count_list (claimed_ids ?n s) i + count_list (ids_of (waiting m s)) i
      + count_list (if busy then [] else open_ids ?n s) i + count_list cl i \<le> count_list (queued_ids ?n s) i" for i
    using ok(4)[of i] by (simp add: assms(2,3) split: if_splits)
  show "i \<in> set (ids_of (waiting m s)) \<or> i \<in> set (held_ids (active_of m s)) \<or> i \<in> set (retiring_ids ?n s)
      \<or> i \<in> recorded_set ?n s \<or> i \<in> set rt'" if "i \<in> set (queued_ids ?n s)" for i
  proof -
    have "i \<in> set (queued_ids m s)" using that by (simp add: assms(2))
    from ok(5)[OF this] assms(4) show ?thesis by (simp add: rec) blast
  qed
qed

lemma books_mono:
  assumes "books_with n sid busy cl rt" "set rt \<subseteq> set rt'" "\<And>r. count_list cl' r \<le> count_list cl r" "busy \<Longrightarrow> busy'"
  shows "books_with n sid busy' cl' rt'"
proof (rule books_withI)
  note ok = books_withD[OF assms(1)]
  show "count_list (settled_ids n sid) r + count_list (claimed_ids n sid) r + count_list (ids_of (waiting n sid)) r
      + count_list (if busy' then [] else open_ids n sid) r + count_list cl' r \<le> count_list (queued_ids n sid) r" for r
    using ok(4)[of r] assms(3)[of r] assms(4) by (auto split: if_splits)
  show "r \<in> set (ids_of (waiting n sid)) \<or> r \<in> set (held_ids (active_of n sid)) \<or> r \<in> set (retiring_ids n sid)
      \<or> r \<in> recorded_set n sid \<or> r \<in> set rt'" if "r \<in> set (queued_ids n sid)" for r
    using ok(5)[OF that] assms(2) by blast
qed (use books_withD[OF assms(1)] in blast)+

lemma books_unbusy:
  assumes "books_with n sid True (rq_id e # cl) rt" "same_or_none (active_of n sid) e"
  shows "books_with n sid False cl rt"
proof (rule books_withI)
  note ok = books_withD[OF assms(1)]
  have held: "count_list (open_ids n sid) r \<le> count_list [rq_id e] r" for r
    using assms(2) by (auto simp: open_ids_def unclosed_ids_def same_or_none_def split: option.split)
  have claim: "count_list (rq_id e # cl) r = count_list [rq_id e] r + count_list cl r" for r by simp
  show "count_list (settled_ids n sid) r + count_list (claimed_ids n sid) r + count_list (ids_of (waiting n sid)) r
      + count_list (if False then [] else open_ids n sid) r + count_list cl r \<le> count_list (queued_ids n sid) r" for r
    using ok(4)[of r] held[of r] unfolding claim if_True if_False by (simp only: list.size count_list.simps)
qed (use books_withD[OF assms(1)] in blast)+

lemma on_service_absent: "instance_of m s = None \<Longrightarrow> on_service s f m = m"
proof -
  assume "instance_of m s = None"
  then have "map (\<lambda>(k, i). (k, if k = s then f i else i)) (sm_services m) = sm_services m"
    by (intro map_idI) (auto simp: instance_of_def map_of_eq_None_iff image_iff)
  then show ?thesis by (simp add: on_service_def)
qed

lemma active_set [simp]:
  "active_of (set_active s a m) sid = (if sid = s then (if instance_of m s = None then None else a) else active_of m sid)"
  by (auto simp: set_active_def active_of_def split: option.split)

lemma set_active_parts [simp]:
  "waiting (set_active s a m) sid = waiting m sid" "settled_ids (set_active s a m) sid = settled_ids m sid"
  "claimed_ids (set_active s a m) sid = claimed_ids m sid" "retiring_ids (set_active s a m) sid = retiring_ids m sid"
  "queued_ids (set_active s a m) sid = queued_ids m sid" "recorded_set (set_active s a m) sid = recorded_set m sid"
  "working (set_active s a m) sid = working m sid" "sm_tasks (set_active s a m) = sm_tasks m"
  by (simp_all add: set_active_def waiting_on_service recorded_set_def)

lemma books_frame_active [simp]: "sid \<noteq> s \<Longrightarrow> books_with (set_active s a m) sid busy cl rt = books_with m sid busy cl rt"
  by (simp add: set_active_def books_frame(1))

lemma task_ok_none: "task_ok w a R sid t \<Longrightarrow> task_ok w None R sid t"
  by (auto simp: task_ok_def same_or_none_def split: queue_task.splits after_finish.splits after_save.splits)

lemma books_release:
  assumes "books_with m sid busy cl rt" "set (held_ids (active_of m sid)) \<subseteq> recorded_set m sid \<union> set rt'" "set rt \<subseteq> set rt'"
  shows "books_with (set_active sid None m) sid busy' cl rt'"
proof (rule books_withI, unfold set_active_parts)
  note ok = books_withD[OF assms(1)]
  show "\<not> rq_timed_out e" if "e \<in> set (waiting m sid)" for e using ok(1) that .
  show "rq_id a \<in> recorded_set m sid" if "active_of (set_active sid None m) sid = Some a" "rq_timed_out a" for a
    using that by (simp split: if_splits)
  show "task_ok (waiting m sid) (active_of (set_active sid None m) sid) (recorded_set m sid) sid t"
    if "t \<in> set (sm_tasks m)" for t
    using task_ok_none[OF ok(3)[OF that]] by simp
  have "open_ids (set_active sid None m) sid = []" by (simp add: open_ids_def unclosed_ids_def)
  then show "count_list (settled_ids m sid) r + count_list (claimed_ids m sid) r + count_list (ids_of (waiting m sid)) r
      + count_list (if busy' then [] else open_ids (set_active sid None m) sid) r + count_list cl r
      \<le> count_list (queued_ids m sid) r" for r
    using ok(4)[of r] by simp
  show "r \<in> set (ids_of (waiting m sid)) \<or> r \<in> set (held_ids (active_of (set_active sid None m) sid))
      \<or> r \<in> set (retiring_ids m sid) \<or> r \<in> recorded_set m sid \<or> r \<in> set rt'" if "r \<in> set (queued_ids m sid)" for r
    using ok(5)[OF that] assms(2,3) by blast
qed

lemma task_ok_held:
  assumes "task_ok w a R sid t" "same_or_none a b" "\<not> monitor_task t \<or> a \<noteq> None"
  shows "task_ok w (Some b) R sid t"
  using assms
  by (cases t) (auto simp: task_ok_def same_or_none_def monitor_task_def split: option.splits after_finish.splits after_save.splits)

text \<open>The active request is replaced by an update of itself.\<close>

lemma books_hold:
  assumes "books_with m sid busy cl rt" "same_or_none (active_of m sid) b" "monitors m = 0 \<or> active_of m sid \<noteq> None"
    "rq_timed_out b \<Longrightarrow> rq_id b \<in> recorded_set m sid" 
    "closed_request b \<or> busy' = busy \<and> unclosed_ids (active_of m sid) = [rq_id b]"
  shows "books_with (set_active sid (Some b) m) sid busy' cl rt"
proof (cases "instance_of m sid")
  case None
  then have "active_of m sid = None" by (simp add: active_of_def)
  then have "unclosed_ids (active_of m sid) = []" "open_ids m sid = []" by (simp_all add: unclosed_ids_def open_ids_def)
  with None assms(1) show ?thesis
    by (simp add: set_active_def on_service_absent books_with_def)
next
  case (Some i)
  note ok = books_withD[OF assms(1)]
  show ?thesis
  proof (rule books_withI, unfold set_active_parts)
    have act: "active_of (set_active sid (Some b) m) sid = Some b" using Some by simp
    show "\<not> rq_timed_out e" if "e \<in> set (waiting m sid)" for e using ok(1) that .
    show "rq_id a \<in> recorded_set m sid" if "active_of (set_active sid (Some b) m) sid = Some a" "rq_timed_out a" for a
      using that assms(4) Some by simp
    show "task_ok (waiting m sid) (active_of (set_active sid (Some b) m) sid) (recorded_set m sid) sid t"
      if "t \<in> set (sm_tasks m)" for t
    proof -
      have "\<not> monitor_task t \<or> active_of m sid \<noteq> None"
        using assms(3) that by (auto simp: monitors_def filter_empty_conv)
      then show ?thesis using task_ok_held[OF ok(3)[OF that] assms(2)] Some by simp
    qed
    have "count_list (if busy' then [] else open_ids (set_active sid (Some b) m) sid) r
        \<le> count_list (if busy then [] else open_ids m sid) r" for r
      using assms(5) by (auto simp: open_ids_def act) (auto simp: unclosed_ids_def)
    then show "count_list (settled_ids m sid) r + count_list (claimed_ids m sid) r + count_list (ids_of (waiting m sid)) r
        + count_list (if busy' then [] else open_ids (set_active sid (Some b) m) sid) r + count_list cl r
        \<le> count_list (queued_ids m sid) r" for r
      using ok(4)[of r] by (meson add_le_mono le_trans order_refl)
    have "set (held_ids (active_of m sid)) \<subseteq> {rq_id b}"
      using assms(2) by (auto simp: held_ids_def same_or_none_def split: option.splits)
    then show "r \<in> set (ids_of (waiting m sid)) \<or> r \<in> set (held_ids (active_of (set_active sid (Some b) m) sid))
        \<or> r \<in> set (retiring_ids m sid) \<or> r \<in> recorded_set m sid \<or> r \<in> set rt" if "r \<in> set (queued_ids m sid)" for r
      using ok(5)[OF that] unfolding act by (simp add: held_ids_def[of "Some b"] del: set_map) blast
  qed
qed

text \<open>The monitor starts to work on the active request, or on the head of the queue.\<close>

lemma books_work:
  assumes "books_ok m s" "active_of m s = Some a" "\<not> closed_request a" "\<not> working m s"
    "t = FinishTask s a response out FinWork \<or> t = ExpireTask s a k \<and> rq_owner a = ServiceOwned"
  shows "books_ok (spawn t m) s"
proof (rule books_okI, unfold active_same waiting_same books_seen_spawn(1))
  note ok = books_okD[OF assms(1)]
  have rec: "recorded_set (spawn t m) s = recorded_set m s" by (simp add: recorded_set_def)
  have t: "claim_of s t = [rq_id a]" "working_of s t" "queued_ids (spawn t m) s = queued_ids m s"
    using assms(5) by (auto simp: book_kinds)
  show "\<not> rq_timed_out e" if "e \<in> set (waiting m s)" for e using ok(1) that .
  show "rq_id b \<in> recorded_set (spawn t m) s" if "active_of m s = Some b" "rq_timed_out b" for b
    using ok(2) that by (simp add: rec)
  show "task_ok (waiting m s) (active_of m s) (recorded_set (spawn t m) s) s u" if "u \<in> set (sm_tasks (spawn t m))" for u
    using that ok(3)[of u] assms(2,3,5) by (auto simp: rec) (auto simp: task_ok_def same_or_none_def closed_request_def)
  have "open_ids m s = [rq_id a]" using assms(2-4) by (simp add: open_ids_def unclosed_ids_def)
  then show "count_list (settled_ids m s) r + count_list (claimed_ids (spawn t m) s) r + count_list (ids_of (waiting m s)) r
      + count_list (open_ids (spawn t m) s) r \<le> count_list (queued_ids (spawn t m) s) r" for r
    using ok(4)[of r] by (simp add: t open_ids_def)
  show "r \<in> set (ids_of (waiting m s)) \<or> r \<in> set (held_ids (active_of m s)) \<or> r \<in> set (retiring_ids (spawn t m) s)
      \<or> r \<in> recorded_set (spawn t m) s" if "r \<in> set (queued_ids (spawn t m) s)" for r
    using ok(5)[of r] that unfolding rec t by auto
qed

lemma books_spawn_plain_claim:
  assumes "books_ok m s" "claim_of s t = []" "retiring_of s t = []" "\<not> working_of s t"
    "task_ok (waiting m s) (active_of m s) (recorded_set m s) s t"
  shows "books_ok (spawn t m) s"
proof -
  have "open_ids (spawn t m) s = open_ids m s" using assms(4) by (simp add: open_ids_def)
  then show ?thesis using assms by (simp add: books_with_def recorded_set_def)
qed

lemma books_ignore:
  "books_ok m s \<Longrightarrow> active_of m s = Some a \<Longrightarrow> rq_timed_out a \<Longrightarrow> books_ok (spawn (IgnoreTask s a) m) s"
  by (rule books_spawn_plain_claim) (auto simp: book_kinds task_ok_def same_or_none_def books_okD(2))

lemma books_intent:
  "books_ok m s \<Longrightarrow> active_of m s = None \<Longrightarrow> waiting m s = e # es \<Longrightarrow> books_ok (spawn (IntentTask s e) m) s"
  by (rule books_spawn_plain_claim) (auto simp: book_kinds task_ok_def)


lemma books_outcome:
  assumes "books_with m s busy (rq_id e # cl) (rq_id e # rt)" "outcome_effect s e response out = Some x"
  shows "books_with (note_effect x m) s busy cl rt"
  using books_record[OF assms(1)] outcome_seen[OF assms(2), of s] by simp

lemma books_unrecorded:
  "books_with m s busy (r # cl) (r # rt) \<Longrightarrow> books_with (note_effect (EffUnrecorded s r) m) s busy cl rt"
  by (rule books_record) (simp_all add: book_kinds queued_of_def)

lemma books_frame_effects [simp]:
  assumes "sid \<noteq> s"
  shows "outcome_effect s e response out = Some x \<Longrightarrow> books_with (note_effect x m) sid busy cl rt = books_with m sid busy cl rt"
    "books_with (note_effect (EffUnrecorded s r) m) sid busy cl rt = books_with m sid busy cl rt"
    "books_with (note_effect (EffOutcome s r response out) m) sid busy cl rt = books_with m sid busy cl rt"
    "books_with (abandon_waiter s r m) sid busy cl rt = books_with m sid busy cl rt"
proof -
  show "outcome_effect s e response out = Some x \<Longrightarrow> books_with (note_effect x m) sid busy cl rt = books_with m sid busy cl rt"
    using outcome_seen[of s e response out x sid] assms by (intro books_frame) auto
  show "books_with (note_effect (EffUnrecorded s r) m) sid busy cl rt = books_with m sid busy cl rt"
    "books_with (note_effect (EffOutcome s r response out) m) sid busy cl rt = books_with m sid busy cl rt"
    "books_with (abandon_waiter s r m) sid busy cl rt = books_with m sid busy cl rt"
    using assms by (simp_all add: abandon_waiter_def books_frame(3) book_kinds queued_of_def)
qed

lemma books_claim:
  assumes "books_with m s False (claim_of s t @ cl) (retiring_of s t @ rt)" "\<not> working_of s t"
    "task_ok (waiting m s) (active_of m s) (recorded_set m s) s t"
  shows "books_with (spawn t m) s False cl rt"
proof -
  have "open_ids (spawn t m) s = open_ids m s" using assms(2) by (simp add: open_ids_def)
  with assms show ?thesis
    by (simp add: books_with_def recorded_set_def add.assoc add.commute add.left_commute) blast
qed

lemma recorded_parts [simp]:
  "recorded_set (resolve_waiter r m) sid = recorded_set m sid" "recorded_set (on_service s f m) sid = recorded_set m sid"
  by (simp_all add: recorded_set_def resolve_waiter_def book_kinds)

lemma retire_next_frame: "sid \<noteq> s \<Longrightarrow> books_with (retire_next s es m) sid busy cl rt = books_with m sid busy cl rt"
  by (induction s es m rule: retire_next.induct) (auto simp: Let_def books_frame_spawn books_on_service split: option.split)

lemma retire_next_books:
  assumes "books_with m s False (ids_of (filter (\<lambda>x. \<not> closed_request x) es)) (ids_of es)"
    "\<forall>x \<in> set es. rq_timed_out x \<longrightarrow> rq_id x \<in> recorded_set m s"
  shows "books_ok (retire_next s es m) s"
  using assms
proof (induction s es m rule: retire_next.induct)
  case (1 s m)
  then show ?case by (simp add: books_on_service)
next
  case (2 s e es m)
  let ?out = "if rq_sent e = None then Cancelled else Failed"
  let ?response = "fail_response ''service_stopped''"
  show ?case
  proof (cases "closed_request e")
    case True
    then have none: "outcome_effect s e ?response ?out = None" by (simp add: outcome_none)
    have "books_with m s False (ids_of (filter (\<lambda>x. \<not> closed_request x) es)) (ids_of es)"
    proof (rule books_withI)
      note ok = books_withD[OF 2(2)]
      show "r \<in> set (ids_of (waiting m s)) \<or> r \<in> set (held_ids (active_of m s)) \<or> r \<in> set (retiring_ids m s)
          \<or> r \<in> recorded_set m s \<or> r \<in> set (ids_of es)" if "r \<in> set (queued_ids m s)" for r
        using ok(5)[OF that] 2(3) True by (auto simp: closed_request_def simp del: set_map)
    qed (use books_withD[OF 2(2)] True in auto)
    then have "books_with (resolve_waiter (rq_id e) m) s False (ids_of (filter (\<lambda>x. \<not> closed_request x) es)) (ids_of es)"
      by simp
    with 2(1)[OF refl refl none this] 2(3) show ?thesis by (simp add: none Let_def)
  next
    case False
    let ?t = "FinishTask s e ?response ?out (FinStop es)"
    from False obtain x where some: "outcome_effect s e ?response ?out = Some x"
      using outcome_none by (metis not_None_eq)
    have "books_with (spawn ?t m) s False [] []"
      using 2(2,3) False by (intro books_claim) (simp_all add: book_kinds task_ok_def)
    then show ?thesis by (simp add: some Let_def)
  qed
qed

lemma resumed_idle: "resumed m t n \<Longrightarrow> monitor_task t \<Longrightarrow> monitors n = 0"
  using resumed_monitors by (fastforce simp: resumed_def)

lemma idle_tasks:
  assumes "monitors m = 0"
  shows "\<not> working m sid" "IntentTask sid e \<notin> set (sm_tasks m)"
  using assms by (auto simp: monitors_def filter_empty_conv working_def list_ex_iff working_of_def monitor_task_def
      split: queue_task.splits)

lemma books_send_loop:
  assumes "books_ok m sid" "monitors m = 0" "active_of m s = None"
  shows "books_ok (send_loop ck s m) sid"
proof (cases "instance_of m s")
  case None
  with assms show ?thesis by (simp add: send_loop_def instance_of_def)
next
  case (Some i)
  show ?thesis
  proof (cases "si_pending i")
    case Nil
    with Some assms show ?thesis by (simp add: send_loop_def instance_of_def)
  next
    case (Cons e es)
    define n where "n = keep_baseline ck e m"
    have n: "books_ok n sid" "monitors n = 0" "instance_of n s = Some i" "active_of n s = None"
      using assms Some by (simp_all add: n_def) (simp_all add: keep_baseline_def)
    let ?resp = "fail_response ''queue_timeout''"
    let ?n = "on_service s (\<lambda>i. i\<lparr>si_pending := es\<rparr>) n"
    have w: "waiting n s = e # es" using n(3) Cons by (simp add: waiting_def)
    have loop: "send_loop ck s m = (if request_expired ck e n
        then finish_request s e ?resp TimedOut FinExpire ?n else spawn (IntentTask s e) n)"
      using Some Cons by (simp add: send_loop_def instance_of_def[symmetric] n_def[symmetric] Let_def)
    have retire: "books_ok (spawn (FinishTask s e ?resp TimedOut FinExpire) ?n) sid"
      using books_retire[OF n(1,3), of e FinExpire "\<lambda>i. i\<lparr>si_pending := es\<rparr>"] idle_tasks(2)[OF n(2)] by (simp add: Cons n(4))
    show ?thesis
    proof (cases "sid = s")
      case True
      have "\<not> closed_request e"
        using books_okD(1)[OF n(1)[unfolded True], of e] w by (simp add: closed_request_def)
      then have "\<exists>x. outcome_effect s e ?resp TimedOut = Some x" using outcome_none by (metis not_None_eq)
      then show ?thesis
        using retire books_intent[OF n(1)[unfolded True] n(4) w]
        by (auto simp: loop finish_request_def True)
    next
      case False
      then have "books_with (finish_request s e ?resp TimedOut FinExpire ?n) sid False [] [] = books_ok n sid"
        by (auto simp: finish_request_def after_finished_def books_frame_spawn books_frame(1) plain_defs split: option.split)
      with n(1) False show ?thesis by (simp add: loop books_frame_spawn)
    qed
  qed
qed

lemma books_handle_work:
  assumes "books_ok m sid" "monitors m = 0"
  shows "books_ok (handle_work s b d m) sid"
proof (cases "active_of m s")
  case None
  with assms show ?thesis by (simp add: handle_work_def active_of_def instance_of_def)
next
  case (Some a)
  let ?resp = "reply_document b d" and ?out = "if b then Succeeded else Failed"
  have work: "handle_work s b d m = (if rq_timed_out a then spawn (IgnoreTask s a) m
      else finish_request s a ?resp ?out FinWork m)"
    using Some by (simp add: handle_work_def active_of_def instance_of_def)
  show ?thesis
  proof (cases "rq_timed_out a")
    case True
    with Some assms show ?thesis by (cases "sid = s") (simp_all add: work books_ignore books_frame_spawn)
  next
    case False
    then have "\<not> closed_request a" by (simp add: closed_request_def)
    then obtain x where "outcome_effect s a ?resp ?out = Some x" using outcome_none by (metis not_None_eq)
    then have "handle_work s b d m = spawn (FinishTask s a ?resp ?out FinWork) m"
      using False by (simp add: work finish_request_def)
    with \<open>\<not> closed_request a\<close> Some assms idle_tasks(1)[OF assms(2)] show ?thesis
      by (cases "sid = s") (simp_all add: books_work books_frame_spawn)
  qed
qed

lemma books_handle_message:
  assumes "books_ok m sid" "monitors m = 0"
  shows "books_ok (handle_message ck s r b d m) sid"
proof -
  have "books_ok (spawn (ExpireTask s a k) m) sid" if "active_of m s = Some a" "overdue ck i a" for a i k
  proof (cases "sid = s")
    case True
    from that(2) have "rq_owner a = ServiceOwned" "\<not> rq_timed_out a" by (simp_all add: overdue_def)
    with that(1) assms idle_tasks(1)[OF assms(2)] True show ?thesis
      by (intro books_work[where a = a, unfolded True]) (auto simp: closed_request_def True)
  qed (simp add: books_frame_spawn assms)
  with assms books_handle_work[OF assms] show ?thesis
    by (simp add: handle_message_def plain_defs active_of_def instance_of_def split: option.split)
qed

lemma books_accept:
  "books_with (accept_timeout s a m) sid busy cl rt
    = books_with (set_active s (Some (a\<lparr>rq_timed_out := True\<rparr>)) m) sid busy cl rt"
  by (auto simp: accept_timeout_def Let_def books_on_service split: option.split command_timeout_action.split)

lemma books_expired:
  assumes "resumed m (ExpireTask s a k) n" "books_ok m sid"
  shows "books_ok (accept_timeout s a (note_effect (EffOutcome s (rq_id a) response out) n)) sid"
proof (cases "sid = s")
  case True
  let ?t = "ExpireTask s a k" and ?n = "note_effect (EffOutcome s (rq_id a) response out) n"
  note n = books_resumed[OF assms(1) assms(2)[unfolded True]]
  have ok: "rq_owner a = ServiceOwned" "same_or_none (active_of n s) a" using n(2) by (simp_all add: task_ok_def)
  have "books_with n s True [rq_id a] []" using n(1) by (simp add: book_kinds)
  then have "books_with n s True [rq_id a] [rq_id a]" by (rule books_mono) auto
  then have "books_with ?n s True [] []" by (rule books_record) (simp_all add: book_kinds queued_of_def)
  moreover have "monitors ?n = 0" using resumed_idle[OF assms(1)] by (simp add: monitor_task_def)
  moreover have "rq_id a \<in> recorded_set ?n s" by (simp add: recorded_set_def book_kinds)
  ultimately have "books_ok (set_active s (Some (a\<lparr>rq_timed_out := True\<rparr>)) ?n) s"
    using ok by (intro books_hold) (auto simp: same_or_none_def closed_request_def split: option.split)
  then show ?thesis by (simp add: books_accept True)
next
  case False
  have "books_ok n sid" using books_resumed(1)[OF assms] False by (simp add: book_kinds)
  with False show ?thesis by (simp add: books_accept)
qed

lemma books_released:
  assumes "resumed m (IgnoreTask s a) n" "books_ok m sid"
  shows "books_ok (release_late s a (note_effect (EffIgnored s r reason) n)) sid"
proof -
  let ?n = "note_effect (EffIgnored s r reason) n"
  have n: "books_ok ?n sid" using books_resumed(1)[OF assms] by (simp add: book_kinds plain_defs)
  have "books_ok (set_active s None p) sid"
    if p: "books_ok p sid" "active_of p s = active_of n s" "recorded_set p s = recorded_set n s" for p
  proof (cases "sid = s")
    case True
    have "set (held_ids (active_of p s)) \<subseteq> recorded_set p s \<union> set []"
      using books_resumed(2)[OF assms, unfolded True] p(2,3)
      by (auto simp: task_ok_def same_or_none_def held_ids_def split: option.splits)
    with p(1) True books_release[of p s False "[]" "[]" "[]" False] show ?thesis by simp
  qed (use p in simp)
  moreover have "recorded_set ?n s = recorded_set n s" by (simp add: recorded_set_def book_kinds)
  ultimately show ?thesis
    using n by (auto simp: release_late_def books_on_service active_on_service plain_defs split: option.split)
qed

lemma abandon_parts [simp]:
  "active_of (abandon_waiter s r m) sid = active_of m sid" "instance_of (abandon_waiter s r m) sid = instance_of m sid"
  by (simp_all add: abandon_waiter_def)

lemma recorded_waiters: "recorded_set (m\<lparr>sm_waiters := w\<rparr>) sid = recorded_set m sid"
  by (simp add: recorded_set_def)

lemma books_abandoned:
  assumes "books_ok m s" "active_of m s = Some a" "rq_id a = r"
  shows "books_ok (spawn (SaveTask (SaveCancel s r b))
    (abandon_waiter s r (set_active s (Some (a\<lparr>rq_timed_out := True\<rparr>)) m))) s"
proof -
  let ?b = "a\<lparr>rq_timed_out := True\<rparr>"
  let ?n = "note_effect (EffAbandoned s r) m"
  have swap: "abandon_waiter s r (set_active s (Some ?b) m) = (set_active s (Some ?b) ?n)\<lparr>sm_waiters := removeAll r (sm_waiters m)\<rparr>"
    by (simp add: abandon_waiter_def set_active_def on_service_def note_effect_def)
  have n: "books_ok ?n s" by (rule books_dropped[OF assms(1)]) (simp_all add: book_kinds queued_of_def)
  have rec: "rq_id ?b \<in> recorded_set ?n s" by (simp add: recorded_set_def book_kinds assms(3))
  have act: "active_of ?n s = Some a" by (simp add: assms(2))
  have "closed_request ?b \<or> unclosed_ids (active_of ?n s) = [rq_id ?b]"
    using act by (auto simp: closed_request_def unclosed_ids_def)
  with n rec act have "books_ok (set_active s (Some ?b) ?n) s"
    by (intro books_hold[where busy = False]) (auto simp: same_or_none_def)
  moreover have "r \<in> recorded_set (set_active s (Some ?b) ?n) s"
    unfolding set_active_parts by (simp add: recorded_set_def book_kinds)
  ultimately show ?thesis
    by (intro books_spawn_plain_claim) (simp_all add: swap recorded_waiters book_kinds task_ok_def)
qed

lemma books_cancel:
  assumes "books_ok m sid" "r \<notin> set (ids_of (intents m s))"
  shows "books_ok (cancel_request s r b m) sid"
proof (cases "instance_of m s")
  case None
  with assms show ?thesis by (simp add: cancel_request_def instance_of_def)
next
  case (Some i)
  show ?thesis
  proof (cases "find (\<lambda>e. rq_id e = r) (si_pending i)")
    case found: (Some e)
    then have e: "e \<in> set (si_pending i)" "rq_id e = r" by (auto simp: find_Some_iff)
    have "x \<noteq> e" if "IntentTask s x \<in> set (sm_tasks m)" for x
      using that assms(2) e(2) by (auto simp: intents_def intent_of_def)
    note retire = books_retire[OF assms(1) Some e(1) _ this, of FinCancel "\<lambda>j. j\<lparr>si_pending := remove1 e (si_pending j)\<rparr>"]
    let ?resp = "fail_response ''cancelled_before_send''"
    show ?thesis
    proof (cases "sid = s")
      case True
      have "\<not> closed_request e"
        using books_okD(1)[OF assms(1)[unfolded True], of e] Some e(1) by (simp add: closed_request_def waiting_def)
      then obtain x where "outcome_effect s e ?resp Cancelled = Some x" using outcome_none by (metis not_None_eq)
      then show ?thesis
        using retire[of ?resp Cancelled] Some found
        by (simp add: cancel_request_def instance_of_def cancel_queued_def finish_request_def)
    next
      case False
      have "books_ok (cancel_queued s e m) sid = books_ok m sid"
        using False by (auto simp: cancel_queued_def finish_request_def after_finished_def books_frame_spawn
            books_frame(1) plain_defs split: option.split)
      with assms(1) Some found show ?thesis by (simp add: cancel_request_def instance_of_def)
    qed
  next
    case None
    then show ?thesis
      using assms(1) Some books_abandoned[of m s _ r]
      by (cases "sid = s") (auto simp: cancel_request_def instance_of_def active_of_def books_frame_spawn split: option.split)
  qed
qed

lemma books_end_stop:
  assumes "books_ok m sid" "intents m s = []" "\<not> working m s"
  shows "books_ok (end_stop s stopped preserve m) sid"
proof (cases "instance_of m s")
  case None
  with assms show ?thesis by (simp add: end_stop_def instance_of_def)
next
  case (Some i)
  define w where "w = (if preserve then si_pending i else [])"
  define es where "es = (case si_active i of None \<Rightarrow> [] | Some a \<Rightarrow> [a]) @ (if preserve then [] else si_pending i)"
  define n where "n = on_service s (\<lambda>i. i\<lparr>si_active := None, si_pending := if preserve then si_pending i else []\<rparr>)
    (confirm_stop s stopped m)"
  have stop: "end_stop s stopped preserve m = retire_next s es n"
    using Some by (simp add: end_stop_def instance_of_def es_def n_def)
  show ?thesis
  proof (cases "sid = s")
    case True
    let ?p = "confirm_stop s stopped m"
    have p: "books_ok ?p s" using assms(1) True by simp
    have "waiting ?p s = waiting m s" "active_of ?p s = active_of m s" "recorded_set ?p s = recorded_set m s"
      "sm_tasks ?p = sm_tasks m" "working ?p s = working m s"
      by (simp_all add: confirm_stop_def waiting_on_service active_on_service recorded_set_def)
        (auto simp: book_lists working_def on_service_def)
    then have same: "waiting ?p s = si_pending i" "active_of ?p s = si_active i" "\<not> working ?p s" "intents ?p s = []"
      "sm_tasks ?p = sm_tasks m" "recorded_set ?p s = recorded_set m s"
      using Some assms(2,3) by (simp_all add: waiting_def active_of_def intents_def)
    note ok = books_okD[OF p, unfolded same]
    have n: "waiting n s = w" "active_of n s = None" "recorded_set n s = recorded_set ?p s" "sm_tasks n = sm_tasks ?p"
      "settled_ids n s = settled_ids ?p s" "claimed_ids n s = claimed_ids ?p s" "queued_ids n s = queued_ids ?p s"
      "retiring_ids n s = retiring_ids ?p s"
      using same(1,2) Some
      by (simp_all add: n_def w_def waiting_def active_of_def) (auto simp: confirm_stop_def)
    have "books_with n s False (ids_of (filter (\<lambda>x. \<not> closed_request x) es)) (ids_of es)"
    proof (rule books_withI, unfold n same)
      show "\<not> rq_timed_out e" if "e \<in> set w" for e using ok(1) that by (auto simp: w_def split: if_splits)
      show "rq_id a \<in> recorded_set m s" if "None = Some a" for a using that by simp
      show "task_ok w None (recorded_set m s) s t" if "t \<in> set (sm_tasks m)" for t
      proof (rule task_ok_pop)
        show "task_ok (si_pending i) None (recorded_set m s) s t" using task_ok_none[OF ok(3)[OF that]] .
        show "w \<noteq> [] \<and> hd w = hd (si_pending i)" if "t = IntentTask s e" for e
          using no_intents[OF assms(2)] that \<open>t \<in> set (sm_tasks m)\<close> by auto
      qed
      have "filter (\<lambda>x. \<not> closed_request x) (si_pending i) = si_pending i"
        using ok(1) by (auto simp: closed_request_def intro: filter_True)
      then have "count_list (ids_of w) r + count_list (ids_of (filter (\<lambda>x. \<not> closed_request x) es)) r
          = count_list (ids_of (si_pending i)) r + count_list (open_ids ?p s) r" for r
        using same by (simp add: w_def es_def open_ids_def unclosed_ids_def split: option.split)
      moreover have "open_ids n s = []" by (simp add: open_ids_def n unclosed_ids_def)
      ultimately show "count_list (settled_ids ?p s) r + count_list (claimed_ids ?p s) r + count_list (ids_of w) r
          + count_list (if False then [] else open_ids n s) r + count_list (ids_of (filter (\<lambda>x. \<not> closed_request x) es)) r
          \<le> count_list (queued_ids ?p s) r" for r
        using ok(4)[of r] by (metis add.assoc add.right_neutral count_list.simps(1) add.commute)
      show "r \<in> set (ids_of w) \<or> r \<in> set (held_ids None) \<or> r \<in> set (retiring_ids ?p s) \<or> r \<in> recorded_set m s
          \<or> r \<in> set (ids_of es)" if "r \<in> set (queued_ids ?p s)" for r
        using ok(5)[OF that] by (auto simp: w_def es_def held_ids_def split: option.splits)
    qed
    moreover have "\<forall>x \<in> set es. rq_timed_out x \<longrightarrow> rq_id x \<in> recorded_set n s"
      using ok(1,2) by (auto simp: es_def n same split: option.splits if_splits)
    ultimately show ?thesis unfolding stop True by (rule retire_next_books)
  next
    case False
    with assms(1) show ?thesis by (simp add: stop retire_next_frame n_def books_frame(1))
  qed
qed

lemma books_take:
  assumes "resumed m (IntentTask s e) n" "books_ok m sid"
  shows "books_ok (take_request ck s e (note_effect (EffIntent s e) n)) sid"
proof (cases "sid = s")
  case True
  let ?n = "note_effect (EffIntent s e) n"
  have idle: "monitors ?n = 0" using resumed_idle[OF assms(1)] by (simp add: monitor_task_def)
  have n: "books_ok ?n s" using books_resumed(1)[OF assms] True by (simp add: book_kinds plain_defs)
  have "active_of ?n s = None \<and> waiting ?n s \<noteq> [] \<and> hd (waiting ?n s) = e"
    using books_resumed(2)[OF assms] True by (simp add: task_ok_def)
  then obtain es where w: "waiting ?n s = e # es" and act: "active_of ?n s = None" by (cases "waiting ?n s") auto
  then obtain i where i: "instance_of ?n s = Some i" "si_pending i = e # es"
    by (auto simp: waiting_def split: option.splits)
  define e' where "e' = sent_request ck (si_instance_id i) e"
  define p where "p = on_service s (\<lambda>i. i\<lparr>si_pending := es, si_active := Some e'\<rparr>) ?n"
  have e': "rq_id e' = rq_id e" "rq_timed_out e' = rq_timed_out e" "rq_owner e' = rq_owner e"
    by (simp_all add: e'_def sent_request_def)
  note ok = books_okD[OF n]
  have not_closed: "\<not> rq_timed_out e" using ok(1)[of e] w by simp
  have p: "waiting p s = es" "active_of p s = Some e'" using i by (simp_all add: p_def waiting_def active_of_def)
  have "books_ok p s"
  proof (rule books_okI, unfold p)
    show "\<not> rq_timed_out x" if "x \<in> set es" for x using ok(1)[of x] that w by simp
    show "rq_id a \<in> recorded_set p s" if "Some e' = Some a" "rq_timed_out a" for a using that not_closed e' by simp
    show "task_ok es (Some e') (recorded_set p s) s t" if "t \<in> set (sm_tasks p)" for t
    proof -
      have "t \<in> set (sm_tasks ?n)" using that by (simp add: p_def)
      then have "\<not> monitor_task t" "task_ok (waiting ?n s) None (recorded_set ?n s) s t"
        using idle ok(3) act by (auto simp: monitors_def filter_empty_conv)
      then show ?thesis
        by (cases t) (auto simp: task_ok_def monitor_task_def p_def split: after_finish.splits after_save.splits)
    qed
    have "\<not> working ?n s" using idle_tasks[OF idle] by simp
    then have "open_ids ?n s = []" "open_ids p s = [rq_id e]"
      using act p not_closed e' by (simp_all add: open_ids_def unclosed_ids_def p_def closed_request_def)
    then show "count_list (settled_ids p s) r + count_list (claimed_ids p s) r + count_list (ids_of es) r
        + count_list (open_ids p s) r \<le> count_list (queued_ids p s) r" for r
      using ok(4)[of r] w by (simp add: p_def split: if_splits)
    show "r \<in> set (ids_of es) \<or> r \<in> set (held_ids (Some e')) \<or> r \<in> set (retiring_ids p s) \<or> r \<in> recorded_set p s"
      if "r \<in> set (queued_ids p s)" for r
      using ok(5)[of r] that w act e' by (auto simp: p_def held_ids_def)
  qed
  moreover have "take_request ck s e ?n = spawn (SaveTask (SaveSent s e')) p"
    using i by (simp add: take_request_def instance_of_def p_def e'_def Let_def)
  ultimately show ?thesis by (simp add: True plain_defs)
next
  case False
  have "books_ok n sid" using books_resumed(1)[OF assms] False by (simp add: book_kinds)
  with False show ?thesis
    by (simp add: take_request_def plain_defs Let_def books_frame(1) split: option.split list.split)
qed

lemma books_monitor_service:
  assumes "books_ok m sid" "monitors m = 0"
  shows "books_ok (monitor_service ck s m) sid"
proof -
  have expire: "books_ok (spawn (ExpireTask s a TimeoutOnly) m) sid" if "active_of m s = Some a" "overdue ck i a" for a i
  proof (cases "sid = s")
    case True
    from that(2) have "rq_owner a = ServiceOwned" "\<not> rq_timed_out a" by (simp_all add: overdue_def)
    with that(1) assms idle_tasks(1)[OF assms(2)] True show ?thesis
      by (intro books_work[where a = a, unfolded True]) (auto simp: closed_request_def True)
  qed (simp add: books_frame_spawn assms)
  have send: "books_ok (send_next ck s m) sid"
    using assms books_send_loop[OF assms, of s]
    by (auto simp: send_next_def active_of_def instance_of_def split: option.split)
  show ?thesis
    using assms expire send
    by (auto simp: monitor_service_def plain_defs books_on_service Let_def active_of_def instance_of_def split: option.split)
qed

lemma finish_task_books:
  assumes "resumed m (FinishTask s e response out k) n" "books_ok m s"
  shows "\<not> closed_request e" "books_with n s (k = FinWork) (rq_id e # (case k of FinStop es \<Rightarrow> ids_of (filter (\<lambda>x. \<not> closed_request x) es) | _ \<Rightarrow> []))
      (rq_id e # (case k of FinStop es \<Rightarrow> ids_of es | _ \<Rightarrow> []))"
    "k = FinExpire \<Longrightarrow> active_of n s = None" "k = FinWork \<Longrightarrow> same_or_none (active_of n s) e"
    "k = FinStop es \<Longrightarrow> \<forall>x \<in> set es. rq_timed_out x \<longrightarrow> rq_id x \<in> recorded_set n s"
  using books_resumed[OF assms] by (auto simp: task_ok_def book_kinds)

lemma after_finished_frame:
  "sid \<noteq> s \<Longrightarrow> books_with (after_finished s k m) sid busy cl rt = books_with m sid busy cl rt"
  by (simp add: after_finished_def books_frame_spawn retire_next_frame plain_defs split: after_finish.split)

lemma books_finished:
  assumes "resumed m (FinishTask s e response out k) n" "books_ok m sid"
  shows "books_ok (after_finished s k (resolve_waiter (rq_id e)
      (case outcome_effect s e response out of None \<Rightarrow> n | Some x \<Rightarrow> note_effect x n))) sid"
proof (cases "sid = s")
  case True
  note n = finish_task_books[OF assms(1) assms(2)[unfolded True]]
  obtain x where x: "outcome_effect s e response out = Some x" using n(1) outcome_none by (metis not_None_eq)
  define p where "p = resolve_waiter (rq_id e) (note_effect x n)"
  have p: "books_with p s (k = FinWork) (case k of FinStop es \<Rightarrow> ids_of (filter (\<lambda>x. \<not> closed_request x) es) | _ \<Rightarrow> [])
      (case k of FinStop es \<Rightarrow> ids_of es | _ \<Rightarrow> [])"
    using books_outcome[OF n(2) x] by (simp add: p_def)
  have rec: "recorded_set p s = insert (rq_id e) (recorded_set n s)"
    using outcome_seen[OF x, of s] by (simp add: p_def recorded_set_def[of "note_effect x n"]) (simp add: recorded_set_def)
  have act: "active_of p s = active_of n s" by (simp add: p_def resolve_waiter_def)
  have "books_ok (after_finished s k p) s"
  proof (cases k)
    case FinExpire
    with p act n(3) show ?thesis
      by (simp add: after_finished_def books_spawn_plain_claim book_kinds task_ok_def)
  next
    case FinCancel
    with p show ?thesis by (simp add: after_finished_def plain_defs)
  next
    case FinWork
    have "set (held_ids (active_of p s)) \<subseteq> recorded_set p s \<union> set []"
      using n(4)[OF FinWork] by (auto simp: act rec held_ids_def same_or_none_def split: option.splits)
    with p show ?thesis by (simp add: after_finished_def FinWork books_release)
  next
    case (FinStop es)
    with p n(5)[OF FinStop] show ?thesis by (auto simp: after_finished_def rec intro: retire_next_books)
  qed
  then show ?thesis by (simp add: x p_def True)
next
  case False
  have "books_ok n sid" using books_resumed(1)[OF assms] False by (simp add: book_kinds)
  with False show ?thesis by (simp add: after_finished_frame split: option.split)
qed

lemma books_finish_failed:
  assumes "resumed m (FinishTask s e response out k) n" "books_ok m sid"
  shows "books_ok (fail_task (FinishTask s e response out k) n) sid"
proof (cases "sid = s")
  case True
  note n = finish_task_books[OF assms(1) assms(2)[unfolded True]]
  define p where "p = note_effect (EffUnrecorded s (rq_id e)) n"
  have p: "books_with p s (k = FinWork) (case k of FinStop es \<Rightarrow> ids_of (filter (\<lambda>x. \<not> closed_request x) es) | _ \<Rightarrow> [])
      (case k of FinStop es \<Rightarrow> ids_of es | _ \<Rightarrow> [])"
    using books_unrecorded[OF n(2)] by (simp add: p_def)
  show ?thesis
  proof (cases k)
    case FinWork
    have "books_with n s True [rq_id e] [rq_id e]" using n(2) by (simp add: FinWork)
    then have "books_with n s False [] [rq_id e]" using n(4)[OF FinWork] by (rule books_unbusy)
    then have "books_ok p s" unfolding p_def by (rule books_dropped) (simp_all add: book_kinds queued_of_def)
    then show ?thesis by (simp add: FinWork fail_task_def True p_def[symmetric] monitor_task_def plain_defs Let_def)
  next
    case (FinStop es)
    have "recorded_set n s \<subseteq> recorded_set p s" by (auto simp: p_def recorded_set_def)
    with p n(5)[OF FinStop] show ?thesis
      by (auto simp: FinStop fail_task_def True p_def[symmetric] intro!: retire_next_books)
  qed (use p in \<open>auto simp: fail_task_def True p_def[symmetric] monitor_task_def plain_defs Let_def\<close>)
next
  case False
  have "books_ok n sid" using books_resumed(1)[OF assms] False by (simp add: book_kinds)
  with False show ?thesis
    by (auto simp: fail_task_def retire_next_frame plain_defs Let_def split: after_finish.split)
qed

lemma task_kinds:
  "\<not> working_of sid (AdmitTask s e)" "claim_of sid (AdmitTask s e) = []" "retiring_of sid (AdmitTask s e) = []"
  "\<not> working_of sid (SaveTask k)" "claim_of sid (SaveTask k) = []" "retiring_of sid (SaveTask k) = []"
  "\<not> working_of sid (IntentTask s e)" "claim_of sid (IntentTask s e) = []" "retiring_of sid (IntentTask s e) = []"
  "\<not> working_of sid (StartedTask s e)" "claim_of sid (StartedTask s e) = []" "retiring_of sid (StartedTask s e) = []"
  "\<not> working_of sid (MessageTask s r b d)" "claim_of sid (MessageTask s r b d) = []" "retiring_of sid (MessageTask s r b d) = []"
  "\<not> working_of sid (IgnoreTask s e)" "claim_of sid (IgnoreTask s e) = []" "retiring_of sid (IgnoreTask s e) = []"
  "\<not> working_of sid (InterruptTask s r)" "claim_of sid (InterruptTask s r) = []" "retiring_of sid (InterruptTask s r) = []"
  "\<not> working_of sid (ExchangeTask s r)" "claim_of sid (ExchangeTask s r) = []" "retiring_of sid (ExchangeTask s r) = []"
  by (simp_all add: book_kinds)

lemma spawn_used:
  "books_with (spawn t (m\<lparr>sm_used := u\<rparr>)) sid busy cl rt = books_with (spawn t m) sid busy cl rt"
proof -
  have "spawn t (m\<lparr>sm_used := u\<rparr>) = (spawn t m)\<lparr>sm_used := u\<rparr>" by (simp add: spawn_def)
  then show ?thesis by (metis books_same(6))
qed

lemma books_run_task:
  assumes "resumed m t n" "\<forall>sid. books_ok m sid" "order_ok m"
    "\<And>s r a. t = ExchangeTask s r \<Longrightarrow> active_of n s = Some a \<Longrightarrow> rq_id a = r"
  shows "books_ok (run_task ck t n) sid"
proof -
  note n = books_resumed[OF assms(1) spec[OF assms(2)]]
  show ?thesis
  proof (cases t)
    case (AdmitTask s e)
    have "instance_of m s \<noteq> None"
      using assms(1,3) by (auto simp: resumed_def order_ok_def ids_ok_def admitting_to_def target_of_def AdmitTask)
    then have "instance_of n s \<noteq> None" using resumed_parts(6)[OF assms(1)] by simp
    moreover have "\<not> rq_timed_out e" using n(2)[of s] by (simp add: AdmitTask task_ok_def)
    ultimately show ?thesis
      using n(1)[of sid] by (simp add: AdmitTask run_task_def task_kinds books_publish plain_defs)
  next
    case (FinishTask s e response out k)
    show ?thesis using books_finished[OF assms(1)[unfolded FinishTask] spec[OF assms(2)]]
      by (simp add: FinishTask run_task_def)
  next
    case (SaveTask k)
    have ok: "books_ok n sid" for sid using n(1)[of sid] by (simp add: SaveTask task_kinds)
    show ?thesis
    proof (cases k)
      case (SaveExpire s)
      have "monitors n = 0" using resumed_idle[OF assms(1)] by (simp add: SaveTask SaveExpire monitor_task_def)
      moreover have "active_of n s = None" using n(2)[of s] by (simp add: SaveTask SaveExpire task_ok_def)
      ultimately show ?thesis using ok by (simp add: SaveTask SaveExpire run_task_def books_send_loop)
    next
      case (SaveCancel s r b)
      have "r \<in> recorded_set n s" using n(2)[of s] by (simp add: SaveTask SaveCancel task_ok_def)
      then have "books_ok (spawn (InterruptTask s r) n) s"
        using ok by (intro books_spawn_plain_claim) (simp_all add: task_kinds task_ok_def)
      then have "books_ok (spawn (InterruptTask s r) n) sid" using ok by (cases "sid = s") (simp_all add: books_frame_spawn)
      then have "books_ok (spawn (InterruptTask s r) (n\<lparr>sm_used := finsert (ck_uuid ck) (sm_used n)\<rparr>)) sid"
        by (simp add: spawn_used)
      with ok show ?thesis
        by (simp add: SaveTask SaveCancel run_task_def after_cancel_saved_def split: option.split)
    qed (use ok in \<open>simp_all add: SaveTask run_task_def plain_defs\<close>)
  next
    case (IntentTask s e)
    show ?thesis using books_take[OF assms(1)[unfolded IntentTask] spec[OF assms(2)]]
      by (simp add: IntentTask run_task_def)
  next
    case (StartedTask s e)
    with n(1)[of sid] show ?thesis by (simp add: run_task_def task_kinds plain_defs)
  next
    case (MessageTask s r b d)
    have "monitors n = 0" using resumed_idle[OF assms(1)] by (simp add: MessageTask monitor_task_def)
    with n(1)[of sid] show ?thesis
      by (simp add: MessageTask run_task_def task_kinds books_handle_message plain_defs)
  next
    case (ExpireTask s a k)
    have "monitors n = 0" using resumed_idle[OF assms(1)] by (simp add: ExpireTask monitor_task_def)
    with books_expired[OF assms(1)[unfolded ExpireTask] spec[OF assms(2)], of "fail_response ''command_timeout''" TimedOut sid]
    show ?thesis by (simp add: ExpireTask run_task_def Let_def books_handle_work split: after_timeout.split)
  next
    case (IgnoreTask s a)
    show ?thesis using books_released[OF assms(1)[unfolded IgnoreTask] spec[OF assms(2)]]
      by (simp add: IgnoreTask run_task_def)
  next
    case (InterruptTask s r)
    have "r \<in> recorded_set n s" using n(2)[of s] by (simp add: InterruptTask task_ok_def)
    then have "books_ok (spawn (ExchangeTask s r) n) s"
      using n(1)[of s] by (intro books_spawn_plain_claim) (simp_all add: InterruptTask task_kinds task_ok_def)
    then show ?thesis using n(1)[of sid]
      by (cases "sid = s") (simp_all add: InterruptTask run_task_def task_kinds books_frame_spawn)
  next
    case (ExchangeTask s r)
    have "set (held_ids (active_of n s)) \<subseteq> recorded_set n s \<union> set []"
      using n(2)[of s] assms(4)[OF ExchangeTask] by (auto simp: ExchangeTask task_ok_def held_ids_def split: option.splits)
    with n(1)[of s] have "books_ok (set_active s None n) s"
      by (intro books_release) (auto simp: ExchangeTask task_kinds)
    then show ?thesis using n(1)[of sid]
      by (cases "sid = s") (simp_all add: ExchangeTask run_task_def task_kinds plain_defs)
  qed
qed

lemma books_fail_task:
  assumes "resumed m t n" "books_ok m sid"
  shows "books_ok (fail_task t n) sid"
proof (cases t)
  case (FinishTask s e response out k)
  with books_finish_failed[OF assms(1)[unfolded FinishTask] assms(2)] show ?thesis by simp
next
  case (ExpireTask s a k)
  show ?thesis
  proof (cases "sid = s")
    case True
    have "books_with n s True [rq_id a] []" "same_or_none (active_of n s) a"
      using books_resumed[OF assms] True by (simp_all add: ExpireTask book_kinds task_ok_def)
    then have "books_ok n s" by (rule books_unbusy)
    then show ?thesis by (simp add: ExpireTask fail_task_def True plain_defs)
  qed (use books_resumed(1)[OF assms] in \<open>simp add: ExpireTask fail_task_def book_kinds plain_defs\<close>)
qed (use books_resumed(1)[OF assms] in \<open>auto simp: fail_task_def task_kinds plain_defs\<close>)

lemma books_admission:
  assumes "prepare_entry ck s request command args owner deadline m = (r, n)" "books_ok m sid"
  shows "books_ok n sid" "r = Inr e \<Longrightarrow> \<not> rq_timed_out e \<and> instance_of n s \<noteq> None"
proof -
  show "books_ok n sid"
  proof (cases r)
    case (Inl x)
    with assms show ?thesis by (auto elim: prepare_refused)
  next
    case (Inr e)
    with assms show ?thesis by (auto elim!: prepare_admitted)
  qed
  assume "r = Inr e"
  with assms(1) show "\<not> rq_timed_out e \<and> instance_of n s \<noteq> None"
    by (auto elim!: prepare_admitted simp: new_request_def)
qed

lemma books_step:
  assumes "\<forall>sid. books_ok m sid" "order_ok m" "monitors m \<le> 1" "orderly ev m"
  shows "books_ok (queue_step ck ev m) sid"
proof (cases ev)
  case (Enqueue s request command args owner deadline)
  with assms(1) books_admission show ?thesis
    by (auto simp: queue_step_def books_admitting split: prod.split sum.split)
next
  case (EnqueueNow s request command args owner deadline)
  with assms(1) books_admission show ?thesis
    by (auto simp: queue_step_def intro!: books_publish split: prod.split sum.split)
next
  case (Cancel s r b)
  with assms(1,4) show ?thesis by (auto simp: queue_step_def orderly_def List.member_iff intro!: books_cancel)
next
  case (EndStop s stopped preserve)
  with assms(1,4) show ?thesis by (simp add: queue_step_def orderly_def books_end_stop)
next
  case (Resume k ok)
  show ?thesis
  proof (cases "k < length (sm_tasks m)")
    case True
    obtain t n where step: "resumed m t n" "t = sm_tasks m ! k"
      "queue_step ck (Resume k ok) m = (if ok then run_task ck t n else fail_task t n)"
      using resumed_at[OF True assms(3)] .
    show ?thesis
    proof (cases ok)
      case True
      have "rq_id a = r" if "t = ExchangeTask s r" "active_of n s = Some a" for s r a
      proof -
        have "active_of m s = Some a" using that(2) step(1) by (auto simp: resumed_def)
        then show ?thesis
          using assms(4) that(1) step(2) \<open>k < length (sm_tasks m)\<close> \<open>ok\<close> by (simp add: Resume orderly_def)
      qed
      then show ?thesis using books_run_task[OF step(1) assms(1,2)] True step(3) by (simp add: Resume)
    next
      case False
      then show ?thesis using books_fail_task[OF step(1) spec[OF assms(1)]] step(3) by (simp add: Resume)
    qed
  qed (use assms(1) in \<open>simp add: Resume queue_step_def\<close>)
qed (use assms(1) in \<open>auto simp: queue_step_def monitor_idle books_monitor_service plain_defs Let_def split: option.split\<close>)

lemma fresh_books:
  assumes "fresh_manager m"
  shows "books_ok m sid"
proof -
  have "waiting m sid = [] \<and> active_of m sid = None"
    using assms by (auto simp: fresh_manager_def waiting_def active_of_def instance_of_def idle_service_def list_all_iff
        dest!: map_of_SomeD split: option.split)
  with assms show ?thesis
    by (simp add: fresh_manager_def books_with_def book_lists open_ids_def unclosed_ids_def queued_ids_def working_def)
qed

lemma orderly_books: "orderly_reached m \<Longrightarrow> books_ok m sid"
proof (induction arbitrary: sid rule: orderly_reached.induct)
  case (orderly_step m ev ck)
  then show ?case
    using queue_reached_ok[OF orderly_is_reached[OF orderly_step(1)]] by (intro books_step) auto
qed (rule fresh_books)

end
