(* ===== verification/Service_Properties.thy ===== *)
theory Service_Properties
  imports Service_Accounts Sample_Run
begin

text \<open>The properties of the service queue and runs that witness them.\<close>

section \<open>A sample service\<close>

definition demo_service :: "path service_instance" where
  "demo_service =
     \<lparr>si_service_id = uuid_str 2, si_instance_id = uuid_str 7, si_definition = sample_service,
      si_process = None, si_endpoint = None, si_ready = True, si_started_at = None, si_last_status = None,
      si_restart_count = 0, si_pending = [], si_active = None, si_start_deadline = None, si_ever_ready = True,
      si_stopping = False, si_stopped = False, si_manually_stopped = False, si_blocked = None,
      si_failure = None, si_freeze_id = None, si_prepared_freeze_id = None, si_artifacts = None,
      si_implementation = undefined\<rparr>"

definition demo_manager :: service_manager where
  "demo_manager =
     \<lparr>sm_services = [(uuid_str 2, demo_service)], sm_used = {||}, sm_waiters = [], sm_snapshot = None,
      sm_closed = False, sm_pending_action = None, sm_sends = [], sm_recovery = [], sm_tasks = [], sm_log = []\<rparr>"

definition demo_clock :: queue_clock where
  "demo_clock = \<lparr>ck_now = 0, ck_recovered = 0, ck_wall = ''2026-01-01T00:00:00+00:00'', ck_uuid = uuid_str 90\<rparr>"

fun run_events :: "queue_clock \<Rightarrow> queue_event list \<Rightarrow> service_manager \<Rightarrow> service_manager" where
  "run_events ck [] m = m"
| "run_events ck (ev # evs) m = run_events ck evs (queue_step ck ev m)"

fun orderly_run :: "queue_clock \<Rightarrow> queue_event list \<Rightarrow> service_manager \<Rightarrow> bool" where
  "orderly_run ck [] m = True"
| "orderly_run ck (ev # evs) m = (orderly ev m \<and> orderly_run ck evs (queue_step ck ev m))"

lemma run_reached: "queue_reached m \<Longrightarrow> queue_reached (run_events ck evs m)"
  by (induction evs arbitrary: m) (auto intro: reached_step)

lemma run_orderly: "orderly_reached m \<Longrightarrow> orderly_run ck evs m \<Longrightarrow> orderly_reached (run_events ck evs m)"
  by (induction evs arbitrary: m) (auto intro: orderly_step)

lemma demo_fresh: "fresh_manager demo_manager"
  by (simp add: fresh_manager_def demo_manager_def demo_service_def idle_service_def)

definition demo_work :: "nat \<Rightarrow> queue_event" where
  "demo_work n = EnqueueNow (uuid_str 2) (uuid_str n) ''work'' [] CallerOwned None"

lemma copy_nothing [simp]: "copy_json_object (embed (JObj [])) = Inr []"
  by (simp add: copy_json_object_iff del: embed.simps)

lemmas demo_defs = demo_manager_def demo_service_def demo_clock_def demo_work_def

lemmas run_defs = queue_step_def prepare_entry_def py_simps dict_item_def validate_enqueue_def is_text_def
  control_commands_def barrier_commands_def instance_commands_def publish_entry_def new_request_def
  on_service_def note_effect_def spawn_def monitor_service_def monitor_busy_def monitor_task_def send_next_def
  send_loop_def keep_baseline_def request_expired_def take_request_def sent_request_def run_task_def Let_def
  handle_message_def handle_work_def finish_request_def outcome_effect_def after_finished_def set_active_def
  resolve_waiter_def instance_requests_def

lemma demo_service_fields [simp]:
  "si_pending demo_service = []" "si_active demo_service = None" "si_ready demo_service = True"
  "\<not> si_stopping demo_service" "\<not> si_stopped demo_service" "\<not> si_manually_stopped demo_service"
  "si_blocked demo_service = None" "si_failure demo_service = None" "si_instance_id demo_service = uuid_str 7"
  "si_definition demo_service = sample_service"
  by (simp_all add: demo_service_def)

definition demo_request :: "nat \<Rightarrow> service_request" where
  "demo_request n = new_request demo_clock (uuid_str n) ''work'' [] CallerOwned None (uuid_str 7)"

lemma demo_request_fields [simp]:
  "rq_id (demo_request n) = uuid_str n" "rq_deadline (demo_request n) = None" "rq_owner (demo_request n) = CallerOwned"
  "rq_timed_out (demo_request n) = False"
  by (simp_all add: demo_request_def new_request_def)

lemma work_text: "is_text ''work''"
  by code_simp

lemma admit_demo:
  assumes "map_of (sm_services m) (uuid_str 2) = Some i" "n < uuid_limit"
    "\<not> sm_closed m" "\<not> si_manually_stopped i" "\<not> si_stopped i" "\<not> si_stopping i" "si_instance_id i = uuid_str 7"
    "sm_snapshot m = None" "uuid_str n |\<notin>| sm_used m" "uuid_str n \<notin> set (sm_waiters m)"
    "\<forall>i \<in> snd ` set (sm_services m). \<forall>e \<in> set (instance_requests i). rq_id e \<noteq> uuid_str n"
  shows "queue_step demo_clock (demo_work n) m = publish_entry (uuid_str 2) (demo_request n)
    (m\<lparr>sm_used := finsert (uuid_str n) (sm_used m), sm_recovery := AList.update (uuid_str n) 0 (sm_recovery m)\<rparr>)"
proof -
  have "validate_enqueue ''work'' [] (uuid_str n) m = Inr ()"
    using assms work_text by (auto simp: validate_enqueue_def control_commands_def list_ex_iff)
  then show ?thesis
    using assms(1,3-7) by (simp add: queue_step_def demo_work_def prepare_entry_def py_simps dict_item_def
        demo_request_def demo_clock_def del: embed.simps)
qed

definition demo_queued :: service_manager where
  "demo_queued = run_events demo_clock [demo_work 10, demo_work 11] demo_manager"

lemma demo_queued_state:
  "demo_queued =
     \<lparr>sm_services = [(uuid_str 2, demo_service\<lparr>si_pending := [demo_request 10, demo_request 11]\<rparr>)],
      sm_used = {|uuid_str 10, uuid_str 11|}, sm_waiters = [uuid_str 10, uuid_str 11], sm_snapshot = None,
      sm_closed = False, sm_pending_action = None, sm_sends = [],
      sm_recovery = [(uuid_str 10, 0), (uuid_str 11, 0)], sm_tasks = [],
      sm_log = [EffQueued (uuid_str 2) (demo_request 10), EffQueued (uuid_str 2) (demo_request 11)]\<rparr>"
  unfolding demo_queued_def
  by (simp add: admit_demo demo_manager_def publish_entry_def on_service_def note_effect_def instance_requests_def
      uuid_str_inject finsert_commute)

definition demo_events :: "queue_event list" where
  "demo_events = [Monitor (uuid_str 2), Resume 0 True, Resume 0 True, Resume 0 True,
     Reply (uuid_str 2) (uuid_str 10) True True JNull, Resume 0 True, Resume 0 True]"

definition demo_done :: service_manager where
  "demo_done = run_events demo_clock demo_events demo_queued"

lemmas step_defs = queue_step_def monitor_service_def monitor_busy_def monitor_task_def send_next_def
  send_loop_def keep_baseline_def request_expired_def take_request_def sent_request_def run_task_def
  handle_message_def handle_work_def finish_request_def outcome_effect_def after_finished_def set_active_def
  resolve_waiter_def on_service_def note_effect_def spawn_def overdue_def has_key_def

lemma demo_done_state:
  "sent_ids demo_done (uuid_str 2) = [uuid_str 10]" "queued_ids demo_done (uuid_str 2) = [uuid_str 10, uuid_str 11]"
  "settled_ids demo_done (uuid_str 2) = [uuid_str 10]" "orderly_run demo_clock demo_events demo_queued"
  by (simp_all add: demo_done_def demo_events_def demo_queued_state step_defs orderly_def sent_ids_def queued_ids_def
      settled_ids_def seen_defs book_kinds Let_def)

lemma demo_queued_reached: "orderly_reached demo_queued"
proof -
  have "orderly_run demo_clock [demo_work 10, demo_work 11] demo_manager"
    by (simp add: orderly_def demo_work_def)
  then show ?thesis unfolding demo_queued_def by (intro run_orderly orderly_start demo_fresh)
qed

lemma demo_done_reached: "orderly_reached demo_done"
  unfolding demo_done_def by (rule run_orderly[OF demo_queued_reached demo_done_state(4)])

lemma distinct_count: "distinct xs \<longleftrightarrow> (\<forall>x. count_list xs x \<le> 1)"
proof (induction xs)
  case (Cons a xs)
  show ?case
  proof
    assume "distinct (a # xs)"
    with Cons show "\<forall>x. count_list (a # xs) x \<le> 1" by auto
  next
    assume c: "\<forall>x. count_list (a # xs) x \<le> 1"
    then have "count_list xs a = 0" by (auto dest!: spec[of _ a])
    moreover have "count_list xs x \<le> 1" for x using spec[OF c, of x] by (auto split: if_splits)
    ultimately show "distinct (a # xs)" using Cons by (simp add: count_list_0_iff)
  qed
qed simp

section \<open>Properties\<close>



text \<open>
  C7. In an orderly run no admitted request is lost: it waits, it is the active request, it is being
  retired, its outcome or retirement has been recorded, or the log says that its caller abandoned it
  or that the journal refused the record.
\<close>

theorem requests_accounted:
  assumes "orderly_reached m" "r \<in> set (queued_ids m sid)"
  shows "r \<in> set (ids_of (waiting m sid)) \<or> r \<in> set (held_ids (active_of m sid)) \<or> r \<in> set (retiring_ids m sid)
    \<or> r \<in> set (settled_ids m sid) \<or> r \<in> set (dropped_ids m sid)"
  using books_okD(5)[OF orderly_books[OF assms(1)] assms(2)] by (auto simp: recorded_set_def)

theorem requests_accounted_witness:
  "uuid_str 11 \<in> set (ids_of (waiting demo_queued (uuid_str 2))) \<union> set (held_ids (active_of demo_queued (uuid_str 2)))
     \<union> set (retiring_ids demo_queued (uuid_str 2)) \<union> set (settled_ids demo_queued (uuid_str 2))
     \<union> set (dropped_ids demo_queued (uuid_str 2))"
proof -
  have "uuid_str 11 \<in> set (queued_ids demo_queued (uuid_str 2))"
    by (simp add: demo_queued_state queued_ids_def queued_of_def)
  from requests_accounted[OF demo_queued_reached this] show ?thesis by blast
qed

text \<open>
  C8. In an orderly run the manager writes at most one outcome or retirement for a request, only for an
  admitted one, and never for a request that still waits.
\<close>

theorem one_outcome_per_request:
  assumes "orderly_reached m"
  shows "distinct (settled_ids m sid) \<and> set (settled_ids m sid) \<subseteq> set (queued_ids m sid)
    \<and> set (settled_ids m sid) \<inter> set (ids_of (waiting m sid)) = {}"
proof -
  have queued: "count_list (queued_ids m sid) r \<le> 1" for r
    using sent_in_order(2)[OF orderly_is_reached[OF assms], of sid] unfolding distinct_count by blast
  have settled: "count_list (settled_ids m sid) r + count_list (ids_of (waiting m sid)) r \<le> count_list (queued_ids m sid) r" for r
    using books_okD(4)[OF orderly_books[OF assms], of sid r] by linarith
  have "distinct (settled_ids m sid)"
    unfolding distinct_count using settled queued by (meson le_trans le_add1)
  moreover have "r \<in> set (queued_ids m sid)" if "r \<in> set (settled_ids m sid)" for r
    using settled[of r] that by (metis add_leD1 count_list_0_iff le_zero_eq)
  moreover have "r \<notin> set (ids_of (waiting m sid))" if "r \<in> set (settled_ids m sid)" for r
  proof
    assume "r \<in> set (ids_of (waiting m sid))"
    with that have "count_list (settled_ids m sid) r > 0" "count_list (ids_of (waiting m sid)) r > 0"
      using count_list_0_iff by (metis gr0I)+
    with settled[of r] queued[of r] show False by linarith
  qed
  ultimately show ?thesis by blast
qed

theorem one_outcome_per_request_witness:
  "distinct (settled_ids demo_done (uuid_str 2)) \<and> uuid_str 10 \<in> set (queued_ids demo_done (uuid_str 2))"
  using one_outcome_per_request[OF demo_done_reached, of "uuid_str 2"] by (simp add: demo_done_state)

definition idle_ready :: "path service_instance \<Rightarrow> bool" where
  "idle_ready i \<longleftrightarrow> si_ready i \<and> \<not> si_stopping i \<and> \<not> si_stopped i \<and> \<not> si_manually_stopped i
     \<and> si_failure i = None \<and> si_blocked i = None \<and> si_active i = None"

definition send_events :: "string \<Rightarrow> nat \<Rightarrow> queue_event list" where
  "send_events sid n = [Monitor sid, Resume n True, Resume n True, Resume n True]"

text \<open>
  C19. The head of the queue of a ready and idle service gets sent: once the monitor looks at the service
  and its three writes succeed, the request is the active one and has been sent, unless it had expired.
\<close>

theorem head_gets_sent:
  assumes "instance_of m sid = Some i" "idle_ready i" "\<not> monitor_busy m" "si_pending i = e # es"
    "\<not> request_expired ck e (keep_baseline ck e m)"
  shows "let n = run_events ck (send_events sid (length (sm_tasks m))) m; e' = sent_request ck (si_instance_id i) e
         in sent_ids n sid = sent_ids m sid @ [rq_id e] \<and> active_of n sid = Some e' \<and> waiting n sid = es
            \<and> sm_tasks n = sm_tasks m"
proof -
  define n where "n = keep_baseline ck e m"
  define e' where "e' = sent_request ck (si_instance_id i) e"
  have same: "instance_of n s = instance_of m s" "sm_tasks n = sm_tasks m" "sm_log n = sm_log m" for s
    by (simp_all add: n_def keep_baseline_def)
  have id: "rq_id e' = rq_id e" by (simp add: e'_def sent_request_def)
  have "queue_step ck (Monitor sid) m = spawn (IntentTask sid e) n"
    using assms by (simp add: queue_step_def monitor_service_def send_next_def send_loop_def idle_ready_def n_def
        instance_of_def[symmetric] Let_def)
  moreover define p where "p = on_service sid (\<lambda>i. i\<lparr>si_pending := es, si_active := Some e'\<rparr>) (note_effect (EffIntent sid e) n)"
  have "queue_step ck (Resume (length (sm_tasks m)) True) (spawn (IntentTask sid e) n) = spawn (SaveTask (SaveSent sid e')) p"
    using assms(1,4) same by (simp add: queue_step_def run_task_def take_request_def instance_of_def[symmetric] p_def
        e'_def Let_def) (simp add: spawn_def same note_effect_def on_service_def)
  moreover have tasks: "sm_tasks p = sm_tasks m" by (simp add: p_def same)
  then have keep: "p\<lparr>sm_tasks := sm_tasks m\<rparr> = p" by (cases p) simp
  from tasks have "queue_step ck (Resume (length (sm_tasks m)) True) (spawn (SaveTask (SaveSent sid e')) p) = spawn (StartedTask sid e') p"
    by (simp add: queue_step_def run_task_def Let_def) (simp add: spawn_def)
  moreover have "queue_step ck (Resume (length (sm_tasks m)) True) (spawn (StartedTask sid e') p)
      = note_effect (EffSent sid e') (p\<lparr>sm_sends := (rq_id e', sid) # sm_sends p\<rparr>)"
    using tasks by (simp add: queue_step_def run_task_def Let_def) (simp add: spawn_def keep)
  ultimately have run: "run_events ck (send_events sid (length (sm_tasks m))) m
      = note_effect (EffSent sid e') (p\<lparr>sm_sends := (rq_id e', sid) # sm_sends p\<rparr>)"
    by (simp add: send_events_def)
  have "sent_ids (p\<lparr>sm_sends := ss\<rparr>) sid = sent_ids m sid" for ss
    by (simp add: sent_ids_def p_def same sent_of_def)
  then show ?thesis
    unfolding run Let_def using assms(1) same tasks
    by (simp add: id sent_of_def e'_def[symmetric]) (simp add: p_def active_of_def waiting_def)
qed

theorem head_gets_sent_witness:
  "sent_ids (run_events demo_clock (send_events (uuid_str 2) 0) demo_queued) (uuid_str 2) = [uuid_str 10]"
proof -
  let ?i = "demo_service\<lparr>si_pending := [demo_request 10, demo_request 11]\<rparr>"
  have "instance_of demo_queued (uuid_str 2) = Some ?i" "idle_ready ?i" "\<not> monitor_busy demo_queued"
    "\<not> request_expired demo_clock (demo_request 10) (keep_baseline demo_clock (demo_request 10) demo_queued)"
    and start: "sm_tasks demo_queued = []" "sent_ids demo_queued (uuid_str 2) = []"
    by (simp_all add: demo_queued_state instance_of_def idle_ready_def monitor_busy_def request_expired_def
        sent_ids_def sent_of_def)
  from head_gets_sent[OF this(1-3) _ this(4)] show ?thesis by (simp add: start Let_def)
qed

section \<open>Two disorderly runs\<close>

text \<open>
  A request that its caller cancels while the monitor writes its intent is sent all the same, and the
  next request of the queue is lost: \<^verbatim>\<open>_send_next\<close> takes the new head of the queue away.
\<close>

definition race_events :: "queue_event list" where
  "race_events = [Monitor (uuid_str 2), Cancel (uuid_str 2) (uuid_str 10) False, Resume 0 True, Resume 0 True,
     Resume 0 True, Resume 1 True]"

lemma cancel_during_intent:
  "\<exists>m. queue_reached m \<and> settled_ids m (uuid_str 2) = [uuid_str 10] \<and> sent_ids m (uuid_str 2) = [uuid_str 10]
     \<and> uuid_str 11 \<in> set (queued_ids m (uuid_str 2)) \<and> waiting m (uuid_str 2) = []
     \<and> held_ids (active_of m (uuid_str 2)) = [uuid_str 10] \<and> retiring_ids m (uuid_str 2) = []
     \<and> dropped_ids m (uuid_str 2) = []"
proof (intro exI conjI)
  let ?m = "run_events demo_clock race_events demo_queued"
  show "queue_reached ?m" using run_reached[OF orderly_is_reached[OF demo_queued_reached]] .
  show "settled_ids ?m (uuid_str 2) = [uuid_str 10]" "sent_ids ?m (uuid_str 2) = [uuid_str 10]"
     "uuid_str 11 \<in> set (queued_ids ?m (uuid_str 2))" "waiting ?m (uuid_str 2) = []"
     "held_ids (active_of ?m (uuid_str 2)) = [uuid_str 10]" "retiring_ids ?m (uuid_str 2) = []"
     "dropped_ids ?m (uuid_str 2) = []"
    by (simp_all add: race_events_def demo_queued_state step_defs cancel_request_def cancel_queued_def fail_response_def
        uuid_str_inject waiting_def instance_of_def active_of_def held_ids_def book_lists sent_ids_def queued_ids_def
        seen_defs book_kinds Let_def)
qed

text \<open>
  An interruption whose confirmation arrives after its target has finished clears the request that the
  service works on meanwhile: \<^verbatim>\<open>_interrupt_active_request\<close> does not look which one is active.
\<close>

definition late_interrupt_events :: "queue_event list" where
  "late_interrupt_events = [Monitor (uuid_str 2), Resume 0 True, Resume 0 True, Resume 0 True,
     Cancel (uuid_str 2) (uuid_str 10) True, Resume 0 True, Resume 0 True,
     Reply (uuid_str 2) (uuid_str 10) True True JNull, Resume 1 True, Resume 1 True,
     Monitor (uuid_str 2), Resume 1 True, Resume 1 True, Resume 1 True, Resume 0 True]"

lemma late_interrupt:
  "\<exists>m. queue_reached m \<and> sent_ids m (uuid_str 2) = [uuid_str 10, uuid_str 11] \<and> waiting m (uuid_str 2) = []
     \<and> active_of m (uuid_str 2) = None \<and> settled_ids m (uuid_str 2) = [] \<and> retiring_ids m (uuid_str 2) = []
     \<and> dropped_ids m (uuid_str 2) = [uuid_str 10]"
proof (intro exI conjI)
  let ?m = "run_events demo_clock late_interrupt_events demo_queued"
  show "queue_reached ?m" using run_reached[OF orderly_is_reached[OF demo_queued_reached]] .
  show "sent_ids ?m (uuid_str 2) = [uuid_str 10, uuid_str 11]" "waiting ?m (uuid_str 2) = []"
     "active_of ?m (uuid_str 2) = None" "settled_ids ?m (uuid_str 2) = []" "retiring_ids ?m (uuid_str 2) = []"
     "dropped_ids ?m (uuid_str 2) = [uuid_str 10]"
    by (simp_all add: late_interrupt_events_def demo_queued_state step_defs cancel_request_def abandon_waiter_def
        after_cancel_saved_def release_late_def uuid_str_inject waiting_def instance_of_def active_of_def
        book_lists sent_ids_def seen_defs book_kinds Let_def demo_clock_def)
qed

text \<open>
  C26. Without the order of \<open>orderly\<close> requests do get lost, in two reachable runs of two requests. In the
  first the cancelled request is sent and the other one is in no queue; in the second both were sent and
  the service works on one that the manager has forgotten.
\<close>

theorem disorderly_runs_lose_requests:
  "(\<exists>m. queue_reached m \<and> settled_ids m (uuid_str 2) = [uuid_str 10] \<and> sent_ids m (uuid_str 2) = [uuid_str 10]
      \<and> uuid_str 11 \<in> set (queued_ids m (uuid_str 2)) \<and> waiting m (uuid_str 2) = []
      \<and> held_ids (active_of m (uuid_str 2)) = [uuid_str 10] \<and> retiring_ids m (uuid_str 2) = []
      \<and> dropped_ids m (uuid_str 2) = [])
   \<and> (\<exists>m. queue_reached m \<and> sent_ids m (uuid_str 2) = [uuid_str 10, uuid_str 11] \<and> waiting m (uuid_str 2) = []
      \<and> active_of m (uuid_str 2) = None \<and> settled_ids m (uuid_str 2) = [] \<and> retiring_ids m (uuid_str 2) = []
      \<and> dropped_ids m (uuid_str 2) = [uuid_str 10])"
  by (intro conjI cancel_during_intent late_interrupt)

end
