(* ===== verification/Service_Restart_Properties.thy ===== *)
theory Service_Restart_Properties
  imports Service_Restart Service_Properties
begin

text \<open>
  An automatic restart keeps its retry budget and ends, and a restarted service inherits the queue of
  the previous instance.
\<close>

section \<open>What a round changes\<close>

lemma finish_now_parts [simp]:
  "instance_of (finish_now s e response out m) sid = instance_of m sid"
  "sm_used (finish_now s e response out m) = sm_used m" "sm_closed (finish_now s e response out m) = sm_closed m"
  by (auto simp: finish_now_def resolve_waiter_def note_effect_def instance_of_def split: option.split)

lemma invalidate_parts [simp]:
  "instance_of (invalidate_pinned s es m) sid = instance_of m sid"
  "sm_used (invalidate_pinned s es m) = sm_used m" "sm_closed (invalidate_pinned s es m) = sm_closed m"
  by (induction es arbitrary: m) auto

lemma closed_parts [simp]:
  "sm_closed (on_service s f m) = sm_closed m" "sm_closed (confirm_stop s b m) = sm_closed m"
  "sm_closed (begin_stop s m) = sm_closed m" "sm_closed (set_active s a m) = sm_closed m"
  "sm_used (set_active s a m) = sm_used m" "sm_used (confirm_stop s b m) = sm_used m"
  "sm_used (begin_stop s m) = sm_used m"
  by (simp_all add: on_service_def confirm_stop_def begin_stop_def set_active_def)

definition stopped_instance :: "bool \<Rightarrow> path service_instance \<Rightarrow> path service_instance" where
  "stopped_instance stopped i =
     (if stopped then i\<lparr>si_ready := False, si_active := None, si_stopping := False, si_stopped := True\<rparr>
      else i\<lparr>si_ready := False, si_active := None, si_stopping := False, si_blocked := Some BlockedStop,
             si_failure := Some \<lparr>sf_code = ''service_failure'',
                sf_message = ''Service termination is unconfirmed.''\<rparr>\<rparr>)"

lemma stop_parts [simp]:
  "instance_of (stop_for_restart s stopped m) sid
     = (if sid = s then map_option (stopped_instance stopped) (instance_of m s) else instance_of m sid)"
  "sm_used (stop_for_restart s stopped m) = sm_used m" "sm_closed (stop_for_restart s stopped m) = sm_closed m"
  by (cases "instance_of m s"; auto simp: stop_for_restart_def stopped_instance_def Let_def set_active_def
      instance_of_def[symmetric] confirm_stop_def begin_stop_def split: option.split)+

lemma note_parts [simp]:
  "instance_of (resolve_retry r w m) sid = instance_of m sid" "instance_of (abandon_retry s r w m) sid = instance_of m sid"
  by (auto simp: resolve_retry_def abandon_retry_def split: option.split)

lemma replaced:
  assumes "replace_instance s iid m = Inr n" "instance_of m s = Some old"
  obtains new where "new_service_instance s iid (si_definition old) = Inr new"
    "instance_of n s = Some (new\<lparr>si_restart_count := si_restart_count old, si_pending := filter (\<lambda>e. \<not> pinned e) (si_pending old)\<rparr>)"
    "n = on_service s (\<lambda>_. new\<lparr>si_restart_count := si_restart_count old, si_pending := filter (\<lambda>e. \<not> pinned e) (si_pending old)\<rparr>)
      (invalidate_pinned s (si_pending old) m)"
  using assms
  by (auto simp: replace_instance_def dict_item_def instance_of_def[symmetric] split: if_splits sum.splits)

lemma new_instance_fields:
  "new_service_instance s iid d = Inr new \<Longrightarrow> si_definition new = d \<and> si_active new = None \<and> si_pending new = []
     \<and> \<not> si_stopped new \<and> si_restart_count new = 0 \<and> \<not> si_manually_stopped new"
  by (auto simp: new_service_instance_def split: if_splits)

section \<open>The retry budget\<close>

definition counts :: "service_manager \<Rightarrow> string \<Rightarrow> service_definition \<Rightarrow> nat \<Rightarrow> bool" where
  "counts m sid d k \<longleftrightarrow> (\<exists>i. instance_of m sid = Some i \<and> si_definition i = d \<and> si_restart_count i = k)"

lemma counts_on_service:
  "counts m sid d k \<Longrightarrow> (\<And>i. si_definition (f i) = si_definition i) \<Longrightarrow> (\<And>i. si_restart_count (f i) = si_restart_count i)
    \<Longrightarrow> counts (on_service sid f m) sid d k"
  by (auto simp: counts_def)

lemma counts_more: "counts m sid d k \<Longrightarrow> counts (on_service sid (\<lambda>i. i\<lparr>si_restart_count := Suc (si_restart_count i)\<rparr>) m) sid d (Suc k)"
  by (auto simp: counts_def)

lemma counts_stop: "counts m sid d k \<Longrightarrow> counts (stop_for_restart sid b m) sid d k"
  by (cases b) (auto simp: counts_def stopped_instance_def)

lemma counts_replace: "counts m sid d k \<Longrightarrow> replace_instance sid iid m = Inr n \<Longrightarrow> counts n sid d k"
  by (auto simp: counts_def elim!: replaced dest: new_instance_fields)

lemma counts_notes [simp]:
  "counts (resolve_retry r w m) sid d k = counts m sid d k" "counts (abandon_retry s r w m) sid d k = counts m sid d k"
  by (simp_all add: counts_def)

lemma counts_ready:
  assumes "counts m sid d k"
  shows "counts (snd (end_ready sid retry waited request (mark_ready sid m))) sid d k"
proof -
  have "counts (mark_ready sid m) sid d k" using assms by (auto simp: mark_ready_def intro: counts_on_service)
  then show ?thesis
    by (auto simp: end_ready_def requeue_def Let_def counts_def split: option.split sum.split if_splits)
qed

lemma counts_start:
  assumes "counts m sid d k"
  shows "case start_again automatic sid retry waited t m of Inl (r, n) \<Rightarrow> counts n sid d k | Inr n \<Rightarrow> counts n sid d k \<and> automatic"
proof -
  have failed: "case start_failed automatic sid retry waited n of Inl (r, n) \<Rightarrow> counts n sid d k | Inr n \<Rightarrow> counts n sid d k \<and> automatic"
    if "counts n sid d k" for n
    using that by (auto simp: start_failed_def start_failure_def Let_def intro: counts_on_service)
  show ?thesis
  proof (cases "replace_instance sid (rt_instance t) m")
    case (Inl x)
    then show ?thesis using assms failed[OF assms] by (simp add: start_again_def split: start_result.split)
  next
    case (Inr n)
    then have "counts n sid d k" using assms counts_replace by blast
    then show ?thesis
      using Inr assms failed[OF assms] failed[of n] counts_ready[of n sid d k retry waited "rt_request t"]
      by (auto simp: start_again_def split: start_result.split prod.split)
  qed
qed

definition in_budget :: "service_definition \<Rightarrow> nat \<Rightarrow> nat \<Rightarrow> bool" where
  "in_budget d k j \<longleftrightarrow> int j \<le> max (retries (sv_errors d)) (int k)"

lemma round_counts:
  assumes "counts m sid d k" "on_exhausted (sv_errors d) \<noteq> OnExhaustedSkip"
  shows "case restart_round True sid retry waited t m of
      Inl (r, n) \<Rightarrow> \<exists>j. counts n sid d j \<and> in_budget d k j
    | Inr n \<Rightarrow> counts n sid d (Suc k) \<and> int k < retries (sv_errors d)"
proof (cases "sm_closed m")
  case True
  with assms show ?thesis by (auto simp: restart_round_def in_budget_def)
next
  case False
  obtain i where i: "instance_of m sid = Some i" "si_definition i = d" "si_restart_count i = k"
    using assms(1) by (auto simp: counts_def)
  let ?m = "stop_for_restart sid (rt_stopped t) m"
  have m: "counts ?m sid d k" using assms(1) by (rule counts_stop)
  show ?thesis
  proof (cases "rt_stopped t \<and> \<not> retry_budget_used True i")
    case True
    then have budget: "int k < retries (sv_errors d)" using assms(2) i by (auto simp: retry_budget_used_def)
    let ?n = "on_service sid (\<lambda>i. i\<lparr>si_restart_count := Suc (si_restart_count i)\<rparr>) ?m"
    have n: "counts ?n sid d (Suc k)" using m by (rule counts_more)
    show ?thesis
    proof (cases "rt_manual t")
      case manual: True
      have "counts (on_service sid (\<lambda>i. i\<lparr>si_manually_stopped := True\<rparr>) ?n) sid d (Suc k)"
        using n by (rule counts_on_service) simp_all
      with True manual budget False i show ?thesis
        by (auto simp: restart_round_def instance_of_def[symmetric] Let_def in_budget_def)
    next
      case started: False
      with True budget False i counts_start[OF n, of True retry waited t] show ?thesis
        by (auto simp: restart_round_def instance_of_def[symmetric] Let_def in_budget_def split: sum.splits prod.splits)
    qed
  next
    case stop: False
    have "counts (on_service sid (\<lambda>i. i\<lparr>si_blocked := b\<rparr>) ?m) sid d k" for b
      using m by (rule counts_on_service) simp_all
    moreover have "in_budget d k k" by (simp add: in_budget_def)
    ultimately have "\<exists>j. counts (on_service sid (\<lambda>i. i\<lparr>si_blocked := b\<rparr>) ?m) sid d j \<and> in_budget d k j" "\<exists>j. counts ?m sid d j \<and> in_budget d k j" for b
      using m by blast+
    with stop False i show ?thesis
      by (auto simp: restart_round_def finish_exhausted_def instance_of_def[symmetric] Let_def)
  qed
qed

lemma loop_ends:
  assumes "counts m sid d k" "on_exhausted (sv_errors d) \<noteq> OnExhaustedSkip"
    "max 0 (retries (sv_errors d) - int k) < int (length ts)"
  shows "\<exists>r n j. restart_loop True sid retry waited ts m = Some (r, n) \<and> counts n sid d j \<and> in_budget d k j"
  using assms
proof (induction ts arbitrary: m k)
  case (Cons t ts)
  show ?case
  proof (cases "restart_round True sid retry waited t m")
    case (Inl e)
    then show ?thesis using round_counts[OF Cons(2,3), of retry waited t] by (cases e) auto
  next
    case (Inr n)
    have n: "counts n sid d (Suc k)" "int k < retries (sv_errors d)"
      using round_counts[OF Cons(2,3), of retry waited t] Inr by auto
    then have "max 0 (retries (sv_errors d) - int (Suc k)) < int (length ts)" using Cons(4) by auto
    from Cons.IH[OF n(1) Cons(3) this] obtain r p j where
      "restart_loop True sid retry waited ts n = Some (r, p)" "counts p sid d j" "in_budget d (Suc k) j" by blast
    moreover from this n(2) have "in_budget d k j" by (auto simp: in_budget_def)
    ultimately show ?thesis using Inr by auto
  qed
qed simp

section \<open>The inherited queue\<close>

definition unpinned :: "service_request list \<Rightarrow> service_request list" where
  "unpinned = filter (\<lambda>e. \<not> pinned e)"

text \<open>Rounds may take pinned requests from the queue, when their outcome is recorded.\<close>

definition inherits :: "string \<Rightarrow> service_manager \<Rightarrow> service_manager \<Rightarrow> bool" where
  "inherits sid m n \<longleftrightarrow> unpinned (waiting n sid) = unpinned (waiting m sid) \<and> sm_used n = sm_used m
     \<and> set (settled_ids m sid) \<subseteq> set (settled_ids n sid)
     \<and> (\<forall>e \<in> set (waiting m sid). e \<in> set (waiting n sid) \<or> closed_request e \<or> rq_id e \<in> set (settled_ids n sid))"

lemma inherits_refl: "inherits sid m m"
  by (simp add: inherits_def)

lemma inherits_trans: "inherits sid m n \<Longrightarrow> inherits sid n p \<Longrightarrow> inherits sid m p"
  unfolding inherits_def by (metis subset_iff)

lemma inherits_same:
  "waiting n sid = waiting m sid \<Longrightarrow> sm_used n = sm_used m \<Longrightarrow> set (settled_ids m sid) \<subseteq> set (settled_ids n sid)
    \<Longrightarrow> inherits sid m n"
  by (simp add: inherits_def)

lemma settled_finish_now:
  "set (settled_ids (finish_now s e response out m) sid)
     = set (settled_ids m sid) \<union> (if s = sid \<and> \<not> closed_request e then {rq_id e} else {})"
proof (cases "outcome_effect s e response out")
  case None
  then have "closed_request e" using outcome_none by blast
  with None show ?thesis by (auto simp: finish_now_def resolve_waiter_def book_kinds)
next
  case (Some x)
  then have "\<not> closed_request e" using outcome_none by (metis option.distinct(1))
  then show ?thesis using outcome_seen[OF Some, of sid] Some
    by (auto simp: finish_now_def resolve_waiter_def book_kinds)
qed

lemma settled_parts:
  "settled_ids (confirm_stop s b m) sid = settled_ids m sid" "settled_ids (begin_stop s m) sid = settled_ids m sid"
  by (simp_all add: confirm_stop_def begin_stop_def settled_ids_def)

lemma inherits_stop: "inherits sid m (stop_for_restart sid b m)"
proof (rule inherits_same)
  show "waiting (stop_for_restart sid b m) sid = waiting m sid"
    by (simp add: waiting_def stopped_instance_def split: option.split)
  show "set (settled_ids m sid) \<subseteq> set (settled_ids (stop_for_restart sid b m) sid)"
    by (auto simp: stop_for_restart_def Let_def settled_finish_now settled_parts split: option.split)
qed simp

lemma settled_invalidate:
  "set (settled_ids (invalidate_pinned sid es m) sid)
     = set (settled_ids m sid) \<union> rq_id ` {e \<in> set es. pinned e \<and> \<not> closed_request e}"
  by (induction es arbitrary: m) (auto simp: settled_finish_now)

lemma inherits_replace:
  assumes "replace_instance sid iid m = Inr n" "instance_of m sid = Some old"
  shows "inherits sid m n" "waiting n sid = unpinned (waiting m sid)" "active_of n sid = None"
proof -
  obtain new where new: "new_service_instance sid iid (si_definition old) = Inr new"
    "instance_of n sid = Some (new\<lparr>si_restart_count := si_restart_count old, si_pending := filter (\<lambda>e. \<not> pinned e) (si_pending old)\<rparr>)"
    "n = on_service sid (\<lambda>_. new\<lparr>si_restart_count := si_restart_count old, si_pending := filter (\<lambda>e. \<not> pinned e) (si_pending old)\<rparr>)
      (invalidate_pinned sid (si_pending old) m)"
    using replaced[OF assms] .
  show w: "waiting n sid = unpinned (waiting m sid)" using new(2) assms(2) by (simp add: waiting_def unpinned_def)
  show "active_of n sid = None" using new_instance_fields[OF new(1)] new(2) by (simp add: active_of_def)
  have "set (settled_ids n sid) = set (settled_ids m sid) \<union> rq_id ` {e \<in> set (waiting m sid). pinned e \<and> \<not> closed_request e}"
    using assms(2) by (simp add: new(3) settled_invalidate waiting_def)
  then show "inherits sid m n" using w by (auto simp: inherits_def unpinned_def new(3))
qed

lemma inherits_on_service: "(\<And>i. si_pending (f i) = si_pending i) \<Longrightarrow> inherits sid m (on_service sid f m)"
  by (rule inherits_same) (simp_all add: waiting_on_service)

lemma failed_inherits: "start_failed automatic sid retry waited m = Inr n \<Longrightarrow> inherits sid m n"
  by (auto simp: start_failed_def start_failure_def Let_def split: if_splits intro: inherits_on_service)

lemma failed_not_ready: "start_failed automatic sid retry waited m \<noteq> Inl (RestartReady, n)"
  by (simp add: start_failed_def Let_def)

lemma start_inherits:
  assumes "start_again automatic sid retry waited t m = Inr n" "instance_of m sid = Some i"
  shows "inherits sid m n"
proof (cases "replace_instance sid (rt_instance t) m")
  case (Inl x)
  with assms show ?thesis by (auto simp: start_again_def dest: failed_inherits split: start_result.splits)
next
  case (Inr p)
  from inherits_replace(1)[OF this assms(2)] show ?thesis
    using assms(1) Inr
    by (auto simp: start_again_def dest: failed_inherits inherits_trans[OF _ failed_inherits] split: start_result.splits)
qed

definition requeued :: "service_request option \<Rightarrow> service_manager \<Rightarrow> service_request list \<Rightarrow> bool" where
  "requeued retry m es \<longleftrightarrow>
     (case retry of None \<Rightarrow> es = [] | Some r \<Rightarrow> \<exists>q. q |\<notin>| sm_used m \<and> es = [replacement_of q r])"

definition ready_after ::
    "string \<Rightarrow> service_request option \<Rightarrow> service_manager \<Rightarrow> service_manager \<Rightarrow> bool" where
  "ready_after sid retry m n \<longleftrightarrow>
     (\<exists>es. requeued retry m es \<and> waiting n sid = es @ unpinned (waiting m sid))
     \<and> active_of n sid = None \<and> set (settled_ids m sid) \<subseteq> set (settled_ids n sid)
     \<and> (\<forall>e \<in> set (waiting m sid). pinned e \<longrightarrow> closed_request e \<or> rq_id e \<in> set (settled_ids n sid))"

lemma end_ready_after:
  assumes "end_ready sid retry waited q (mark_ready sid p) = (RestartReady, n)" "instance_of p sid = Some i"
    "waiting p sid = unpinned (waiting m sid)" "active_of p sid = None" "inherits sid m p"
  shows "ready_after sid retry m n"
proof -
  have ready: "waiting (mark_ready sid p) sid = waiting p sid" "active_of (mark_ready sid p) sid = active_of p sid"
    "sm_used (mark_ready sid p) = sm_used p" "settled_ids (mark_ready sid p) sid = settled_ids p sid"
    "instance_of (mark_ready sid p) sid \<noteq> None"
    using assms(2) by (simp_all add: mark_ready_def waiting_on_service active_on_service)
  have settled: "closed_request e \<or> rq_id e \<in> set (settled_ids p sid)" if "e \<in> set (waiting m sid)" "pinned e" for e
    using assms(3,5) that by (auto simp: inherits_def unpinned_def)
  have grown: "set (settled_ids m sid) \<subseteq> set (settled_ids p sid)" using assms(5) by (simp add: inherits_def)
  have used: "sm_used p = sm_used m" using assms(5) by (simp add: inherits_def)
  show ?thesis
  proof (cases retry)
    case None
    with assms(1) have "n = mark_ready sid p" by (simp add: end_ready_def)
    with None ready settled grown assms(3,4) show ?thesis by (auto simp: ready_after_def requeued_def)
  next
    case (Some r)
    then obtain u where q: "q |\<notin>| sm_used p" and n: "n = note_effect (EffQueued sid (replacement_of q r))
        ((on_service sid (\<lambda>i. i\<lparr>si_pending := replacement_of q r # si_pending i\<rparr>) (mark_ready sid p))
          \<lparr>sm_used := finsert q (sm_used p), sm_waiters := u\<rparr>)"
      using assms(1) ready(3) by (auto simp: end_ready_def requeue_def Let_def split: sum.splits if_splits)
    have "waiting n sid = replacement_of q r # waiting p sid"
      using ready(1,5) by (auto simp: n waiting_def split: option.splits)
    moreover have "active_of n sid = None"
      using assms(4) ready(2) by (simp add: n active_on_service)
    moreover have "settled_ids n sid = settled_ids p sid" using ready(4) by (simp add: n book_kinds) (simp add: settled_ids_def)
    ultimately show ?thesis using Some q used settled grown assms(3) by (auto simp: ready_after_def requeued_def)
  qed
qed

lemma start_ready:
  assumes "start_again automatic sid retry waited t m = Inl (RestartReady, n)" "instance_of m sid = Some i"
  shows "ready_after sid retry m n"
proof -
  have "rt_start t = Started" "\<exists>p. replace_instance sid (rt_instance t) m = Inr p"
    using assms(1) failed_not_ready
    by (auto simp: start_again_def split: start_result.splits sum.splits)
  then obtain p where p: "replace_instance sid (rt_instance t) m = Inr p"
    "end_ready sid retry waited (rt_request t) (mark_ready sid p) = (RestartReady, n)"
    using assms(1) by (auto simp: start_again_def)
  obtain j where "instance_of p sid = Some j" using replaced[OF p(1) assms(2)] by blast
  then show ?thesis using end_ready_after[OF p(2)] inherits_replace[OF p(1) assms(2)] by blast
qed

lemma ready_after_inherits:
  assumes "inherits sid m p" "ready_after sid retry p n"
  shows "ready_after sid retry m n"
  using assms unfolding ready_after_def inherits_def requeued_def by (auto split: option.splits)

lemma round_inherits:
  assumes "restart_round automatic sid retry waited t m = Inr n"
  shows "inherits sid m n"
proof -
  let ?m = "stop_for_restart sid (rt_stopped t) m"
  let ?n = "if automatic then on_service sid (\<lambda>i. i\<lparr>si_restart_count := Suc (si_restart_count i)\<rparr>) ?m else ?m"
  obtain i where i: "instance_of m sid = Some i"
    using assms by (auto simp: restart_round_def instance_of_def split: if_splits option.splits)
  then have start: "start_again automatic sid retry waited t ?n = Inr n"
    using assms by (auto simp: restart_round_def instance_of_def[symmetric] Let_def split: if_splits)
  obtain j where "instance_of ?n sid = Some j" using i by (cases automatic) simp_all
  from start_inherits[OF start this] have "inherits sid ?n n" .
  moreover have "inherits sid ?m ?n" by (simp add: inherits_refl inherits_on_service)
  ultimately show ?thesis using inherits_stop inherits_trans by blast
qed

lemma round_ready:
  assumes "restart_round automatic sid retry waited t m = Inl (RestartReady, n)"
  shows "ready_after sid retry m n"
proof -
  let ?m = "stop_for_restart sid (rt_stopped t) m"
  let ?n = "if automatic then on_service sid (\<lambda>i. i\<lparr>si_restart_count := Suc (si_restart_count i)\<rparr>) ?m else ?m"
  obtain i where i: "instance_of m sid = Some i"
    using assms by (auto simp: restart_round_def instance_of_def split: if_splits option.splits)
  then have start: "start_again automatic sid retry waited t ?n = Inl (RestartReady, n)"
    using assms by (auto simp: restart_round_def finish_exhausted_def instance_of_def[symmetric] Let_def split: if_splits)
  obtain j where "instance_of ?n sid = Some j" using i by (cases automatic) simp_all
  from start_ready[OF start this] have "ready_after sid retry ?n n" .
  moreover have "inherits sid ?m ?n" by (simp add: inherits_refl inherits_on_service)
  ultimately show ?thesis using inherits_stop inherits_trans ready_after_inherits by blast
qed

lemma loop_ready:
  "restart_loop automatic sid retry waited ts m = Some (RestartReady, n) \<Longrightarrow> ready_after sid retry m n"
proof (induction ts arbitrary: m)
  case (Cons t ts)
  then show ?case
    by (auto split: sum.splits dest: round_ready round_inherits intro: ready_after_inherits)
qed simp

section \<open>Properties\<close>

text \<open>
  C20. An automatic restart whose policy does not skip ends: it uses at most the retries that are left and
  one round more, and never counts more restarts than the policy allows.
\<close>

theorem restart_ends:
  assumes "instance_of m sid = Some i" "on_exhausted (sv_errors (si_definition i)) \<noteq> OnExhaustedSkip"
    "max 0 (retries (sv_errors (si_definition i)) - int (si_restart_count i)) < int (length ts)"
  shows "\<exists>r n j. restart True sid ts m = Some (r, n) \<and> instance_of n sid = Some j
    \<and> int (si_restart_count j) \<le> max (retries (sv_errors (si_definition i))) (int (si_restart_count i))"
proof (cases "si_manually_stopped i")
  case True
  with assms(1) show ?thesis by (auto simp: restart_def instance_of_def)
next
  case False
  define p where "p = (case retry_request i of None \<Rightarrow> m | Some r \<Rightarrow> m\<lparr>sm_waiters := removeAll (rq_id r) (sm_waiters m)\<rparr>)"
  have "counts p sid (si_definition i) (si_restart_count i)"
    using assms(1) by (simp add: counts_def p_def split: option.split)
  from loop_ends[OF this assms(2,3)] show ?thesis
    using assms(1) False by (fastforce simp: restart_def instance_of_def[symmetric] p_def Let_def counts_def in_budget_def)
qed

text \<open>
  C21. A service that is ready again has its queue back: the unsent requests that are not pinned to the
  old instance in their order, behind the timed-out request it retries under a fresh ID; the pinned ones
  have an outcome.
\<close>

theorem restart_keeps_queue:
  assumes "restart automatic sid ts m = Some (RestartReady, n)" "instance_of m sid = Some i"
  shows "(\<exists>es. waiting n sid = es @ filter (\<lambda>e. \<not> pinned e) (waiting m sid)
      \<and> (case retry_request i of None \<Rightarrow> es = [] | Some r \<Rightarrow> \<exists>q. q |\<notin>| sm_used m \<and> es = [replacement_of q r]))
    \<and> active_of n sid = None
    \<and> (\<forall>e \<in> set (waiting m sid). pinned e \<and> \<not> rq_timed_out e \<longrightarrow> rq_id e \<in> set (settled_ids n sid))"
proof -
  define p where "p = (case retry_request i of None \<Rightarrow> m | Some r \<Rightarrow> m\<lparr>sm_waiters := removeAll (rq_id r) (sm_waiters m)\<rparr>)"
  have same: "waiting p sid = waiting m sid" "sm_used p = sm_used m" by (simp_all add: p_def split: option.split)
  obtain w where "restart_loop automatic sid (retry_request i) w ts p = Some (RestartReady, n)"
    using assms by (auto simp: restart_def instance_of_def[symmetric] p_def Let_def split: if_splits)
  from loop_ready[OF this] show ?thesis
    unfolding ready_after_def requeued_def same unpinned_def closed_request_def by blast
qed


definition demo_try :: "start_result \<Rightarrow> restart_try" where
  "demo_try st = \<lparr>rt_stopped = True, rt_manual = False, rt_start = st, rt_instance = uuid_str 20, rt_request = uuid_str 21\<rparr>"

definition strict_service :: "path service_instance" where
  "strict_service = demo_service\<lparr>si_definition := sample_service\<lparr>sv_errors := error_policy.make 2 (NInt 0) OnExhaustedPause\<rparr>\<rparr>"

definition strict_manager :: service_manager where
  "strict_manager = demo_manager\<lparr>sm_services := [(uuid_str 2, strict_service)]\<rparr>"

theorem restart_ends_witness:
  "\<exists>r n j. restart True (uuid_str 2) [demo_try NotReady, demo_try NotPrepared, demo_try NotReady] strict_manager = Some (r, n)
     \<and> instance_of n (uuid_str 2) = Some j \<and> int (si_restart_count j) \<le> 2"
proof -
  have fields: "retries (sv_errors (si_definition strict_service)) = 2" "si_restart_count strict_service = 0"
    "on_exhausted (sv_errors (si_definition strict_service)) \<noteq> OnExhaustedSkip"
    by (simp_all add: strict_service_def error_policy.make_def demo_service_def)
  have "instance_of strict_manager (uuid_str 2) = Some strict_service" by (simp add: strict_manager_def instance_of_def)
  from restart_ends[OF this fields(3), of "[demo_try NotReady, demo_try NotPrepared, demo_try NotReady]"]
  show ?thesis by (simp add: fields)
qed

lemma demo_restarted:
  "\<exists>n. restart True (uuid_str 2) [demo_try Started] demo_queued = Some (RestartReady, n)"
  by (simp add: demo_queued_state restart_def retry_request_def restart_round_def stop_for_restart_def begin_stop_def
      confirm_stop_def on_service_def retry_budget_used_def sample_service_def service_definition.make_def
      sample_errors_def error_policy.make_def demo_try_def start_again_def replace_instance_def dict_item_def
      new_service_instance_def demo_service_def end_ready_def Let_def)

theorem restart_keeps_queue_witness:
  "\<exists>n. restart True (uuid_str 2) [demo_try Started] demo_queued = Some (RestartReady, n)
     \<and> active_of n (uuid_str 2) = None \<and> waiting n (uuid_str 2) = []
     \<and> {uuid_str 10, uuid_str 11} \<subseteq> set (settled_ids n (uuid_str 2))"
proof -
  obtain n where n: "restart True (uuid_str 2) [demo_try Started] demo_queued = Some (RestartReady, n)"
    using demo_restarted by blast
  let ?i = "demo_service\<lparr>si_pending := [demo_request 10, demo_request 11]\<rparr>"
  have i: "instance_of demo_queued (uuid_str 2) = Some ?i" by (simp add: demo_queued_state instance_of_def)
  then have "waiting demo_queued (uuid_str 2) = [demo_request 10, demo_request 11]" by (simp add: waiting_def)
  moreover have "pinned (demo_request k)" for k
    by (simp add: pinned_def demo_request_def new_request_def dict_get_def)
  moreover have "retry_request ?i = None" by (simp add: retry_request_def)
  ultimately show ?thesis using restart_keeps_queue[OF n i] n by auto
qed

end
