(* ===== verification/Service_Health.thy ===== *)
theory Service_Health
  imports Service_Queue
begin

text \<open>
  Health of one service in \<^verbatim>\<open>ServiceManager\<close>: heartbeat probes, communication failures with one reconnection,
  the startup deadline and the check of the monitor, and the readiness of all services together.
  A step is a segment between two awaits; the clock, the replies and the exit of the process are its
  arguments.
\<close>

section \<open>Probes and failures\<close>

record service_health =
  sh_instance :: "path service_instance"
  sh_probe :: "(string \<times> rat) option"
  sh_next :: rat
  sh_bad :: nat
  sh_connecting :: bool

definition health_failure :: "string \<Rightarrow> string \<Rightarrow> service_health \<Rightarrow> service_health" where
  "health_failure code message h =
     h\<lparr>sh_instance := (sh_instance h)\<lparr>si_failure := Some \<lparr>sf_code = code, sf_message = message\<rparr>\<rparr>\<rparr>"

definition health_ready :: "bool \<Rightarrow> service_health \<Rightarrow> service_health" where
  "health_ready b h = h\<lparr>sh_instance := (sh_instance h)\<lparr>si_ready := b\<rparr>\<rparr>"

text \<open>
  \<^verbatim>\<open>_startup_deadline\<close>: \<open>recovered\<close> is the journal's recovery time since the start of the instance.
\<close>

definition startup_deadline :: "rat \<Rightarrow> path service_instance \<Rightarrow> rat option" where
  "startup_deadline recovered i = map_option (\<lambda>d. d + max 0 recovered) (si_start_deadline i)"

definition startup_expired :: "rat \<Rightarrow> rat \<Rightarrow> path service_instance \<Rightarrow> bool" where
  "startup_expired now recovered i =
     (\<not> si_ever_ready i
      \<and> (case startup_deadline recovered i of None \<Rightarrow> False | Some d \<Rightarrow> d \<le> now))"

text \<open>\<^verbatim>\<open>_handle_heartbeat\<close>; an answer to an old probe changes nothing.\<close>

definition end_probe :: "rat \<Rightarrow> service_health \<Rightarrow> service_health" where
  "end_probe now h = h\<lparr>sh_probe := None, sh_next := now + seconds (interval_seconds (sv_heartbeat (si_definition (sh_instance h))))\<rparr>"

definition grace_over :: "rat \<Rightarrow> rat \<Rightarrow> path service_instance \<Rightarrow> bool" where
  "grace_over now sent i =
     (si_ever_ready i \<and> seconds (grace_seconds (sv_heartbeat (si_definition i))) \<le> now - sent)"

definition accept_status :: "bool \<Rightarrow> json_object \<Rightarrow> path service_instance \<Rightarrow> path service_instance" where
  "accept_status success status i =
     i\<lparr>si_last_status := Some status, si_ready := success, si_ever_ready := si_ever_ready i \<or> success,
       si_failure := if success then None
                     else Some \<lparr>sf_code = ''service_failure'', sf_message = ''Service requested a full restart.''\<rparr>\<rparr>"

definition handle_heartbeat ::
    "rat \<Rightarrow> rat \<Rightarrow> string \<Rightarrow> bool \<Rightarrow> json_object \<Rightarrow> service_health \<Rightarrow> service_health" where
  "handle_heartbeat now recovered request success status h =
     (case sh_probe h of
        None \<Rightarrow> h
      | Some (probe, sent) \<Rightarrow>
          if probe \<noteq> request then h
          else end_probe now
            (if startup_expired now recovered (sh_instance h)
             then health_ready False (health_failure ''startup_timeout'' ''Service replied after its startup deadline.'' h)
             else if grace_over now sent (sh_instance h)
             then health_ready False (health_failure ''heartbeat_timeout'' ''Service replied after heartbeat grace expired.'' h)
             else h\<lparr>sh_instance := accept_status success status (sh_instance h), sh_bad := 0\<rparr>))"

text \<open>
  \<^verbatim>\<open>_note_communication_failure\<close>: reconnect once, then the service has failed. The flag says whether
  the failure was taken up.
\<close>

definition note_communication_failure :: "string \<Rightarrow> service_health \<Rightarrow> bool \<times> service_health" where
  "note_communication_failure error h =
     (if sh_connecting h \<or> si_stopping (sh_instance h) \<or> si_stopped (sh_instance h) then (False, h)
      else (let h = (health_ready False h)\<lparr>sh_probe := None, sh_bad := Suc (sh_bad h)\<rparr>
            in (True, if 2 \<le> sh_bad h
                      then health_failure ''connection_failed'' (''Participant communication failed: '' @ error) h
                      else h\<lparr>sh_connecting := True, sh_next := 0\<rparr>)))"

text \<open>\<^verbatim>\<open>_check_heartbeat_deadline\<close>\<close>

definition check_heartbeat_deadline :: "rat \<Rightarrow> service_health \<Rightarrow> service_health" where
  "check_heartbeat_deadline now h =
     (case sh_probe h of
        None \<Rightarrow> h
      | Some (probe, sent) \<Rightarrow>
          if grace_over now sent (sh_instance h)
          then health_failure ''heartbeat_timeout'' ''Service heartbeat grace period expired.'' h else h)"

text \<open>The next round of \<^verbatim>\<open>_heartbeat_loop\<close> and the three ends of \<^verbatim>\<open>_probe_service\<close>.\<close>

definition start_probe :: "rat \<Rightarrow> string \<Rightarrow> service_health \<Rightarrow> service_health" where
  "start_probe now request h =
     (if si_stopped (sh_instance h) \<or> si_stopping (sh_instance h) \<or> sh_connecting h \<or> now < sh_next h then h
      else h\<lparr>sh_probe := Some (request, now)\<rparr>)"

definition schedule_probe :: "rat \<Rightarrow> service_health \<Rightarrow> service_health" where
  "schedule_probe now h = h\<lparr>sh_next := now + seconds (interval_seconds (sv_heartbeat (si_definition (sh_instance h))))\<rparr>"

definition probe_reply ::
    "rat \<Rightarrow> rat \<Rightarrow> string \<Rightarrow> bool \<Rightarrow> json_object \<Rightarrow> service_health \<Rightarrow> service_health" where
  "probe_reply now recovered request success status h =
     schedule_probe now (if si_stopping (sh_instance h) then h else handle_heartbeat now recovered request success status h)"

definition probe_timeout :: "rat \<Rightarrow> service_health \<Rightarrow> service_health" where
  "probe_timeout now h =
     schedule_probe now ((health_ready False
       (health_failure ''heartbeat_timeout'' ''Service heartbeat grace period expired.'' h))\<lparr>sh_probe := None\<rparr>)"

definition probe_error :: "rat \<Rightarrow> string \<Rightarrow> service_health \<Rightarrow> service_health" where
  "probe_error now error h = schedule_probe now (snd (note_communication_failure error h))"

text \<open>
  One service in a round of \<^verbatim>\<open>monitor\<close>, for a service without a restart of its own: what the round skips,
  the end of a reconnection, and, once \<^verbatim>\<open>_poll_result\<close> is back, the checks. The flag says whether they ask
  for a restart.
\<close>

definition monitor_skips :: "path service_instance \<Rightarrow> bool" where
  "monitor_skips i \<longleftrightarrow> si_manually_stopped i \<or> si_stopped i \<or> si_stopping i"

definition end_reconnection :: "string option \<Rightarrow> service_health \<Rightarrow> service_health" where
  "end_reconnection error h =
     (if monitor_skips (sh_instance h) \<or> \<not> sh_connecting h then h
      else (let h = h\<lparr>sh_connecting := False\<rparr>
            in case error of
                 None \<Rightarrow> h
               | Some e \<Rightarrow> health_failure ''connection_failed'' (''Reconnect failed: '' @ e) h))"

definition monitor_health :: "rat \<Rightarrow> rat \<Rightarrow> bool \<Rightarrow> service_health \<Rightarrow> bool \<times> service_health" where
  "monitor_health now recovered exited h =
     (let h = (if startup_expired now recovered (sh_instance h)
               then health_failure ''startup_timeout'' ''The original service startup deadline expired.'' h else h);
          h = (if exited then health_failure ''process_exited'' ''Service process exited unexpectedly.'' h else h);
          h = check_heartbeat_deadline now h
      in if si_failure (sh_instance h) = None then (False, h)
         else (si_blocked (sh_instance h) = None, health_ready False h))"

section \<open>Readiness of all services\<close>

datatype barrier_action = ActionReady | ActionBlocked blocked_action

definition usable :: "path service_instance \<Rightarrow> bool" where
  "usable i \<longleftrightarrow> si_ready i \<and> \<not> si_stopping i \<and> \<not> si_stopped i"

text \<open>\<^verbatim>\<open>_readiness_action\<close>\<close>

fun first_block :: "path service_instance list \<Rightarrow> blocked_action option" where
  "first_block [] = None"
| "first_block (i # is) =
     (if si_manually_stopped i then first_block is
      else (case si_blocked i of None \<Rightarrow> first_block is | Some a \<Rightarrow> Some a))"

definition readiness_action ::
    "(string, path service_instance) pydict \<Rightarrow> string list \<Rightarrow> barrier_action option" where
  "readiness_action d required =
     (case first_block (dict_values d) of
        Some a \<Rightarrow> Some (ActionBlocked a)
      | None \<Rightarrow>
          if list_ex (\<lambda>k. \<not> has_key d k) required then Some (ActionBlocked BlockedPause)
          else if list_all usable (filter (\<lambda>i. \<not> si_manually_stopped i) (dict_values d))
          then Some (if list_ex si_manually_stopped (dict_values d) then ActionBlocked BlockedPause else ActionReady)
          else None)"

section \<open>Steps\<close>

text \<open>
  Besides the segments above: the late result of a timed-out command, which leaves a failure behind, the
  beginning of a stop, and a new process, which starts with the old count of communication failures.
\<close>

datatype health_event =
    ProbeStarts rat string
  | ProbeReplies rat rat string bool json_object
  | ProbeTimesOut rat
  | ProbeFails rat string
  | SendFails string
  | ReconnectEnds "string option"
  | MonitorLooks rat rat bool
  | LateResult
  | StopBegins
  | ProcessStarts "path service_instance"

definition begin_health_stop :: "service_health \<Rightarrow> service_health" where
  "begin_health_stop h =
     h\<lparr>sh_instance := (sh_instance h)\<lparr>si_ready := False, si_stopping := True\<rparr>,
       sh_probe := None, sh_connecting := False\<rparr>"

definition new_process :: "path service_instance \<Rightarrow> service_health \<Rightarrow> service_health" where
  "new_process i h =
     h\<lparr>sh_instance := i\<lparr>si_ready := False, si_ever_ready := False, si_failure := None\<rparr>,
       sh_probe := None, sh_connecting := False\<rparr>"

definition health_step :: "health_event \<Rightarrow> service_health \<Rightarrow> service_health" where
  "health_step ev h =
     (case ev of
        ProbeStarts now request \<Rightarrow> start_probe now request h
      | ProbeReplies now recovered request success status \<Rightarrow> probe_reply now recovered request success status h
      | ProbeTimesOut now \<Rightarrow> probe_timeout now h
      | ProbeFails now error \<Rightarrow> probe_error now error h
      | SendFails error \<Rightarrow> snd (note_communication_failure error h)
      | ReconnectEnds error \<Rightarrow> end_reconnection error h
      | MonitorLooks now recovered exited \<Rightarrow> snd (monitor_health now recovered exited h)
      | LateResult \<Rightarrow> health_failure ''service_failure'' ''Timed-out command requires an explicit restart.'' h
      | StopBegins \<Rightarrow> begin_health_stop h
      | ProcessStarts i \<Rightarrow> new_process i h)"

fun health_run :: "health_event list \<Rightarrow> service_health \<Rightarrow> service_health" where
  "health_run [] h = h"
| "health_run (ev # evs) h = health_run evs (health_step ev h)"

definition starting_health :: "service_health \<Rightarrow> bool" where
  "starting_health h \<longleftrightarrow>
     \<not> si_ready (sh_instance h) \<and> \<not> sh_connecting h \<and> sh_probe h = None"

section \<open>A ready service is connected\<close>

definition healthy :: "service_health \<Rightarrow> bool" where
  "healthy h \<longleftrightarrow>
     (si_ready (sh_instance h) \<longrightarrow> si_ever_ready (sh_instance h) \<and> sh_bad h = 0)
     \<and> (sh_connecting h \<longrightarrow> sh_bad h = 1 \<and> sh_probe h = None)"

lemmas health_defs = health_failure_def health_ready_def end_probe_def schedule_probe_def

lemma starting_healthy: "starting_health h \<Longrightarrow> healthy h"
  by (simp add: starting_health_def healthy_def)

lemma healthy_failure [simp]: "healthy (health_failure code message h) = healthy h"
  by (simp add: healthy_def health_defs)

lemma healthy_unready: "healthy h \<Longrightarrow> healthy (health_ready False h)"
  by (simp add: healthy_def health_defs)

lemma healthy_schedule [simp]: "healthy (schedule_probe now h) = healthy h"
  by (simp add: healthy_def health_defs)

lemma healthy_end_probe: "healthy h \<Longrightarrow> healthy (end_probe now h)"
  by (simp add: healthy_def health_defs)

lemma healthy_heartbeat: "healthy h \<Longrightarrow> healthy (handle_heartbeat now recovered request success status h)"
proof (cases "sh_probe h")
  case (Some probe)
  moreover assume h: "healthy h"
  moreover have "healthy (h\<lparr>sh_instance := accept_status success status (sh_instance h), sh_bad := 0\<rparr>)"
    using h Some by (simp add: healthy_def accept_status_def)
  ultimately show ?thesis
    by (cases probe) (simp add: handle_heartbeat_def healthy_end_probe healthy_unready)
qed (simp add: handle_heartbeat_def)

lemma healthy_communication: "healthy h \<Longrightarrow> healthy (snd (note_communication_failure error h))"
  by (simp add: note_communication_failure_def Let_def) (simp add: healthy_def health_defs)

lemma healthy_reconnection: "healthy h \<Longrightarrow> healthy (end_reconnection error h)"
  by (cases error) (simp_all add: end_reconnection_def Let_def, simp_all add: healthy_def health_defs)

lemma healthy_deadline: "healthy (check_heartbeat_deadline now h) = healthy h"
  by (simp add: check_heartbeat_deadline_def split: option.split prod.split)

lemma healthy_monitor: "healthy h \<Longrightarrow> healthy (snd (monitor_health now recovered exited h))"
  by (simp add: monitor_health_def Let_def healthy_deadline healthy_unready)

lemma healthy_step:
  assumes "healthy h"
  shows "healthy (health_step ev h)"
proof (cases ev)
  case (ProbeStarts now request)
  with assms show ?thesis by (simp add: health_step_def start_probe_def healthy_def)
next
  case (ProbeReplies now recovered request success status)
  with assms show ?thesis by (simp add: health_step_def probe_reply_def healthy_heartbeat)
next
  case (ProbeTimesOut now)
  have "healthy (h\<lparr>sh_probe := None\<rparr>)" if "healthy h" for h using that by (simp add: healthy_def)
  with assms ProbeTimesOut show ?thesis by (simp add: health_step_def probe_timeout_def healthy_unready)
next
  case (ProbeFails now error)
  with assms show ?thesis by (simp add: health_step_def probe_error_def healthy_communication)
next
  case StopBegins
  with assms show ?thesis by (simp add: health_step_def healthy_def begin_health_stop_def)
next
  case (ProcessStarts i)
  with assms show ?thesis by (simp add: health_step_def healthy_def new_process_def)
qed (use assms in \<open>simp_all add: health_step_def healthy_communication healthy_reconnection healthy_monitor\<close>)

lemma healthy_run: "healthy h \<Longrightarrow> healthy (health_run evs h)"
  by (induction evs arbitrary: h) (simp_all add: healthy_step)

text \<open>A round of the monitor leaves no failed service ready.\<close>

lemma monitor_settles:
  "si_ready (sh_instance (snd (monitor_health now recovered exited h)))
   \<Longrightarrow> si_failure (sh_instance (snd (monitor_health now recovered exited h))) = None"
  by (simp add: monitor_health_def health_ready_def Let_def split: if_splits)

section \<open>The decision of the barrier\<close>

lemma first_block_None: "first_block is = None \<longleftrightarrow> (\<forall>i \<in> set is. si_manually_stopped i \<or> si_blocked i = None)"
  by (induction "is") (auto split: option.split)

lemma readiness_ready:
  "readiness_action d required = Some ActionReady \<longleftrightarrow>
     set required \<subseteq> set (keys d)
     \<and> (\<forall>i \<in> set (dict_values d). usable i \<and> \<not> si_manually_stopped i \<and> si_blocked i = None)"
  (is "_ \<longleftrightarrow> ?known \<and> ?all")
proof -
  have known: "list_ex (\<lambda>k. \<not> has_key d k) required \<longleftrightarrow> \<not> ?known"
    by (auto simp: list_ex_iff has_key_iff)
  have filtered: "list_all usable (filter (\<lambda>i. \<not> si_manually_stopped i) (dict_values d)) \<longleftrightarrow>
      (\<forall>i \<in> set (dict_values d). si_manually_stopped i \<or> usable i)"
    by (auto simp: list_all_iff)
  show ?thesis
  proof (cases "first_block (dict_values d)")
    case None
    then have "\<forall>i \<in> set (dict_values d). si_manually_stopped i \<or> si_blocked i = None"
      by (simp only: first_block_None)
    with None known filtered show ?thesis
      by (simp add: readiness_action_def list_ex_iff) blast
  next
    case (Some a)
    then have "\<not> ?all" using first_block_None by (metis option.distinct(1))
    with Some show ?thesis by (simp add: readiness_action_def)
  qed
qed

end
