(* ===== verification/Service_Health_Properties.thy ===== *)
theory Service_Health_Properties
  imports Service_Health Service_Properties
begin

text \<open>The property of the health of a service, on a run with a lost and restored connection.\<close>

text \<open>
  C25. After any run of heartbeats, failures, reconnections, monitor rounds, stops and process starts: a
  ready service has been confirmed by a heartbeat, is connected and has no communication failure since; a
  service that is being reconnected had exactly one failure, is not ready and has no probe out, so a late
  reply cannot make it ready; and a round of the monitor leaves no failed service ready.
\<close>

theorem ready_service_healthy:
  assumes "starting_health h"
  shows "(si_ready (sh_instance (health_run evs h)) \<longrightarrow>
            si_ever_ready (sh_instance (health_run evs h)) \<and> \<not> sh_connecting (health_run evs h)
            \<and> sh_bad (health_run evs h) = 0)
       \<and> (sh_connecting (health_run evs h) \<longrightarrow>
            \<not> si_ready (sh_instance (health_run evs h)) \<and> sh_bad (health_run evs h) = 1
            \<and> sh_probe (health_run evs h) = None)
       \<and> (si_ready (sh_instance (snd (monitor_health now recovered exited (health_run evs h)))) \<longrightarrow>
            si_failure (sh_instance (snd (monitor_health now recovered exited (health_run evs h)))) = None)"
proof -
  have "healthy (health_run evs h)" using assms by (simp add: healthy_run starting_healthy)
  then show ?thesis by (auto simp: healthy_def dest: monitor_settles)
qed

definition demo_health :: service_health where
  "demo_health =
     \<lparr>sh_instance = demo_service\<lparr>si_ready := False, si_ever_ready := False\<rparr>, sh_probe = None, sh_next = 0,
      sh_bad = 1, sh_connecting = False\<rparr>"

definition demo_beats :: "health_event list" where
  "demo_beats = [ProbeStarts 0 ''a'', ProbeReplies 1 0 ''a'' True []]"

definition demo_cut :: "health_event list" where
  "demo_cut = demo_beats @ [SendFails ''EOF'', ProbeReplies 2 0 ''b'' True []]"

lemmas health_run_defs = health_step_def start_probe_def probe_reply_def handle_heartbeat_def startup_expired_def
  startup_deadline_def grace_over_def accept_status_def note_communication_failure_def health_defs Let_def

theorem ready_service_healthy_witness:
  "si_ready (sh_instance (health_run demo_beats demo_health))
   \<and> sh_bad (health_run demo_beats demo_health) = 0
   \<and> sh_connecting (health_run demo_cut demo_health)
   \<and> \<not> si_ready (sh_instance (health_run demo_cut demo_health))"
proof -
  have start: "starting_health demo_health" by (simp add: starting_health_def demo_health_def)
  have ready: "si_ready (sh_instance (health_run demo_beats demo_health))"
    by (simp add: demo_beats_def demo_health_def health_run_defs demo_service_def)
  have cut: "sh_connecting (health_run demo_cut demo_health)"
    by (simp add: demo_cut_def demo_beats_def demo_health_def health_run_defs demo_service_def)
  show ?thesis
    using ready cut ready_service_healthy [OF start, of demo_beats] ready_service_healthy [OF start, of demo_cut]
    by blast
qed

end
