(* ===== verification/Stage_Inputs.thy ===== *)
theory Stage_Inputs
  imports Dag_Runner Journal_Reads
begin

text \<open>
  What \<^verbatim>\<open>StageRunner\<close> (\<^verbatim>\<open>core/experiments/stages.py\<close>) reads and decides without waiting: the accepted
  input of a stage, with \<^verbatim>\<open>read_result\<close> of \<^verbatim>\<open>core/experiments/results.py\<close>, the journal coordinates of an
  attempt, its deadlines, the action after its retries, which attempt directories are deleted, and when
  the work of an attempt has certainly ended.
\<close>

section \<open>Reading accepted results\<close>

text \<open>\<^verbatim>\<open>validate_response\<close> of a stored response, with the checks of \<^verbatim>\<open>ParticipantResult\<close>.\<close>

definition response_ok :: "json_object \<Rightarrow> bool" where
  "response_ok r \<longleftrightarrow>
     is_ok (copy_json_object (embed (JObj r)))
     \<and> list_all (\<lambda>k. List.member result_keys k) (keys r)
     \<and> List.member [JStr ''success'', JStr ''fail''] (dict_get r ''result'' JNull)
     \<and> has_key r ''data''"

definition identity_matches :: "json_object \<Rightarrow> json_object \<Rightarrow> bool" where
  "identity_matches expected context \<longleftrightarrow> list_all (\<lambda>(k, v). dict_get context k JNull = v) expected"

definition read_journal_result ::
    "string \<Rightarrow> json_object \<Rightarrow> bool \<Rightarrow> journal_store \<Rightarrow> considered_result option result \<times> journal_store" where
  "read_journal_result q expected accepted s =
     (case read_command_result q s of
        (Inl e, t) \<Rightarrow> (Inl e, t)
      | (Inr None, t) \<Rightarrow> (Inr None, t)
      | (Inr (Some r), t) \<Rightarrow>
          if \<not> identity_matches expected (ev_context (cr_entry r)) then (Inl ValueError, t)
          else if \<not> response_ok (ob_response (cr_result r)) then (Inl ValueError, t)
          else if accepted \<and> cr_author r \<noteq> RunnerAuthor then (Inl ValueError, t)
          else (Inr (Some r), t))"

definition successful :: "considered_result \<Rightarrow> bool" where
  "successful r \<longleftrightarrow> ob_outcome (cr_result r) = Succeeded
     \<and> dict_get (ob_response (cr_result r)) ''result'' JNull = JStr ''success''"

definition result_data :: "considered_result \<Rightarrow> json result" where
  "result_data r = dict_item (ob_response (cr_result r)) ''data''"

text \<open>\<^verbatim>\<open>record["response"].get("execution", {}).get("dag_decision")\<close>\<close>

definition result_decision :: "considered_result \<Rightarrow> json result" where
  "result_decision r =
     (case dict_get (ob_response (cr_result r)) ''execution'' (JObj []) of
        JObj e \<Rightarrow> Inr (dict_get e ''dag_decision'' JNull)
      | _ \<Rightarrow> Inl AttributeError)"

definition is_move_to :: "string \<Rightarrow> json \<Rightarrow> bool" where
  "is_move_to target j =
     (case j of
        JObj d \<Rightarrow> set (keys d) = {''command'', ''stage_id''}
                  \<and> map_of d ''command'' = Some (JStr ''move'') \<and> map_of d ''stage_id'' = Some (JStr target)
      | _ \<Rightarrow> False)"

section \<open>The input of a stage\<close>

text \<open>\<^verbatim>\<open>_read_move_input\<close>\<close>

definition move_data :: "pending_input \<Rightarrow> considered_result option \<Rightarrow> json result" where
  "move_data p r =
     (case r of
        None \<Rightarrow> Inl ValueError
      | Some r \<Rightarrow>
          if \<not> successful r then Inl ValueError
          else res_bind (result_decision r) (\<lambda>d.
               if is_move_to (in_stage_id p) d then result_data r else Inl ValueError))"

definition source_identity :: "string \<Rightarrow> string \<Rightarrow> json_object" where
  "source_identity experiment_id stage_id = [(''experiment_id'', JStr experiment_id), (''stage_id'', JStr stage_id)]"

definition read_move_input :: "runner_state \<Rightarrow> pending_input \<Rightarrow> journal_store \<Rightarrow> json result \<times> journal_store" where
  "read_move_input s p j =
     (case py_nth (stages (st_template s)) (st_stage_position s - 1) of
        Inl e \<Rightarrow> (Inl e, j)
      | Inr n \<Rightarrow>
          if node_stage_id n \<noteq> Some (in_stage_id p) then (Inl ValueError, j)
          else case read_journal_result (in_request_id p) (source_identity (in_experiment_id p) (in_source_stage p)) True j of
                 (Inl e, j) \<Rightarrow> (Inl e, j)
               | (Inr r, j) \<Rightarrow> (move_data p r, j))"

text \<open>\<^verbatim>\<open>select_input\<close>\<close>

definition predecessor_data :: "considered_result option \<Rightarrow> json result" where
  "predecessor_data r =
     (case r of
        None \<Rightarrow> Inl ValueError
      | Some r \<Rightarrow> if successful r then result_data r else Inr JNull)"

definition predecessor_result :: "runner_state \<Rightarrow> dag_node \<Rightarrow> (string \<times> string) option" where
  "predecessor_result s n =
     (case node_stage_id n of
        None \<Rightarrow> None
      | Some i \<Rightarrow> map_option (\<lambda>q. (i, q)) (flatten_option (map_of (st_result_ids s) i)))"

definition select_input :: "runner_state \<Rightarrow> journal_store \<Rightarrow> json result \<times> journal_store" where
  "select_input s j =
     (case st_pending_input s of
        Some p \<Rightarrow> read_move_input s p j
      | None \<Rightarrow>
          if st_stage_position s = 1 then (Inr JNull, j)
          else case py_nth (stages (st_template s)) (st_stage_position s - 2) of
                 Inl e \<Rightarrow> (Inl e, j)
               | Inr n \<Rightarrow>
                   (case predecessor_result s n of
                      None \<Rightarrow> (Inr JNull, j)
                    | Some (i, q) \<Rightarrow>
                        (case read_journal_result q
                                (source_identity (dict_get (st_result_origins s) i (st_experiment_id s)) i) True j of
                           (Inl e, j) \<Rightarrow> (Inl e, j)
                         | (Inr r, j) \<Rightarrow> (predecessor_data r, j))))"

section \<open>Coordinates\<close>

definition participant_document :: "participant_identity \<Rightarrow> json_object" where
  "participant_document p =
     [(''experiment_id'', JStr (pt_experiment_id p)), (''participant_id'', JStr (pt_participant_id p)),
      (''participant_instance_id'', JStr (pt_instance_id p))] @ pt_extra p"

definition set_all :: "json_object \<Rightarrow> json_object \<Rightarrow> json_object" where
  "set_all new d = fold (\<lambda>(k, v). AList.update k v) new d"

text \<open>\<^verbatim>\<open>_attempt_result_identity\<close> of \<^verbatim>\<open>core/experiments/state.py\<close>\<close>

definition attempt_identity :: "path stage_attempt \<Rightarrow> json_object result" where
  "attempt_identity a =
     (case at_participant a of
        None \<Rightarrow> Inl TypeError
      | Some p \<Rightarrow> Inr (set_all ([(''experiment_id'', JStr (pt_experiment_id p)),
          (''participant_id'', JStr (pt_participant_id p)), (''participant_instance_id'', JStr (pt_instance_id p)),
          (''stage_id'', JStr (at_stage_id a)), (''attempt_id'', JStr (at_attempt_id a))]) (pt_extra p)))"

text \<open>\<^verbatim>\<open>_module_reference\<close> of the assembler: an unknown service is a value error.\<close>

definition node_module :: "experiment_template \<Rightarrow> dag_node \<Rightarrow> module_reference result" where
  "node_module t n =
     (case resolve_module t n of Inl e \<Rightarrow> Inl ValueError | Inr m \<Rightarrow> Inr m)"

definition service_instance_of :: "path stage_attempt \<Rightarrow> json result" where
  "service_instance_of a =
     (case (at_service_id a, at_participant a) of
        (None, _) \<Rightarrow> Inr JNull
      | (Some i, None) \<Rightarrow> Inl AttributeError
      | (Some i, Some p) \<Rightarrow> Inr (JStr (pt_instance_id p)))"

text \<open>
  \<^verbatim>\<open>_context\<close>, called by coroutines: the \<^verbatim>\<open>StopIteration\<close> of an unknown stage leaves them as a runtime error.
\<close>

definition attempt_context :: "runner_state \<Rightarrow> path stage_attempt \<Rightarrow> json_object result" where
  "attempt_context s a =
     (case find (\<lambda>n. node_stage_id n = Some (at_stage_id a)) (stages (st_template s)) of
        None \<Rightarrow> Inl RuntimeError
      | Some n \<Rightarrow>
          res_bind (node_module (st_template s) n) (\<lambda>m.
          res_bind (service_instance_of a) (\<lambda>i.
            Inr (set_all (case at_participant a of None \<Rightarrow> [] | Some p \<Rightarrow> participant_document p)
              [(''experiment_id'', JStr (st_experiment_id s)), (''run_id'', JStr (st_run_id s)),
               (''stage_id'', JStr (at_stage_id a)), (''attempt_id'', JStr (at_attempt_id a)),
               (''stage_execution_id'', JStr (at_execution_id a)), (''request_id'', JStr (at_request_id a)),
               (''service_id'', dump_nullable JStr (at_service_id a)), (''service_instance_id'', i),
               (''cycle_number'', JInt (at_cycle_number a)), (''attempt_number'', JInt (at_attempt_number a)),
               (''module_name'', JStr (ref_name m)), (''module_version'', JStr (ref_version m)),
               (''module_hash'', JStr (ref_hash m)), (''template_revision_id'', JStr (st_template_revision s))]))))"

section \<open>Deadlines\<close>

text \<open>
  \<^verbatim>\<open>_deadline\<close>: \<open>recovered\<close> is the time the journal spent recovering since the attempt was queued.
\<close>

definition attempt_deadline :: "rat \<Rightarrow> path stage_attempt \<Rightarrow> rat option result" where
  "attempt_deadline recovered a =
     (case at_timeout a of
        None \<Rightarrow> Inr None
      | Some t \<Rightarrow>
          (case at_queued_monotonic a of
             None \<Rightarrow> Inl TypeError
           | Some q \<Rightarrow> Inr (Some (q + number_value t + max 0 recovered))))"

definition deadline_passed :: "rat \<Rightarrow> rat option \<Rightarrow> bool" where
  "deadline_passed now d = (case d of None \<Rightarrow> False | Some x \<Rightarrow> x \<le> now)"

text \<open>
  \<^verbatim>\<open>_startup_details\<close>: the deadline of a startup, whether it is the stage's own, and the time charged
  to it so far. \<open>recovered\<close> is the journal's recovery time since the startup began.
\<close>

record startup_details =
  sud_timeout :: rat
  sud_stage_timeout :: bool
  sud_deadline :: rat
  sud_elapsed :: rat
  sud_recovery :: rat
  sud_charged :: rat

definition startup_details_of ::
    "rat \<Rightarrow> rat \<Rightarrow> rat \<Rightarrow> rat \<Rightarrow> rat \<Rightarrow> path stage_attempt \<Rightarrow> startup_details result" where
  "startup_details_of now started timeout recovered attempt_recovered a =
     res_bind (attempt_deadline attempt_recovered a) (\<lambda>stage_deadline.
       let recovery = max 0 recovered; elapsed = max 0 (now - started);
           deadline = started + timeout + recovery
       in case (stage_deadline, at_timeout a, at_queued_monotonic a) of
            (Some d, Some t, Some q) \<Rightarrow>
              if d \<le> deadline
              then (let elapsed = max 0 (now - q); recovery = max 0 attempt_recovered in
                    Inr \<lparr>sud_timeout = number_value t, sud_stage_timeout = True, sud_deadline = d,
                         sud_elapsed = elapsed, sud_recovery = recovery,
                         sud_charged = max 0 (elapsed - recovery)\<rparr>)
              else Inr \<lparr>sud_timeout = timeout, sud_stage_timeout = False, sud_deadline = deadline,
                        sud_elapsed = elapsed, sud_recovery = recovery, sud_charged = max 0 (elapsed - recovery)\<rparr>
          | _ \<Rightarrow> Inr \<lparr>sud_timeout = timeout, sud_stage_timeout = False, sud_deadline = deadline,
                      sud_elapsed = elapsed, sud_recovery = recovery, sud_charged = max 0 (elapsed - recovery)\<rparr>)"

section \<open>Policies\<close>

text \<open>\<^verbatim>\<open>_exhausted_action\<close>; \<^verbatim>\<open>(response.error or {}).get("code")\<close> of another truthy value raises.\<close>

fun truthy :: "json \<Rightarrow> bool" where
  "truthy JNull = False"
| "truthy (JBool b) = b"
| "truthy (JInt n) = (n \<noteq> 0)"
| "truthy (JFloat q) = (q \<noteq> 0)"
| "truthy (JStr s) = (s \<noteq> [])"
| "truthy (JArr xs) = (xs \<noteq> [])"
| "truthy (JObj d) = (d \<noteq> [])"

definition error_code :: "stage_result \<Rightarrow> json result" where
  "error_code r =
     (case or_error r of
        None \<Rightarrow> Inr JNull
      | Some e \<Rightarrow>
          if \<not> truthy e then Inr JNull
          else case e of JObj d \<Rightarrow> Inr (dict_get d ''code'' JNull) | _ \<Rightarrow> Inl AttributeError)"

definition node_data_required :: "dag_node \<Rightarrow> bool" where
  "node_data_required n = (case n of StageNode d \<Rightarrow> sd_returns_data d = Some True | CallNode c \<Rightarrow> False)"

definition policy_action :: "exhausted_action \<Rightarrow> stage_action" where
  "policy_action a =
     (case a of OnExhaustedSkip \<Rightarrow> AdvanceStage | OnExhaustedPause \<Rightarrow> PauseStage | OnExhaustedStop \<Rightarrow> StopStage)"

definition exhausted_stage_action :: "dag_node \<Rightarrow> stage_result \<Rightarrow> stage_action result" where
  "exhausted_stage_action n r =
     (if node_data_required n
      then res_bind (error_code r) (\<lambda>c.
             Inr (if c = JStr ''conditional_missing_data'' then StopStage
                  else policy_action (on_exhausted (node_errors n))))
      else Inr (policy_action (on_exhausted (node_errors n))))"

text \<open>\<^verbatim>\<open>_finish_executor_status\<close>\<close>

definition finish_executor_status :: "json \<Rightarrow> json result" where
  "finish_executor_status status =
     (let finished = [(''finished'', JBool True), (''current'', JNull), (''pending'', JArr [])]
      in case status of
           JObj d \<Rightarrow> Inr (JObj (set_all finished d))
         | _ \<Rightarrow> if truthy status then Inl TypeError else Inr (JObj finished))"

section \<open>Attempt directories\<close>

text \<open>
  \<^verbatim>\<open>_prune_artifacts\<close>: the directories are those in the attempt's parent, \<open>resolve\<close> is \<^verbatim>\<open>Path.resolve\<close>. The
  result lists the directories removed, in order, and the exception that ended the loop, if any.
\<close>

definition attempt_prefix :: string where
  "attempt_prefix = ''attempt_''"

definition digits :: "string \<Rightarrow> bool" where
  "digits s \<longleftrightarrow> s \<noteq> [] \<and> list_all (\<lambda>c. CHR ''0'' \<le> c \<and> c \<le> CHR ''9'') s"

definition digits_value :: "string \<Rightarrow> nat" where
  "digits_value s = foldl (\<lambda>n c. 10 * n + (of_char c - of_char (CHR ''0''))) 0 s"

definition attempt_directory_number :: "path \<Rightarrow> nat option" where
  "attempt_directory_number p =
     (if path_parts p = [] then None
      else let name = last (path_parts p); suffix = drop (length attempt_prefix) name
           in if take (length attempt_prefix) name = attempt_prefix \<and> digits suffix
              then Some (digits_value suffix) else None)"

definition expired_directory :: "int \<Rightarrow> path stage_attempt \<Rightarrow> path \<Rightarrow> bool" where
  "expired_directory keep a p \<longleftrightarrow>
     p \<noteq> at_artifacts a
     \<and> (case attempt_directory_number p of
          None \<Rightarrow> False | Some n \<Rightarrow> int n \<le> at_attempt_number a - keep)"

definition retained_directory :: "(path \<Rightarrow> path) \<Rightarrow> runner_state \<Rightarrow> path \<Rightarrow> bool" where
  "retained_directory resolve s p =
     list_ex (\<lambda>r. let kept = resolve (path_join (st_directory s) (path_of r))
                  in is_relative_to kept (resolve p) \<or> is_relative_to (resolve p) kept)
       (st_retained_artifacts s)"

fun prune_directories ::
    "(path \<Rightarrow> path) \<Rightarrow> (path \<Rightarrow> exn option) \<Rightarrow> runner_state \<Rightarrow> path stage_attempt \<Rightarrow> path list
     \<Rightarrow> exn option \<times> path list" where
  "prune_directories resolve removing s a [] = (None, [])"
| "prune_directories resolve removing s a (p # ps) =
     (if \<not> expired_directory (keep_attempts (st_template s)) a p \<or> retained_directory resolve s p
      then prune_directories resolve removing s a ps
      else if \<not> is_relative_to (resolve p) (resolve (st_directory s)) then (Some ValueError, [])
      else case removing p of
             Some e \<Rightarrow> (Some e, [])
           | None \<Rightarrow> (case prune_directories resolve removing s a ps of (e, qs) \<Rightarrow> (e, p # qs)))"

end
