(* ===== verification/Stage_Runner.thy ===== *)
theory Stage_Runner
  imports Stage_Inputs
begin

text \<open>
  \<^verbatim>\<open>StageRunner\<close> (\<^verbatim>\<open>core/experiments/stages.py\<close>): starting an attempt, collecting its result, accepting it
  in the journal, interrupting it, retrying, and recovering an attempt after a restart of the runner.

  The methods run on a \<open>stage_world\<close>: the runner state, the attempt object at hand (aliased by
  \<^verbatim>\<open>active_attempt\<close> of the state), the journal store, and the fields of the stage runner. At an \<^verbatim>\<open>await\<close>
  other tasks act on the same world: \<open>others\<close> before and after the awaited operation. The clock, the
  participants, the operating system and the module launcher are the \<open>stage_env\<close>, indexed by the number of
  suspensions so far. A loop runs for at most \<open>sge_polls\<close> rounds; being cut off is \<open>StillRunning\<close>.
\<close>

section \<open>The stage runner and its surroundings\<close>

record executor_startup =
  su_attempt :: string
  su_started :: rat
  su_timeout :: rat
  su_baseline :: rat
  su_dispatched :: bool

datatype stage_effect =
    EffAttemptStarted string string int
  | EffContextWritten path
  | EffLaunchWritten path
  | EffPruned "path list"
  | EffEmergencyStop string
  | EffStateSaved runner_state
  | EffResourcesNotified
  | EffStartupDetails startup_details

record stage_world =
  sw_state :: runner_state
  sw_attempt :: "path stage_attempt"
  sw_journal :: journal_store
  sw_unstarted :: "string option"
  sw_process_attempt :: "string option"
  sw_process :: bool
  sw_baselines :: "(string, rat) pydict"
  sw_startup :: "executor_startup option"
  sw_startup_results :: "(string, stage_result) pydict"
  sw_call :: "json_object task option"
  sw_connected :: bool
  sw_ticks :: nat
  sw_log :: "stage_effect list"

record event_stamp =
  es_id :: string
  es_producer :: string
  es_sequence :: int
  es_occurred :: string

record executor_observation =
  eo_process :: "process_identity option"
  eo_started_at :: "string option"
  eo_document :: json

record stage_env =
  sge_others :: "nat \<Rightarrow> stage_world \<Rightarrow> stage_world"
  sge_polls :: nat
  sge_now :: "nat \<Rightarrow> rat"
  sge_recovered :: "nat \<Rightarrow> rat"
  sge_wall :: "nat \<Rightarrow> string"
  sge_uuid :: "nat \<Rightarrow> string"
  sge_settings :: store_settings
  sge_stamp :: "nat \<Rightarrow> event_stamp"
  sge_base :: json_object
  sge_describe :: "exn \<Rightarrow> string"
  sge_resolve :: "path \<Rightarrow> path"
  sge_checkpoint_document :: "saved_runner_state \<Rightarrow> json_object"
  sge_request_document :: "service_request \<Rightarrow> json"
  sge_save :: "nat \<Rightarrow> exn option"
  sge_check_module :: "nat \<Rightarrow> exn option"
  sge_prepare :: "nat \<Rightarrow> (json_object \<times> path) result"
  sge_argv :: "path stage_attempt \<Rightarrow> json"
  sge_close :: "nat \<Rightarrow> exn option"
  sge_listing :: "nat \<Rightarrow> path list"
  sge_removing :: "nat \<Rightarrow> path \<Rightarrow> exn option"
  sge_enqueue :: "nat \<Rightarrow> json_object task result"
  sge_cancel :: "nat \<Rightarrow> bool result"
  sge_spawn :: "nat \<Rightarrow> exn option"
  sge_exited :: "nat \<Rightarrow> bool"
  sge_reap :: "nat \<Rightarrow> bool result"
  sge_retryable :: "nat \<Rightarrow> bool"
  sge_endpoint :: "nat \<Rightarrow> bool result"
  sge_connect :: "nat \<Rightarrow> exn option"
  sge_query :: "nat \<Rightarrow> executor_observation result"
  sge_process_record :: "nat \<Rightarrow> json_object option result"
  sge_exchange :: "nat \<Rightarrow> bool result"
  sge_alive :: "nat \<Rightarrow> retained_identity \<Rightarrow> bool result"
  sge_ready :: "nat \<Rightarrow> service_action result"
  sge_context_file :: "nat \<Rightarrow> (string \<times> json \<times> json) result"

abbreviation on_run :: "(runner_state \<Rightarrow> runner_state) \<Rightarrow> stage_world \<Rightarrow> stage_world" where
  "on_run f w \<equiv> w\<lparr>sw_state := f (sw_state w)\<rparr>"

text \<open>An assignment to the attempt is seen through \<^verbatim>\<open>active_attempt\<close>, while that is the same object.\<close>

definition on_attempt :: "(path stage_attempt \<Rightarrow> path stage_attempt) \<Rightarrow> stage_world \<Rightarrow> stage_world" where
  "on_attempt f w =
     (let i = at_attempt_id (sw_attempt w)
      in (on_run (\<lambda>s. s\<lparr>st_active_attempt := map_option (\<lambda>a. if at_attempt_id a = i then f (sw_attempt w) else a)
            (st_active_attempt s)\<rparr>) w)\<lparr>sw_attempt := f (sw_attempt w)\<rparr>)"

definition note_stage :: "stage_effect \<Rightarrow> stage_world \<Rightarrow> stage_world" where
  "note_stage e w = w\<lparr>sw_log := sw_log w @ [e]\<rparr>"

definition use_request :: "string \<Rightarrow> stage_world \<Rightarrow> stage_world" where
  "use_request q = on_run (\<lambda>s. s\<lparr>st_used_request_ids := finsert q (st_used_request_ids s)\<rparr>)"

section \<open>Waiting\<close>

definition others :: "stage_env \<Rightarrow> stage_world \<Rightarrow> stage_world" where
  "others env w = (sge_others env (sw_ticks w) w)\<lparr>sw_ticks := Suc (sw_ticks w)\<rparr>"

definition yield_others :: "stage_env \<Rightarrow> (stage_world, unit) py" where
  "yield_others env = py_modify (others env)"

text \<open>An awaited operation: its outcome is the environment's at that point.\<close>

definition stage_await :: "stage_env \<Rightarrow> (nat \<Rightarrow> 'a result) \<Rightarrow> (stage_world, 'a) py" where
  "stage_await env outcome =
     py_then (yield_others env) (py_read (\<lambda>w. py_then (yield_others env) (py_lift (outcome (sw_ticks w)))))"

definition stage_await_unit :: "stage_env \<Rightarrow> (nat \<Rightarrow> exn option) \<Rightarrow> (stage_world, unit) py" where
  "stage_await_unit env raised =
     stage_await env (\<lambda>n. case raised n of None \<Rightarrow> Inr () | Some e \<Rightarrow> Inl e)"

text \<open>An awaited call of the journal.\<close>

definition world_call ::
    "stage_env \<Rightarrow> (stage_world \<Rightarrow> journal_store \<Rightarrow> 'a result \<times> journal_store) \<Rightarrow> (stage_world, 'a) py" where
  "world_call env call w =
     (let w = others env w
      in case call w (sw_journal w) of (r, j) \<Rightarrow> (r, others env (w\<lparr>sw_journal := j\<rparr>)))"

abbreviation journal_call ::
    "stage_env \<Rightarrow> (nat \<Rightarrow> journal_store \<Rightarrow> 'a result \<times> journal_store) \<Rightarrow> (stage_world, 'a) py" where
  "journal_call env call \<equiv> world_call env (\<lambda>w. call (sw_ticks w))"

definition os_error :: "exn \<Rightarrow> bool" where
  "os_error e \<longleftrightarrow> List.member [OSError, TimeoutError, FileNotFoundError, FileExistsError, PermissionError] e"

text \<open>\<^verbatim>\<open>except (OSError, EOFError)\<close>: what a lost connection raises.\<close>

definition connection_error :: "exn \<Rightarrow> bool" where
  "connection_error e \<longleftrightarrow> os_error e \<or> e = EOFError"

section \<open>Records in the journal\<close>

definition merged_context :: "stage_env \<Rightarrow> json_object \<Rightarrow> json_object" where
  "merged_context env c =
     set_all (filter (\<lambda>(k, v). List.member [''host_name'', ''process_id''] k) (sge_base env)) (set_all c (sge_base env))"

definition stamped_event :: "event_stamp \<Rightarrow> json_object \<Rightarrow> event_data \<Rightarrow> journal_event" where
  "stamped_event x c d =
     \<lparr>ev_id = es_id x, ev_producer = es_producer x, ev_sequence = es_sequence x, ev_occurred = es_occurred x,
      ev_context = c, ev_operation = None, ev_data = d\<rparr>"

definition write_event :: "stage_env \<Rightarrow> string \<Rightarrow> json_object \<Rightarrow> json_object \<Rightarrow> (stage_world, unit) py" where
  "write_event env t d c =
     journal_call env (\<lambda>n. append_store (sge_settings env) False
       (stamped_event (sge_stamp env n) (merged_context env c) (PlainEvent t d)))"

definition current_context :: "(stage_world, json_object) py" where
  "current_context = py_read (\<lambda>w. py_lift (attempt_context (sw_state w) (sw_attempt w)))"

definition write_stage_event :: "stage_env \<Rightarrow> string \<Rightarrow> json_object \<Rightarrow> (stage_world, unit) py" where
  "write_stage_event env t d = py_bind current_context (write_event env t d)"

definition write_error :: "stage_env \<Rightarrow> exn \<Rightarrow> string \<Rightarrow> json_object \<Rightarrow> (stage_world, unit) py" where
  "write_error env e code c =
     write_event env ''error.recorded'' [(''message'', JStr (sge_describe env e)), (''code'', JStr code)] c"

text \<open>\<^verbatim>\<open>OperationLogger.record_command_result\<close> (\<^verbatim>\<open>core/journal/logger.py\<close>)\<close>

definition result_event ::
    "stage_env \<Rightarrow> nat \<Rightarrow> json_object \<Rightarrow> string \<Rightarrow> result_outcome \<Rightarrow> json_object \<Rightarrow> journal_event" where
  "result_event env n c q out response =
     stamped_event (sge_stamp env n) (AList.update ''request_id'' (JStr q) (merged_context env c))
       (ResultEvent \<lparr>ob_request = q, ob_author = RunnerAuthor, ob_outcome = out, ob_response = response,
                     ob_ignored = None, ob_supersedes = []\<rparr>)"

definition record_command_result ::
    "stage_env \<Rightarrow> json_object \<Rightarrow> string \<Rightarrow> result_outcome \<Rightarrow> json_object \<Rightarrow> (stage_world, string) py" where
  "record_command_result env c q out response =
     (if \<not> List.member [JNull, JStr q] (dict_get (merged_context env c) ''request_id'' JNull) then py_raise ValueError
      else journal_call env (\<lambda>n. append_command_result (sge_settings env) (result_event env n c q out response)))"

section \<open>Checkpoints\<close>

text \<open>\<^verbatim>\<open>_save_state\<close>\<close>

definition publish_state :: "stage_env \<Rightarrow> runner_state \<Rightarrow> (stage_world, unit) py" where
  "publish_state env saved = py_read (\<lambda>w.
     case sge_save env (sw_ticks w) of
       None \<Rightarrow> py_modify (note_stage (EffStateSaved saved))
     | Some e \<Rightarrow>
         if os_error e
         then write_error env e [] [(''experiment_id'', JStr (st_experiment_id (sw_state w)))]
         else py_raise e)"

definition journal_checkpoint :: "stage_env \<Rightarrow> runner_state \<Rightarrow> (stage_world, unit) py" where
  "journal_checkpoint env saved =
     py_bind (py_lift (state_to_document (sge_resolve env) saved)) (\<lambda>d.
       write_event env ''runner.checkpoint'' (sge_checkpoint_document env d)
         [(''experiment_id'', JStr (st_experiment_id saved)), (''run_id'', JStr (st_run_id saved))])"

definition save_stage_state :: "stage_env \<Rightarrow> bool \<Rightarrow> (stage_world, unit) py" where
  "save_stage_state env checkpoint =
     py_then (py_when checkpoint (py_modify (\<lambda>w.
       on_run (\<lambda>s. s\<lparr>st_checkpoint_id := Some (sge_uuid env (sw_ticks w))\<rparr>) w)))
     (py_read (\<lambda>w.
       py_bind (py_lift (res_bind (state_to_document (sge_resolve env) (sw_state w))
                  (state_from_document (sge_resolve env) (st_directory (sw_state w))))) (\<lambda>saved.
       py_then (py_when checkpoint (journal_checkpoint env saved)) (publish_state env saved))))"

section \<open>Accepting a result\<close>

definition outcome_text :: "result_outcome \<Rightarrow> string" where
  "outcome_text out = (case name_in outcome_names out of JStr s \<Rightarrow> s | _ \<Rightarrow> [])"

definition read_outcome :: "string \<Rightarrow> result_outcome result" where
  "read_outcome s = (case map_of outcome_names s of None \<Rightarrow> Inl ValueError | Some out \<Rightarrow> Inr out)"

text \<open>\<^verbatim>\<open>_normalize_accepted_response\<close>, with the report of an ignored payload.\<close>

definition normalize_stage_response ::
    "stage_env \<Rightarrow> stage_result \<Rightarrow> result_outcome \<Rightarrow> (stage_world, stage_result \<times> result_outcome) py" where
  "normalize_stage_response env r out = py_read (\<lambda>w.
     py_bind (py_lift (py_nth (stages (st_template (sw_state w))) (st_stage_position (sw_state w) - 1))) (\<lambda>n.
     py_bind (py_lift (normalize_accepted_response (sge_describe env) (st_template (sw_state w)) n
                (at_input (sw_attempt w)) r (outcome_text out))) (\<lambda>a.
     py_then (py_when (ac_ignored_payload a)
       (py_bind current_context (write_error env ValueError ''conditional_unexpected_data'')))
     (py_bind (py_lift (read_outcome (ac_outcome a))) (\<lambda>out. py_return (ac_result a, out))))))"

text \<open>
  What a result says about the execution. Statuses are kept as JSON; a process that is not an object
  and a start time that is not a text, which the code would keep as they are, are dropped.
\<close>

definition retained_process :: "json \<Rightarrow> retained_identity option" where
  "retained_process j = (case j of JObj d \<Rightarrow> Some (retain_process_identity d) | _ \<Rightarrow> None)"

definition text_of :: "json \<Rightarrow> string option" where
  "text_of j = (case j of JStr s \<Rightarrow> Some s | _ \<Rightarrow> None)"

definition observed_execution :: "json \<Rightarrow> path stage_attempt \<Rightarrow> path stage_attempt" where
  "observed_execution j a =
     (case j of
        JObj d \<Rightarrow> a\<lparr>at_executor := JObj d, at_process := retained_process (dict_get d ''process'' JNull),
                    at_started_at := text_of (dict_get d ''started_at'' JNull)\<rparr>
      | _ \<Rightarrow> a)"

definition observe_execution :: "stage_result \<Rightarrow> (stage_world, unit) py" where
  "observe_execution r =
     (case or_execution r of
        None \<Rightarrow> py_return ()
      | Some j \<Rightarrow>
          if \<not> truthy j then py_return ()
          else py_bind (py_lift (copy_json_object (embed j)))
                 (\<lambda>d. py_modify (on_attempt (observed_execution (JObj d)))))"

definition finish_status :: "(stage_world, unit) py" where
  "finish_status = py_read (\<lambda>w.
     py_bind (py_lift (finish_executor_status (at_executor (sw_attempt w))))
       (\<lambda>j. py_modify (on_attempt (\<lambda>a. a\<lparr>at_executor := j\<rparr>))))"

definition settle_attempt :: "result_outcome \<Rightarrow> path stage_attempt \<Rightarrow> path stage_attempt" where
  "settle_attempt out a = a\<lparr>at_result_request := Some (at_request_id a), at_outcome := Some (outcome_text out)\<rparr>"

definition mark_unknown_attempt :: "stage_world \<Rightarrow> stage_world" where
  "mark_unknown_attempt = on_attempt (\<lambda>a. a\<lparr>at_outcome := Some ''unknown''\<rparr>)"

text \<open>\<^verbatim>\<open>_accept\<close>\<close>

definition accept_result ::
    "stage_env \<Rightarrow> json_object \<Rightarrow> result_outcome \<Rightarrow> (stage_world, stage_result) py" where
  "accept_result env response out =
     py_bind (py_lift (parse_stage_result (JObj response))) (\<lambda>r.
     py_bind (normalize_stage_response env r out) (\<lambda>(result, out).
     py_then (py_modify (\<lambda>w. use_request (at_request_id (sw_attempt w)) w))
     (py_bind current_context (\<lambda>c.
     py_then (py_bind (py_read (\<lambda>w. record_command_result env c (at_request_id (sw_attempt w)) out
                (dump_stage_result result))) (\<lambda>i. py_return ()))
     (py_then (py_modify (on_attempt (settle_attempt out)))
     (py_then (observe_execution result)
     (py_then finish_status
     (py_then (save_stage_state env True)
     (py_then (py_modify (note_stage EffResourcesNotified))
       (py_return result))))))))))"

definition failure_response :: "json_object \<Rightarrow> json_object" where
  "failure_response d = [(''result'', JStr ''fail''), (''data'', JObj d)]"

definition reason_response :: "string \<Rightarrow> json_object" where
  "reason_response reason = failure_response [(''reason'', JStr reason)]"

section \<open>Ending the work of an attempt\<close>

text \<open>\<^verbatim>\<open>_startup_process_exited\<close>\<close>

definition startup_process_exited :: "stage_env \<Rightarrow> stage_world \<Rightarrow> bool" where
  "startup_process_exited env w =
     (case sw_startup w of
        None \<Rightarrow> False
      | Some u \<Rightarrow> su_attempt u = at_attempt_id (sw_attempt w) \<and> \<not> su_dispatched u
          \<and> sw_process_attempt w = Some (at_attempt_id (sw_attempt w))
          \<and> sw_process w \<and> sge_exited env (sw_ticks w))"

definition service_work_ended :: "stage_world \<Rightarrow> path service_instance \<Rightarrow> bool result" where
  "service_work_ended w i =
     (if si_stopped i then Inr True
      else case at_participant (sw_attempt w) of
             None \<Rightarrow> Inl AttributeError
           | Some p \<Rightarrow> Inr (si_instance_id i \<noteq> pt_instance_id p))"

text \<open>\<^verbatim>\<open>termination_confirmed\<close>, whose state is the one at hand.\<close>

definition termination_confirmed :: "stage_env \<Rightarrow> stage_world \<Rightarrow> bool result" where
  "termination_confirmed env w =
     (if st_active_attempt (sw_state w) = None \<or> sw_unstarted w = Some (at_attempt_id (sw_attempt w)) then Inr True
      else if startup_process_exited env w then Inr True
      else case at_service_id (sw_attempt w) of
             Some sid \<Rightarrow>
               (case map_of (st_services (sw_state w)) sid of
                  None \<Rightarrow> Inr False
                | Some i \<Rightarrow> service_work_ended w i)
           | None \<Rightarrow>
               (case at_process (sw_attempt w) of
                  None \<Rightarrow> Inr False
                | Some p \<Rightarrow> res_bind (sge_alive env (sw_ticks w) p) (\<lambda>alive. Inr (\<not> alive))))"

text \<open>\<^verbatim>\<open>interrupt\<close>: first the acceptance of a cancellation, which a failing journal does not stop.\<close>

definition accept_cancellation :: "stage_env \<Rightarrow> string \<Rightarrow> (stage_world, unit) py" where
  "accept_cancellation env reason =
     py_catch
       (py_bind (py_read (\<lambda>w. journal_call env (\<lambda>n. read_command_result (at_request_id (sw_attempt w))))) (\<lambda>existing.
          if map_option cr_author existing = Some RunnerAuthor then py_return ()
          else py_bind (accept_result env (reason_response reason) Cancelled) (\<lambda>r. py_return ())))
       (\<lambda>e. if logging_error e then py_return () else py_raise e)"

definition read_process_record :: "stage_env \<Rightarrow> (stage_world, unit) py" where
  "read_process_record env = py_read (\<lambda>w.
     py_bind (py_lift (sge_process_record env (sw_ticks w))) (\<lambda>saved.
       case saved of
         None \<Rightarrow> py_return ()
       | Some d \<Rightarrow>
           if dict_get d ''attempt_id'' JNull \<noteq> JStr (at_attempt_id (sw_attempt w)) then py_raise ValueError
           else py_modify (on_attempt (\<lambda>a. a\<lparr>at_process := retained_process (dict_get d ''stage'' JNull)\<rparr>))))"

definition interrupt_intent :: "stage_env \<Rightarrow> string \<Rightarrow> string \<Rightarrow> (stage_world, unit) py" where
  "interrupt_intent env q reason = py_read (\<lambda>w.
     py_catch
       (py_bind current_context (\<lambda>c.
          write_event env ''control.intent''
            [(''action'', JStr ''interrupt_stage''), (''request_id'', JStr q),
             (''target_request_id'', JStr (at_request_id (sw_attempt w))), (''reason'', JStr reason)]
            (AList.update ''request_id'' (JStr q) c)))
       (\<lambda>e. if logging_error e then py_modify (note_stage (EffEmergencyStop q)) else py_raise e))"

definition close_connection :: "stage_world \<Rightarrow> stage_world" where
  "close_connection w = w\<lparr>sw_connected := False\<rparr>"

definition connect :: "stage_env \<Rightarrow> (stage_world, unit) py" where
  "connect env =
     py_then (py_modify (\<lambda>w. w\<lparr>sw_connected := True\<rparr>)) (stage_await_unit env (sge_connect env))"

definition interrupt_exchange :: "stage_env \<Rightarrow> string \<Rightarrow> (stage_world, bool) py" where
  "interrupt_exchange env reason =
     py_finally
       (py_catch
         (py_then (connect env)
         (py_read (\<lambda>w. let q = sge_uuid env (sw_ticks w) in
            py_then (py_modify (use_request q))
            (py_then (interrupt_intent env q reason)
              (stage_await env (sge_exchange env))))))
         (\<lambda>e. if connection_error e then py_return False else py_raise e))
       close_connection"

text \<open>Evidence that the process has ended; \<open>sge_alive\<close> is the check of its identity.\<close>

definition process_evidence :: "stage_env \<Rightarrow> (stage_world, bool) py" where
  "process_evidence env = py_read (\<lambda>w.
     if startup_process_exited env w then py_return True
     else case at_process (sw_attempt w) of
            None \<Rightarrow> py_return False
          | Some p \<Rightarrow> py_bind (py_lift (sge_alive env (sw_ticks w) p)) (\<lambda>alive. py_return (\<not> alive)))"

definition interrupt_round :: "stage_env \<Rightarrow> string \<Rightarrow> rat \<Rightarrow> (stage_world, bool option) py" where
  "interrupt_round env reason deadline = py_read (\<lambda>w.
     if deadline \<le> sge_now env (sw_ticks w) then py_return (Some False)
     else py_bind (interrupt_exchange env reason) (\<lambda>stopped.
          if stopped then py_return (Some True)
          else py_bind (process_evidence env) (\<lambda>gone.
               if gone then py_return (Some True)
               else py_then (yield_others env) (py_return None))))"

definition interrupt_executor :: "stage_env \<Rightarrow> string \<Rightarrow> (stage_world, bool) py" where
  "interrupt_executor env reason =
     py_then (read_process_record env)
       (py_read (\<lambda>w. py_until (sge_polls env) (interrupt_round env reason
          (sge_now env (sw_ticks w) + number_value (unknown_timeout (unknown_state (st_template (sw_state w))))))))"

definition interrupt_service_call :: "stage_env \<Rightarrow> string \<Rightarrow> (stage_world, bool) py" where
  "interrupt_service_call env sid = py_read (\<lambda>w.
     case map_of (st_services (sw_state w)) sid of
       None \<Rightarrow> py_return False
     | Some i \<Rightarrow> py_bind (py_lift (service_work_ended w i)) (\<lambda>ended.
         if ended then py_return True else stage_await env (sge_cancel env)))"

definition interrupt :: "stage_env \<Rightarrow> string \<Rightarrow> (stage_world, bool) py" where
  "interrupt env reason = py_read (\<lambda>w.
     if st_active_attempt (sw_state w) = None \<or> sw_unstarted w = Some (at_attempt_id (sw_attempt w))
     then py_return True
     else py_then (accept_cancellation env reason) (py_read (\<lambda>w.
       if startup_process_exited env w then py_return True
       else case at_service_id (sw_attempt w) of
              Some sid \<Rightarrow> interrupt_service_call env sid
            | None \<Rightarrow> interrupt_executor env reason)))"

end
