(* ===== verification/Stage_Attempts.thy ===== *)
theory Stage_Attempts
  imports Stage_Runner
begin

text \<open>
  The life of an attempt in \<^verbatim>\<open>StageRunner\<close> (\<^verbatim>\<open>core/experiments/stages.py\<close>): \<^verbatim>\<open>_start_attempt\<close> with the start
  of an executor or of a service call, \<^verbatim>\<open>_collect_result\<close>, the retries of \<^verbatim>\<open>execute\<close>, and \<^verbatim>\<open>recover\<close>.
\<close>

section \<open>A new attempt\<close>

definition stage_key :: "dag_node \<Rightarrow> string result" where
  "stage_key n = (case node_stage_id n of None \<Rightarrow> Inl ValueError | Some i \<Rightarrow> Inr i)"

definition cursor_definition :: "stage_world \<Rightarrow> dag_node result" where
  "cursor_definition w = py_nth (stages (st_template (sw_state w))) (st_stage_position (sw_state w) - 1)"

definition attempt_directory :: "runner_state \<Rightarrow> module_reference \<Rightarrow> string \<Rightarrow> int \<Rightarrow> path" where
  "attempt_directory s m stage_id number =
     fold (\<lambda>part p. path_join p (path_of part))
       [''shared_artifacts'', ''epoch_'' @ decimal (st_cycle_number s), ref_name m, stage_id,
        attempt_prefix @ decimal number]
       (st_directory s)"

definition node_service :: "dag_node \<Rightarrow> string option" where
  "node_service n = (case n of StageNode d \<Rightarrow> None | CallNode c \<Rightarrow> Some (sc_service_id c))"

definition service_of_node :: "runner_state \<Rightarrow> dag_node \<Rightarrow> path service_instance option result" where
  "service_of_node s n =
     (case node_service n of
        None \<Rightarrow> Inr None
      | Some sid \<Rightarrow> res_bind (dict_item (st_services s) sid) (\<lambda>i. Inr (Some i)))"

text \<open>\<^verbatim>\<open>ParticipantIdentity(...)\<close>\<close>

definition new_participant :: "string \<Rightarrow> string \<Rightarrow> string \<Rightarrow> participant_identity result" where
  "new_participant experiment_id participant_id instance_id =
     (if is_text experiment_id \<and> is_uuid participant_id \<and> is_uuid instance_id
      then Inr \<lparr>pt_experiment_id = experiment_id, pt_participant_id = participant_id,
                pt_instance_id = instance_id, pt_extra = []\<rparr>
      else Inl ValueError)"

text \<open>\<^verbatim>\<open>_new_stage_attempt\<close>: the fresh attempt becomes the one at hand.\<close>

definition new_stage_attempt ::
    "stage_env \<Rightarrow> dag_node \<Rightarrow> module_reference \<Rightarrow> json \<Rightarrow> string \<Rightarrow> (stage_world, path service_instance option) py" where
  "new_stage_attempt env n m input execution_id = py_read (\<lambda>w.
     let s = sw_state w; i = sge_uuid env (sw_ticks w)
     in py_bind (py_lift (stage_key n)) (\<lambda>stage_id.
        let number = int (dict_get (st_attempt_numbers s) stage_id 0) + 1
        in py_bind (py_lift (new_attempt i stage_id execution_id (st_cycle_number s) number
                       (attempt_directory s m stage_id number) input [] (node_timeout n))) (\<lambda>a.
           py_bind (py_lift (service_of_node s n)) (\<lambda>service.
           py_bind (py_lift (new_participant (st_experiment_id s)
                       (case service of None \<Rightarrow> stage_id | Some v \<Rightarrow> si_service_id v)
                       (case service of None \<Rightarrow> i | Some v \<Rightarrow> si_instance_id v))) (\<lambda>p.
             py_then (py_modify (\<lambda>w. w\<lparr>
                 sw_attempt := a\<lparr>at_service_id := node_service n, at_participant := Some p,
                                 at_queued_at := Some (sge_wall env (sw_ticks w)),
                                 at_queued_monotonic := Some (sge_now env (sw_ticks w))\<rparr>,
                 sw_baselines := AList.update i (sge_recovered env (sw_ticks w)) (sw_baselines w)\<rparr>))
               (py_return service))))))"

text \<open>\<^verbatim>\<open>_write_attempt_context\<close>: what the launcher prepares is its own; the context file is written.\<close>

definition write_attempt_context :: "stage_env \<Rightarrow> (stage_world, unit) py" where
  "write_attempt_context env =
     py_bind current_context (\<lambda>c. py_read (\<lambda>w.
       py_bind (py_lift (sge_prepare env (sw_ticks w))) (\<lambda>(settings, endpoint).
         py_modify (\<lambda>w. note_stage (EffContextWritten (at_artifacts (sw_attempt w)))
           (on_attempt (\<lambda>a. a\<lparr>at_endpoint := Some endpoint, at_settings := settings\<rparr>) w)))))"

text \<open>\<^verbatim>\<open>_bind_attempt_intent\<close>\<close>

definition bind_active :: "stage_world \<Rightarrow> stage_world" where
  "bind_active w =
     (let a = sw_attempt w
      in on_run (\<lambda>s. s\<lparr>st_active_attempt := Some a,
           st_attempt_numbers := AList.update (at_stage_id a) (nat (at_attempt_number a)) (st_attempt_numbers s)\<rparr>) w)"

definition claim_attempt :: "bool \<Rightarrow> stage_world \<Rightarrow> stage_world" where
  "claim_attempt executor w =
     (let a = sw_attempt w; w = (if executor then use_request (at_request_id a) w else w)
      in w\<lparr>sw_unstarted := Some (at_attempt_id a), sw_process_attempt := Some (at_attempt_id a),
           sw_process := False, sw_call := None\<rparr>)"

definition bind_attempt_intent :: "stage_env \<Rightarrow> bool \<Rightarrow> (stage_world, unit) py" where
  "bind_attempt_intent env executor =
     py_then (py_modify bind_active)
     (py_read (\<lambda>w.
        if at_request_id (sw_attempt w) |\<in>| st_used_request_ids (sw_state w) then py_raise RuntimeError
        else py_then (py_modify (claim_attempt executor))
             (py_then (py_when (sw_connected w) (yield_others env))
             (py_then (py_modify close_connection)
             (py_then (py_read (\<lambda>w. write_stage_event env ''attempt.parameters''
                [(''template'', dump_template (st_template (sw_state w))),
                 (''template_yaml'', JStr (st_template_yaml (sw_state w))),
                 (''effective_settings'', JObj (at_settings (sw_attempt w)))]))
             (py_then (py_read (\<lambda>w. write_stage_event env ''control.intent''
                [(''action'', JStr ''start_stage''),
                 (''argv'', if executor then sge_argv env (sw_attempt w) else JNull),
                 (''service_id'', dump_nullable JStr (at_service_id (sw_attempt w))),
                 (''queued_monotonic'', dump_nullable JFloat (at_queued_monotonic (sw_attempt w))),
                 (''queued_at'', dump_nullable JStr (at_queued_at (sw_attempt w)))]))
             (save_stage_state env True)))))))"

section \<open>Deadlines\<close>

text \<open>\<^verbatim>\<open>_deadline\<close>: the first call for an attempt fixes the baseline of the journal's recovery time.\<close>

definition keep_attempt_baseline :: "stage_env \<Rightarrow> stage_world \<Rightarrow> stage_world" where
  "keep_attempt_baseline env w =
     (let i = at_attempt_id (sw_attempt w)
      in if at_timeout (sw_attempt w) = None \<or> has_key (sw_baselines w) i then w
         else w\<lparr>sw_baselines := AList.update i (sge_recovered env (sw_ticks w)) (sw_baselines w)\<rparr>)"

definition attempt_recovered :: "stage_env \<Rightarrow> stage_world \<Rightarrow> rat" where
  "attempt_recovered env w =
     (let r = sge_recovered env (sw_ticks w) in r - dict_get (sw_baselines w) (at_attempt_id (sw_attempt w)) r)"

definition current_deadline :: "stage_env \<Rightarrow> (stage_world, rat option) py" where
  "current_deadline env =
     py_then (py_modify (keep_attempt_baseline env))
       (py_read (\<lambda>w. py_lift (attempt_deadline (attempt_recovered env w) (sw_attempt w))))"

definition current_startup :: "stage_env \<Rightarrow> (stage_world, startup_details) py" where
  "current_startup env =
     py_then (py_modify (keep_attempt_baseline env))
       (py_read (\<lambda>w. py_lift (case sw_startup w of
          None \<Rightarrow> Inl AttributeError
        | Some u \<Rightarrow> startup_details_of (sge_now env (sw_ticks w)) (su_started u) (su_timeout u)
            (sge_recovered env (sw_ticks w) - su_baseline u) (attempt_recovered env w) (sw_attempt w))))"

text \<open>\<^verbatim>\<open>if self._startup_remaining(attempt) <= 0: raise TimeoutError\<close>\<close>

definition require_startup_time :: "stage_env \<Rightarrow> (stage_world, unit) py" where
  "require_startup_time env =
     py_bind (current_startup env) (\<lambda>d. py_read (\<lambda>w.
       if sud_deadline d - sge_now env (sw_ticks w) \<le> 0 then py_raise TimeoutError else py_return ()))"

section \<open>Starting an executor\<close>

text \<open>\<^verbatim>\<open>_spawn_executor\<close>\<close>

definition spawn_executor :: "stage_env \<Rightarrow> (stage_world, unit) py" where
  "spawn_executor env =
     py_then (py_modify (\<lambda>w. w\<lparr>sw_unstarted := None\<rparr>))
     (py_then
       (py_catch (stage_await_unit env (sge_spawn env))
          (\<lambda>e. py_then (py_modify (\<lambda>w.
                 if os_error e then w\<lparr>sw_unstarted := Some (at_attempt_id (sw_attempt w))\<rparr>
                 else if e = CancelledError then w\<lparr>sw_process := True\<rparr> else w)) (py_raise e)))
       (py_modify (\<lambda>w. w\<lparr>sw_process := True\<rparr>)))"

text \<open>\<^verbatim>\<open>_dispatch_startup\<close>: \<open>sge_endpoint\<close> says whether the endpoint of this attempt has been published.\<close>

definition dispatch_call :: "stage_env \<Rightarrow> (stage_world, bool) py" where
  "dispatch_call env =
     py_bind (stage_await env (sge_endpoint env)) (\<lambda>own.
       if \<not> own then py_return False
       else py_then (connect env)
            (py_then (require_startup_time env)
            (py_then (py_modify (\<lambda>w. w\<lparr>sw_startup := map_option (\<lambda>u. u\<lparr>su_dispatched := True\<rparr>) (sw_startup w),
                                        sw_call := Some TaskRunning\<rparr>))
              (py_return True))))"

definition dispatch_startup :: "stage_env \<Rightarrow> (stage_world, bool) py" where
  "dispatch_startup env =
     py_catch (dispatch_call env)
       (\<lambda>e. if connection_error e then py_then (require_startup_time env) (py_return False) else py_raise e)"

text \<open>One round of \<^verbatim>\<open>_wait_executor_startup\<close>\<close>

definition startup_result :: "stage_env \<Rightarrow> (stage_world, bool option) py" where
  "startup_result env = py_read (\<lambda>w.
     py_catch
       (py_bind (journal_call env (\<lambda>n. read_command_result (at_request_id (sw_attempt w))))
          (\<lambda>r. py_return (Some (r \<noteq> None))))
       (\<lambda>e. if e = LoggingStorageError
             then py_then (require_startup_time env)
                    (py_read (\<lambda>w. if sge_retryable env (sw_ticks w)
                                   then py_then (yield_others env) (py_return None) else py_raise e))
             else py_raise e))"

definition startup_round :: "stage_env \<Rightarrow> (stage_world, unit option) py" where
  "startup_round env =
     py_then (require_startup_time env)
     (py_bind (startup_result env) (\<lambda>found.
        case found of
          None \<Rightarrow> py_return None
        | Some True \<Rightarrow> py_return (Some ())
        | Some False \<Rightarrow>
            py_then (require_startup_time env)
            (py_bind (dispatch_startup env) (\<lambda>sent.
               if sent then py_return (Some ())
               else py_read (\<lambda>w. if sge_exited env (sw_ticks w) then py_raise ExecutorExited
                                  else py_then (yield_others env) (py_return None))))))"

text \<open>\<^verbatim>\<open>_cleanup_startup\<close>: any exception means that the work is not known to have stopped.\<close>

definition cleanup_startup :: "stage_env \<Rightarrow> string \<Rightarrow> (stage_world, bool \<times> exn option) py" where
  "cleanup_startup env reason =
     py_catch
       (py_bind (interrupt env reason) (\<lambda>stopped. py_read (\<lambda>w.
          py_bind (if stopped \<and> sw_process w then stage_await env (sge_reap env) else py_return stopped)
            (\<lambda>stopped. py_return (stopped, None)))))
       (\<lambda>e. if e = CancelledError \<or> e = StillRunning then py_raise e else py_return (False, Some e))"

text \<open>\<^verbatim>\<open>_handle_startup_failure\<close>\<close>

definition startup_response :: "stage_env \<Rightarrow> bool \<Rightarrow> exn \<Rightarrow> json_object" where
  "startup_response env stage_timeout e =
     (let code = (if e = TimeoutError then ''executor_startup_timeout'' else ''executor_startup_failed'')
      in failure_response [(''reason'', JStr (if stage_timeout then ''timeout'' else code))]
         @ [(''error'', JObj [(''code'', JStr code), (''message'', JStr (sge_describe env e))])])"

definition handle_startup_failure :: "stage_env \<Rightarrow> exn \<Rightarrow> (stage_world, unit) py" where
  "handle_startup_failure env e =
     py_bind (current_startup env) (\<lambda>d.
       let stage_timeout = (sud_stage_timeout d \<and> e = TimeoutError);
           code = (if e = TimeoutError then ''executor_startup_timeout'' else ''executor_startup_failed'')
       in py_then (py_modify (note_stage (EffStartupDetails d)))
          (py_bind (accept_result env (startup_response env stage_timeout e)
                      (if stage_timeout then TimedOut else Failed)) (\<lambda>r.
           py_bind (cleanup_startup env code) (\<lambda>(stopped, cleanup_error).
           py_then (py_when (\<not> stopped) (py_then (py_modify mark_unknown_attempt) (save_stage_state env True)))
           (py_then (py_modify (\<lambda>w. w\<lparr>sw_startup_results :=
                       AList.update (at_attempt_id (sw_attempt w)) r (sw_startup_results w)\<rparr>))
           (py_then (py_bind current_context (write_error env e code))
             (case cleanup_error of
                None \<Rightarrow> py_return ()
              | Some failure \<Rightarrow> py_bind current_context (write_error env failure []))))))))"

text \<open>\<^verbatim>\<open>_start_executor\<close>\<close>

definition begin_startup :: "stage_env \<Rightarrow> stage_world \<Rightarrow> stage_world" where
  "begin_startup env w =
     note_stage (EffLaunchWritten (at_artifacts (sw_attempt w)))
       (w\<lparr>sw_startup := Some \<lparr>su_attempt = at_attempt_id (sw_attempt w), su_started = sge_now env (sw_ticks w),
            su_timeout = number_value (start_timeout (st_template (sw_state w))),
            su_baseline = sge_recovered env (sw_ticks w), su_dispatched = False\<rparr>\<rparr>)"

definition start_executor :: "stage_env \<Rightarrow> (stage_world, unit) py" where
  "start_executor env =
     py_then (py_modify (begin_startup env))
     (py_catch
       (py_then (require_startup_time env)
       (py_then (spawn_executor env)
         (py_until (sge_polls env) (startup_round env))))
       (\<lambda>e. if os_error e \<or> e = ExecutorExited then handle_startup_failure env e else py_raise e))"

text \<open>\<^verbatim>\<open>_start_service_call\<close>; an instance that has been replaced meanwhile gets no request.\<close>

definition start_service_call :: "stage_env \<Rightarrow> path service_instance \<Rightarrow> (stage_world, unit) py" where
  "start_service_call env i = py_read (\<lambda>w.
     py_bind (py_lift (dict_item (st_services (sw_state w)) (si_service_id i))) (\<lambda>now.
       if si_instance_id now \<noteq> si_instance_id i then py_return ()
       else py_bind (stage_await env (sge_enqueue env)) (\<lambda>task.
            py_modify (\<lambda>w. w\<lparr>sw_call := Some task, sw_unstarted := None\<rparr>))))"

text \<open>\<^verbatim>\<open>_prune_artifacts\<close>\<close>

definition prune_artifacts :: "stage_env \<Rightarrow> (stage_world, unit) py" where
  "prune_artifacts env = py_read (\<lambda>w.
     case prune_directories (sge_resolve env) (sge_removing env (sw_ticks w)) (sw_state w) (sw_attempt w)
            (sge_listing env (sw_ticks w)) of
       (e, removed) \<Rightarrow> py_then (py_modify (note_stage (EffPruned removed)))
                         (case e of None \<Rightarrow> py_return () | Some e \<Rightarrow> py_raise e))"

definition close_stage :: "stage_env \<Rightarrow> (stage_world, unit) py" where
  "close_stage env =
     py_then (stage_await_unit env (sge_close env)) (py_modify (\<lambda>w. w\<lparr>sw_connected := False, sw_call := None\<rparr>))"

text \<open>\<^verbatim>\<open>_start_attempt\<close>\<close>

definition launch_attempt :: "stage_env \<Rightarrow> path service_instance option \<Rightarrow> (stage_world, unit) py" where
  "launch_attempt env service =
     py_bind (current_deadline env) (\<lambda>deadline. py_read (\<lambda>w.
       if deadline_passed (sge_now env (sw_ticks w)) deadline then py_return ()
       else case service of None \<Rightarrow> start_executor env | Some i \<Rightarrow> start_service_call env i))"

definition start_attempt :: "stage_env \<Rightarrow> json \<Rightarrow> string \<Rightarrow> (stage_world, unit) py" where
  "start_attempt env input execution_id = py_read (\<lambda>w.
     py_bind (py_lift (cursor_definition w)) (\<lambda>n.
     py_bind (py_lift (node_module (st_template (sw_state w)) n)) (\<lambda>m.
     py_bind (new_stage_attempt env n m input execution_id) (\<lambda>service.
     py_then (stage_await_unit env (sge_check_module env))
     (py_then (write_attempt_context env)
     (py_then (bind_attempt_intent env (service = None))
     (py_then (py_read (\<lambda>w. py_when
         (st_pending_input (sw_state w) \<noteq> None \<or> 1 < at_attempt_number (sw_attempt w)) (close_stage env)))
     (py_then (prune_artifacts env)
     (py_then (py_modify (\<lambda>w. note_stage (EffAttemptStarted (at_stage_id (sw_attempt w))
         (at_attempt_id (sw_attempt w)) (at_attempt_number (sw_attempt w))) w))
       (launch_attempt env service))))))))))"

section \<open>Collecting the result\<close>

definition optional_execution :: "json_object \<Rightarrow> json" where
  "optional_execution response = dict_get response ''execution'' (JObj [])"

text \<open>The runner's own outcome is in the journal: it is adopted.\<close>

definition adopt_record :: "considered_result \<Rightarrow> (stage_world, unit) py" where
  "adopt_record r =
     (let execution = optional_execution (ob_response (cr_result r))
      in py_then (py_modify (on_attempt (settle_attempt (ob_outcome (cr_result r)))))
         (py_bind (py_lift (finish_executor_status execution)) (\<lambda>j.
           py_modify (on_attempt (\<lambda>a.
             (if truthy execution then observed_execution execution a else a)\<lparr>at_executor := j\<rparr>)))))"

definition adopt_result :: "stage_env \<Rightarrow> considered_result \<Rightarrow> (stage_world, stage_result) py" where
  "adopt_result env r =
     py_then (adopt_record r)
     (py_then (py_read (\<lambda>w.
        if at_service_id (sw_attempt w) = None \<and> \<not> list_ex (\<lambda>x. ro_author x = ParticipantAuthor) (cr_observers r)
        then py_bind (interrupt env ''recovery'')
               (\<lambda>stopped. py_when (\<not> stopped) (py_modify mark_unknown_attempt))
        else py_return ()))
     (py_lift (parse_stage_result (JObj (ob_response (cr_result r))))))"

text \<open>The deadline of the attempt has passed: whatever the participant said is too late.\<close>

definition expire_attempt :: "stage_env \<Rightarrow> bool \<Rightarrow> (stage_world, stage_result) py" where
  "expire_attempt env reported =
     py_bind (accept_result env (reason_response ''timeout'') TimedOut) (\<lambda>response.
     py_then (py_read (\<lambda>w.
        if at_service_id (sw_attempt w) \<noteq> None
        then py_bind (stage_await env (sge_cancel env)) (\<lambda>b. py_return ())
        else if reported then py_return ()
        else py_bind (interrupt env ''timeout'')
               (\<lambda>stopped. py_when (\<not> stopped) (py_modify mark_unknown_attempt))))
       (py_return response))"

definition reported_outcome :: "considered_result \<Rightarrow> result_outcome" where
  "reported_outcome r =
     (if dict_get (ob_response (cr_result r)) ''result'' JNull = JStr ''success'' then Succeeded else Failed)"

text \<open>What is seen of a service call without a result in the journal.\<close>

definition call_status :: "stage_env \<Rightarrow> path service_instance \<Rightarrow> path stage_attempt \<Rightarrow> json" where
  "call_status env i a =
     JObj [(''participant'', (case at_participant a of None \<Rightarrow> JNull | Some p \<Rightarrow> JObj (participant_document p))),
       (''request_id'', JStr (at_request_id a)),
       (''process'', (case si_process i of None \<Rightarrow> JNull | Some p \<Rightarrow> JObj (dump_process_identity p))),
       (''finished'', JBool False),
       (''current'', (case si_active i of None \<Rightarrow> JNull | Some r \<Rightarrow> sge_request_document env r))]"

definition observe_call :: "stage_env \<Rightarrow> path service_instance \<Rightarrow> (stage_world, stage_result option) py" where
  "observe_call env i =
     py_then (py_modify (on_attempt (\<lambda>a. a\<lparr>at_process := map_option FullIdentity (si_process i),
                                          at_executor := call_status env i a\<rparr>)))
     (py_read (\<lambda>w.
        case sw_call w of
          Some (TaskFinished response) \<Rightarrow>
            py_bind (py_lift (dict_item response ''result'')) (\<lambda>result.
              if result \<noteq> JStr ''fail'' then py_return None
              else py_bind (py_lift (dict_item response ''data'')) (\<lambda>d.
                   py_bind (accept_result env [(''result'', JStr ''fail''), (''data'', d)] Failed)
                     (\<lambda>r. py_return (Some r))))
        | Some (TaskRaised e) \<Rightarrow> if e = CancelledError then py_return None else py_raise e
        | _ \<Rightarrow> py_return None))"

definition observe_service :: "stage_env \<Rightarrow> string \<Rightarrow> (stage_world, stage_result option) py" where
  "observe_service env sid = py_read (\<lambda>w.
     case map_of (st_services (sw_state w)) sid of
       None \<Rightarrow> py_bind (accept_result env (reason_response ''service_instance_changed'') Invalidated)
                 (\<lambda>r. py_return (Some r))
     | Some i \<Rightarrow> py_bind (py_lift (service_work_ended w i)) (\<lambda>ended.
         if ended
         then py_bind (accept_result env (reason_response ''service_instance_changed'') Invalidated)
                (\<lambda>r. py_return (Some r))
         else observe_call env i))"

text \<open>\<^verbatim>\<open>_observe_executor\<close>\<close>

definition observe_status :: "stage_env \<Rightarrow> (stage_world, unit) py" where
  "observe_status env =
     py_then (py_read (\<lambda>w. py_when (\<not> sw_connected w) (connect env)))
     (py_then (py_modify (\<lambda>w. use_request (sge_uuid env (sw_ticks w)) w))
     (py_bind (stage_await env (sge_query env)) (\<lambda>reply. py_read (\<lambda>w.
        let first_observation = (at_process (sw_attempt w) = None \<and> eo_process reply \<noteq> None)
        in py_then (py_modify (on_attempt (\<lambda>a. a\<lparr>at_executor := eo_document reply,
                       at_process := map_option FullIdentity (eo_process reply),
                       at_started_at := eo_started_at reply\<rparr>)))
           (py_then (save_stage_state env first_observation)
             (py_when first_observation (py_modify (note_stage EffResourcesNotified))))))))"

text \<open>Whether the journal has a result by now, or the deadline has passed.\<close>

definition result_or_deadline :: "stage_env \<Rightarrow> rat option \<Rightarrow> (stage_world, bool) py" where
  "result_or_deadline env deadline = py_read (\<lambda>w.
     py_bind (journal_call env (\<lambda>n. read_command_result (at_request_id (sw_attempt w)))) (\<lambda>r. py_read (\<lambda>w.
       py_return (r \<noteq> None \<or> deadline_passed (sge_now env (sw_ticks w)) deadline))))"

definition reconnect_executor :: "stage_env \<Rightarrow> rat option \<Rightarrow> (stage_world, bool) py" where
  "reconnect_executor env deadline =
     py_bind (result_or_deadline env deadline) (\<lambda>recheck.
       if recheck then py_return True
       else py_catch (py_then (connect env) (py_return False))
              (\<lambda>e. if connection_error e
                    then py_bind (result_or_deadline env deadline)
                           (\<lambda>recheck. if recheck then py_return True else py_raise e)
                    else py_raise e))"

definition observe_executor :: "stage_env \<Rightarrow> rat option \<Rightarrow> (stage_world, bool) py" where
  "observe_executor env deadline =
     py_then (py_modify (\<lambda>w. if sw_call w = Some TaskRunning then w else w\<lparr>sw_call := None\<rparr>))
     (py_catch (py_then (observe_status env) (py_return False))
       (\<lambda>e. if connection_error e then reconnect_executor env deadline else py_raise e))"

text \<open>A round of \<^verbatim>\<open>_collect_result\<close>; no result means another round.\<close>

definition observe_work :: "stage_env \<Rightarrow> rat option \<Rightarrow> (stage_world, stage_result option) py" where
  "observe_work env deadline = py_read (\<lambda>w.
     py_bind
       (case at_service_id (sw_attempt w) of
          Some sid \<Rightarrow> py_bind (observe_service env sid) (\<lambda>r. py_return (r, False))
        | None \<Rightarrow> py_bind (observe_executor env deadline) (\<lambda>recheck. py_return (None, recheck)))
       (\<lambda>(r, recheck).
          if r = None \<and> \<not> recheck then py_then (yield_others env) (py_return None) else py_return r))"

definition read_own_result :: "stage_env \<Rightarrow> (stage_world, considered_result option) py" where
  "read_own_result env = py_read (\<lambda>w.
     py_bind (py_lift (attempt_identity (sw_attempt w))) (\<lambda>expected.
       journal_call env (\<lambda>n. read_journal_result (at_request_id (sw_attempt w)) expected False)))"

definition collect_round :: "stage_env \<Rightarrow> (stage_world, stage_result option) py" where
  "collect_round env =
     py_bind (current_deadline env) (\<lambda>deadline.
     py_bind (read_own_result env) (\<lambda>found. py_read (\<lambda>w.
       if map_option cr_author found = Some RunnerAuthor
       then py_bind (adopt_result env (the found)) (\<lambda>r. py_return (Some r))
       else if deadline_passed (sge_now env (sw_ticks w)) deadline
       then py_bind (expire_attempt env (found \<noteq> None)) (\<lambda>r. py_return (Some r))
       else case found of
              Some r \<Rightarrow> py_bind (accept_result env (ob_response (cr_result r)) (reported_outcome r))
                          (\<lambda>r. py_return (Some r))
            | None \<Rightarrow> observe_work env deadline)))"

definition collect_result :: "stage_env \<Rightarrow> (stage_world, stage_result) py" where
  "collect_result env =
     py_finally (py_until (sge_polls env) (collect_round env))
       (\<lambda>w. w\<lparr>sw_call := None, sw_connected := False\<rparr>)"

section \<open>Executing a stage\<close>

definition finish_outcome :: "stage_result \<Rightarrow> stage_action \<Rightarrow> (stage_world, stage_outcome option) py" where
  "finish_outcome r action = py_read (\<lambda>w.
     py_return (Some \<lparr>oc_attempt = sw_attempt w, oc_result = Some r, oc_action = action\<rparr>))"

definition service_stage_action :: "service_action \<Rightarrow> stage_action" where
  "service_stage_action a =
     (case a of ServicesReady \<Rightarrow> AdvanceStage | ServicesPause \<Rightarrow> PauseStage | ServicesStop \<Rightarrow> StopStage)"

definition use_retry :: "stage_env \<Rightarrow> string \<Rightarrow> nat \<Rightarrow> (stage_world, stage_outcome option) py" where
  "use_retry env stage_id used =
     py_then (py_modify (on_run (\<lambda>s. s\<lparr>st_retry_counts := AList.update stage_id (Suc used) (st_retry_counts s)\<rparr>)))
     (py_then (save_stage_state env True) (py_return None))"

text \<open>What follows the result of an attempt: the outcome of the visit, or another attempt.\<close>

definition retry_or_finish ::
    "stage_env \<Rightarrow> bool \<Rightarrow> dag_node \<Rightarrow> string \<Rightarrow> stage_result \<Rightarrow> (stage_world, stage_outcome option) py" where
  "retry_or_finish env waits n stage_id r = py_read (\<lambda>w.
     if at_outcome (sw_attempt w) = Some ''unknown'' then finish_outcome r StopStage
     else if or_result r = SuccessResult then finish_outcome r AdvanceStage
     else if st_pause_requested (sw_state w) then finish_outcome r PauseStage
     else let used = dict_get (st_retry_counts (sw_state w)) stage_id 0
          in if retries (node_errors n) \<le> int used
             then py_bind (py_lift (exhausted_stage_action n r)) (finish_outcome r)
             else py_then (yield_others env) (py_read (\<lambda>w.
               if st_pause_requested (sw_state w) then finish_outcome r PauseStage
               else py_bind (if waits then stage_await env (sge_ready env) else py_return ServicesReady)
                 (\<lambda>ready. py_read (\<lambda>w.
                    if ready \<noteq> ServicesReady then finish_outcome r (service_stage_action ready)
                    else if waits \<and> st_pause_requested (sw_state w) then finish_outcome r PauseStage
                    else use_retry env stage_id used)))))"

definition report_finished :: "stage_env \<Rightarrow> stage_result \<Rightarrow> (stage_world, unit) py" where
  "report_finished env r = py_read (\<lambda>w.
     write_stage_event env ''stage.finished''
       [(''result'', JObj (dump_stage_result r)),
        (''outcome'', dump_nullable JStr (at_outcome (sw_attempt w))),
        (''result_request_id'', dump_nullable JStr (at_result_request (sw_attempt w)))])"

definition attempt_response :: "stage_env \<Rightarrow> (stage_world, stage_result) py" where
  "attempt_response env = py_read (\<lambda>w.
     let i = at_attempt_id (sw_attempt w)
     in case map_of (sw_startup_results w) i of
          Some r \<Rightarrow> py_then (py_modify (\<lambda>w. w\<lparr>sw_startup_results := AList.delete i (sw_startup_results w)\<rparr>))
                      (py_return r)
        | None \<Rightarrow> collect_result env)"

definition attempt_round ::
    "stage_env \<Rightarrow> bool \<Rightarrow> dag_node \<Rightarrow> string \<Rightarrow> (stage_world, unit) py \<Rightarrow> (stage_world, stage_outcome option) py" where
  "attempt_round env waits n stage_id start =
     py_then start
     (py_bind (attempt_response env) (\<lambda>r.
        py_then (report_finished env r)
        (py_then (save_stage_state env True)
          (retry_or_finish env waits n stage_id r))))"

definition forget_stage_result :: "string \<Rightarrow> runner_state \<Rightarrow> runner_state" where
  "forget_stage_result stage_id s =
     s\<lparr>st_result_ids := AList.delete stage_id (st_result_ids s),
       st_result_origins := AList.delete stage_id (st_result_origins s),
       st_last_result := JNull, st_last_result_id := None\<rparr>"

text \<open>
  \<^verbatim>\<open>execute\<close>. With \<open>recovered\<close> the attempt at hand is reconciled first, unless its work has been stopped.
  \<open>rounds\<close> bounds the number of new attempts.
\<close>

definition execute ::
    "stage_env \<Rightarrow> nat \<Rightarrow> bool \<Rightarrow> bool \<Rightarrow> bool \<Rightarrow> (stage_world, stage_outcome) py" where
  "execute env rounds manual waits recovered = py_read (\<lambda>w.
     py_bind (py_lift (cursor_definition w)) (\<lambda>n.
     py_bind (py_lift (stage_key n)) (\<lambda>stage_id.
     py_bind (if recovered then py_return (at_input (sw_attempt w))
              else world_call env (\<lambda>w. select_input (sw_state w))) (\<lambda>input. py_read (\<lambda>w.
       let execution_id = (if recovered then at_execution_id (sw_attempt w) else sge_uuid env (sw_ticks w));
           attempts = py_until rounds (attempt_round env waits n stage_id (start_attempt env input execution_id))
       in py_then (py_when manual (py_modify (on_run (forget_stage_result stage_id))))
          (if recovered \<and> at_outcome (sw_attempt w) \<noteq> Some ''unknown_stopped''
           then py_bind (attempt_round env waits n stage_id (py_return ()))
                  (\<lambda>r. case r of None \<Rightarrow> attempts | Some oc \<Rightarrow> py_return oc)
           else attempts))))))"

section \<open>Recovery\<close>

datatype recovery_action = RecoveryStop | RecoveryPause | RecoveryRerun | RecoverySkip

definition recovery_action_of :: "unknown_state_policy \<Rightarrow> nat \<Rightarrow> recovery_action" where
  "recovery_action_of p count =
     (if recovery_limit p \<le> int count
      then (case on_recovery_limit p of LimitStop \<Rightarrow> RecoveryStop | LimitPause \<Rightarrow> RecoveryPause)
      else (case unknown_on_timeout p of
              UnknownStop \<Rightarrow> RecoveryStop | UnknownPause \<Rightarrow> RecoveryPause
            | UnknownRerun \<Rightarrow> RecoveryRerun | UnknownSkip \<Rightarrow> RecoverySkip))"

definition recovery_name :: "recovery_action \<Rightarrow> string" where
  "recovery_name a =
     (case a of RecoveryStop \<Rightarrow> ''stop'' | RecoveryPause \<Rightarrow> ''pause''
      | RecoveryRerun \<Rightarrow> ''rerun'' | RecoverySkip \<Rightarrow> ''skip'')"

definition unknown_outcome :: "stage_env \<Rightarrow> stage_action \<Rightarrow> (stage_world, stage_outcome) py" where
  "unknown_outcome env action =
     py_then (py_modify mark_unknown_attempt)
     (py_then (save_stage_state env True)
       (py_read (\<lambda>w. py_return \<lparr>oc_attempt = sw_attempt w, oc_result = None, oc_action = action\<rparr>)))"

text \<open>\<^verbatim>\<open>_recover_unknown_attempt\<close>\<close>

definition recover_unknown_attempt ::
    "stage_env \<Rightarrow> nat \<Rightarrow> bool \<Rightarrow> exn \<Rightarrow> (stage_world, stage_outcome) py" where
  "recover_unknown_attempt env rounds waits e =
     py_then (py_modify (on_run (\<lambda>s. s\<lparr>st_recovery_count := Suc (st_recovery_count s)\<rparr>)))
     (py_read (\<lambda>w.
        let count = st_recovery_count (sw_state w);
            action = recovery_action_of (unknown_state (st_template (sw_state w))) count
        in py_then (write_stage_event env ''stage.recovery_failed''
                      [(''action'', JStr (recovery_name action)), (''error'', JStr (sge_describe env e)),
                       (''count'', JInt (int count))])
           (if action = RecoveryPause then unknown_outcome env PauseStage
            else py_bind (interrupt env ''unknown_state'') (\<lambda>stopped.
                 if \<not> stopped then unknown_outcome env StopStage
                 else py_then (py_modify (on_attempt (\<lambda>a. a\<lparr>at_outcome := Some ''unknown_stopped''\<rparr>)))
                      (if action = RecoveryRerun then execute env rounds False waits True
                       else py_bind (py_lift (parse_stage_result (JObj (reason_response ''unknown_state'')))) (\<lambda>r.
                            py_read (\<lambda>w. py_return \<lparr>oc_attempt = sw_attempt w, oc_result = Some r,
                              oc_action = (if action = RecoverySkip then AdvanceStage else StopStage)\<rparr>)))))))"

text \<open>The errors \<^verbatim>\<open>recover\<close> answers with the policy.\<close>

definition recoverable :: "exn \<Rightarrow> bool" where
  "recoverable e \<longleftrightarrow> connection_error e
     \<or> List.member [ValueError, MissingConditionalDataError, RuntimeError, NotImplementedError, ExecutorExited] e"

definition reconnect_attempt :: "stage_env \<Rightarrow> (stage_world, unit) py" where
  "reconnect_attempt env = py_read (\<lambda>w.
     py_bind (py_lift (case at_participant (sw_attempt w) of
                         None \<Rightarrow> Inl AttributeError | Some p \<Rightarrow> Inr (participant_document p))) (\<lambda>expected.
       let find_result = journal_call env (\<lambda>n. read_journal_result (at_request_id (sw_attempt w)) expected False)
       in py_bind find_result (\<lambda>found.
          if found \<noteq> None \<or> at_service_id (sw_attempt w) \<noteq> None then py_return ()
          else py_catch (connect env)
                 (\<lambda>e. if connection_error e
                       then py_bind find_result (\<lambda>found. if found = None then py_raise e else py_return ())
                       else py_raise e))))"

text \<open>\<^verbatim>\<open>recover\<close>, for the active attempt of a restored state.\<close>

definition check_recovery :: "stage_env \<Rightarrow> (stage_world, unit) py" where
  "check_recovery env = py_read (\<lambda>w.
     py_bind (py_lift (cursor_definition w)) (\<lambda>n.
       if node_stage_id n \<noteq> Some (at_stage_id (sw_attempt w))
          \<or> at_cycle_number (sw_attempt w) \<noteq> st_cycle_number (sw_state w)
       then py_raise ValueError
       else py_bind (py_lift (sge_context_file env (sw_ticks w))) (\<lambda>(attempt_id, input, settings).
            if attempt_id \<noteq> at_attempt_id (sw_attempt w)
               \<or> dumps_sorted input \<noteq> dumps_sorted (at_input (sw_attempt w))
               \<or> dumps_sorted settings \<noteq> dumps_sorted (JObj (at_settings (sw_attempt w)))
            then py_raise ValueError
            else py_modify (\<lambda>w. w\<lparr>sw_process := False, sw_process_attempt := Some (at_attempt_id (sw_attempt w)),
                                  sw_unstarted := None\<rparr>))))"

definition recover :: "stage_env \<Rightarrow> nat \<Rightarrow> bool \<Rightarrow> (stage_world, stage_outcome option) py" where
  "recover env rounds waits = py_read (\<lambda>w.
     case st_active_attempt (sw_state w) of
       None \<Rightarrow> py_return None
     | Some a \<Rightarrow>
         py_then (py_modify (\<lambda>w. w\<lparr>sw_attempt := a\<rparr>))
         (py_then (check_recovery env)
         (py_bind
           (py_catch
             (py_then (reconnect_attempt env)
             (py_then (write_stage_event env ''stage.reconnected'' [])
               (execute env rounds False waits True)))
             (\<lambda>e. if recoverable e then recover_unknown_attempt env rounds waits e else py_raise e))
           (\<lambda>oc. py_return (Some oc)))))"

end
