(* ===== verification/Stage_Journal.thy ===== *)
theory Stage_Journal
  imports Stage_Attempts Journal_Properties
begin

text \<open>
  What the methods of the stage runner keep while a result is collected, stated once for every property of
  the world that survives other tasks, calls of the journal and the bookkeeping of the runner
  (\<open>stage_invariant\<close>); and what they leave in the journal: an accepted result is what every reader sees from
  then on.
\<close>

section \<open>Bookkeeping\<close>

text \<open>
  The parts of an attempt and of the state that collecting a result never changes, and the attempts
  started so far.
\<close>

definition fixed_part :: "path stage_attempt \<Rightarrow> _" where
  "fixed_part a = (at_attempt_id a, at_stage_id a, at_attempt_number a, at_timeout a, at_request_id a,
     at_participant a, at_service_id a, at_queued_monotonic a)"

definition state_core :: "runner_state \<Rightarrow> _" where
  "state_core s = (st_template s, st_stage_position s, st_retry_counts s, st_attempt_numbers s)"

definition starts :: "stage_effect \<Rightarrow> bool" where
  "starts e = (case e of EffAttemptStarted s i n \<Rightarrow> True | _ \<Rightarrow> False)"

definition attempts_started :: "stage_world \<Rightarrow> nat" where
  "attempts_started w = length (filter starts (sw_log w))"

definition quiet :: "stage_world \<Rightarrow> stage_world \<Rightarrow> bool" where
  "quiet w v \<longleftrightarrow> sw_journal v = sw_journal w \<and> fixed_part (sw_attempt v) = fixed_part (sw_attempt w)
     \<and> state_core (sw_state v) = state_core (sw_state w) \<and> attempts_started v = attempts_started w
     \<and> (\<forall>i b. map_of (sw_baselines w) i = Some b \<longrightarrow> map_of (sw_baselines v) i = Some b)
     \<and> sw_ticks v = sw_ticks w"

definition observing :: "(path stage_attempt \<Rightarrow> path stage_attempt) \<Rightarrow> bool" where
  "observing f \<longleftrightarrow> (\<forall>a. fixed_part (f a) = fixed_part a)"

lemma quiet_attempt: "observing f \<Longrightarrow> quiet w (on_attempt f w)"
  by (simp add: quiet_def on_attempt_def observing_def state_core_def attempts_started_def Let_def)

lemma observing_updates [simp]:
  "observing (settle_attempt out)" "observing (observed_execution j)"
  "observing (\<lambda>a. a\<lparr>at_outcome := x\<rparr>)" "observing (\<lambda>a. a\<lparr>at_executor := y\<rparr>)"
  "observing (\<lambda>a. a\<lparr>at_process := z\<rparr>)" "observing (\<lambda>a. a\<lparr>at_process := z, at_executor := g a\<rparr>)"
  "observing (\<lambda>a. a\<lparr>at_executor := y, at_process := z, at_started_at := t\<rparr>)"
  "observing (\<lambda>a. (if b then observed_execution j a else a)\<lparr>at_executor := y\<rparr>)"
  "observing (\<lambda>a. a\<lparr>at_endpoint := p, at_settings := d\<rparr>)"
  by (auto simp: observing_def fixed_part_def settle_attempt_def observed_execution_def split: json.split)

lemma quiet_unknown: "quiet w (mark_unknown_attempt w)"
  by (simp add: mark_unknown_attempt_def quiet_attempt)

lemma quiet_note: "\<not> starts e \<Longrightarrow> quiet w (note_stage e w)"
  by (simp add: quiet_def note_stage_def attempts_started_def)

lemma silent_effects [simp]:
  "\<not> starts (EffStateSaved s)" "\<not> starts EffResourcesNotified" "\<not> starts (EffEmergencyStop q)"
  "\<not> starts (EffStartupDetails d)" "\<not> starts (EffLaunchWritten p)" "\<not> starts (EffPruned ps)"
  "\<not> starts (EffContextWritten p)" "starts (EffAttemptStarted x i n)"
  by (simp_all add: starts_def)

lemma quiet_baseline: "quiet w (keep_attempt_baseline env w)"
  by (auto simp: quiet_def keep_attempt_baseline_def Let_def has_key_def attempts_started_def)

lemma quiet_update:
  "quiet w (use_request q w)" "quiet w (close_connection w)"
  "quiet w (on_run (\<lambda>s. s\<lparr>st_checkpoint_id := c\<rparr>) w)"
  "quiet w (w\<lparr>sw_connected := b\<rparr>)" "quiet w (w\<lparr>sw_call := x\<rparr>)" "quiet w (w\<lparr>sw_unstarted := i\<rparr>)"
  "quiet w (w\<lparr>sw_process := b\<rparr>)" "quiet w (w\<lparr>sw_startup := t\<rparr>)" "quiet w (w\<lparr>sw_startup_results := rs\<rparr>)"
  "quiet w (w\<lparr>sw_call := x, sw_connected := b\<rparr>)" "quiet w (w\<lparr>sw_connected := b, sw_call := x\<rparr>)"
  "quiet w (w\<lparr>sw_startup := t, sw_call := x\<rparr>)" "quiet w (w\<lparr>sw_call := x, sw_unstarted := i\<rparr>)"
  "quiet w (if cond then w else w\<lparr>sw_call := x\<rparr>)"
  by (simp_all add: quiet_def use_request_def close_connection_def state_core_def attempts_started_def)

lemma quiet_trans: "quiet u v \<Longrightarrow> quiet v w \<Longrightarrow> quiet u w"
  by (auto simp: quiet_def)

lemmas quiet_steps = quiet_update quiet_unknown quiet_baseline quiet_attempt quiet_note

section \<open>Journals moving forward\<close>

lemma later_refl [simp]: "later st s s"
  unfolding later_def by (rule exI [of _ "[]"]) simp

lemma later_step: "later st s (journal_step st c s)"
  unfolding later_def by (rule exI [of _ "[c]"]) simp

lemma later_trans: "later st s t \<Longrightarrow> later st t u \<Longrightarrow> later st s u"
  unfolding later_def by (metis fold_append comp_apply)

lemma later_calls:
  "later st s (snd (append_store st replay e s))" "later st s (snd (append_command_result st e s))"
  "later st s (snd (read_command_result q s))"
  using later_step [of st s "AppendEvent replay e"] later_step [of st s "AppendResult e"]
    later_step [of st s "ReadResult q"] by simp_all

lemma read_journal_later: "later st s (snd (read_journal_result q expected accepted s))"
proof -
  have "snd (read_journal_result q expected accepted s) = snd (read_command_result q s)"
    by (simp add: read_journal_result_def split: prod.split sum.split option.split)
  then show ?thesis by (simp add: later_calls)
qed

section \<open>Invariants of the methods\<close>

lemma keeps_option_case [keeps_rules]:
  "(x = None \<Longrightarrow> keeps I m) \<Longrightarrow> (\<And>y. x = Some y \<Longrightarrow> keeps I (f y))
   \<Longrightarrow> keeps I (case x of None \<Rightarrow> m | Some y \<Rightarrow> f y)"
  by (cases x) simp_all

lemma keeps_prod_case [keeps_rules]: "(\<And>a b. x = (a, b) \<Longrightarrow> keeps I (f a b)) \<Longrightarrow> keeps I (case x of (a, b) \<Rightarrow> f a b)"
  by (cases x) simp

lemma keeps_task_case [keeps_rules]:
  "keeps I m \<Longrightarrow> (\<And>y. keeps I (f y)) \<Longrightarrow> (\<And>e. keeps I (g e))
   \<Longrightarrow> keeps I (case x of TaskRunning \<Rightarrow> m | TaskFinished y \<Rightarrow> f y | TaskRaised e \<Rightarrow> g e)"
  by (cases x) simp_all

lemma keeps_bool_case [keeps_rules]:
  "keeps I m \<Longrightarrow> keeps I n \<Longrightarrow> keeps I (case b of True \<Rightarrow> m | False \<Rightarrow> n)"
  by (cases b) simp_all

lemma holds_option_case:
  "(x = None \<Longrightarrow> holds P m Q E) \<Longrightarrow> (\<And>y. x = Some y \<Longrightarrow> holds P (f y) Q E)
   \<Longrightarrow> holds P (case x of None \<Rightarrow> m | Some y \<Rightarrow> f y) Q E"
  by (cases x) simp_all

lemma holds_prod_case: "(\<And>a b. x = (a, b) \<Longrightarrow> holds P (f a b) Q E) \<Longrightarrow> holds P (case x of (a, b) \<Rightarrow> f a b) Q E"
  by (cases x) simp

locale stage_invariant =
  fixes env :: stage_env and I :: "stage_world \<Rightarrow> bool"
  assumes others_keep: "I w \<Longrightarrow> I (others env w)"
    and calls_keep: "I w \<Longrightarrow> later (sge_settings env) (sw_journal w) j \<Longrightarrow> I (w\<lparr>sw_journal := j\<rparr>)"
    and quiet_keep: "I w \<Longrightarrow> quiet w v \<Longrightarrow> I v"
begin

lemma modify_keep [keeps_rules]: "(\<And>w. quiet w (f w)) \<Longrightarrow> keeps I (py_modify f)"
  by (rule keeps_modify) (rule quiet_keep)

lemma yield_keep [keeps_rules]: "keeps I (yield_others env)"
  unfolding yield_others_def by (intro keeps_modify others_keep)

lemma await_keep [keeps_rules]: "keeps I (stage_await env x)" "keeps I (stage_await_unit env y)"
  unfolding stage_await_def stage_await_unit_def by (intro keeps_rules)+

lemma call_keep:
  assumes "\<And>w j. later (sge_settings env) j (snd (call w j))"
  shows "keeps I (world_call env call)"
proof (rule keepsI)
  fix w assume "I w"
  then have "I (others env w)" by (rule others_keep)
  moreover obtain r j where call: "call (others env w) (sw_journal (others env w)) = (r, j)"
    by (cases "call (others env w) (sw_journal (others env w))")
  moreover from call have "later (sge_settings env) (sw_journal (others env w)) j"
    using assms [of "sw_journal (others env w)" "others env w"] by simp
  ultimately have "I ((others env w)\<lparr>sw_journal := j\<rparr>)" by (simp add: calls_keep)
  then show "I (snd (world_call env call w))"
    using call by (simp add: world_call_def Let_def others_keep)
qed

lemma read_keep [keeps_rules]: "keeps I (journal_call env (\<lambda>n. read_command_result q))"
  by (rule call_keep) (simp add: later_calls)

lemma read_own_keep [keeps_rules]: "keeps I (read_own_result env)"
  unfolding read_own_result_def by (intro keeps_rules call_keep) (simp add: read_journal_later)

lemma context_keep [keeps_rules]: "keeps I current_context"
  unfolding current_context_def by (intro keeps_rules)

lemma write_keep [keeps_rules]:
  "keeps I (write_event env t d c)" "keeps I (write_stage_event env t d)" "keeps I (write_error env e k c)"
  unfolding write_stage_event_def write_error_def write_event_def
  by (intro keeps_rules call_keep; simp add: later_calls)+

lemma record_keep [keeps_rules]: "keeps I (record_command_result env c q out r)"
  unfolding record_command_result_def by (intro keeps_rules call_keep) (simp add: later_calls)

lemma save_keep [keeps_rules]: "keeps I (save_stage_state env checkpoint)"
  unfolding save_stage_state_def journal_checkpoint_def publish_state_def
  by (intro keeps_rules modify_keep quiet_steps; simp)

lemma observe_keep [keeps_rules]: "keeps I (observe_execution r)" "keeps I finish_status"
  unfolding observe_execution_def finish_status_def by (intro keeps_rules modify_keep quiet_steps; simp)+

lemma normalize_keep [keeps_rules]: "keeps I (normalize_stage_response env r out)"
  unfolding normalize_stage_response_def by (intro keeps_rules)

lemma accept_keep [keeps_rules]: "keeps I (accept_result env response out)"
  unfolding accept_result_def by (intro keeps_rules modify_keep quiet_steps; simp)

lemma connect_keep [keeps_rules]: "keeps I (connect env)"
  unfolding connect_def by (intro keeps_rules modify_keep quiet_steps)

lemma exchange_keep [keeps_rules]: "keeps I (interrupt_exchange env reason)"
  unfolding interrupt_exchange_def interrupt_intent_def Let_def
  by (intro keeps_rules modify_keep quiet_steps quiet_keep [OF _ quiet_update(2)]; simp)

lemma interrupt_keep [keeps_rules]: "keeps I (interrupt env reason)"
  unfolding interrupt_def accept_cancellation_def interrupt_service_call_def interrupt_executor_def
    interrupt_round_def process_evidence_def read_process_record_def
  by (intro keeps_rules modify_keep quiet_steps; simp)

lemma deadline_keep [keeps_rules]: "keeps I (current_deadline env)"
  unfolding current_deadline_def by (intro keeps_rules modify_keep quiet_steps)

lemma expire_keep [keeps_rules]: "keeps I (expire_attempt env b)"
  unfolding expire_attempt_def by (intro keeps_rules modify_keep quiet_steps)

lemma adopt_keep [keeps_rules]: "keeps I (adopt_result env r)"
  unfolding adopt_result_def adopt_record_def Let_def by (intro keeps_rules modify_keep quiet_steps; simp)

lemma work_keep [keeps_rules]: "keeps I (observe_work env deadline)"
  unfolding observe_work_def observe_service_def observe_call_def observe_executor_def observe_status_def
    reconnect_executor_def result_or_deadline_def Let_def
  by (intro keeps_rules modify_keep quiet_steps; simp)

lemma round_keep [keeps_rules]: "keeps I (collect_round env)"
  unfolding collect_round_def by (intro keeps_rules)

lemma collect_keep [keeps_rules]: "keeps I (collect_result env)"
  unfolding collect_result_def by (intro keeps_rules quiet_keep [OF _ quiet_update(10)])

end

section \<open>The journal of the stage runner\<close>

text \<open>
  What is assumed of the other tasks and participants: they use the same journal, through its calls, and
  leave the attempt its request.
\<close>

definition peers_use_journal :: "stage_env \<Rightarrow> bool" where
  "peers_use_journal env \<longleftrightarrow>
     (\<forall>n w. later (sge_settings env) (sw_journal w) (sw_journal (sge_others env n w))
            \<and> at_request_id (sw_attempt (sge_others env n w)) = at_request_id (sw_attempt w))"

definition since :: "stage_env \<Rightarrow> stage_world \<Rightarrow> stage_world \<Rightarrow> bool" where
  "since env u w \<longleftrightarrow>
     (peers_use_journal env \<longrightarrow> later (sge_settings env) (sw_journal u) (sw_journal w)
        \<and> at_request_id (sw_attempt w) = at_request_id (sw_attempt u))"

lemma since_refl [simp]: "since env w w"
  by (simp add: since_def)

lemma since_trans: "since env u v \<Longrightarrow> since env v w \<Longrightarrow> since env u w"
  by (auto simp: since_def intro: later_trans)

lemma since_others: "since env u w \<Longrightarrow> since env u (others env w)"
  by (auto simp: since_def others_def peers_use_journal_def intro: later_trans)

interpretation forward: stage_invariant env "since env u" for env u
proof unfold_locales
  show "since env u (others env w)" if "since env u w" for w using that by (rule since_others)
  show "since env u (w\<lparr>sw_journal := j\<rparr>)"
    if "since env u w" "later (sge_settings env) (sw_journal w) j" for w j
    using that by (auto simp: since_def intro: later_trans)
  show "since env u v" if "since env u w" "quiet w v" for w v
    using that by (auto simp: since_def quiet_def fixed_part_def)
qed

text \<open>The request at hand, on a journal reached by calls; and the outcome the runner reported for it.\<close>

definition at_request :: "stage_env \<Rightarrow> string \<Rightarrow> stage_world \<Rightarrow> bool" where
  "at_request env q w \<longleftrightarrow>
     (peers_use_journal env \<longrightarrow> journal_reached (sge_settings env) (sw_journal w) \<and> at_request_id (sw_attempt w) = q)"

definition runner_reported :: "stage_env \<Rightarrow> string \<Rightarrow> outcome_key \<Rightarrow> stage_world \<Rightarrow> bool" where
  "runner_reported env q k w \<longleftrightarrow> at_request env q w
     \<and> (peers_use_journal env \<longrightarrow> reported (store_register (sw_journal w)) q RunnerAuthor = Some k)"

lemma at_request_since: "at_request env q u \<Longrightarrow> since env u w \<Longrightarrow> at_request env q w"
  by (auto simp: at_request_def since_def intro: reached_later)

lemma reported_later:
  assumes "journal_reached st s" "later st s t" "reported (store_register s) q a = Some k"
  shows "reported (store_register t) q a = Some k"
proof -
  obtain cs where "t = fold (journal_step st) cs s" using assms(2) by (auto simp: later_def)
  then show ?thesis using journal_book.kept_reports [OF reached_ok [OF assms(1)] assms(3), of st cs] by simp
qed

lemma runner_reported_since:
  assumes "runner_reported env q k u" "since env u w"
  shows "runner_reported env q k w"
proof -
  have "at_request env q w" using assms at_request_since by (auto simp: runner_reported_def)
  moreover have "reported (store_register (sw_journal w)) q RunnerAuthor = Some k" if "peers_use_journal env"
    using assms that reported_later unfolding runner_reported_def at_request_def since_def by blast
  ultimately show ?thesis by (simp add: runner_reported_def)
qed

interpretation at_request: stage_invariant env "at_request env q" for env q
  by unfold_locales (blast intro: at_request_since forward.others_keep forward.calls_keep forward.quiet_keep since_refl)+

interpretation runner_reported: stage_invariant env "runner_reported env q k" for env q k
  by unfold_locales
    (blast intro: runner_reported_since forward.others_keep forward.calls_keep forward.quiet_keep since_refl)+

lemma holds_kept: "keeps I m \<Longrightarrow> holds I m (\<lambda>x. I) (\<lambda>s. True)"
  by (rule holds_weaken [OF holds_keeps]) simp_all

lemma result_event_data:
  "ev_data (result_event env n c q out r) = ResultEvent \<lparr>ob_request = q, ob_author = RunnerAuthor, ob_outcome = out,
     ob_response = r, ob_ignored = None, ob_supersedes = []\<rparr>"
  by (simp add: result_event_def stamped_event_def)

lemma recorded_result:
  assumes "at_request env q w" "record_command_result env c (at_request_id (sw_attempt w)) out r w = (Inr i, v)"
  shows "runner_reported env q (out, dumps_sorted (JObj r)) v"
proof (cases "peers_use_journal env")
  case peers: True
  let ?w = "others env w"
  have w: "at_request env q ?w" using assms(1) by (rule at_request.others_keep)
  obtain n k j where call: "append_command_result (sge_settings env) (result_event env n c q out r) (sw_journal ?w) = (Inr k, j)"
    and v: "v = others env (?w\<lparr>sw_journal := j\<rparr>)"
    using assms peers
    by (auto simp: record_command_result_def world_call_def at_request_def Let_def split: if_splits prod.splits)
  have reached: "journal_reached (sge_settings env) (sw_journal ?w)" using w peers by (simp add: at_request_def)
  note report = stored_reports [OF reached result_event_data call]
  have "reported (store_register j) q RunnerAuthor = Some (out, dumps_sorted (JObj r))"
    using report_known [OF report(1)] by (simp add: response_key_def)
  moreover have "at_request env q (?w\<lparr>sw_journal := j\<rparr>)" using w report(2) by (simp add: at_request_def)
  ultimately have "runner_reported env q (out, dumps_sorted (JObj r)) (?w\<lparr>sw_journal := j\<rparr>)"
    by (simp add: runner_reported_def)
  then show ?thesis unfolding v by (rule runner_reported.others_keep)
qed (use assms in \<open>simp add: runner_reported_def at_request_def\<close>)

text \<open>A result stands for an outcome the runner reported.\<close>

definition stands :: "stage_env \<Rightarrow> string \<Rightarrow> stage_result \<Rightarrow> stage_world \<Rightarrow> bool" where
  "stands env q x w \<longleftrightarrow> (\<exists>out r. runner_reported env q (out, dumps_sorted (JObj r)) w
     \<and> (r = dump_stage_result x \<or> parse_stage_result (JObj r) = Inr x))"

lemma stands_kept: "(\<And>k. keeps (runner_reported env q k) m) \<Longrightarrow> keeps (stands env q x) m"
  unfolding keeps_def stands_def by blast

lemma recorded_stands:
  "holds (at_request env q)
     (py_bind (py_read (\<lambda>w. record_command_result env c (at_request_id (sw_attempt w)) out (dump_stage_result x)))
        (\<lambda>i. py_return ())) (\<lambda>u. stands env q x) (\<lambda>w. True)"
  unfolding holds_def stands_def using recorded_result
  by (auto simp: py_bind_def split: prod.splits sum.splits) blast

lemma accept_stands: "holds (at_request env q) (accept_result env response out) (stands env q) (\<lambda>w. True)"
proof -
  have rest: "holds (stands env q result)
      (py_then (py_modify (on_attempt (settle_attempt out)))
       (py_then (observe_execution result)
       (py_then finish_status
       (py_then (save_stage_state env True)
       (py_then (py_modify (note_stage EffResourcesNotified))
         (py_return result)))))) (stands env q) (\<lambda>w. True)" for result out
    by (intro holds_then [where R = "stands env q result"] holds_kept stands_kept runner_reported.modify_keep
        quiet_steps runner_reported.observe_keep runner_reported.save_keep holds_return) simp_all
  show ?thesis
    unfolding accept_result_def
    by (intro holds_bind [where R = "\<lambda>x. at_request env q"] holds_then [where R = "at_request env q"]
        holds_then [OF recorded_stands rest] holds_kept at_request.normalize_keep keeps_lift
        holds_prod_case at_request.modify_keep quiet_steps at_request.context_keep)
qed

section \<open>Collecting\<close>

lemma read_runner_report:
  assumes "read_command_result q s = (Inr (Some c), t)" "cr_author c = RunnerAuthor"
  shows "reported (store_register s) q RunnerAuthor = Some (response_key (cr_result c))"
proof -
  have run: "or_broken (res_bind (load_result (jo_journal s) q) (\<lambda>state. case state of
      None \<Rightarrow> Inr None | Some l \<Rightarrow> res_bind (command_result_of q l) (\<lambda>x. Inr (Some x)))) = Inr (Some c)"
    using assms(1) by (auto simp: read_command_result_def end_read_def split: if_splits sum.splits abort.splits)
  then obtain l where l: "load_result (jo_journal s) q = Inr (Some l)" "command_result_of q l = Inr c"
    by (cases "load_result (jo_journal s) q") (auto simp: or_broken_def split: option.splits sum.splits if_splits)
  then obtain x where "lr_of l RunnerAuthor = Some x" "cr_result c = as_result x"
    using assms(2) by (auto simp: command_result_of_def split: option.splits)
  then show ?thesis using register_load [OF l(1)] by (simp add: store_register_def)
qed

lemma read_own_report:
  "holds (at_request env q) (read_own_result env)
     (\<lambda>found w. at_request env q w \<and> (case found of None \<Rightarrow> True | Some c \<Rightarrow>
        cr_author c = RunnerAuthor \<longrightarrow> runner_reported env q (response_key (cr_result c)) w)) (\<lambda>w. True)"
proof -
  have "at_request env q v \<and> (case found of None \<Rightarrow> True | Some c \<Rightarrow>
      cr_author c = RunnerAuthor \<longrightarrow> runner_reported env q (response_key (cr_result c)) v)"
    if w: "at_request env q w" and run: "read_own_result env w = (Inr found, v)" for found w v
  proof (cases "peers_use_journal env")
    case peers: True
    let ?w = "others env w"
    obtain expected j where read: "read_journal_result q expected False (sw_journal ?w) = (Inr found, j)"
      and v: "v = others env (?w\<lparr>sw_journal := j\<rparr>)"
      using w run peers
      by (auto simp: read_own_result_def world_call_def at_request_def Let_def py_bind_def split: sum.splits prod.splits)
    have later: "later (sge_settings env) (sw_journal ?w) j"
      using read_journal_later [of "sge_settings env" "sw_journal ?w" q expected False] read by simp
    have at: "at_request env q ?w" using w by (rule at_request.others_keep)
    then have v_at: "at_request env q v"
      unfolding v by (rule at_request.others_keep [OF at_request.calls_keep [OF _ later]])
    have "runner_reported env q (response_key (cr_result c)) v"
      if some: "found = Some c" and author: "cr_author c = RunnerAuthor" for c
    proof -
      obtain t where "read_command_result q (sw_journal ?w) = (Inr (Some c), t)"
        using read unfolding some
        by (auto simp: read_journal_result_def split: prod.splits sum.splits option.splits if_splits)
      from read_runner_report [OF this author] at have "runner_reported env q (response_key (cr_result c)) ?w"
        by (simp add: runner_reported_def)
      then show ?thesis unfolding v by (rule runner_reported.others_keep [OF runner_reported.calls_keep [OF _ later]])
    qed
    then show ?thesis using v_at by (simp split: option.split)
  qed (auto simp: at_request_def runner_reported_def split: option.split)
  then show ?thesis unfolding holds_def by blast
qed

lemma adopt_stands:
  "holds (runner_reported env q (response_key (cr_result c))) (adopt_result env c) (stands env q) (\<lambda>w. True)"
  unfolding adopt_result_def adopt_record_def Let_def
  by (intro holds_then [where R = "runner_reported env q (response_key (cr_result c))"] holds_kept keeps_rules
      runner_reported.modify_keep runner_reported.interrupt_keep quiet_steps holds_lift
      | simp add: stands_def response_key_def | blast)+

lemma expire_stands: "holds (at_request env q) (expire_attempt env b) (stands env q) (\<lambda>w. True)"
  unfolding expire_attempt_def
  by (intro holds_bind [OF accept_stands] holds_then [OF holds_kept] stands_kept keeps_rules
      runner_reported.await_keep runner_reported.interrupt_keep runner_reported.modify_keep quiet_steps holds_return)


definition round_stands :: "stage_env \<Rightarrow> string \<Rightarrow> stage_result option \<Rightarrow> stage_world \<Rightarrow> bool" where
  "round_stands env q r w = (case r of None \<Rightarrow> at_request env q w | Some x \<Rightarrow> stands env q x w)"

lemma some_stands:
  "holds P m (stands env q) (\<lambda>w. True)
   \<Longrightarrow> holds P (py_bind m (\<lambda>r. py_return (Some r))) (round_stands env q) (\<lambda>w. True)"
  by (erule holds_bind, rule holds_return) (simp add: round_stands_def)

lemma none_stands: "holds (at_request env q) (py_return None) (round_stands env q) (\<lambda>w. True)"
  by (rule holds_return) (simp add: round_stands_def)

lemma holds_task_case:
  "holds P m Q E \<Longrightarrow> (\<And>y. holds P (f y) Q E) \<Longrightarrow> (\<And>e. holds P (g e) Q E)
   \<Longrightarrow> holds P (case x of TaskRunning \<Rightarrow> m | TaskFinished y \<Rightarrow> f y | TaskRaised e \<Rightarrow> g e) Q E"
  by (cases x) simp_all

text \<open>Reading the world again does not help a triple that holds without.\<close>

lemma holds_reread: "(\<And>r. holds P (f r) Q E) \<Longrightarrow> holds P (py_read f) Q E"
  unfolding holds_def py_read_def by blast

lemma raised_anywhere: "holds P (py_raise e) Q (\<lambda>w. True)"
  by (simp add: holds_raise)

lemmas round_rules = holds_reread holds_option_case holds_task_case holds_if none_stands raised_anywhere
  some_stands [OF accept_stands] holds_bind [OF holds_kept [OF keeps_lift]]

lemma observe_call_stands: "holds (at_request env q) (observe_call env i) (round_stands env q) (\<lambda>w. True)"
  unfolding observe_call_def
  by (intro holds_then [OF holds_kept] at_request.modify_keep quiet_steps round_rules) simp

lemma observe_service_stands: "holds (at_request env q) (observe_service env sid) (round_stands env q) (\<lambda>w. True)"
  unfolding observe_service_def by (intro round_rules observe_call_stands)

lemma executor_keep: "keeps (at_request env q) (observe_executor env deadline)"
  unfolding observe_executor_def observe_status_def reconnect_executor_def result_or_deadline_def Let_def
  by (intro keeps_rules at_request.modify_keep at_request.yield_keep at_request.connect_keep at_request.await_keep
      at_request.save_keep at_request.read_keep quiet_steps; simp)

lemma observe_work_stands: "holds (at_request env q) (observe_work env deadline) (round_stands env q) (\<lambda>w. True)"
proof -
  have inner: "holds (at_request env q)
      (case s of
         Some sid \<Rightarrow> py_bind (observe_service env sid) (\<lambda>r. py_return (r, False))
       | None \<Rightarrow> py_bind (observe_executor env deadline) (\<lambda>recheck. py_return (None, recheck)))
      (\<lambda>x. round_stands env q (fst x)) (\<lambda>w. True)" for s
    by (intro holds_option_case holds_bind [OF observe_service_stands] holds_bind [OF holds_kept [OF executor_keep]]
        holds_return) (simp_all add: round_stands_def)
  have outer: "holds (round_stands env q r)
      (if r = None \<and> \<not> recheck then py_then (yield_others env) (py_return None) else py_return r)
      (round_stands env q) (\<lambda>w. True)" for r recheck
  proof (cases "r = None \<and> \<not> recheck")
    case True
    have "holds (at_request env q) (py_then (yield_others env) (py_return None)) (round_stands env q) (\<lambda>w. True)"
      by (intro holds_then [OF holds_kept] at_request.yield_keep none_stands)
    moreover have "round_stands env q r = at_request env q" using True by (simp add: round_stands_def fun_eq_iff)
    ultimately show ?thesis using True by simp
  next
    case False
    then show ?thesis by (simp only: if_False) (simp add: holds_return)
  qed
  show ?thesis
    unfolding observe_work_def
    by (intro holds_reread holds_bind [OF inner] holds_prod_case) (use outer in fastforce)
qed

lemma round_stands: "holds (at_request env q) (collect_round env) (round_stands env q) (\<lambda>w. True)"
proof -
  let ?found = "\<lambda>found w. at_request env q w \<and> (case found of None \<Rightarrow> True | Some c \<Rightarrow>
        cr_author c = RunnerAuthor \<longrightarrow> runner_reported env q (response_key (cr_result c)) w)"
  have adopt: "holds (?found found) (adopt_result env (the found)) (stands env q) (\<lambda>w. True)"
    if "map_option cr_author found = Some RunnerAuthor" for found
    using that by (auto intro: holds_weaken [OF adopt_stands])
  have work: "holds (?found found) m (round_stands env q) (\<lambda>w. True)"
    if "holds (at_request env q) m (round_stands env q) (\<lambda>w. True)" for found m
    using that by (rule holds_weaken) simp_all
  show ?thesis
    unfolding collect_round_def
    by (intro holds_bind [OF holds_kept] at_request.deadline_keep holds_bind [OF read_own_report] holds_reread holds_if
        some_stands [OF adopt] work holds_option_case observe_work_stands some_stands [OF accept_stands]
        some_stands [OF expire_stands]) auto
qed

lemma collect_stands: "holds (at_request env q) (collect_result env) (stands env q) (\<lambda>w. True)"
proof -
  have "holds (at_request env q) (collect_round env)
      (\<lambda>r w. case r of None \<Rightarrow> at_request env q w | Some x \<Rightarrow> stands env q x w) (\<lambda>w. True)"
    using round_stands by (simp add: round_stands_def [abs_def])
  then have "holds (at_request env q) (py_until (sge_polls env) (collect_round env)) (stands env q) (\<lambda>w. True)"
    by (rule holds_until) simp
  moreover have "keeps (stands env q x) (py_modify (\<lambda>w. w\<lparr>sw_call := None, sw_connected := False\<rparr>))" for x
    by (rule stands_kept) (rule runner_reported.modify_keep [OF quiet_update(10)])
  then have "stands env q x (w\<lparr>sw_call := None, sw_connected := False\<rparr>)" if "stands env q x w" for x w
    using that by (simp add: keeps_def)
  ultimately show ?thesis
    unfolding collect_result_def by (intro holds_finally) (auto elim: holds_weaken)
qed

end
