(* ===== verification/Stage_Deadlines.thy ===== *)
theory Stage_Deadlines
  imports Stage_Journal
begin

text \<open>
  Time in the stage runner: a result that is collected after the deadline is a timeout, and the loops of
  the runner end.
\<close>

section \<open>Results after the deadline\<close>

definition timeout_result :: stage_result where
  "timeout_result = \<lparr>or_result = FailResult, or_data = JObj [(''reason'', JStr ''timeout'')], or_error = None,
     or_execution = None, or_extra = []\<rparr>"

lemma timeout_parsed: "parse_stage_result (JObj (reason_response ''timeout'')) = Inr timeout_result"
  by code_simp

lemma timeout_dumped: "dump_stage_result timeout_result = reason_response ''timeout''"
  by code_simp

text \<open>
  The deadline in force at a suspension, for the attempt and the baseline at hand, and that it has passed for
  good.
\<close>

definition deadline_at :: "stage_env \<Rightarrow> path stage_attempt \<Rightarrow> rat \<Rightarrow> nat \<Rightarrow> rat option result" where
  "deadline_at env a b n = attempt_deadline (sge_recovered env n - b) a"

definition clock_monotone :: "stage_env \<Rightarrow> bool" where
  "clock_monotone env \<longleftrightarrow> (\<forall>m n. m \<le> n \<longrightarrow> sge_now env m \<le> sge_now env n)"

definition overdue :: "stage_env \<Rightarrow> stage_world \<Rightarrow> bool" where
  "overdue env w \<longleftrightarrow>
     (\<exists>b. map_of (sw_baselines w) (at_attempt_id (sw_attempt w)) = Some b
        \<and> (\<forall>n \<ge> sw_ticks w. \<exists>d. deadline_at env (sw_attempt w) b n = Inr (Some d) \<and> d \<le> sge_now env n))"

text \<open>Peers that leave the attempt's plan alone and do not report for the runner.\<close>

definition peers_keep_attempt :: "stage_env \<Rightarrow> bool" where
  "peers_keep_attempt env \<longleftrightarrow>
     (\<forall>n w. fixed_part (sw_attempt (sge_others env n w)) = fixed_part (sw_attempt w)
            \<and> sw_baselines (sge_others env n w) = sw_baselines w)"

definition peers_not_runner :: "stage_env \<Rightarrow> string \<Rightarrow> bool" where
  "peers_not_runner env q \<longleftrightarrow>
     (\<forall>n w. reported (store_register (sw_journal w)) q RunnerAuthor = None
        \<longrightarrow> reported (store_register (sw_journal (sge_others env n w))) q RunnerAuthor = None)"

definition late_peers :: "stage_env \<Rightarrow> string \<Rightarrow> bool" where
  "late_peers env q \<longleftrightarrow> peers_use_journal env \<and> peers_keep_attempt env \<and> peers_not_runner env q \<and> clock_monotone env"

definition waiting_late :: "stage_env \<Rightarrow> string \<Rightarrow> stage_world \<Rightarrow> bool" where
  "waiting_late env q w \<longleftrightarrow> at_request env q w \<and> late_peers env q \<and> overdue env w
     \<and> reported (store_register (sw_journal w)) q RunnerAuthor = None"

lemma attempt_deadline_fixed: "fixed_part b = fixed_part a \<Longrightarrow> attempt_deadline r b = attempt_deadline r a"
  by (simp add: fixed_part_def attempt_deadline_def split: option.split)

lemma overdue_forward:
  assumes "overdue env w" "fixed_part (sw_attempt v) = fixed_part (sw_attempt w)"
    and "sw_baselines v = sw_baselines w" "sw_ticks w \<le> sw_ticks v"
  shows "overdue env v"
proof -
  have "at_attempt_id (sw_attempt v) = at_attempt_id (sw_attempt w)" using assms(2) by (simp add: fixed_part_def)
  moreover have "deadline_at env (sw_attempt v) = deadline_at env (sw_attempt w)"
    using attempt_deadline_fixed [OF assms(2)] by (simp add: deadline_at_def fun_eq_iff)
  ultimately show ?thesis using assms(1,3,4) unfolding overdue_def by (auto intro: order_trans)
qed

lemma waiting_late_others: "waiting_late env q w \<Longrightarrow> waiting_late env q (others env w)"
  using at_request.others_keep [of env q w] overdue_forward [of env w "others env w"]
  by (simp add: waiting_late_def late_peers_def others_def peers_keep_attempt_def peers_not_runner_def)

lemma waiting_late_read:
  "waiting_late env q w \<Longrightarrow> sw_journal w = j0 \<Longrightarrow> jo_journal j = jo_journal j0 \<Longrightarrow> later (sge_settings env) j0 j
   \<Longrightarrow> waiting_late env q (w\<lparr>sw_journal := j\<rparr>)"
  using at_request.calls_keep [of env q w j] overdue_forward [of env w "w\<lparr>sw_journal := j\<rparr>"]
  by (simp add: waiting_late_def store_register_def)

lemma late_deadline:
  "holds (waiting_late env q) (current_deadline env)
     (\<lambda>d w. waiting_late env q w \<and> (\<forall>n \<ge> sw_ticks w. deadline_passed (sge_now env n) d)) (\<lambda>w. True)"
proof -
  have "waiting_late env q v \<and> (\<forall>n \<ge> sw_ticks v. deadline_passed (sge_now env n) d)"
    if w: "waiting_late env q w" and run: "current_deadline env w = (Inr d, v)" for w d v
  proof -
    obtain b where b: "map_of (sw_baselines w) (at_attempt_id (sw_attempt w)) = Some b"
      and late: "\<forall>n \<ge> sw_ticks w. \<exists>d. deadline_at env (sw_attempt w) b n = Inr (Some d) \<and> d \<le> sge_now env n"
      using w by (auto simp: waiting_late_def overdue_def)
    have "keep_attempt_baseline env w = w" using b by (simp add: keep_attempt_baseline_def has_key_def)
    then have v: "v = w" and d: "deadline_at env (sw_attempt w) b (sw_ticks w) = Inr d"
      using run b by (auto simp: current_deadline_def py_then_def py_bind_def deadline_at_def attempt_recovered_def
          dict_get_def Let_def)
    then obtain x where "d = Some x" "x \<le> sge_now env (sw_ticks w)" using late by fastforce
    then have "deadline_passed (sge_now env n) d" if "sw_ticks w \<le> n" for n
      using w that by (auto simp: deadline_passed_def waiting_late_def late_peers_def clock_monotone_def intro: order_trans)
    then show ?thesis using w v by simp
  qed
  then show ?thesis unfolding holds_def by blast
qed

lemma read_journal_tables: "jo_journal (snd (read_journal_result q expected accepted s)) = jo_journal s"
proof -
  have "snd (read_journal_result q expected accepted s) = snd (read_command_result q s)"
    by (simp add: read_journal_result_def split: prod.split sum.split option.split)
  then show ?thesis by simp
qed

lemma late_read:
  "holds (\<lambda>w. waiting_late env q w \<and> (\<forall>n \<ge> sw_ticks w. deadline_passed (sge_now env n) d)) (read_own_result env)
     (\<lambda>found w. waiting_late env q w \<and> (\<forall>n \<ge> sw_ticks w. deadline_passed (sge_now env n) d)
        \<and> map_option cr_author found \<noteq> Some RunnerAuthor) (\<lambda>w. True)"
proof -
  have "waiting_late env q v \<and> sw_ticks w \<le> sw_ticks v \<and> map_option cr_author found \<noteq> Some RunnerAuthor"
    if w: "waiting_late env q w" and run: "read_own_result env w = (Inr found, v)" for w found v
  proof -
    let ?w = "others env w"
    have w': "waiting_late env q ?w" using w by (rule waiting_late_others)
    obtain expected j where read: "read_journal_result q expected False (sw_journal ?w) = (Inr found, j)"
      and v: "v = others env (?w\<lparr>sw_journal := j\<rparr>)"
      using w run
      by (auto simp: read_own_result_def world_call_def waiting_late_def late_peers_def at_request_def Let_def
          py_bind_def split: sum.splits prod.splits)
    have "waiting_late env q (?w\<lparr>sw_journal := j\<rparr>)"
      using read_journal_tables [of q expected False "sw_journal ?w"] read_journal_later [of _ "sw_journal ?w" q expected False]
        read by (intro waiting_late_read [OF w' refl]) simp_all
    then have "waiting_late env q v" unfolding v by (rule waiting_late_others)
    moreover have "cr_author c \<noteq> RunnerAuthor" if some: "found = Some c" for c
    proof
      assume author: "cr_author c = RunnerAuthor"
      obtain t where "read_command_result q (sw_journal ?w) = (Inr (Some c), t)"
        using read unfolding some
        by (auto simp: read_journal_result_def split: prod.splits sum.splits option.splits if_splits)
      from read_runner_report [OF this author] show False using w' by (simp add: waiting_late_def)
    qed
    moreover have "sw_ticks w \<le> sw_ticks v" by (simp add: v others_def)
    ultimately show ?thesis by (cases found) auto
  qed
  then show ?thesis unfolding holds_def by (meson order_trans)
qed

definition timed_out :: "stage_env \<Rightarrow> string \<Rightarrow> stage_result \<Rightarrow> stage_world \<Rightarrow> bool" where
  "timed_out env q x w \<longleftrightarrow> x = timeout_result
     \<and> runner_reported env q (TimedOut, dumps_sorted (JObj (reason_response ''timeout''))) w"

lemma timed_out_kept: "(\<And>k. keeps (runner_reported env q k) m) \<Longrightarrow> keeps (timed_out env q x) m"
  unfolding keeps_def timed_out_def by blast

lemma py_bind_lift: "py_bind (py_lift (Inr x)) f = f x"
  by (simp add: fun_eq_iff py_bind_def)

lemma holds_known: "holds P (f c) Q E \<Longrightarrow> holds (\<lambda>s. P s \<and> p = c) (f p) Q E"
  unfolding holds_def by blast

lemma accept_timeout:
  "holds (at_request env q) (accept_result env (reason_response ''timeout'') TimedOut) (timed_out env q) (\<lambda>w. True)"
proof -
  have normal: "holds (at_request env q) (normalize_stage_response env timeout_result TimedOut)
      (\<lambda>p w. at_request env q w \<and> p = (timeout_result, TimedOut)) (\<lambda>w. True)"
  proof -
    have "p = (timeout_result, TimedOut)" if "normalize_stage_response env timeout_result TimedOut w = (Inr p, v)" for p w v
      using that
      by (auto simp: normalize_stage_response_def py_bind_def normalize_accepted_response_def timeout_result_def
          outcome_text_def name_in_def outcome_names_def read_outcome_def py_then_def
          split: sum.splits prod.splits dag_node.splits option.splits)
    moreover have "keeps (at_request env q) (normalize_stage_response env timeout_result TimedOut)"
      by (rule at_request.normalize_keep)
    ultimately show ?thesis unfolding holds_def keeps_def by (metis snd_conv)
  qed
  have recorded: "holds (at_request env q)
     (py_bind (py_read (\<lambda>w. record_command_result env c (at_request_id (sw_attempt w)) TimedOut
        (reason_response ''timeout''))) (\<lambda>i. py_return ())) (\<lambda>u. timed_out env q timeout_result) (\<lambda>w. True)" for c
    unfolding holds_def timed_out_def using recorded_result
    by (auto simp: py_bind_def split: prod.splits sum.splits)
  have rest: "holds (timed_out env q timeout_result)
      (py_then (py_modify (on_attempt (settle_attempt TimedOut)))
       (py_then (observe_execution timeout_result)
       (py_then finish_status
       (py_then (save_stage_state env True)
       (py_then (py_modify (note_stage EffResourcesNotified))
         (py_return timeout_result)))))) (timed_out env q) (\<lambda>w. True)"
    by (intro holds_then [where R = "timed_out env q timeout_result"] holds_kept timed_out_kept
        runner_reported.modify_keep quiet_steps runner_reported.observe_keep runner_reported.save_keep holds_return) simp_all
  show ?thesis
    unfolding accept_result_def timeout_parsed py_bind_lift
    by (rule holds_bind [OF normal], rule holds_known, simp only: prod.case timeout_dumped)
      (intro holds_then [OF holds_kept] holds_bind [OF holds_kept] at_request.modify_keep quiet_steps
        at_request.context_keep holds_then [OF recorded rest])
qed

lemma expire_times_out: "holds (at_request env q) (expire_attempt env b) (timed_out env q) (\<lambda>w. True)"
  unfolding expire_attempt_def
  by (intro holds_bind [OF accept_timeout] holds_then [OF holds_kept] timed_out_kept keeps_rules
      runner_reported.await_keep runner_reported.interrupt_keep runner_reported.modify_keep quiet_steps holds_return)

lemma late_round:
  "holds (waiting_late env q) (collect_round env)
     (\<lambda>r w. case r of None \<Rightarrow> waiting_late env q w | Some x \<Rightarrow> timed_out env q x w) (\<lambda>w. True)"
proof -
  have expired: "holds (at_request env q) (py_bind (expire_attempt env b) (\<lambda>r. py_return (Some r)))
      (\<lambda>r w. case r of None \<Rightarrow> waiting_late env q w | Some x \<Rightarrow> timed_out env q x w) (\<lambda>w. True)" for b
    by (rule holds_bind [OF expire_times_out]) (simp add: holds_return)
  show ?thesis
    unfolding collect_round_def
  proof (rule holds_bind [OF late_deadline], rule holds_bind [OF late_read], rule holds_read)
    fix d and found :: "considered_result option" and w
    let ?P = "\<lambda>v. (waiting_late env q v \<and> (\<forall>n \<ge> sw_ticks v. deadline_passed (sge_now env n) d)
        \<and> map_option cr_author found \<noteq> Some RunnerAuthor) \<and> v = w"
    show "holds ?P (if map_option cr_author found = Some RunnerAuthor
         then py_bind (adopt_result env (the found)) (\<lambda>r. py_return (Some r))
         else if deadline_passed (sge_now env (sw_ticks w)) d
         then py_bind (expire_attempt env (found \<noteq> None)) (\<lambda>r. py_return (Some r))
         else case found of
                None \<Rightarrow> observe_work env d
              | Some r \<Rightarrow> py_bind (accept_result env (ob_response (cr_result r)) (reported_outcome r))
                          (\<lambda>r. py_return (Some r)))
         (\<lambda>r w. case r of None \<Rightarrow> waiting_late env q w | Some x \<Rightarrow> timed_out env q x w) (\<lambda>w. True)"
    proof (cases "map_option cr_author found \<noteq> Some RunnerAuthor \<and> deadline_passed (sge_now env (sw_ticks w)) d")
      case True
      then have "holds ?P (py_bind (expire_attempt env (found \<noteq> None)) (\<lambda>r. py_return (Some r)))
          (\<lambda>r w. case r of None \<Rightarrow> waiting_late env q w | Some x \<Rightarrow> timed_out env q x w) (\<lambda>w. True)"
        by (intro holds_weaken [OF expired]) (simp_all add: waiting_late_def)
      moreover have "(map_option cr_author found = Some RunnerAuthor) = False"
          "deadline_passed (sge_now env (sw_ticks w)) d = True"
        using True by blast+
      ultimately show ?thesis by (simp only: if_True if_False)
    next
      case False
      then show ?thesis by (auto simp: holds_def)
    qed
  qed
qed

lemma late_collect:
  "holds (waiting_late env q) (collect_result env) (timed_out env q) (\<lambda>w. True)"
proof -
  have "holds (waiting_late env q) (py_until (sge_polls env) (collect_round env)) (timed_out env q) (\<lambda>w. True)"
    by (rule holds_until [OF late_round]) simp
  moreover have "keeps (timed_out env q x) (py_modify (\<lambda>w. w\<lparr>sw_call := None, sw_connected := False\<rparr>))" for x
    by (rule timed_out_kept) (rule runner_reported.modify_keep [OF quiet_update(10)])
  then have "timed_out env q x (w\<lparr>sw_call := None, sw_connected := False\<rparr>)" if "timed_out env q x w" for x w
    using that by (simp add: keeps_def)
  ultimately show ?thesis
    unfolding collect_result_def by (intro holds_finally) (auto elim: holds_weaken)
qed

section \<open>Loops that end\<close>

text \<open>\<open>exits n m s\<close>: the loop of \<open>m\<close> from \<open>s\<close> is left within \<open>n\<close> rounds, by a result or an exception.\<close>

fun exits :: "nat \<Rightarrow> ('s, 'a option) py \<Rightarrow> 's \<Rightarrow> bool" where
  "exits 0 m s = False"
| "exits (Suc n) m s = (case m s of (Inr None, t) \<Rightarrow> exits n m t | _ \<Rightarrow> True)"

text \<open>More rounds than that make no difference.\<close>

lemma exits_until: "exits n m s \<Longrightarrow> n \<le> k \<Longrightarrow> py_until k m s = py_until n m s"
proof (induction n arbitrary: s k)
  case (Suc n)
  then obtain j where k: "k = Suc j" "n \<le> j" by (cases k) auto
  obtain r t where m: "m s = (r, t)" by (cases "m s")
  show ?case
  proof (cases "r = Inr None")
    case True
    then have "exits n m t" using Suc.prems(1) m by simp
    then have "py_until j m t = py_until n m t" using Suc.IH k(2) by blast
    then show ?thesis using k(1) m True by (simp add: py_bind_def)
  next
    case False
    then show ?thesis using k m by (cases r) (auto simp: py_bind_def split: option.splits)
  qed
qed simp

lemma exits_measure:
  assumes "\<And>s t. I s \<Longrightarrow> m s = (Inr None, t) \<Longrightarrow> I t \<and> f t < (f s :: nat)"
  shows "I s \<Longrightarrow> f s < n \<Longrightarrow> exits n m s"
proof (induction n arbitrary: s)
  case (Suc n)
  obtain r t where m: "m s = (r, t)" by (cases "m s")
  show ?case
  proof (cases "r = Inr None")
    case True
    then have "I t" "f t < f s" using assms [OF Suc.prems(1)] m by auto
    then show ?thesis using Suc.IH [of t] Suc.prems(2) m True by simp
  next
    case False
    then show ?thesis using m by (cases r) (auto split: option.split)
  qed
qed simp

subsection \<open>Collecting\<close>

definition plan_kept :: "stage_env \<Rightarrow> path stage_attempt \<Rightarrow> rat \<Rightarrow> stage_world \<Rightarrow> bool" where
  "plan_kept env a b w \<longleftrightarrow> (peers_keep_attempt env \<longrightarrow>
     fixed_part (sw_attempt w) = fixed_part a \<and> map_of (sw_baselines w) (at_attempt_id a) = Some b)"

interpretation plan_kept: stage_invariant env "plan_kept env a b" for env a b
  by unfold_locales (auto simp: plan_kept_def others_def peers_keep_attempt_def quiet_def)

interpretation ticking: stage_invariant env "\<lambda>w. k \<le> sw_ticks w" for env k
  by unfold_locales (auto simp: others_def quiet_def)

text \<open>A bound of the deadline that the clock passes within \<open>N\<close> suspensions.\<close>

definition due_within :: "stage_env \<Rightarrow> path stage_attempt \<Rightarrow> rat \<Rightarrow> nat \<Rightarrow> bool" where
  "due_within env a b N \<longleftrightarrow> clock_monotone env
     \<and> (\<forall>n. \<exists>d. deadline_at env a b n = Inr (Some d) \<and> d \<le> sge_now env N)"

lemma planned_deadline:
  assumes "peers_keep_attempt env" "plan_kept env a b w" "current_deadline env w = (Inr d, v)" "due_within env a b N"
  shows "v = w \<and> (\<exists>x. d = Some x \<and> x \<le> sge_now env N)"
proof -
  have a: "fixed_part (sw_attempt w) = fixed_part a" "map_of (sw_baselines w) (at_attempt_id a) = Some b"
    using assms(1,2) by (simp_all add: plan_kept_def)
  then have i: "at_attempt_id (sw_attempt w) = at_attempt_id a" by (simp add: fixed_part_def)
  have "keep_attempt_baseline env w = w" using a(2) i by (simp add: keep_attempt_baseline_def has_key_def)
  then have v: "v = w" and "deadline_at env (sw_attempt w) b (sw_ticks w) = Inr d"
    using assms(3) a(2) i by (auto simp: current_deadline_def py_then_def py_bind_def deadline_at_def attempt_recovered_def
        dict_get_def Let_def)
  then have "deadline_at env a b (sw_ticks w) = Inr d"
    using attempt_deadline_fixed [OF a(1)] by (simp add: deadline_at_def)
  moreover obtain x where "deadline_at env a b (sw_ticks w) = Inr (Some x)" "x \<le> sge_now env N"
    using assms(4) unfolding due_within_def by blast
  ultimately show ?thesis using v by auto
qed

lemma read_own_ticks: "read_own_result env w = (Inr found, v) \<Longrightarrow> sw_ticks w < sw_ticks v"
  by (auto simp: read_own_result_def world_call_def others_def Let_def py_bind_def split: sum.splits prod.splits)

lemma collect_round_progress:
  assumes peers: "peers_keep_attempt env" and plan: "plan_kept env a b w" and due: "due_within env a b N"
    and run: "collect_round env w = (Inr None, v)"
  shows "plan_kept env a b v \<and> N - sw_ticks v < N - sw_ticks w"
proof -
  have v: "plan_kept env a b v" using plan_kept.round_keep plan run by (metis keepsD)
  obtain d w1 where d: "current_deadline env w = (Inr d, w1)"
    using run by (auto simp: collect_round_def py_bind_def split: prod.splits sum.splits)
  obtain x where w1: "w1 = w" and x: "d = Some x" "x \<le> sge_now env N"
    using planned_deadline [OF peers plan d due] by blast
  obtain found w2 where read: "read_own_result env w = (Inr found, w2)"
    using run d w1 by (auto simp: collect_round_def py_bind_def split: prod.splits sum.splits)
  let ?rest = "if map_option cr_author found = Some RunnerAuthor
       then py_bind (adopt_result env (the found)) (\<lambda>r. py_return (Some r))
       else if deadline_passed (sge_now env (sw_ticks w2)) d
       then py_bind (expire_attempt env (found \<noteq> None)) (\<lambda>r. py_return (Some r))
       else case found of
              Some r \<Rightarrow> py_bind (accept_result env (ob_response (cr_result r)) (reported_outcome r))
                          (\<lambda>r. py_return (Some r))
            | None \<Rightarrow> observe_work env d"
  have rest: "?rest w2 = (Inr None, v)"
    using run d w1 read by (simp add: collect_round_def)
  have some: "py_bind m (\<lambda>r. py_return (Some r)) w2 \<noteq> (Inr None, v)" for m :: "(stage_world, stage_result) py"
    by (auto simp: py_bind_def split: prod.splits sum.splits)
  have early: "\<not> deadline_passed (sge_now env (sw_ticks w2)) d"
    using rest some by (auto split: if_splits)
  then have "\<not> N \<le> sw_ticks w2"
    using x due by (auto simp: deadline_passed_def due_within_def clock_monotone_def intro: order_trans)
  moreover have "sw_ticks w < sw_ticks w2" using read by (rule read_own_ticks)
  moreover have "observe_work env d w2 = (Inr None, v)"
    using rest some early by (auto split: if_splits option.splits)
  then have "sw_ticks w2 \<le> sw_ticks v"
    using ticking.work_keep [of "sw_ticks w2" env d] by (metis keepsD order_refl)
  ultimately show ?thesis using v by simp
qed

lemma collect_exits:
  assumes "peers_keep_attempt env" "plan_kept env a b w" "due_within env a b N"
  shows "exits (Suc (N - sw_ticks w)) (collect_round env) w"
  using collect_round_progress [OF assms(1) _ assms(3)] assms(2)
  by (intro exits_measure [where I = "plan_kept env a b" and f = "\<lambda>w. N - sw_ticks w"]) auto

lemma interrupt_exits:
  assumes "clock_monotone env" "deadline \<le> sge_now env N"
  shows "exits (Suc (N - sw_ticks w)) (interrupt_round env reason deadline) w"
proof (rule exits_measure [where I = "\<lambda>w. True" and f = "\<lambda>w. N - sw_ticks w"])
  fix w v
  assume run: "interrupt_round env reason deadline w = (Inr None, v)"
  then have "\<not> deadline \<le> sge_now env (sw_ticks w)" by (auto simp: interrupt_round_def)
  then have w: "\<not> N \<le> sw_ticks w" using assms by (auto simp: clock_monotone_def intro: order_trans)
  obtain w1 w2 where w1: "interrupt_exchange env reason w = (Inr False, w1)"
    and w2: "process_evidence env w1 = (Inr False, w2)" and v: "v = others env w2"
    using run by (auto simp: interrupt_round_def yield_others_def py_bind_def py_then_def
        split: if_splits prod.splits sum.splits)
  have "sw_ticks w \<le> sw_ticks w1"
    using ticking.exchange_keep [of "sw_ticks w" env reason] w1 by (metis keepsD order_refl)
  moreover have "w2 = w1"
    using w2 by (auto simp: process_evidence_def py_bind_def split: if_splits option.splits sum.splits)
  ultimately show "True \<and> N - sw_ticks v < N - sw_ticks w" using w v by (simp add: others_def)
qed simp_all

end
