(* ===== verification/Stage_Retries.thy ===== *)
theory Stage_Retries
  imports Stage_Deadlines
begin

text \<open>
  Starting an attempt and retrying it: the number of attempts of one visit is bounded by the retries its
  policy leaves, and the loop of \<^verbatim>\<open>execute\<close> ends.
\<close>

section \<open>Invariants of starting an attempt\<close>

text \<open>
  An attempt replaces the one at hand. What survives that depends only on the journal, the clock, the plan
  of the state, and the attempts started.
\<close>

definition plan_of :: "runner_state \<Rightarrow> _" where
  "plan_of s = (st_template s, st_stage_position s, st_retry_counts s)"

definition planned :: "stage_world \<Rightarrow> stage_world \<Rightarrow> bool" where
  "planned w v \<longleftrightarrow> sw_journal v = sw_journal w \<and> plan_of (sw_state v) = plan_of (sw_state w)
     \<and> sw_ticks v = sw_ticks w \<and> attempts_started v = attempts_started w"

lemma quiet_planned: "quiet w v \<Longrightarrow> planned w v"
  by (simp add: quiet_def planned_def plan_of_def state_core_def)

lemma planned_updates:
  "planned w (bind_active w)" "planned w (claim_attempt b w)" "planned w (begin_startup env w)"
  "planned w (w\<lparr>sw_attempt := a, sw_baselines := d\<rparr>)"
  "planned w (note_stage (EffContextWritten p) (on_attempt f w))"
  "planned w (if c then w\<lparr>sw_unstarted := i\<rparr> else if c' then w\<lparr>sw_process := b\<rparr> else w)"
  by (simp_all add: planned_def bind_active_def claim_attempt_def begin_startup_def note_stage_def use_request_def
      on_attempt_def plan_of_def attempts_started_def Let_def)

locale stage_plan =
  fixes env :: stage_env and I :: "stage_world \<Rightarrow> bool"
  assumes others_kept: "I w \<Longrightarrow> I (others env w)"
    and calls_kept: "I w \<Longrightarrow> later (sge_settings env) (sw_journal w) j \<Longrightarrow> I (w\<lparr>sw_journal := j\<rparr>)"
    and planned_kept: "I w \<Longrightarrow> planned w v \<Longrightarrow> I v"

sublocale stage_plan \<subseteq> stage_invariant env I
  by unfold_locales (auto intro: others_kept calls_kept planned_kept quiet_planned)

context stage_plan
begin

lemma planned_keep: "(\<And>w. planned w (f w)) \<Longrightarrow> keeps I (py_modify f)"
  by (rule keeps_modify) (rule planned_kept)

lemma new_attempt_keep [keeps_rules]: "keeps I (new_stage_attempt env n m input x)"
  unfolding new_stage_attempt_def Let_def by (intro keeps_rules planned_keep planned_updates)

lemma write_context_keep [keeps_rules]: "keeps I (write_attempt_context env)"
  unfolding write_attempt_context_def by (intro keeps_rules planned_keep planned_updates)

lemma bind_keep [keeps_rules]: "keeps I (bind_attempt_intent env b)"
  unfolding bind_attempt_intent_def by (intro keeps_rules planned_keep planned_updates quiet_planned quiet_steps)

lemma require_time_keep [keeps_rules]: "keeps I (require_startup_time env)"
  unfolding require_startup_time_def current_startup_def
  by (intro keeps_rules modify_keep quiet_steps)

lemma spawn_keep [keeps_rules]: "keeps I (spawn_executor env)"
  unfolding spawn_executor_def by (intro keeps_rules planned_keep planned_updates quiet_planned quiet_steps)

lemma dispatch_keep [keeps_rules]: "keeps I (dispatch_startup env)"
  unfolding dispatch_startup_def dispatch_call_def by (intro keeps_rules modify_keep quiet_steps)

lemma startup_round_keep [keeps_rules]: "keeps I (startup_round env)"
  unfolding startup_round_def startup_result_def by (intro keeps_rules)

lemma cleanup_keep [keeps_rules]: "keeps I (cleanup_startup env reason)"
  unfolding cleanup_startup_def by (intro keeps_rules)

lemma startup_failure_keep [keeps_rules]: "keeps I (handle_startup_failure env e)"
  unfolding handle_startup_failure_def current_startup_def Let_def
  by (intro keeps_rules modify_keep quiet_steps; simp)

lemma start_executor_keep [keeps_rules]: "keeps I (start_executor env)"
  unfolding start_executor_def by (intro keeps_rules planned_keep planned_updates)

lemma start_call_keep [keeps_rules]: "keeps I (start_service_call env i)"
  unfolding start_service_call_def by (intro keeps_rules modify_keep quiet_steps)

lemma close_keep [keeps_rules]: "keeps I (close_stage env)"
  unfolding close_stage_def by (intro keeps_rules modify_keep quiet_steps)

lemma prune_keep [keeps_rules]: "keeps I (prune_artifacts env)"
  unfolding prune_artifacts_def by (intro keeps_rules modify_keep quiet_steps) simp

lemma launch_keep [keeps_rules]: "keeps I (launch_attempt env service)"
  unfolding launch_attempt_def by (intro keeps_rules)

lemma report_keep [keeps_rules]: "keeps I (report_finished env r)"
  unfolding report_finished_def by (intro keeps_rules)

lemma response_keep [keeps_rules]: "keeps I (attempt_response env)"
  unfolding attempt_response_def Let_def by (intro keeps_rules modify_keep quiet_steps)

end

text \<open>Starting an attempt, up to its entry in the log, and after it.\<close>

definition note_started :: "stage_world \<Rightarrow> stage_world" where
  "note_started w = note_stage (EffAttemptStarted (at_stage_id (sw_attempt w)) (at_attempt_id (sw_attempt w))
     (at_attempt_number (sw_attempt w))) w"

locale stage_start = stage_plan +
  assumes started_kept: "I w \<Longrightarrow> I (note_started w)"
begin

lemma start_keep [keeps_rules]: "keeps I (start_attempt env input x)"
  unfolding start_attempt_def note_started_def [symmetric]
  by (intro keeps_rules started_kept)

end

section \<open>The retry loop\<close>

definition peers_keep_retries :: "stage_env \<Rightarrow> string \<Rightarrow> bool" where
  "peers_keep_retries env i \<longleftrightarrow>
     (\<forall>n w. dict_get (st_retry_counts (sw_state (sge_others env n w))) i 0 = dict_get (st_retry_counts (sw_state w)) i 0
            \<and> sw_log (sge_others env n w) = sw_log w)"

definition used_retries :: "string \<Rightarrow> stage_world \<Rightarrow> nat" where
  "used_retries i w = dict_get (st_retry_counts (sw_state w)) i 0"

definition retries_are :: "stage_env \<Rightarrow> string \<Rightarrow> nat \<Rightarrow> stage_world \<Rightarrow> bool" where
  "retries_are env i c w \<longleftrightarrow> (peers_keep_retries env i \<longrightarrow> used_retries i w = c)"

definition started_at_most :: "stage_env \<Rightarrow> string \<Rightarrow> nat \<Rightarrow> stage_world \<Rightarrow> bool" where
  "started_at_most env i k w \<longleftrightarrow> (peers_keep_retries env i \<longrightarrow> attempts_started w \<le> k)"

interpretation retries_are: stage_start env "retries_are env i c" for env i c
  by unfold_locales
    (auto simp: retries_are_def used_retries_def others_def peers_keep_retries_def planned_def plan_of_def note_started_def
      note_stage_def)

interpretation started_at_most: stage_plan env "started_at_most env i k" for env i k
  by unfold_locales
    (auto simp: started_at_most_def others_def peers_keep_retries_def planned_def attempts_started_def)

lemma start_counts:
  "holds (started_at_most env i k) (start_attempt env input x) (\<lambda>u. started_at_most env i (Suc k)) (started_at_most env i (Suc k))"
proof -
  have more: "started_at_most env i (Suc k) w" if "started_at_most env i k w" for w
    using that by (auto simp: started_at_most_def)
  have note_one: "holds (started_at_most env i k) (py_modify note_started) (\<lambda>u. started_at_most env i (Suc k))
      (started_at_most env i (Suc k))"
    by (rule holds_modify) (auto simp: started_at_most_def note_started_def note_stage_def attempts_started_def)
  have kept: "holds (started_at_most env i k) m (\<lambda>u. started_at_most env i k) (started_at_most env i (Suc k))"
    if "keeps (started_at_most env i k) m" for m :: "(stage_world, 'b) py"
    using that by (rule holds_weaken [OF holds_keeps]) (auto intro: more)
  have last: "holds (started_at_most env i (Suc k)) (launch_attempt env service) (\<lambda>u. started_at_most env i (Suc k))
      (started_at_most env i (Suc k))" for service
    by (rule holds_keeps) (rule started_at_most.launch_keep)
  show ?thesis
    unfolding start_attempt_def note_started_def [symmetric]
    by (intro holds_reread holds_bind [OF kept] holds_then [OF kept] keeps_rules started_at_most.new_attempt_keep
        started_at_most.await_keep started_at_most.write_context_keep started_at_most.bind_keep
        started_at_most.close_keep started_at_most.prune_keep holds_then [OF note_one last])
qed

lemma finish_Some: "finish_outcome r action w \<noteq> (Inr None, v)"
  by (simp add: finish_outcome_def)

text \<open>A round that asks for another one has used one more of the retries left.\<close>

lemma retry_counts:
  assumes peers: "peers_keep_retries env i" and run: "retry_or_finish env waits n i r w = (Inr None, v)"
  shows "int (used_retries i w) < retries (node_errors n) \<and> used_retries i v = Suc (used_retries i w)"
proof -
  let ?used = "used_retries i w"
  have "int ?used < retries (node_errors n) \<and> (\<exists>u. use_retry env i ?used u = (Inr None, v))"
    using run
    by (auto simp: retry_or_finish_def Let_def py_then_def py_bind_def used_retries_def yield_others_def finish_Some
        split: if_splits prod.splits sum.splits)
  then obtain u where less: "int ?used < retries (node_errors n)" and again: "use_retry env i ?used u = (Inr None, v)"
    by blast
  let ?u = "on_run (\<lambda>s. s\<lparr>st_retry_counts := AList.update i (Suc ?used) (st_retry_counts s)\<rparr>) u"
  have "retries_are env i (Suc ?used) ?u"
    by (simp add: retries_are_def used_retries_def dict_get_def)
  moreover have "snd (save_stage_state env True ?u) = v"
    using again by (auto simp: use_retry_def py_then_def py_bind_def split: prod.splits sum.splits)
  ultimately have "retries_are env i (Suc ?used) v"
    using retries_are.save_keep [of env i "Suc ?used" True] by (auto simp: keeps_def)
  then show ?thesis using less peers by (simp add: retries_are_def)
qed

lemma attempt_round_steps:
  assumes "attempt_round env waits n i start w = (Inr None, v)"
  obtains w1 w2 w3 w4 r where "start w = (Inr (), w1)" "attempt_response env w1 = (Inr r, w2)"
    "report_finished env r w2 = (Inr (), w3)" "save_stage_state env True w3 = (Inr (), w4)"
    "retry_or_finish env waits n i r w4 = (Inr None, v)"
  using assms by (auto simp: attempt_round_def py_then_def py_bind_def split: prod.splits sum.splits)

lemma attempt_counts:
  assumes peers: "peers_keep_retries env i"
    and run: "attempt_round env waits n i (start_attempt env input x) w = (Inr None, v)"
  shows "int (used_retries i w) < retries (node_errors n) \<and> used_retries i v = Suc (used_retries i w)"
proof -
  let ?I = "retries_are env i (used_retries i w)"
  obtain w1 w2 w3 w4 r where steps: "start_attempt env input x w = (Inr (), w1)" "attempt_response env w1 = (Inr r, w2)"
      "report_finished env r w2 = (Inr (), w3)" "save_stage_state env True w3 = (Inr (), w4)"
      "retry_or_finish env waits n i r w4 = (Inr None, v)"
    using run by (rule attempt_round_steps)
  have "?I w" by (simp add: retries_are_def)
  then have "?I w4"
    using keepsD [OF retries_are.start_keep _ steps(1)] keepsD [OF retries_are.response_keep _ steps(2)]
      keepsD [OF retries_are.report_keep _ steps(3)] keepsD [OF retries_are.save_keep _ steps(4)] by blast
  then have "used_retries i w4 = used_retries i w" using peers by (simp add: retries_are_def)
  then show ?thesis using retry_counts [OF peers steps(5)] by simp
qed

lemma retries_exit:
  assumes "peers_keep_retries env i"
  shows "exits (Suc (nat (retries (node_errors n)) - used_retries i w))
    (attempt_round env waits n i (start_attempt env input x)) w"
proof (rule exits_measure [where I = "\<lambda>w. True" and f = "\<lambda>w. nat (retries (node_errors n)) - used_retries i w"])
  fix w v
  assume "attempt_round env waits n i (start_attempt env input x) w = (Inr None, v)"
  from attempt_counts [OF assms this]
  show "True \<and> nat (retries (node_errors n)) - used_retries i v < nat (retries (node_errors n)) - used_retries i w"
    by auto
qed simp_all

text \<open>Every round starts at most one attempt.\<close>

lemma retry_keep: "keeps (started_at_most env i k) (retry_or_finish env waits n j r)"
  unfolding retry_or_finish_def finish_outcome_def use_retry_def Let_def
  by (intro keeps_rules started_at_most.yield_keep started_at_most.await_keep started_at_most.save_keep)
    (simp add: started_at_most_def attempts_started_def)

lemma round_starts:
  "holds (started_at_most env i k) (attempt_round env waits n j (start_attempt env input x))
     (\<lambda>u. started_at_most env i (Suc k)) (started_at_most env i (Suc k))"
  unfolding attempt_round_def
  by (intro holds_then [OF start_counts] holds_keeps keeps_rules started_at_most.response_keep
      started_at_most.report_keep started_at_most.save_keep retry_keep)

lemma rounds_start:
  "started_at_most env i k w \<Longrightarrow>
     started_at_most env i (k + n) (snd (py_until n (attempt_round env waits m j (start_attempt env input x)) w))"
proof (induction n arbitrary: k w)
  case (Suc n)
  let ?round = "attempt_round env waits m j (start_attempt env input x)"
  obtain r v where run: "?round w = (r, v)" by (cases "?round w")
  then have v: "started_at_most env i (Suc k) v"
    using holdsD [OF round_starts Suc.prems] holds_raisedD [OF round_starts Suc.prems] by (cases r) auto
  show ?case
  proof (cases "r = Inr None")
    case True
    then show ?thesis using Suc.IH [OF v] run by (simp add: py_bind_def)
  next
    case False
    have "started_at_most env i (k + Suc n) v" using v by (auto simp: started_at_most_def)
    then show ?thesis using run False by (cases r) (auto simp: py_bind_def split: option.splits)
  qed
qed simp

section \<open>Executing a visit\<close>

text \<open>What \<^verbatim>\<open>execute\<close> does before its first attempt.\<close>

definition prepare_visit :: "stage_env \<Rightarrow> bool \<Rightarrow> string \<Rightarrow> (stage_world, json \<times> string) py" where
  "prepare_visit env manual stage_id =
     py_bind (world_call env (\<lambda>w. select_input (sw_state w))) (\<lambda>input. py_read (\<lambda>w.
       py_then (py_when manual (py_modify (on_run (forget_stage_result stage_id))))
         (py_return (input, sge_uuid env (sw_ticks w)))))"

lemma execute_fresh:
  assumes "cursor_definition w = Inr n" "stage_key n = Inr i"
  shows "execute env rounds manual waits False w =
    py_bind (prepare_visit env manual i) (\<lambda>(input, x).
      py_until rounds (attempt_round env waits n i (start_attempt env input x))) w"
  using assms
  by (simp add: execute_def prepare_visit_def py_bind_lift Let_def py_bind_def py_then_def
      split: prod.split sum.split)

lemma result_later:
  "later st j (snd (case read_journal_result q e b j of (Inl x, k) \<Rightarrow> (Inl x, k) | (Inr r, k) \<Rightarrow> (f r, k)))"
  using read_journal_later [of st j q e b] by (cases "read_journal_result q e b j") (simp split: sum.split)

lemma select_later: "later st j (snd (select_input s j))"
  by (simp add: select_input_def read_move_input_def result_later split: option.split sum.split)

context stage_plan
begin

lemma prepare_keep [keeps_rules]: "keeps I (prepare_visit env manual i)"
proof -
  have "planned w (on_run (forget_stage_result i) w)" for w
    by (simp add: planned_def plan_of_def forget_stage_result_def attempts_started_def)
  then show ?thesis
    unfolding prepare_visit_def by (intro keeps_rules call_keep planned_keep select_later)
qed

end

lemma execute_counts:
  assumes "peers_keep_retries env i" "cursor_definition w = Inr n" "stage_key n = Inr i"
  defines "bound \<equiv> Suc (nat (retries (node_errors n)) - used_retries i w)"
  shows "bound \<le> rounds \<Longrightarrow> execute env rounds manual waits False w = execute env bound manual waits False w"
    and "attempts_started (snd (execute env rounds manual waits False w)) \<le> attempts_started w + min rounds bound"
proof -
  obtain r v where prep: "prepare_visit env manual i w = (r, v)" by (cases "prepare_visit env manual i w")
  have "retries_are env i (used_retries i w) v" "started_at_most env i (attempts_started w) v"
    using keepsD [OF retries_are.prepare_keep _ prep] keepsD [OF started_at_most.prepare_keep _ prep]
    by (simp_all add: retries_are_def started_at_most_def)
  then have v: "used_retries i v = used_retries i w" and started: "started_at_most env i (attempts_started w) v"
    using assms(1) by (simp_all add: retries_are_def)
  let ?loop = "\<lambda>k p. py_until k (attempt_round env waits n i (start_attempt env (fst p) (snd p))) v"
  have run: "execute env k manual waits False w = (case r of Inl e \<Rightarrow> (Inl e, v) | Inr p \<Rightarrow> ?loop k p)" for k
    unfolding execute_fresh [OF assms(2,3)]
    using prep by (cases r) (auto simp: py_bind_def split: prod.split)
  have loop: "?loop k p = ?loop bound p" if "bound \<le> k" for k p
    using exits_until [OF retries_exit [OF assms(1)] that [unfolded bound_def v [symmetric]]] v
    by (simp add: bound_def)
  show "execute env rounds manual waits False w = execute env bound manual waits False w" if "bound \<le> rounds"
    using loop [OF that] by (cases r) (simp_all add: run)
  have "?loop rounds p = ?loop (min rounds bound) p" for p
    using loop [of rounds p] by (cases "bound \<le> rounds") (simp_all add: min_def)
  moreover have "attempts_started (snd (?loop k p)) \<le> attempts_started w + k" for k p
    using rounds_start [OF started, of k] assms(1) by (simp add: started_at_most_def)
  moreover have "attempts_started v \<le> attempts_started w"
    using started assms(1) by (simp add: started_at_most_def)
  ultimately show "attempts_started (snd (execute env rounds manual waits False w)) \<le> attempts_started w + min rounds bound"
    by (cases r) (simp_all add: run)
qed

end
