(* ===== verification/Stage_Samples.thy ===== *)
theory Stage_Samples
  imports Stage_Retries Sample_Run
begin

text \<open>
  A concrete stage runner for the witnesses: no other task acts, the clock is the number of suspensions, and
  nothing fails. The attempt of the first stage has a timeout that has passed.
\<close>

section \<open>The surroundings\<close>

definition calm_stamp :: "nat \<Rightarrow> event_stamp" where
  "calm_stamp n = \<lparr>es_id = uuid_str n, es_producer = ''session'', es_sequence = 1 + int n,
        es_occurred = ''2026-01-01T00:00:00+00:00''\<rparr>"

definition calm_env :: stage_env where
  "calm_env = \<lparr>sge_others = (\<lambda>n w. w), sge_polls = 5, sge_now = (\<lambda>n. of_nat n), sge_recovered = (\<lambda>n. 0),
     sge_wall = (\<lambda>n. ''2026-01-01T00:00:00+00:00''), sge_uuid = (\<lambda>n. uuid_str (100 + n)),
     sge_settings = sample_settings, sge_stamp = calm_stamp,
     sge_base = [], sge_describe = (\<lambda>e. ''error''), sge_resolve = id,
     sge_checkpoint_document = (\<lambda>d. []), sge_request_document = (\<lambda>r. JNull),
     sge_save = (\<lambda>n. None), sge_check_module = (\<lambda>n. None), sge_prepare = (\<lambda>n. Inr ([], run_directory)), sge_argv = (\<lambda>a. JArr []),
     sge_close = (\<lambda>n. None), sge_listing = (\<lambda>n. []), sge_removing = (\<lambda>n p. None),
     sge_enqueue = (\<lambda>n. Inr TaskRunning), sge_cancel = (\<lambda>n. Inr True), sge_spawn = (\<lambda>n. None),
     sge_exited = (\<lambda>n. False), sge_reap = (\<lambda>n. Inr True), sge_retryable = (\<lambda>n. True),
     sge_endpoint = (\<lambda>n. Inr True), sge_connect = (\<lambda>n. None),
     sge_query = (\<lambda>n. Inr \<lparr>eo_process = None, eo_started_at = None, eo_document = JNull\<rparr>),
     sge_process_record = (\<lambda>n. Inr None), sge_exchange = (\<lambda>n. Inr True),
     sge_alive = (\<lambda>n p. Inr False), sge_ready = (\<lambda>n. Inr ServicesReady),
     sge_context_file = (\<lambda>n. Inr (uuid_str 5, JNull, JObj []))\<rparr>"

lemma calm_env_simps [simp]:
  "sge_others calm_env n w = w" "sge_polls calm_env = 5" "sge_now calm_env n = of_nat n" "sge_recovered calm_env n = 0"
  "sge_settings calm_env = sample_settings" "sge_stamp calm_env n = calm_stamp n" "sge_base calm_env = []"
  "sge_resolve calm_env = id" "sge_save calm_env n = None" "sge_uuid calm_env n = uuid_str (100 + n)"
  "sge_checkpoint_document calm_env d = []"
  by (simp_all add: calm_env_def)

definition calm_participant :: participant_identity where
  "calm_participant = \<lparr>pt_experiment_id = ''demo'', pt_participant_id = uuid_str 1, pt_instance_id = uuid_str 5, pt_extra = []\<rparr>"

definition calm_attempt :: "path stage_attempt" where
  "calm_attempt = \<lparr>at_attempt_id = uuid_str 5, at_stage_id = uuid_str 1, at_execution_id = uuid_str 6,
     at_cycle_number = 1, at_attempt_number = 1, at_artifacts = run_directory, at_input = JNull, at_settings = [],
     at_timeout = Some (NInt 3), at_process = None, at_started_at = None, at_result_request = None, at_outcome = None,
     at_executor = JNull, at_request_id = uuid_str 5, at_participant = Some calm_participant, at_endpoint = None,
     at_service_id = None, at_queued_monotonic = Some 0, at_queued_at = None\<rparr>"

definition calm_world :: stage_world where
  "calm_world = \<lparr>sw_state = run_state, sw_attempt = calm_attempt, sw_journal = sample_start, sw_unstarted = None,
     sw_process_attempt = None, sw_process = False, sw_baselines = [(uuid_str 5, 0)], sw_startup = None, sw_startup_results = [],
     sw_call = None, sw_connected = False, sw_ticks = 3, sw_log = []\<rparr>"

section \<open>Records of the attempt\<close>

lemma text_uuid [simp]: "is_text (uuid_str n)"
  by (simp add: is_text_def require_text_uuid_str del: require_text.simps)

definition calm_context :: json_object where
  "calm_context = set_all (participant_document calm_participant)
     [(''experiment_id'', JStr ''demo''), (''run_id'', JStr ''run''), (''stage_id'', JStr (uuid_str 1)),
      (''attempt_id'', JStr (uuid_str 5)), (''stage_execution_id'', JStr (uuid_str 6)), (''request_id'', JStr (uuid_str 5)),
      (''service_id'', JNull), (''service_instance_id'', JNull), (''cycle_number'', JInt 1), (''attempt_number'', JInt 1),
      (''module_name'', JStr ''train''), (''module_version'', JStr ''1.0''), (''module_hash'', JStr sample_hash),
      (''template_revision_id'', JStr run_revision)]"

lemmas calm_context_facts = calm_context_def set_all_def participant_document_def calm_participant_def

lemma sample_module:
  "resolve_module run_template (StageNode sample_stage) = Inr (module_reference.make ''train'' ''1.0'' sample_hash)"
  by (simp add: resolve_module_def sample_stage_def stage_definition.make_def)

lemma calm_context_eq: "attempt_context run_state calm_attempt = Inr calm_context"
  by (simp add: attempt_context_def run_state_eq calm_attempt_def calm_context_def calm_participant_def
      node_module_def sample_module service_instance_of_def module_reference.make_def)

lemma run_state_fields [simp]:
  "st_template run_state = run_template" "st_stage_position run_state = 1" "st_experiment_id run_state = ''demo''"
  "st_run_id run_state = ''run''" "st_template_revision run_state = run_revision" "st_used_request_ids run_state = {||}"
  "st_active_attempt run_state = None" "st_directory run_state = run_directory" "st_checkpoint_id run_state = None"
  "st_retry_counts run_state = []"
  by (simp_all add: run_state_eq)

lemma calm_attempt_fields [simp]:
  "at_attempt_id calm_attempt = uuid_str 5" "at_request_id calm_attempt = uuid_str 5" "at_executor calm_attempt = JNull"
  "at_timeout calm_attempt = Some (NInt 3)" "at_queued_monotonic calm_attempt = Some 0" "at_service_id calm_attempt = None"
  by (simp_all add: calm_attempt_def)

lemma calm_fields [simp]:
  "sw_state calm_world = run_state" "sw_attempt calm_world = calm_attempt" "sw_journal calm_world = sample_start"
  "sw_ticks calm_world = 3" "sw_baselines calm_world = [(uuid_str 5, 0)]" "sw_log calm_world = []"
  by (simp_all add: calm_world_def)

lemma calm_context_kept:
  "attempt_context (run_state\<lparr>st_used_request_ids := q\<rparr>) calm_attempt = Inr calm_context"
  unfolding calm_context_eq [symmetric] attempt_context_def by simp

lemma calm_texts [simp]:
  "is_text ''train''" "is_text ''1.0''" "is_text sample_hash" "is_text ''runner.checkpoint''"
  by code_simp+

lemma calm_context_ok: "context_ok calm_context"
  by (simp add: context_ok_def copy_ok_object calm_context_facts context_item_ok_def context_text_fields_def
      context_integer_fields_def run_revision_def del: embed.simps)

lemma calm_merged:
  "merged_context calm_env calm_context = calm_context"
  "AList.update ''request_id'' (JStr (uuid_str 5)) calm_context = calm_context"
  by (simp_all add: merged_context_def calm_context_facts)

lemma calm_keys:
  "dict_get calm_context ''request_id'' JNull = JStr (uuid_str 5)"
  "dict_get calm_context ''experiment_id'' JNull = JStr ''demo''"
  "dict_get calm_context ''participant_id'' JNull = JStr (uuid_str 1)"
  by (simp_all add: calm_context_facts dict_get_def)

lemma calm_context_height: "json_height (JObj calm_context) \<le> 31" "json_printable (JObj calm_context)"
  by (simp_all add: calm_context_facts)

section \<open>What the journal stores\<close>

lemma first_result:
  assumes "acceptable st e d" "writable s" "jn_events (jo_journal s) = []" "jn_results (jo_journal s) = []"
    and "identity_ok (request_identity (ev_context e))"
  defines "own \<equiv> Some \<lparr>as_id = ev_id e, as_event = e, as_observation = observe e, as_result = d\<rparr>"
  shows "\<exists>j. append_command_result st e s = (Inr (ev_id e), j) \<and> writable j \<and> jn_events (jo_journal j) = [e]
    \<and> load_result (jo_journal j) (ob_request d) = Inr (Some \<lparr>lr_identity = request_identity (ev_context e),
        lr_runner = (if ob_author d = RunnerAuthor then own else None),
        lr_participant = (if ob_author d = RunnerAuthor then None else own),
        lr_effective = ev_id e, lr_author = ob_author d\<rparr>)"
  using assms
  by (cases "ob_author d")
    (simp_all add: append_command_result_eq acceptable_def reconcile_def load_result_def insert_event_def save_result_def
      Let_def result_row_of_def preferred_def load_row_def decode_author_def event_with_def owned_by_def observe_def
      precedence_ok_def shared_event_def lr_of_def finish_write_def writable_def supersedes_ok_def ignored_ok_def
      author_entry_def)

definition own_observation :: "result_outcome \<Rightarrow> json_object \<Rightarrow> command_observation" where
  "own_observation out r = \<lparr>ob_request = uuid_str 5, ob_author = RunnerAuthor, ob_outcome = out,
     ob_response = r, ob_ignored = None, ob_supersedes = []\<rparr>"

lemma calm_record:
  assumes "n \<le> 100" "json_height (JObj r) \<le> 30" "json_printable (JObj r)"
  shows "acceptable sample_settings (result_event calm_env n calm_context (uuid_str 5) out r) (own_observation out r)"
proof -
  have "int_printable (1 + int n)" using assms(1) by simp
  then show ?thesis
    using assms calm_context_height
    by (simp add: acceptable_def result_event_def stamped_event_def calm_merged calm_stamp_def encodable_def
        event_document_def copy_ok_object calm_context_ok sample_settings_def observation_document_def event_type_def
        fold_max_le list_all_iff own_observation_def calm_keys text_json_def observation_ok_def del: embed.simps)
qed

lemma calm_recorded:
  assumes "n \<le> 100" "json_height (JObj r) \<le> 30" "json_printable (JObj r)"
  shows "\<exists>k j. append_command_result sample_settings (result_event calm_env n calm_context (uuid_str 5) out r) sample_start
      = (Inr k, j) \<and> writable j \<and> (\<forall>f \<in> set (jn_events (jo_journal j)). ev_id f = uuid_str n \<and> ev_sequence f = 1 + int n)
      \<and> (\<exists>e. ev_context e = calm_context \<and> load_result (jo_journal j) (uuid_str 5) = Inr (Some \<lparr>lr_identity = request_identity calm_context,
        lr_runner = Some \<lparr>as_id = uuid_str n, as_event = e, as_observation = observe e, as_result = own_observation out r\<rparr>,
        lr_participant = None, lr_effective = uuid_str n, lr_author = RunnerAuthor\<rparr>))"
proof -
  let ?e = "result_event calm_env n calm_context (uuid_str 5) out r"
  have e: "ev_context ?e = calm_context" "ev_id ?e = uuid_str n" "ev_sequence ?e = 1 + int n"
    by (simp_all add: result_event_def stamped_event_def calm_merged calm_stamp_def)
  have "identity_ok (request_identity (ev_context ?e))"
    unfolding e by (simp add: identity_ok_def request_identity_def identity_names_def calm_context_facts dict_get_def text_json_def)
  from first_result [OF calm_record [OF assms] sample_start_facts(2) _ _ this] show ?thesis
    by (auto simp: e own_observation_def sample_start_def new_store_def)
qed

lemma calm_appends:
  assumes "n \<le> 100" "writable j"
    and "\<forall>f \<in> set (jn_events (jo_journal j)). \<exists>m. ev_id f = uuid_str m \<and> ev_sequence f = 1 + int m \<and> m < n"
    and "context_ok c" "json_height (JObj c) \<le> 31" "json_printable (JObj c)"
    and "is_text t" "json_height (JObj d) \<le> 31" "json_printable (JObj d)"
  shows "\<exists>k. append_store sample_settings False (stamped_event (calm_stamp n) c (PlainEvent t d)) j = (Inr (), k)"
proof -
  have "int_printable (1 + int n)" using assms(1) by simp
  then have "encodable sample_settings (stamped_event (calm_stamp n) c (PlainEvent t d))"
    using assms
    by (simp add: stamped_event_def calm_stamp_def encodable_def event_document_def copy_ok_object sample_settings_def
        event_type_def fold_max_le list_all_iff del: embed.simps)
  moreover have "ev_id f \<noteq> uuid_str n \<and> ev_sequence f \<noteq> 1 + int n" if f: "f \<in> set (jn_events (jo_journal j))" for f
  proof -
    obtain m where m: "ev_id f = uuid_str m" "ev_sequence f = 1 + int m" "m < n" using assms(3) f by blast
    then have "m < uuid_limit" "n < uuid_limit" using assms(1) by (simp_all add: uuid_limit_def)
    then show ?thesis using m by (simp add: uuid_str_inject)
  qed
  ultimately show ?thesis
    using assms(2)
    by (auto simp: append_store_def append_event_def insert_event_def finish_write_def stamped_event_def writable_def
        list_ex_iff calm_stamp_def)
qed

lemma calm_checkpoint:
  assumes "n \<le> 100" "writable j"
    and "\<forall>f \<in> set (jn_events (jo_journal j)). \<exists>m. ev_id f = uuid_str m \<and> ev_sequence f = 1 + int m \<and> m < n"
  shows "\<exists>t. append_store sample_settings False (stamped_event (calm_stamp n)
     (merged_context calm_env [(''experiment_id'', JStr ''demo''), (''run_id'', JStr ''run'')])
     (PlainEvent ''runner.checkpoint'' [])) j = (Inr (), t)"
  by (rule calm_appends [OF assms])
    (simp_all add: merged_context_def set_all_def context_ok_def context_item_ok_def context_text_fields_def copy_ok_object
      del: embed.simps)

section \<open>Saving the state\<close>

lemma calm_save:
  assumes "m < uuid_limit"
  defines "s \<equiv> run_state\<lparr>st_used_request_ids := {|uuid_str 5|}, st_checkpoint_id := Some (uuid_str m)\<rparr>"
  shows "\<exists>d. state_to_document id s = Inr d \<and> state_from_document id run_directory d = Inr s"
proof -
  obtain d where d: "state_to_document id s = Inr d"
    by (simp add: s_def evaluate_document Let_def run_state_eq run_directory_def run_document_height)
  have valid: "validate_saved d = Inr ()"
    using d assms(1) unfolding s_def
    by (simp add: evaluate_document Let_def run_state_eq run_directory_def run_document_height)
      (hypsubst, simp add: evaluate_validation run_parses run_revision_def list_all_iff uuid_str_inject
        sorted_list_of_fset.rep_eq)
  have base: "path_anchored run_directory" "st_directory s = run_directory"
    by (simp_all add: s_def run_state_eq run_directory_def)
  have "live_ok id s"
    by (simp add: s_def live_ok_def run_state_eq settled_def path_ok_def path_part_def run_directory_def service_paths_def)
  from restore_document [OF this d] show ?thesis
    using valid d by (auto simp: state_from_document_def base)
qed

lemma calm_saves:
  assumes "sw_state w = run_state\<lparr>st_used_request_ids := {|uuid_str 5|}\<rparr>" "sw_ticks w = n" "n \<le> 100"
    and "append_store sample_settings False (stamped_event (calm_stamp (Suc n))
     (merged_context calm_env [(''experiment_id'', JStr ''demo''), (''run_id'', JStr ''run'')])
     (PlainEvent ''runner.checkpoint'' [])) (sw_journal w) = (Inr (), t)"
  shows "\<exists>v. save_stage_state calm_env True w = (Inr (), v) \<and> st_active_attempt (sw_state v) = None
     \<and> sw_attempt v = sw_attempt w"
proof -
  let ?s = "run_state\<lparr>st_used_request_ids := {|uuid_str 5|}, st_checkpoint_id := Some (uuid_str (100 + n))\<rparr>"
  obtain d where "state_to_document id ?s = Inr d" "state_from_document id run_directory d = Inr ?s"
    using calm_save [of "100 + n"] assms(3) by (auto simp: uuid_limit_def)
  then show ?thesis
    using assms
    by (simp add: save_stage_state_def py_bind_def py_then_def journal_checkpoint_def write_event_def world_call_def
        others_def publish_state_def note_stage_def Let_def)
qed

section \<open>Collecting the timeout\<close>

lemma calm_normal:
  "sw_state w = run_state \<Longrightarrow>
     normalize_stage_response calm_env timeout_result TimedOut w = (Inr (timeout_result, TimedOut), w)"
  by (simp add: normalize_stage_response_def py_bind_def py_nth_def normalize_accepted_response_def outcome_text_def
      name_in_def outcome_names_def read_outcome_def py_then_def timeout_result_def)

lemma bind_step:
  "m s = (Inr x, t) \<Longrightarrow> py_bind m f s = f x t" "u s = (Inr y, t) \<Longrightarrow> py_then u n s = n t"
  by (simp_all add: py_bind_def py_then_def)

lemma run_inactive: "run_state\<lparr>st_used_request_ids := q, st_active_attempt := None\<rparr> = run_state\<lparr>st_used_request_ids := q\<rparr>"
  by (simp add: run_state_eq)

lemma reason_response_small:
  "json_height (JObj (reason_response ''timeout'')) \<le> 30" "json_printable (JObj (reason_response ''timeout''))"
  by (simp_all add: reason_response_def failure_response_def)

lemma calm_accepts:
  assumes "n \<le> 50"
  shows "\<exists>v. accept_result calm_env (reason_response ''timeout'') TimedOut (calm_world\<lparr>sw_ticks := n\<rparr>)
      = (Inr timeout_result, v) \<and> st_active_attempt (sw_state v) = None \<and> at_service_id (sw_attempt v) = None"
proof -
  have n: "Suc n \<le> 100" using assms by simp
  let ?w = "calm_world\<lparr>sw_ticks := n, sw_state := run_state\<lparr>st_used_request_ids := {|uuid_str 5|}\<rparr>\<rparr>"
  obtain k j where result: "append_command_result sample_settings (result_event calm_env (Suc n) calm_context (uuid_str 5)
      TimedOut (reason_response ''timeout'')) sample_start = (Inr k, j)" and j: "writable j"
      "\<forall>f \<in> set (jn_events (jo_journal j)). ev_id f = uuid_str (Suc n) \<and> ev_sequence f = 1 + int (Suc n)"
    using calm_recorded [OF n reason_response_small] by blast
  then obtain t where check: "append_store sample_settings False (stamped_event (calm_stamp (Suc (Suc (Suc n))))
     (merged_context calm_env [(''experiment_id'', JStr ''demo''), (''run_id'', JStr ''run'')])
     (PlainEvent ''runner.checkpoint'' [])) j = (Inr (), t)"
    using calm_checkpoint [of "Suc (Suc (Suc n))" j] assms by fastforce
  let ?v = "?w\<lparr>sw_ticks := Suc (Suc n), sw_journal := j\<rparr>"
  have recorded: "record_command_result calm_env calm_context (uuid_str 5) TimedOut (dump_stage_result timeout_result) ?w
      = (Inr k, ?v)"
    using result by (simp add: record_command_result_def calm_merged calm_keys world_call_def others_def Let_def timeout_dumped)
  let ?x = "?v\<lparr>sw_attempt := (settle_attempt TimedOut calm_attempt)\<lparr>at_executor :=
      JObj [(''finished'', JBool True), (''current'', JNull), (''pending'', JArr [])]\<rparr>\<rparr>"
  obtain v where saved: "save_stage_state calm_env True ?x = (Inr (), v)" "st_active_attempt (sw_state v) = None"
      "sw_attempt v = sw_attempt ?x"
    using calm_saves [of ?x "Suc (Suc n)"] check assms by auto
  show ?thesis
    using calm_context_kept recorded saved calm_normal
    by (simp add: accept_result_def timeout_parsed py_bind_lift bind_step current_context_def use_request_def)
      (simp add: py_bind_def py_then_def on_attempt_def observe_execution_def finish_status_def timeout_result_def
        finish_executor_status_def settle_attempt_def note_stage_def calm_world_def run_inactive)
qed

lemma calm_overdue: "waiting_late calm_env (uuid_str 5) calm_world"
  by (simp add: waiting_late_def at_request_def late_peers_def peers_use_journal_def peers_keep_attempt_def
      peers_not_runner_def clock_monotone_def overdue_def deadline_at_def attempt_deadline_def fixed_part_def reported_def)

lemma calm_collects: "\<exists>v. collect_result calm_env calm_world = (Inr timeout_result, v)"
proof -
  have read: "read_own_result calm_env calm_world = (Inr None, calm_world\<lparr>sw_ticks := 5\<rparr>)"
    by (simp add: read_own_result_def py_bind_def attempt_identity_def calm_attempt_def calm_participant_def
        world_call_def others_def Let_def read_journal_result_def read_command_result_def sample_start_def new_store_def
        load_result_def or_broken_def end_read_def)
  have deadline: "current_deadline calm_env calm_world = (Inr (Some 3), calm_world)"
    by (simp add: current_deadline_def py_bind_def py_then_def keep_attempt_baseline_def has_key_def attempt_deadline_def
        attempt_recovered_def dict_get_def)
  obtain v where "accept_result calm_env (reason_response ''timeout'') TimedOut (calm_world\<lparr>sw_ticks := 5\<rparr>)
      = (Inr timeout_result, v)" "st_active_attempt (sw_state v) = None" "at_service_id (sw_attempt v) = None"
    using calm_accepts [of 5] by auto
  then have "expire_attempt calm_env False (calm_world\<lparr>sw_ticks := 5\<rparr>) = (Inr timeout_result, v)"
    by (simp add: expire_attempt_def interrupt_def py_bind_def py_then_def)
  then have "collect_round calm_env calm_world = (Inr (Some timeout_result), v)"
    using read deadline by (simp add: collect_round_def bind_step deadline_passed_def)
  then have "py_until (sge_polls calm_env) (collect_round calm_env) calm_world = (Inr timeout_result, v)"
    by (simp add: numeral_eq_Suc py_bind_def)
  then show ?thesis by (simp add: collect_result_def py_finally_def)
qed

end
