(* ===== verification/Stage_Properties.thy ===== *)
theory Stage_Properties
  imports Stage_Samples
begin

text \<open>The properties of stage attempts.\<close>

section \<open>Accepted results\<close>

lemma reported_read:
  assumes "journal_reached st s" "is_text q" "reported (store_register s) q RunnerAuthor = Some k"
  shows "\<exists>c. read_command_result q s = (Inr (Some c), s) \<and> \<not> cr_provisional c \<and> response_key (cr_result c) = k"
proof -
  obtain r where r: "read_command_result q s = (Inr r, s)"
    "map_option (\<lambda>x. response_key (cr_result x)) r = register_considered (store_register s) q"
    "map_option cr_provisional r = map_option (\<lambda>k. reported (store_register s) q RunnerAuthor = None)
       (register_considered (store_register s) q)"
    using considered_read [OF assms(1,2)] by blast
  have "register_considered (store_register s) q = Some k" using assms(3) by (simp add: register_considered_def)
  then show ?thesis using r assms(3) by auto
qed

text \<open>
  C5. The result that collecting an attempt returns is the one every reader of the journal sees from then on:
  the runner's outcome for the request of the attempt, whose stored response is that result, whatever the
  participant and the other tasks report meanwhile or later.
\<close>

theorem collected_result_stands:
  assumes "peers_use_journal env" "journal_reached (sge_settings env) (sw_journal w)"
    and "is_text (at_request_id (sw_attempt w))" "collect_result env w = (Inr x, v)"
    and "later (sge_settings env) (sw_journal v) s"
  shows "\<exists>c out r. read_command_result (at_request_id (sw_attempt w)) s = (Inr (Some c), s) \<and> \<not> cr_provisional c
    \<and> response_key (cr_result c) = (out, dumps_sorted (JObj r))
    \<and> (r = dump_stage_result x \<or> parse_stage_result (JObj r) = Inr x)"
proof -
  let ?q = "at_request_id (sw_attempt w)"
  have "at_request env ?q w" using assms(2) by (simp add: at_request_def)
  with assms(4) have "stands env ?q x v" using holdsD [OF collect_stands] by blast
  then obtain out r where k: "runner_reported env ?q (out, dumps_sorted (JObj r)) v"
      "r = dump_stage_result x \<or> parse_stage_result (JObj r) = Inr x"
    unfolding stands_def by blast
  have "journal_reached (sge_settings env) (sw_journal v)"
    and "reported (store_register (sw_journal v)) ?q RunnerAuthor = Some (out, dumps_sorted (JObj r))"
    using k(1) assms(1) by (simp_all add: runner_reported_def at_request_def)
  from reported_read [OF reached_later [OF this(1) assms(5)] assms(3) reported_later [OF this(1) assms(5) this(2)]]
  show ?thesis using k(2) by blast
qed


theorem collected_result_stands_witness:
  "\<exists>v c r. collect_result calm_env calm_world = (Inr timeout_result, v)
    \<and> read_command_result (uuid_str 5) (sw_journal v) = (Inr (Some c), sw_journal v) \<and> \<not> cr_provisional c
    \<and> (r = dump_stage_result timeout_result \<or> parse_stage_result (JObj r) = Inr timeout_result)"
proof -
  obtain v where v: "collect_result calm_env calm_world = (Inr timeout_result, v)" using calm_collects by blast
  have "peers_use_journal calm_env" by (simp add: peers_use_journal_def fixed_part_def)
  from collected_result_stands [OF this _ _ v later_refl] show ?thesis using v by simp blast
qed

section \<open>Deadlines\<close>

text \<open>
  C9. A deadline is final: once the clock has passed the deadline of an attempt and the runner has not reported
  on its request, collecting the attempt can only return the timeout, and the journal then holds the outcome
  \<^verbatim>\<open>timed_out\<close> for it, whatever the participant reports in the meantime.
\<close>

theorem late_results_time_out:
  assumes "late_peers env (at_request_id (sw_attempt w))" "journal_reached (sge_settings env) (sw_journal w)"
    and "overdue env w" "reported (store_register (sw_journal w)) (at_request_id (sw_attempt w)) RunnerAuthor = None"
    and "collect_result env w = (Inr x, v)"
  shows "x = timeout_result
    \<and> reported (store_register (sw_journal v)) (at_request_id (sw_attempt w)) RunnerAuthor
        = Some (TimedOut, dumps_sorted (JObj (reason_response ''timeout'')))"
proof -
  have "waiting_late env (at_request_id (sw_attempt w)) w"
    using assms(1-4) by (simp add: waiting_late_def at_request_def)
  with assms(5) have "timed_out env (at_request_id (sw_attempt w)) x v" using holdsD [OF late_collect] by blast
  then show ?thesis using assms(1) by (simp add: timed_out_def runner_reported_def late_peers_def)
qed

theorem late_results_time_out_witness:
  "\<exists>v. collect_result calm_env calm_world = (Inr timeout_result, v)
    \<and> reported (store_register (sw_journal v)) (uuid_str 5) RunnerAuthor
        = Some (TimedOut, dumps_sorted (JObj (reason_response ''timeout'')))"
proof -
  obtain v where v: "collect_result calm_env calm_world = (Inr timeout_result, v)" using calm_collects by blast
  have "late_peers calm_env (at_request_id (sw_attempt calm_world))" "overdue calm_env calm_world"
    and "reported (store_register (sw_journal calm_world)) (at_request_id (sw_attempt calm_world)) RunnerAuthor = None"
    using calm_overdue by (simp_all add: waiting_late_def)
  from late_results_time_out [OF this(1) _ this(2,3) v] show ?thesis using v by simp
qed

text \<open>
  C22. Polling ends: an attempt with a timeout is collected within a number of rounds that depends only on when the
  clock passes its deadline, and an interruption is given up within the rounds until its own deadline; waiting
  for more rounds would change nothing.
\<close>

theorem polling_ends:
  assumes "peers_keep_attempt env" "fixed_part (sw_attempt w) = fixed_part a"
    and "map_of (sw_baselines w) (at_attempt_id a) = Some b" "due_within env a b N" "deadline \<le> sge_now env N"
  shows "exits (Suc (N - sw_ticks w)) (collect_round env) w
    \<and> exits (Suc (N - sw_ticks w)) (interrupt_round env reason deadline) w
    \<and> (\<forall>k. Suc (N - sw_ticks w) \<le> k \<longrightarrow>
         py_until k (collect_round env) w = py_until (Suc (N - sw_ticks w)) (collect_round env) w)"
proof -
  have "plan_kept env a b w" using assms(2,3) by (simp add: plan_kept_def)
  then have collect: "exits (Suc (N - sw_ticks w)) (collect_round env) w"
    using assms(1,4) by (intro collect_exits)
  moreover have "clock_monotone env" using assms(4) by (simp add: due_within_def)
  ultimately show ?thesis
    using interrupt_exits [OF _ assms(5)] exits_until [OF collect] by blast
qed

lemma calm_due: "due_within calm_env calm_attempt 0 3"
  by (simp add: due_within_def clock_monotone_def deadline_at_def attempt_deadline_def)

theorem polling_ends_witness:
  "exits (Suc 0) (collect_round calm_env) calm_world
    \<and> py_until 7 (collect_round calm_env) calm_world = py_until (Suc 0) (collect_round calm_env) calm_world"
  using polling_ends [OF _ _ _ calm_due, of calm_world 3] by (simp add: peers_keep_attempt_def)

section \<open>Retries\<close>

text \<open>
  C13. Retries are bounded: a visit of a stage starts at most one attempt more than the retries its policy still
  leaves, so the loop of attempts ends, and the bound on the rounds of the model does not matter beyond that.
\<close>

theorem retries_bounded:
  assumes "peers_keep_retries env i" "cursor_definition w = Inr n" "stage_key n = Inr i"
    and "Suc (nat (retries (node_errors n)) - dict_get (st_retry_counts (sw_state w)) i 0) \<le> rounds"
  shows "execute env rounds manual waits False w
      = execute env (Suc (nat (retries (node_errors n)) - dict_get (st_retry_counts (sw_state w)) i 0)) manual waits False w
    \<and> attempts_started (snd (execute env rounds manual waits False w))
        \<le> attempts_started w + Suc (nat (retries (node_errors n)) - dict_get (st_retry_counts (sw_state w)) i 0)"
  using execute_counts [OF assms(1-3), where rounds = rounds and manual = manual and waits = waits] assms(4)
  unfolding used_retries_def by (simp only: min_absorb2 simp_thms)

theorem retries_bounded_witness:
  "attempts_started (snd (execute calm_env 10 False False False calm_world))
     \<le> attempts_started calm_world + Suc (nat (retries sample_errors))"
proof -
  have "cursor_definition calm_world = Inr (StageNode sample_stage)" by (simp add: cursor_definition_def py_nth_def)
  moreover have "stage_key (StageNode sample_stage) = Inr (uuid_str 1)" by (simp add: stage_key_def)
  moreover have "peers_keep_retries calm_env (uuid_str 1)" by (simp add: peers_keep_retries_def)
  moreover have left: "nat (retries (node_errors (StageNode sample_stage)))
      - dict_get (st_retry_counts (sw_state calm_world)) (uuid_str 1) 0 = nat (retries sample_errors)"
    by (simp add: dict_get_def)
  moreover have "Suc (nat (retries sample_errors)) \<le> 10" by (simp add: sample_errors_def policy_makes)
  ultimately show ?thesis
    using conjunct2 [OF retries_bounded [of calm_env "uuid_str 1" calm_world "StageNode sample_stage" 10 False False]]
    by (simp only: left)
qed

section \<open>The input of a stage\<close>

text \<open>
  C23. A stage gets no data that was not accepted: the input of a visit is \<^verbatim>\<open>None\<close>, or the data of a successful
  result that the runner itself accepted, of the preceding node or, after a move, of the request that moved to
  this very stage.
\<close>

theorem stage_input_accepted:
  assumes "select_input s j = (Inr d, t)"
  shows "(st_pending_input s = None \<and> d = JNull)
    \<or> (\<exists>q r. read_command_result q j = (Inr (Some r), t) \<and> cr_author r = RunnerAuthor \<and> successful r
        \<and> result_data r = Inr d
        \<and> (case st_pending_input s of
             Some p \<Rightarrow> q = in_request_id p \<and> (\<exists>e. result_decision r = Inr e \<and> is_move_to (in_stage_id p) e)
           | None \<Rightarrow> \<exists>n i. py_nth (stages (st_template s)) (st_stage_position s - 2) = Inr n
                       \<and> node_stage_id n = Some i \<and> map_of (st_result_ids s) i = Some (Some q)))"
proof -
  have read: "read_command_result q j = (Inr (Some r), t) \<and> cr_author r = RunnerAuthor"
    if "read_journal_result q e True j = (Inr (Some r), t)" for q e r
    using that by (auto simp: read_journal_result_def split: prod.splits sum.splits option.splits if_splits)
  show ?thesis
  proof (cases "st_pending_input s")
    case (Some p)
    then obtain r where found: "read_journal_result (in_request_id p) (source_identity (in_experiment_id p) (in_source_stage p)) True j
        = (Inr r, t)" and data: "move_data p r = Inr d"
      using assms by (auto simp: select_input_def read_move_input_def split: sum.splits prod.splits if_splits)
    from data obtain x where x: "r = Some x" "successful x" "result_data x = Inr d"
        "\<exists>e. result_decision x = Inr e \<and> is_move_to (in_stage_id p) e"
      by (cases r) (auto simp: move_data_def split: if_splits)
    then show ?thesis using read found Some by fastforce
  next
    case None
    show ?thesis
    proof (cases "d = JNull")
      case False
      then obtain n i q r where n: "py_nth (stages (st_template s)) (st_stage_position s - 2) = Inr n"
          "predecessor_result s n = Some (i, q)"
        and found: "read_journal_result q (source_identity (dict_get (st_result_origins s) i (st_experiment_id s)) i) True j
          = (Inr r, t)" and data: "predecessor_data r = Inr d"
        using assms None by (auto simp: select_input_def split: sum.splits prod.splits if_splits option.splits)
      from data False obtain x where x: "r = Some x" "successful x" "result_data x = Inr d"
        by (cases r) (auto simp: predecessor_data_def split: if_splits)
      have "node_stage_id n = Some i" "map_of (st_result_ids s) i = Some (Some q)"
        using n(2) by (auto simp: predecessor_result_def flatten_option_def bind_eq_Some_conv split: option.splits)
      then show ?thesis using n(1) x read found None by fastforce
    qed (use None in simp)
  qed
qed

theorem stage_input_accepted_witness:
  "\<exists>j t. select_input (run_state\<lparr>st_stage_position := 2, st_result_ids := [(uuid_str 1, Some (uuid_str 5))]\<rparr>) j
      = (Inr (JInt 7), t)
    \<and> (\<exists>q r. read_command_result q j = (Inr (Some r), t) \<and> successful r \<and> result_data r = Inr (JInt 7))"
proof -
  let ?s = "run_state\<lparr>st_stage_position := 2, st_result_ids := [(uuid_str 1, Some (uuid_str 5))]\<rparr>"
    and ?r = "[(''result'', JStr ''success''), (''data'', JInt 7)]"
  obtain j e where j: "writable j" "ev_context e = calm_context"
    and load: "load_result (jo_journal j) (uuid_str 5) = Inr (Some \<lparr>lr_identity = request_identity calm_context,
        lr_runner = Some \<lparr>as_id = uuid_str 0, as_event = e, as_observation = observe e, as_result = own_observation Succeeded ?r\<rparr>,
        lr_participant = None, lr_effective = uuid_str 0, lr_author = RunnerAuthor\<rparr>)"
    using calm_recorded [of 0 ?r Succeeded] by auto
  have "identity_matches (source_identity ''demo'' (uuid_str 1)) calm_context"
    by (simp add: identity_matches_def source_identity_def calm_context_facts dict_get_def)
  moreover have "response_ok ?r" by (simp add: response_ok_def copy_ok_object result_keys_def dict_get_def has_key_def del: embed.simps)
  ultimately obtain r where read: "read_journal_result (uuid_str 5) (source_identity ''demo'' (uuid_str 1)) True j = (Inr (Some r), j)"
      "cr_result r = own_observation Succeeded ?r"
    using j load
    by (simp add: read_journal_result_def read_command_result_def or_broken_def end_read_def command_result_of_def lr_of_def
        writable_def own_observation_def)
  have "successful r" "result_data r = Inr (JInt 7)"
    by (simp_all add: successful_def result_data_def read(2) own_observation_def dict_get_def dict_item_def)
  moreover have "st_pending_input run_state = None" "st_result_origins run_state = []" by (simp_all add: run_state_eq)
  ultimately have select: "select_input ?s j = (Inr (JInt 7), j)"
    using read(1) by (simp add: select_input_def py_nth_def predecessor_result_def flatten_option_def dict_get_def predecessor_data_def)
  from stage_input_accepted [OF this] show ?thesis using select by auto
qed

section \<open>Recovery\<close>

definition peers_keep_log :: "stage_env \<Rightarrow> bool" where
  "peers_keep_log env \<longleftrightarrow> (\<forall>n w. sw_log (sge_others env n w) = sw_log w)"

definition started_exactly :: "stage_env \<Rightarrow> nat \<Rightarrow> stage_world \<Rightarrow> bool" where
  "started_exactly env k w \<longleftrightarrow> (peers_keep_log env \<longrightarrow> attempts_started w = k)"

interpretation started_exactly: stage_invariant env "started_exactly env k" for env k
  by unfold_locales (auto simp: started_exactly_def others_def peers_keep_log_def quiet_def attempts_started_def)

lemma unknown_outcome_holds:
  "holds (started_exactly env k) (unknown_outcome env action)
     (\<lambda>oc w. started_exactly env k w \<and> oc_action oc = action) (\<lambda>w. True)"
  unfolding unknown_outcome_def
  by (intro holds_then [OF holds_kept] started_exactly.modify_keep quiet_unknown started_exactly.save_keep
      holds_read holds_return) simp

text \<open>
  C24. Recovery gives up at its limit: when the recovery of an attempt fails as often as the policy allows, the
  runner only pauses or stops, and it starts no attempt, whatever the policy does before the limit.
\<close>

theorem recovery_limit_final:
  assumes "peers_keep_log env"
    and "recovery_limit (unknown_state (st_template (sw_state w))) \<le> int (Suc (st_recovery_count (sw_state w)))"
    and "recover_unknown_attempt env rounds waits e w = (Inr oc, v)"
  shows "oc_action oc \<in> {PauseStage, StopStage} \<and> attempts_started v = attempts_started w"
proof -
  let ?w = "on_run (\<lambda>s. s\<lparr>st_recovery_count := Suc (st_recovery_count s)\<rparr>) w" and ?k = "attempts_started w"
  let ?done = "\<lambda>oc w. started_exactly env ?k w \<and> oc_action oc \<in> {PauseStage, StopStage}"
  let ?action = "recovery_action_of (unknown_state (st_template (sw_state w))) (Suc (st_recovery_count (sw_state w)))"
  have action: "?action = RecoveryPause \<or> ?action = RecoveryStop"
    using assms(2) by (auto simp: recovery_action_of_def split: limit_action.split)
  have unknown: "holds (started_exactly env ?k) (unknown_outcome env a) ?done (\<lambda>w. True)"
    if "a \<in> {PauseStage, StopStage}" for a
    using that by (auto intro: holds_weaken [OF unknown_outcome_holds])
  have stopped: "holds (started_exactly env ?k)
      (py_then (py_modify (on_attempt (\<lambda>a. a\<lparr>at_outcome := Some ''unknown_stopped''\<rparr>)))
        (py_bind (py_lift (parse_stage_result (JObj (reason_response ''unknown_state'')))) (\<lambda>r.
           py_read (\<lambda>w. py_return \<lparr>oc_attempt = sw_attempt w, oc_result = Some r, oc_action = StopStage\<rparr>))))
      ?done (\<lambda>w. True)"
    by (intro holds_then [OF holds_kept] holds_bind [OF holds_kept [OF keeps_lift]] started_exactly.modify_keep
        quiet_attempt observing_updates holds_read holds_return) simp
  let ?rest = "if ?action = RecoveryPause then unknown_outcome env PauseStage
     else py_bind (interrupt env ''unknown_state'') (\<lambda>stopped.
          if \<not> stopped then unknown_outcome env StopStage
          else py_then (py_modify (on_attempt (\<lambda>a. a\<lparr>at_outcome := Some ''unknown_stopped''\<rparr>)))
            (py_bind (py_lift (parse_stage_result (JObj (reason_response ''unknown_state'')))) (\<lambda>r.
               py_read (\<lambda>w. py_return \<lparr>oc_attempt = sw_attempt w, oc_result = Some r, oc_action = StopStage\<rparr>))))"
    and ?report = "write_stage_event env ''stage.recovery_failed'' [(''action'', JStr (recovery_name ?action)),
        (''error'', JStr (sge_describe env e)), (''count'', JInt (int (Suc (st_recovery_count (sw_state w)))))]"
  have rest: "holds (started_exactly env ?k) (py_then ?report ?rest) ?done (\<lambda>w. True)"
    by (intro holds_then [OF holds_kept] holds_bind [OF holds_kept] started_exactly.write_keep
        started_exactly.interrupt_keep holds_if unknown stopped) simp_all
  have "started_exactly env ?k ?w" by (simp add: started_exactly_def attempts_started_def)
  moreover have "py_then ?report ?rest ?w = (Inr oc, v)"
    using assms(3) action by (auto simp: recover_unknown_attempt_def bind_step Let_def cong: if_cong)
  ultimately have "started_exactly env ?k v \<and> oc_action oc \<in> {PauseStage, StopStage}" by (rule holdsD [OF rest])
  then show ?thesis using assms(1) by (simp add: started_exactly_def)
qed

lemma calm_gives_up:
  "\<exists>oc v. recover_unknown_attempt calm_env 1 False OSError (on_run (\<lambda>s. s\<lparr>st_recovery_count := 2\<rparr>) calm_world)
     = (Inr oc, v)"
proof -
  let ?w = "on_run (\<lambda>s. s\<lparr>st_recovery_count := 3\<rparr>) calm_world"
  have action: "recovery_action_of (unknown_state run_template) 3 = RecoveryStop"
    by (simp add: recovery_action_of_def run_template_def sample_template_def experiment_template.make_def policy_makes)
  have tired: "attempt_context (run_state\<lparr>st_recovery_count := 3\<rparr>) calm_attempt = Inr calm_context"
    unfolding calm_context_eq [symmetric] attempt_context_def by simp
  have "is_text ''stage.recovery_failed''" by code_simp
  then have "\<exists>k. append_store sample_settings False (stamped_event (calm_stamp 4) calm_context
      (PlainEvent ''stage.recovery_failed'' [(''action'', JStr ''stop''), (''error'', JStr ''error''), (''count'', JInt 3)]))
      sample_start = (Inr (), k)"
    by (intro calm_appends calm_context_ok calm_context_height) simp_all
  then have "\<exists>v. write_stage_event calm_env ''stage.recovery_failed''
      [(''action'', JStr ''stop''), (''error'', JStr ''error''), (''count'', JInt 3)] ?w = (Inr (), v)
      \<and> st_active_attempt (sw_state v) = None"
    using tired by (auto simp: write_stage_event_def py_bind_def current_context_def write_event_def world_call_def
        others_def Let_def calm_merged)
  then obtain v where "write_stage_event calm_env ''stage.recovery_failed''
      [(''action'', JStr ''stop''), (''error'', JStr ''error''), (''count'', JInt 3)] ?w = (Inr (), v)"
      "st_active_attempt (sw_state v) = None"
    by blast
  moreover have "parse_stage_result (JObj (reason_response ''unknown_state'')) = Inr \<lparr>or_result = FailResult,
      or_data = JObj [(''reason'', JStr ''unknown_state'')], or_error = None, or_execution = None, or_extra = []\<rparr>"
    by code_simp
  moreover have "sge_describe calm_env e = ''error''" for e by (simp add: calm_env_def)
  moreover have "st_recovery_count run_state = 0" by (simp add: run_state_eq)
  ultimately show ?thesis
    using action
    by (simp add: recover_unknown_attempt_def bind_step Let_def recovery_name_def interrupt_def py_bind_lift
        eval_nat_numeral)
qed

theorem recovery_limit_final_witness:
  "\<exists>oc v. recover_unknown_attempt calm_env 1 False OSError (on_run (\<lambda>s. s\<lparr>st_recovery_count := 2\<rparr>) calm_world)
     = (Inr oc, v) \<and> oc_action oc \<in> {PauseStage, StopStage} \<and> attempts_started v = 0"
proof -
  obtain oc v where run: "recover_unknown_attempt calm_env 1 False OSError
      (on_run (\<lambda>s. s\<lparr>st_recovery_count := 2\<rparr>) calm_world) = (Inr oc, v)"
    using calm_gives_up by blast
  have "recovery_limit (unknown_state run_template) \<le> 3"
    by (simp add: run_template_def sample_template_def experiment_template.make_def policy_makes)
  then have "oc_action oc \<in> {PauseStage, StopStage} \<and> attempts_started v = attempts_started
      (on_run (\<lambda>s. s\<lparr>st_recovery_count := 2\<rparr>) calm_world)"
    using recovery_limit_final [OF _ _ run] by (simp add: peers_keep_log_def)
  then show ?thesis using run by (auto simp: attempts_started_def)
qed

section \<open>Attempt directories\<close>

lemma digit_char: "of_char (char_of (48 + m mod 10) :: char) = 48 + (m mod 10 :: nat)"
proof -
  have "m mod 10 < 10" by simp
  then have "48 + m mod 10 < 256" by linarith
  then show ?thesis by (simp add: of_char_of)
qed

lemma digit_ok: "CHR ''0'' \<le> char_of (48 + m mod 10 :: nat) \<and> char_of (48 + m mod 10 :: nat) \<le> CHR ''9''"
proof -
  have "m mod 10 < 10" by simp
  then have "48 + m mod 10 \<in> {48..57}" by simp
  then show ?thesis unfolding less_eq_char_def digit_char by simp
qed

lemma decimal_rev_digits: "digits (rev (decimal_rev n)) \<and> digits_value (rev (decimal_rev n)) = n"
proof (induction n rule: decimal_rev.induct)
  case (1 n)
  show ?case
  proof (cases "n < 10")
    case True
    then show ?thesis using digit_ok [of n] digit_char [of n]
      by (subst (1 2) decimal_rev.simps) (simp add: digits_def digits_value_def)
  next
    case False
    then have IH: "digits (rev (decimal_rev (n div 10)))" "digits_value (rev (decimal_rev (n div 10))) = n div 10"
      using 1 by simp_all
    have "decimal_rev n = char_of (48 + n mod 10) # decimal_rev (n div 10)"
      using False by (subst decimal_rev.simps) simp
    then show ?thesis using IH digit_ok [of n] digit_char [of n]
      by (simp add: digits_def digits_value_def)
  qed
qed

lemma decimal_digits: "0 \<le> n \<Longrightarrow> digits (decimal n) \<and> digits_value (decimal n) = nat n"
  using decimal_rev_digits [of "nat n"] by (simp add: decimal_def)

lemma digits_no_slash: "digits s \<Longrightarrow> CHR ''/'' \<notin> set s"
  by (auto simp: digits_def list_all_iff)

lemma path_of_name: "CHR ''/'' \<notin> set w \<Longrightarrow> w \<noteq> [] \<Longrightarrow> w \<noteq> ''.'' \<Longrightarrow> path_of w = Path False [w]"
  using split_join [of "[w]" "CHR ''/''"] by (cases w) (auto simp: path_of_def)

lemma numbered_name:
  assumes "0 \<le> n" "CHR ''/'' \<notin> set w" "1 < length w"
  shows "path_of (w @ decimal n) = Path False [w @ decimal n]"
  using digits_no_slash decimal_digits [OF assms(1)] assms(2,3)
  by (intro path_of_name) (auto dest: arg_cong [where f = length])

lemma attempt_name: "0 \<le> n \<Longrightarrow> path_of (attempt_prefix @ decimal n) = Path False [attempt_prefix @ decimal n]"
  by (rule numbered_name) (simp_all add: attempt_prefix_def)

lemma attempt_number_of_directory:
  "0 \<le> n \<Longrightarrow> attempt_directory_number (path_join p (path_of (attempt_prefix @ decimal n))) = Some (nat n)"
  using decimal_digits [of n] by (simp add: attempt_name path_join_def attempt_directory_number_def)

lemma pruned_directory:
  "p \<in> set (snd (prune_directories resolve removing s a ps)) \<Longrightarrow>
     p \<in> set ps \<and> expired_directory (keep_attempts (st_template s)) a p \<and> \<not> retained_directory resolve s p
     \<and> is_relative_to (resolve p) (resolve (st_directory s))"
  by (induction ps) (auto split: if_splits option.splits prod.splits)

text \<open>
  C34. Pruning keeps what is still needed: before an attempt the runner deletes none of the directories of the last
  \<^verbatim>\<open>keep_attempts\<close> attempts and no retained artifacts, and nothing outside the directory of the experiment.
\<close>

theorem pruning_keeps:
  assumes "0 \<le> n"
    and "at_attempt_number a - keep_attempts (st_template s) < n \<or> retained_directory resolve s (attempt_directory s m i n)"
  shows "attempt_directory s m i n \<notin> set (snd (prune_directories resolve removing s a ps))
    \<and> (\<forall>p \<in> set (snd (prune_directories resolve removing s a ps)). is_relative_to (resolve p) (resolve (st_directory s)))"
proof -
  have "attempt_directory_number (attempt_directory s m i n) = Some (nat n)"
    using attempt_number_of_directory [OF assms(1)] by (simp add: attempt_directory_def)
  then show ?thesis
    using pruned_directory assms by (fastforce simp: expired_directory_def)
qed

theorem pruning_keeps_witness:
  "let s = run_state; a = calm_attempt\<lparr>at_attempt_number := 3\<rparr>; m = module_reference.make ''train'' ''1.0'' sample_hash;
     removed = snd (prune_directories id (\<lambda>p. None) s a (map (attempt_directory s m ''stage'') [1, 2, 3]))
   in attempt_directory s m ''stage'' 3 \<notin> set removed \<and> removed = map (attempt_directory s m ''stage'') [1, 2]"
proof -
  let ?a = "calm_attempt\<lparr>at_attempt_number := 3\<rparr>" and ?m = "module_reference.make ''train'' ''1.0'' sample_hash"
  let ?d = "attempt_directory run_state ?m ''stage''"
  have keep: "keep_attempts run_template = 1" and cycle: "st_cycle_number run_state = 1" "st_retained_artifacts run_state = []"
    and own: "at_artifacts calm_attempt = run_directory"
    by (simp_all add: run_template_def sample_template_def experiment_template.make_def run_state_eq calm_attempt_def)
  have epoch: "path_of (''epoch_'' @ decimal 1) = Path False [''epoch_'' @ decimal 1]"
    by (rule numbered_name) simp_all
  have d: "?d n = Path True [''experiments'', ''demo'', ''shared_artifacts'', ''epoch_'' @ decimal 1, ''train'', ''stage'',
      attempt_prefix @ decimal n]" if "0 \<le> n" for n
    using epoch attempt_name [OF that]
    by (simp add: attempt_directory_def path_join_def cycle run_directory_def module_reference.make_def path_of_name)
  have "attempt_directory_number (?d n) = Some (nat n)" "?d n \<noteq> run_directory" if "0 \<le> n" for n
    using decimal_digits [OF that] unfolding d [OF that] by (simp_all add: attempt_directory_number_def run_directory_def)
  then have "expired_directory 1 ?a (?d n) \<longleftrightarrow> n \<le> 2" if "0 \<le> n" for n
    using that by (simp add: expired_directory_def own)
  moreover have "is_relative_to (?d n) run_directory" if "0 \<le> n" for n
    using d [OF that] by (simp add: is_relative_to_def run_directory_def)
  ultimately have "snd (prune_directories id (\<lambda>p. None) run_state ?a (map ?d [1, 2, 3])) = map ?d [1, 2]"
    by (simp add: keep retained_directory_def cycle)
  moreover have "?d 3 \<notin> set (snd (prune_directories id (\<lambda>p. None) run_state ?a (map ?d [1, 2, 3])))"
    by (rule conjunct1 [OF pruning_keeps]) (simp_all add: keep)
  ultimately show ?thesis unfolding Let_def by blast
qed

end
