(* ===== verification/Spec2Isabelle.thy ===== *)
theory Spec2Isabelle
  imports Reload_Properties Server_Properties Conditional_Properties Dag_Properties Journal_Properties Service_Restart_Properties Service_Health_Properties
    Stage_Properties
begin

text \<open>
  \<^bold>\<open>A verification development of easy-modular-pipelines.\<close>

  The program runs experiments. An experiment is a template: a list of nodes (stages and calls of services)
  that is visited in order for a number of cycles, with the services that run beside them and the policies
  for errors, restarts and unknown states. A server process accepts commands over HTTP and hands them to a
  controller, which owns one runner per experiment. The runner moves a cursor over the nodes; the stage runner
  executes the node under the cursor as a sequence of attempts, each an executor process or a request to a
  service; the service manager keeps the services alive and their requests in order. Participants and runner
  meet in the event journal, an SQLite store: the outcome of a request is what the journal says, and the
  runner's own report has precedence over the participant's. The state of the runner is checkpointed to a file.

  \<^bold>\<open>Theories and code.\<close> Paths are below \<^verbatim>\<open>src/\<close>.

  \<^item> \<open>Prelude\<close>: the exceptions, results \<open>exn + 'a\<close>, Python methods as state transformers \<open>('s, 'a) py\<close>, loops
    with fuel (\<open>py_until\<close>), ordered dictionaries, and the triples \<open>holds\<close> and \<open>keeps\<close> the invariants are proved with.
  \<^item> \<open>Json_Values\<close>, \<open>Identifiers\<close>, \<open>Boundary_Models\<close>, \<open>Json_Text\<close>, \<open>Paths\<close>: \<^verbatim>\<open>core/primitives/json_values.py\<close>,
    \<^verbatim>\<open>core/models/values.py\<close>, the Pydantic vocabulary, \<^verbatim>\<open>json.dumps\<close> and \<^verbatim>\<open>pathlib\<close> as far as they are used. The
    locale \<open>object_codec\<close> is the contract of a model (parse after dump, dump after parse); every model of the
    template interprets it.
  \<^item> \<open>Template\<close>, \<open>Template_Properties\<close>: \<^verbatim>\<open>core/models/experiment_template.py\<close> and the assignment of definition IDs
    in \<^verbatim>\<open>core/experiments/template_validation.py\<close>; the round trip of whole templates.
  \<^item> \<open>Reload\<close>, \<open>Reload_Properties\<close>: \<^verbatim>\<open>core/experiments/reload.py\<close>, comparing templates and moving the cursor.
  \<^item> \<open>Server_Commands\<close>, \<open>Server_Runtime\<close>, \<open>Server_Responses\<close>, \<open>Server_Pruning\<close>, \<open>Server_Invariants\<close>,
    \<open>Server_Properties\<close>: \<^verbatim>\<open>core/models/server_commands.py\<close>, \<^verbatim>\<open>server_receipts.py\<close>, \<^verbatim>\<open>server_arguments.py\<close> and
    \<^verbatim>\<open>core/server/runtime.py\<close>: admission, receipts, cache, responses and the loss of the controller. A state is
    \<open>server_runtime\<close>, a step \<open>server_step\<close>; the locale \<open>books\<close> collects what every operation keeps.
  \<^item> \<open>Runner_State\<close>, \<open>State_Store\<close>, \<open>State_Properties\<close>: \<^verbatim>\<open>core/experiments/state.py\<close> with the documents of
    \<^verbatim>\<open>core/models/runner_state.py\<close>; \<open>Sample_Run\<close> is a concrete experiment for the witnesses.
  \<^item> \<open>Conditional_Result\<close>, \<open>Conditional_Properties\<close>: the decisions of conditional stages in
    \<^verbatim>\<open>core/experiments/results.py\<close> and their acceptance.
  \<^item> \<open>Dag_Runner\<close>, \<open>Dag_Actors\<close>, \<open>Dag_Invariants\<close>, \<open>Dag_Handlers\<close>, \<open>Dag_Loop\<close>, \<open>Dag_Log\<close>, \<open>Dag_Stop\<close>,
    \<open>Dag_Properties\<close>: the scheduler and the control operations of \<^verbatim>\<open>core/experiments/runner.py\<close>. A state is
    \<open>dag_runner\<close>; \<open>runner_step\<close> interleaves turns of the scheduler with the steps \<open>actor_step\<close> of other tasks.
  \<^item> \<open>Journal_Store\<close>, \<open>Journal_Reads\<close>, \<open>Journal_Invariants\<close>, \<open>Journal_Register\<close>, \<open>Journal_Paging\<close>,
    \<open>Journal_Properties\<close>: \<^verbatim>\<open>core/journal/storage.py\<close> with its documents. \<open>Journal_Register\<close> has the abstract
    register of first reports which the store implements, and the interface \<open>report_book\<close>; \<open>Journal_Paging\<close> the
    interfaces \<open>paged_feed\<close> and \<open>growing_feed\<close>, interpreted on the raw view, the effective view and the change feed.
  \<^item> \<open>Service_Queue\<close>, \<open>Service_Invariants\<close>, \<open>Service_Books\<close>, \<open>Service_Accounts\<close>, \<open>Service_Properties\<close>: the request
    queue of \<^verbatim>\<open>core/experiments/services.py\<close>; \<open>Service_Restart\<close> and \<open>Service_Restart_Properties\<close> its restart loop;
    \<open>Service_Health\<close> and \<open>Service_Health_Properties\<close> its heartbeats, reconnections and readiness barrier.
  \<^item> \<open>Stage_Inputs\<close>, \<open>Stage_Runner\<close>, \<open>Stage_Attempts\<close>: \<^verbatim>\<open>core/experiments/stages.py\<close> with \<^verbatim>\<open>read_result\<close> and the calls of
    \<^verbatim>\<open>core/journal/logger.py\<close> it makes. Its world holds the runner state and the journal store of the other theories, so
    accepting a result is a write of the modelled journal. \<open>Stage_Journal\<close> (the locale \<open>stage_invariant\<close>, results
    that stand), \<open>Stage_Deadlines\<close> (timeouts, loops that end), \<open>Stage_Retries\<close> (the locales \<open>stage_plan\<close> and
    \<open>stage_start\<close>, bounded attempts), \<open>Stage_Samples\<close> (a concrete run), \<open>Stage_Properties\<close>.

  \<^bold>\<open>What is shown.\<close>

  \<^item> The scheduler: in every interleaving the cursor stays inside the template and the transitions are valid; a run
    completes only at the end of the last cycle; a conditional move rewinds exactly the stages it repeats; deferring a
    decision past a snapshot changes nothing; the cursor visits every node once per cycle; a stop that returned is final.
  \<^item> The journal: reads never find the result index corrupt; storing results implements the register of first reports,
    so an outcome is never replaced and the authors may report in either order; refused writes change nothing; the
    change feed and the effective view tell a reader everything once.
  \<^item> The stage runner on top of both: the result that collecting an attempt returns is what every later reader of the
    journal sees; after the deadline it can only be the timeout; retries and polling are bounded; a stage is given only
    accepted data; recovery gives up at its limit; pruning keeps what is needed.
  \<^item> The services: requests are admitted once, sent in order and at most once, and in an orderly run none is lost and
    each has one outcome; two disorderly runs that lose a request are shown as well; restarts end within their budget
    and keep the queue; a ready service is a healthy one.
  \<^item> The server: its books balance in every reachable state, submissions are atomic, known outcomes are never replaced,
    and nothing stays pending after the loss of the controller.
  \<^item> Templates, reloads, checkpoints: round trips, valid cursors and candidates, and a state file that reads back.

  \<^bold>\<open>Parameters and hypotheses.\<close> What is not in \<^verbatim>\<open>src/\<close> or is the operating system is an argument: clocks and UUIDs
  (\<open>server_env\<close>, \<open>stage_env\<close>, \<open>queue_clock\<close>), the size and UTC checks of encoded events (\<open>store_settings\<close>),
  \<^verbatim>\<open>Path.resolve\<close>, SHA-256, the printing of floats, the module launcher, processes and connections. At an \<^verbatim>\<open>await\<close> other
  tasks act: \<open>sch_others\<close> in the scheduler, assumed \<open>considerate\<close>, that is composed of the modelled control
  operations; \<open>sge_others\<close> in the stage runner, of which each property names what it needs (\<open>peers_use_journal\<close>: other
  tasks change the journal only through its calls; \<open>peers_keep_attempt\<close>, \<open>peers_not_runner\<close>, \<open>peers_keep_retries\<close>,
  \<open>peers_keep_log\<close>: they leave the attempt, its outcome, its retries and its log to the stage runner). \<open>orderly\<close>
  restricts the callers of the service queue, \<open>in_range\<close> keeps the tables within SQLite's cursors.

  \<^bold>\<open>Bounds.\<close> Loops that wait have fuel: \<open>sge_polls\<close> for polling and \<open>rounds\<close> for attempts in the stage runner, where
  \<open>polling_ends\<close> and \<open>retries_bounded\<close> give the fuel that is always enough; the rounds of \<open>Service_Restart\<close>, where
  \<open>restart_ends\<close> does. Being cut off is the exception \<open>StillRunning\<close>, which no property mistakes for a result. Other recursion
  is structural. Numbers are Python's: \<open>int\<close>, and \<open>rat\<close> for floats, whose rounding is left out.

  \<^bold>\<open>Simplifications.\<close> Characters are code points below 256. The documents of the runner state are records of typed
  fields. In \<open>Stage_Runner\<close> the attempt at hand is the active attempt of the state whenever there is one, as in every
  call of the code. A restart of a service runs without interleaving.

  \<^bold>\<open>Not modelled.\<close> Snapshots, archives, assembling and launching (filesystem transactions and processes); in the runner
  the creation of a run, the application and rollback of a reload, and manual service control; the journal's SQLite
  layer, its writer process, supervisor, cache and exports (inter-process I/O); the module manager and the hash
  databases; the participant side (executor, server, client), whose observable effect is the environment
  of the stage runner and of the service queue; resource sampling; the HTTP and command-line interfaces and the
  dashboard, which present what the modelled parts decide.
\<close>

end
